(* ===== verification/Prelude.thy ===== *)
theory Prelude
  imports Main "HOL-Library.Monad_Syntax"
begin

text \<open>
  Generic material shared by every component theory: the result type that stands for
  code which may throw, JavaScript's insertion-ordered \<open>Map\<close> and \<open>Set\<close>, the loops
  \<open>for (x of xs)\<close> with an early exit, and the interface (a locale) of a machine whose
  steps keep an invariant.
\<close>

named_theorems split_defs \<open>definitions that are unfolded before a case split\<close>

section \<open>Code that may throw\<close>

text \<open>A function that may throw returns \<open>Inl\<close> of the error or \<open>Inr\<close> of its value.\<close>

type_synonym ('e, 'a) result = "'e + 'a"

abbreviation throw :: "'e \<Rightarrow> ('e, 'a) result" where
  "throw \<equiv> Inl"

abbreviation return_ok :: "'a \<Rightarrow> ('e, 'a) result" where
  "return_ok \<equiv> Inr"

definition bind_r :: "('e, 'a) result \<Rightarrow> ('a \<Rightarrow> ('e, 'b) result) \<Rightarrow> ('e, 'b) result" where
  "bind_r r f = (case r of Inl e \<Rightarrow> Inl e | Inr a \<Rightarrow> f a)"

lemma bind_r_simps [simp]:
  "bind_r (Inl e) f = Inl e"
  "bind_r (Inr a) f = f a"
  by (simp_all add: bind_r_def)

lemma bind_r_eq_Inr: "bind_r r f = Inr b \<longleftrightarrow> (\<exists>a. r = Inr a \<and> f a = Inr b)"
  by (cases r) auto

lemma bind_r_eq_Inl: "bind_r r f = Inl e \<longleftrightarrow> r = Inl e \<or> (\<exists>a. r = Inr a \<and> f a = Inl e)"
  by (cases r) auto

text \<open>\<open>guard_r c e\<close> is \<open>if (!c) throw e\<close>.\<close>

definition guard_r :: "bool \<Rightarrow> 'e \<Rightarrow> ('e, unit) result" where
  "guard_r c e = (if c then Inr () else Inl e)"

lemma guard_r_simps [simp]:
  "guard_r True e = Inr ()"
  "guard_r False e = Inl e"
  "guard_r c e = Inr u \<longleftrightarrow> c"
  "guard_r c e = Inl e' \<longleftrightarrow> \<not> c \<and> e' = e"
  by (auto simp: guard_r_def)

definition is_ok :: "('e, 'a) result \<Rightarrow> bool" where
  "is_ok r = (case r of Inl _ \<Rightarrow> False | Inr _ \<Rightarrow> True)"

lemma is_ok_simps [simp]: "is_ok (Inr a)" "\<not> is_ok (Inl e)"
  by (simp_all add: is_ok_def)

lemma is_ok_iff: "is_ok r \<longleftrightarrow> (\<exists>a. r = Inr a)"
  by (cases r) auto

text \<open>A \<open>for\<close> loop whose body checks each element and may throw.\<close>

fun each_r :: "('a \<Rightarrow> ('e, unit) result) \<Rightarrow> 'a list \<Rightarrow> ('e, unit) result" where
  "each_r f [] = Inr ()"
| "each_r f (x # xs) = (case f x of Inl e \<Rightarrow> Inl e | Inr _ \<Rightarrow> each_r f xs)"

lemma each_r_ok: "each_r f xs = Inr u \<longleftrightarrow> (\<forall>x \<in> set xs. f x = Inr ())"
  by (induction xs) (auto split: sum.splits)

lemma each_r_err: "each_r f xs = Inl e \<Longrightarrow> \<exists>x \<in> set xs. f x = Inl e"
  by (induction xs) (auto split: sum.splits)

text \<open>The same loop with an index, as in \<open>for (let i = 0; ...)\<close>.\<close>

fun each_i :: "nat \<Rightarrow> (nat \<Rightarrow> 'a \<Rightarrow> ('e, unit) result) \<Rightarrow> 'a list \<Rightarrow> ('e, unit) result" where
  "each_i i f [] = Inr ()"
| "each_i i f (x # xs) = (case f i x of Inl e \<Rightarrow> Inl e | Inr _ \<Rightarrow> each_i (Suc i) f xs)"

lemma each_i_ok:
  "each_i i f xs = Inr u \<longleftrightarrow> (\<forall>k < length xs. f (i + k) (xs ! k) = Inr ())"
proof (induction xs arbitrary: i)
  case (Cons x xs)
  show ?case
    using Cons.IH [of "Suc i"]
    by (auto simp: less_Suc_eq_0_disj split: sum.splits)
qed simp

section \<open>JavaScript's Map and Set: insertion order\<close>

text \<open>
  A \<open>Map\<close> iterates in insertion order and \<open>set\<close> on a present key keeps its place; so it is
  an association list. A \<open>Set\<close> is a duplicate-free list whose head is the oldest element.
\<close>

type_synonym ('k, 'v) jsmap = "('k \<times> 'v) list"

fun map_get :: "('k, 'v) jsmap \<Rightarrow> 'k \<Rightarrow> 'v option" where
  "map_get [] k = None"
| "map_get ((a, v) # m) k = (if a = k then Some v else map_get m k)"

fun map_set :: "('k, 'v) jsmap \<Rightarrow> 'k \<Rightarrow> 'v \<Rightarrow> ('k, 'v) jsmap" where
  "map_set [] k w = [(k, w)]"
| "map_set ((a, v) # m) k w = (if a = k then (a, w) # m else (a, v) # map_set m k w)"

definition map_delete :: "('k, 'v) jsmap \<Rightarrow> 'k \<Rightarrow> ('k, 'v) jsmap" where
  "map_delete m k = filter (\<lambda>p. fst p \<noteq> k) m"

definition map_keys :: "('k, 'v) jsmap \<Rightarrow> 'k list" where
  "map_keys m = map fst m"

definition wf_map :: "('k, 'v) jsmap \<Rightarrow> bool" where
  "wf_map m = distinct (map fst m)"

lemma map_get_map_set [simp]:
  "map_get (map_set m k v) k' = (if k' = k then Some v else map_get m k')"
  by (induction m k v rule: map_set.induct) auto

lemma map_get_map_delete [simp]:
  "map_get (map_delete m k) k' = (if k' = k then None else map_get m k')"
  by (induction m) (auto simp: map_delete_def)

lemma keys_map_set: "fst ` set (map_set m k v) = insert k (fst ` set m)"
  by (induction m k v rule: map_set.induct) auto

lemma keys_map_delete: "fst ` set (map_delete m k) = fst ` set m - {k}"
  by (auto simp: map_delete_def)

lemma wf_map_Nil [simp]: "wf_map []"
  by (simp add: wf_map_def)

lemma wf_map_set [simp]: "wf_map m \<Longrightarrow> wf_map (map_set m k v)"
proof (induction m k v rule: map_set.induct)
  case (2 a v m k w)
  then show ?case
    using keys_map_set [of m k w] by (auto simp: wf_map_def)
qed (simp add: wf_map_def)

lemma wf_map_filter [simp]: "wf_map m \<Longrightarrow> wf_map (filter P m)"
  by (simp add: wf_map_def distinct_map inj_on_filter_key_eq distinct_filter inj_on_def)

lemma wf_map_delete [simp]: "wf_map m \<Longrightarrow> wf_map (map_delete m k)"
  by (simp add: map_delete_def)

lemma map_get_Some_in: "map_get m k = Some v \<Longrightarrow> (k, v) \<in> set m"
  by (induction m) (auto split: if_splits)

lemma map_get_None_iff: "map_get m k = None \<longleftrightarrow> k \<notin> fst ` set m"
  by (induction m k rule: map_get.induct) (auto split: if_splits)

lemma map_get_in_wf: "wf_map m \<Longrightarrow> (k, v) \<in> set m \<Longrightarrow> map_get m k = Some v"
  by (induction m) (force simp: wf_map_def)+

lemma map_get_append:
  "map_get (m @ n) k = (case map_get m k of None \<Rightarrow> map_get n k | Some v \<Rightarrow> Some v)"
  by (induction m) auto

lemma map_set_append_new: "k \<notin> fst ` set m \<Longrightarrow> map_set m k v = m @ [(k, v)]"
  by (induction m) auto

text \<open>\<open>Set.add\<close> keeps the place of a present element.\<close>

definition set_add :: "'a list \<Rightarrow> 'a \<Rightarrow> 'a list" where
  "set_add s x = (if x \<in> set s then s else s @ [x])"

definition set_delete :: "'a list \<Rightarrow> 'a \<Rightarrow> 'a list" where
  "set_delete s x = filter (\<lambda>y. y \<noteq> x) s"

lemma set_add_set [simp]: "set (set_add s x) = insert x (set s)"
  by (auto simp: set_add_def)

lemma set_add_distinct [simp]: "distinct s \<Longrightarrow> distinct (set_add s x)"
  by (simp add: set_add_def)

lemma set_delete_set [simp]: "set (set_delete s x) = set s - {x}"
  by (auto simp: set_delete_def)

text \<open>\<open>[...new Set(xs)]\<close>: the first occurrence of each element, in order.\<close>

definition dedup :: "'a list \<Rightarrow> 'a list" where
  "dedup xs = foldl set_add [] xs"

lemma foldl_set_add: "set (foldl set_add s xs) = set s \<union> set xs"
  by (induction xs arbitrary: s) auto

lemma foldl_set_add_distinct: "distinct s \<Longrightarrow> distinct (foldl set_add s xs)"
  by (induction xs arbitrary: s) auto

lemma set_dedup [simp]: "set (dedup xs) = set xs"
  by (simp add: dedup_def foldl_set_add)

lemma distinct_dedup [simp]: "distinct (dedup xs)"
  by (simp add: dedup_def foldl_set_add_distinct)

lemma dedup_Nil_iff [simp]: "dedup xs = [] \<longleftrightarrow> xs = []"
  by (metis set_dedup set_empty)

text \<open>
  \<open>while (set.size > cap) set.delete(oldest)\<close>: deleting the head until the set fits. A
  duplicate-free list loses exactly its head at each round.
\<close>

definition evict :: "nat \<Rightarrow> 'a list \<Rightarrow> 'a list" where
  "evict cap s = drop (length s - cap) s"

fun evict_loop :: "nat \<Rightarrow> 'a list \<Rightarrow> 'a list" where
  "evict_loop cap [] = []"
| "evict_loop cap (x # s) = (if length (x # s) > cap then evict_loop cap s else x # s)"

lemma evict_loop_eq: "evict_loop cap s = evict cap s"
  by (induction s) (auto simp: evict_def Suc_diff_le)

lemma evict_length: "length (evict cap s) \<le> cap"
  by (simp add: evict_def)

lemma evict_subset: "set (evict cap s) \<subseteq> set s"
  by (simp add: evict_def set_drop_subset)

lemma evict_id [simp]: "length s \<le> cap \<Longrightarrow> evict cap s = s"
  by (simp add: evict_def)

lemma evict_distinct [simp]: "distinct s \<Longrightarrow> distinct (evict cap s)"
  by (simp add: evict_def)

section \<open>Machines whose steps keep an invariant\<close>

text \<open>
  The interface of every stateful component here: a step function on a state, and an
  invariant each step keeps. The lemmas about whole runs are proved once.
\<close>

locale invariant_machine =
  fixes step :: "'s \<Rightarrow> 'ev \<Rightarrow> 's"
    and inv :: "'s \<Rightarrow> bool"
  assumes step_inv: "inv s \<Longrightarrow> inv (step s e)"
begin

lemma run_inv: "inv s \<Longrightarrow> inv (foldl step s es)"
  by (induction es arbitrary: s) (simp_all add: step_inv)

lemma run_prefix_inv: "inv s \<Longrightarrow> inv (foldl step s (take n es))"
  by (rule run_inv)

end

text \<open>A machine with a progress measure that no step lowers.\<close>

locale monotone_machine = invariant_machine step inv
  for step :: "'s \<Rightarrow> 'ev \<Rightarrow> 's" and inv :: "'s \<Rightarrow> bool" +
  fixes rank :: "'s \<Rightarrow> 'o::order"
  assumes step_rank: "inv s \<Longrightarrow> rank s \<le> rank (step s e)"
begin

lemma run_rank: "inv s \<Longrightarrow> rank s \<le> rank (foldl step s es)"
proof (induction es arbitrary: s)
  case (Cons e es)
  have "rank s \<le> rank (step s e)"
    using Cons.prems by (rule step_rank)
  also have "\<dots> \<le> rank (foldl step (step s e) es)"
    using Cons.prems by (intro Cons.IH step_inv)
  finally show ?case by simp
qed simp

end

end
