(* ===== verification/Utf16.thy ===== *)
theory Utf16
  imports JsText
begin

text \<open>
  Strings as JavaScript keeps them, lists of UTF-16 code units, for the code that looks at characters
  outside Latin-1: ranges of invisible characters, surrogate pairs, white space, the length in UTF-8.
\<close>

type_synonym ustr = "nat list"

definition units :: "string \<Rightarrow> ustr" where
  "units s = map of_char s"

text \<open>\<open>[\u200B-\u200F\u2028-\u202F\u2060-\u206F\uFEFF\u00AD]\<close>.\<close>

definition zero_width :: "nat \<Rightarrow> bool" where
  "zero_width c = (0x200B \<le> c \<and> c \<le> 0x200F \<or> 0x2028 \<le> c \<and> c \<le> 0x202F \<or> 0x2060 \<le> c \<and> c \<le> 0x206F \<or> c = 0xFEFF \<or> c = 0xAD)"

definition variation_selector :: "nat \<Rightarrow> bool" where
  "variation_selector c = (0xFE00 \<le> c \<and> c \<le> 0xFE0F)"

definition is_high :: "nat \<Rightarrow> bool" where
  "is_high c = (0xD800 \<le> c \<and> c \<le> 0xDBFF)"

definition is_low :: "nat \<Rightarrow> bool" where
  "is_low c = (0xDC00 \<le> c \<and> c \<le> 0xDFFF)"

text \<open>The number of bytes \<open>TextEncoder\<close> makes; a lone surrogate is replaced by a three-byte character.\<close>

fun utf8_length :: "ustr \<Rightarrow> nat" where
  "utf8_length [] = 0"
| "utf8_length [c] = (if c < 0x80 then 1 else if c < 0x800 then 2 else 3)"
| "utf8_length (c # d # s) =
     (if is_high c \<and> is_low d then 4 + utf8_length s
      else (if c < 0x80 then 1 else if c < 0x800 then 2 else 3) + utf8_length (d # s))"

lemma utf8_length_bounds: "length s \<le> utf8_length s" "utf8_length s \<le> 3 * length s"
  by (induction s rule: utf8_length.induct) auto

end
