(* ===== verification/Messages.thy ===== *)
theory Messages
  imports JsText
begin

text \<open>
  The signed protocol messages, \<open>src/signing/messages.ts\<close> and \<open>src/auth/challenge-hash.ts\<close>: one
  builder per message, the guard that keeps the challenge-signing paths from signing such a
  message, and the allowlist of login challenge hashes. Amounts are the text the template
  prints. \<open>String.prototype.normalize\<close> is the parameter \<open>nfkc\<close> of the guard, on UTF-16 code units.
\<close>

section \<open>The builders\<close>

definition buildAcceptMessage :: "string \<Rightarrow> string \<Rightarrow> string \<Rightarrow> string \<Rightarrow> int \<Rightarrow> string" where
  "buildAcceptMessage jobHash buyer amount currency ts =
     ''J41-ACCEPT|Job:'' @ jobHash @ ''|Buyer:'' @ buyer @ ''|Amt:'' @ amount @ '' '' @ currency
     @ ''|Ts:'' @ show_int ts @ ''|I accept this job and commit to delivering the work.''"

definition buildDeliverMessage :: "string \<Rightarrow> string \<Rightarrow> int \<Rightarrow> string" where
  "buildDeliverMessage jobHash deliveryHash ts =
     ''J41-DELIVER|Job:'' @ jobHash @ ''|Delivery:'' @ deliveryHash @ ''|Ts:'' @ show_int ts
     @ ''|I have delivered the work for this job.''"

datatype dispute_action = Refund | Rework | Rejected

fun dispute_action_name :: "dispute_action \<Rightarrow> string" where
  "dispute_action_name Refund = ''refund''"
| "dispute_action_name Rework = ''rework''"
| "dispute_action_name Rejected = ''rejected''"

definition buildDisputeRespondMessage :: "string \<Rightarrow> dispute_action \<Rightarrow> int \<Rightarrow> string" where
  "buildDisputeRespondMessage jobHash act ts =
     ''J41-DISPUTE-RESPOND|Job:'' @ take 16 jobHash @ ''|Action:'' @ dispute_action_name act
     @ ''|Ts:'' @ show_int ts"

definition buildReworkAcceptMessage :: "string \<Rightarrow> int \<Rightarrow> string" where
  "buildReworkAcceptMessage jobHash ts = ''J41-REWORK-ACCEPT|Job:'' @ take 16 jobHash @ ''|Ts:'' @ show_int ts"

definition buildCompleteMessage :: "string \<Rightarrow> int \<Rightarrow> string" where
  "buildCompleteMessage jobHash ts =
     ''J41-COMPLETE|Job:'' @ jobHash @ ''|Ts:'' @ show_int ts
     @ ''|I confirm the work has been delivered satisfactorily.''"

definition buildDisputeMessage :: "string \<Rightarrow> string \<Rightarrow> int \<Rightarrow> string" where
  "buildDisputeMessage jobHash reason ts =
     ''J41-DISPUTE|Job:'' @ jobHash @ ''|Reason:'' @ reason @ ''|Ts:'' @ show_int ts
     @ ''|I am raising a dispute on this job.''"

definition buildPostBountyMessage :: "string \<Rightarrow> string \<Rightarrow> string \<Rightarrow> int \<Rightarrow> string" where
  "buildPostBountyMessage title amount currency ts =
     ''J41-BOUNTY|Post:'' @ title @ ''|Amount:'' @ amount @ ''|Currency:'' @ currency
     @ ''|Ts:'' @ show_int ts @ ''|I commit to funding this bounty.''"

definition buildApplyBountyMessage :: "string \<Rightarrow> int \<Rightarrow> string" where
  "buildApplyBountyMessage bountyId ts = ''J41-BOUNTY-APPLY|Bounty:'' @ bountyId @ ''|Ts:'' @ show_int ts"

definition buildSelectClaimantsMessage :: "string \<Rightarrow> string list \<Rightarrow> int \<Rightarrow> string" where
  "buildSelectClaimantsMessage bountyId applicantIds ts =
     ''J41-BOUNTY-SELECT|Bounty:'' @ bountyId @ ''|Selected:'' @ join_with (CHR '','') applicantIds
     @ ''|Ts:'' @ show_int ts"

record deposit_params =
  d_buyer :: string
  d_seller :: string
  d_txid :: string
  d_amount :: string
  d_nonce :: string
  d_ts :: int

definition buildDepositReportMessage :: "deposit_params \<Rightarrow> string" where
  "buildDepositReportMessage p =
     ''J41-DEPOSIT-REPORT|Buyer:'' @ d_buyer p @ ''|Seller:'' @ d_seller p @ ''|Txid:'' @ d_txid p
     @ ''|Amt:'' @ d_amount p @ ''|Nonce:'' @ d_nonce p @ ''|Ts:'' @ show_int (d_ts p)
     @ ''|I attest I sent this deposit and claim its credit.''"

section \<open>The guard of the challenge-signing paths\<close>

type_synonym units = "nat list"

definition units_of :: "string \<Rightarrow> units" where
  "units_of s = map of_char s"

text \<open>\<open>/[\u200B-\u200F\u2028\u2029\u2060\uFEFF]/\<close> and the dashes that are folded to \<open>-\<close>.\<close>

definition is_format_unit :: "nat \<Rightarrow> bool" where
  "is_format_unit u = ((0x200B \<le> u \<and> u \<le> 0x200F) \<or> u \<in> {0x2028, 0x2029, 0x2060, 0xFEFF})"

definition fold_dash :: "nat \<Rightarrow> nat" where
  "fold_dash u = (if (0x2010 \<le> u \<and> u \<le> 0x2015) \<or> u = 0x2212 then 45 else u)"

definition is_space_unit :: "nat \<Rightarrow> bool" where
  "is_space_unit u = (u \<in> {9, 10, 11, 12, 13, 32, 160, 0x1680, 0x2028, 0x2029, 0x202F, 0x205F, 0x3000, 0xFEFF}
     \<or> (0x2000 \<le> u \<and> u \<le> 0x200A))"

text \<open>\<open>[a-z0-9-]\<close> under the \<open>i\<close> flag, and the match of \<open>/^j41-[a-z0-9-]*\|/i\<close>.\<close>

definition is_action_unit :: "nat \<Rightarrow> bool" where
  "is_action_unit u = ((97 \<le> u \<and> u \<le> 122) \<or> (65 \<le> u \<and> u \<le> 90) \<or> (48 \<le> u \<and> u \<le> 57) \<or> u = 45)"

definition is_protocol_head :: "units \<Rightarrow> bool" where
  "is_protocol_head h = (case h of
     a # b # c # d # r \<Rightarrow> a \<in> {74, 106} \<and> b = 52 \<and> c = 49 \<and> d = 45
       \<and> (case dropWhile is_action_unit r of [] \<Rightarrow> False | x # _ \<Rightarrow> x = 124)
   | _ \<Rightarrow> False)"

datatype sign_refusal = FormatCharacters | ProtocolFormatted | BadChallengeHash

definition assertNotProtocolMessage :: "(units \<Rightarrow> units) \<Rightarrow> units \<Rightarrow> (sign_refusal, unit) result" where
  "assertNotProtocolMessage nfkc text =
     (if \<exists>u \<in> set text. is_format_unit u then Inl FormatCharacters
      else let head = dropWhile is_space_unit (map fold_dash (nfkc text)) in
           if is_protocol_head head then Inl ProtocolFormatted else Inr ())"

text \<open>\<open>/^[0-9a-f]{64}$/i\<close> on a string; anything that is not a string is \<open>None\<close>.\<close>

definition assertConsentChallengeHash :: "string option \<Rightarrow> (sign_refusal, unit) result" where
  "assertConsentChallengeHash h = (case h of
     None \<Rightarrow> Inl BadChallengeHash
   | Some s \<Rightarrow> if length s = 64 \<and> list_all is_hex s then Inr () else Inl BadChallengeHash)"

section \<open>Reading a message back\<close>

definition no_pipe :: "string \<Rightarrow> bool" where
  "no_pipe s = (CHR ''|'' \<notin> set s)"

lemma show_int_no_pipe [simp]: "CHR ''|'' \<notin> set (show_int i)"
  using show_int_chars [of "CHR ''|''" i] by (auto simp: is_digit_def)

lemma pipe_front:
  "no_pipe a \<Longrightarrow> no_pipe b \<Longrightarrow> a @ CHR ''|'' # r = b @ CHR ''|'' # s \<longleftrightarrow> a = b \<and> r = s"
  unfolding no_pipe_def by (rule sep_front)

lemma pipe_back:
  "no_pipe r \<Longrightarrow> no_pipe s \<Longrightarrow> a @ CHR ''|'' # r = b @ CHR ''|'' # s \<longleftrightarrow> a = b \<and> r = s"
  unfolding no_pipe_def by (rule sep_back)

lemma no_pipe_simps [simp]:
  "no_pipe (show_int i)" "no_pipe (x # s) \<longleftrightarrow> x \<noteq> CHR ''|'' \<and> no_pipe s" "no_pipe []"
  "no_pipe (s @ t) \<longleftrightarrow> no_pipe s \<and> no_pipe t"
  by (auto simp: no_pipe_def)

text \<open>
  A deposit report's signed text determines the report: two reports whose fields hold no
  pipe sign the same text only if buyer, seller, txid, amount, nonce and timestamp agree.
\<close>

theorem deposit_message_injective:
  assumes "no_pipe (d_buyer p)" "no_pipe (d_seller p)" "no_pipe (d_txid p)" "no_pipe (d_amount p)" "no_pipe (d_nonce p)"
    and "no_pipe (d_buyer q)" "no_pipe (d_seller q)" "no_pipe (d_txid q)" "no_pipe (d_amount q)" "no_pipe (d_nonce q)"
    and "buildDepositReportMessage p = buildDepositReportMessage q"
  shows "p = q"
  using assms
  by (cases p; cases q) (simp add: buildDepositReportMessage_def pipe_front show_int_inj)

text \<open>
  Free text in the middle of a message cannot shift the other fields: the reason of a
  dispute and the title of a bounty may hold pipes, and the signed text still determines every
  field, as long as the others hold none.
\<close>

theorem free_text_messages_injective:
  "(no_pipe h \<and> no_pipe h' \<longrightarrow>
      buildDisputeMessage h reason ts = buildDisputeMessage h' reason' ts' \<longrightarrow>
      h = h' \<and> reason = reason' \<and> ts = ts')
   \<and> (no_pipe am \<and> no_pipe am' \<and> no_pipe cu \<and> no_pipe cu' \<longrightarrow>
      buildPostBountyMessage title am cu ts = buildPostBountyMessage title' am' cu' ts' \<longrightarrow>
      title = title' \<and> am = am' \<and> cu = cu' \<and> ts = ts')"
proof (rule conjI; intro impI)
  assume h: "no_pipe h \<and> no_pipe h'" and e: "buildDisputeMessage h reason ts = buildDisputeMessage h' reason' ts'"
  have "(reason @ ''|Ts:'' @ show_int ts) = (reason' @ ''|Ts:'' @ show_int ts')"
    and hh: "h = h'"
    using e h by (simp_all add: buildDisputeMessage_def pipe_front)
  then show "h = h' \<and> reason = reason' \<and> ts = ts'"
    by (simp add: pipe_back show_int_inj)
next
  assume h: "no_pipe am \<and> no_pipe am' \<and> no_pipe cu \<and> no_pipe cu'"
    and e: "buildPostBountyMessage title am cu ts = buildPostBountyMessage title' am' cu' ts'"
  have "((title @ ''|Amount:'' @ am) @ ''|Currency:'' @ cu) @ ''|Ts:'' @ show_int ts
      = ((title' @ ''|Amount:'' @ am') @ ''|Currency:'' @ cu') @ ''|Ts:'' @ show_int ts'"
    using e by (simp add: buildPostBountyMessage_def)
  then show "title = title' \<and> am = am' \<and> cu = cu' \<and> ts = ts'"
    using h by (simp add: pipe_back show_int_inj del: append_assoc)
qed

definition demo_deposit :: deposit_params where
  "demo_deposit = \<lparr>d_buyer = ''alice@'', d_seller = ''bob@'', d_txid = ''ff'', d_amount = ''5'',
     d_nonce = ''n1'', d_ts = 1700000000\<rparr>"

theorem deposit_message_injective_witness:
  "buildDepositReportMessage (demo_deposit\<lparr>d_nonce := ''n2''\<rparr>) \<noteq> buildDepositReportMessage demo_deposit"
proof
  assume "buildDepositReportMessage (demo_deposit\<lparr>d_nonce := ''n2''\<rparr>) = buildDepositReportMessage demo_deposit"
  then have "demo_deposit\<lparr>d_nonce := ''n2''\<rparr> = demo_deposit"
    by (intro deposit_message_injective) (simp_all add: demo_deposit_def no_pipe_def)
  then show False by (simp add: demo_deposit_def)
qed

theorem free_text_messages_injective_witness:
  "buildDisputeMessage ''ab'' ''late|Ts:1'' 2 \<noteq> buildDisputeMessage ''ab'' ''late'' 1"
  using free_text_messages_injective [of "''ab''" "''ab''" "''late|Ts:1''" 2 "''late''" 1]
  by (auto simp: no_pipe_def)

section \<open>The challenge paths are no signing oracle\<close>

definition protocol_message :: "string \<Rightarrow> bool" where
  "protocol_message m = (
     (\<exists>a b c d t. m = buildAcceptMessage a b c d t) \<or> (\<exists>a b t. m = buildDeliverMessage a b t)
   \<or> (\<exists>a b t. m = buildDisputeRespondMessage a b t) \<or> (\<exists>a t. m = buildReworkAcceptMessage a t)
   \<or> (\<exists>a t. m = buildCompleteMessage a t) \<or> (\<exists>a b t. m = buildDisputeMessage a b t)
   \<or> (\<exists>a b c t. m = buildPostBountyMessage a b c t) \<or> (\<exists>a t. m = buildApplyBountyMessage a t)
   \<or> (\<exists>a b t. m = buildSelectClaimantsMessage a b t) \<or> (\<exists>p. m = buildDepositReportMessage p))"

definition ascii :: "string \<Rightarrow> bool" where
  "ascii s = (\<forall>c \<in> set s. (of_char c :: nat) < 128)"

lemma ascii_show_int: "ascii (show_int i)"
  using show_int_chars [of _ i] by (force simp: ascii_def is_digit_def)

text \<open>Every message opens with \<open>J41-\<close>, an action of letters and dashes, and a pipe.\<close>

definition action_prefixed :: "units \<Rightarrow> bool" where
  "action_prefixed u = (\<exists>a r. u = 74 # 52 # 49 # 45 # a @ 124 # r \<and> list_all is_action_unit a)"

lemma action_prefixed_head: "action_prefixed u \<Longrightarrow> is_protocol_head u"
proof -
  assume "action_prefixed u"
  then obtain a r where u: "u = 74 # 52 # 49 # 45 # a @ 124 # r" "list_all is_action_unit a"
    by (auto simp: action_prefixed_def)
  have "dropWhile is_action_unit (a @ 124 # r) = 124 # r"
    using u(2) by (subst dropWhile_append2) (auto simp: list_all_iff is_action_unit_def)
  then show ?thesis by (simp add: u(1) is_protocol_head_def)
qed

lemma prefixI: "u = 74 # 52 # 49 # 45 # a @ 124 # r \<Longrightarrow> list_all is_action_unit a \<Longrightarrow> action_prefixed u"
  by (auto simp: action_prefixed_def)

lemma protocol_message_prefixed: "protocol_message m \<Longrightarrow> action_prefixed (units_of m)"
  unfolding protocol_message_def units_of_def
  by (elim disjE exE; rule prefixI [where a = "map of_char (takeWhile (\<lambda>c. c \<noteq> CHR ''|'') (drop 4 m))"
        and r = "map of_char (tl (dropWhile (\<lambda>c. c \<noteq> CHR ''|'') (drop 4 m)))"])
     (simp_all add: buildAcceptMessage_def buildDeliverMessage_def buildDisputeRespondMessage_def
       buildReworkAcceptMessage_def buildCompleteMessage_def buildDisputeMessage_def buildPostBountyMessage_def
       buildApplyBountyMessage_def buildSelectClaimantsMessage_def buildDepositReportMessage_def is_action_unit_def)

lemma ascii_units:
  assumes "ascii s"
  shows "map fold_dash (units_of s) = units_of s" "\<not> (\<exists>u \<in> set (units_of s). is_format_unit u)"
  using assms by (auto simp: ascii_def units_of_def fold_dash_def is_format_unit_def)

text \<open>
  No message of the protocol passes the guard of the challenge-signing paths: whatever its
  fields, with any white space in front, it is refused, so a server cannot have one signed as a
  login or onboarding challenge. Of \<open>normalize\<close> it needs only that ASCII text is left alone.
\<close>

theorem challenge_guard_refuses_protocol:
  assumes "\<And>s. ascii s \<Longrightarrow> nfkc (units_of s) = units_of s"
    and "protocol_message m" and "ascii m" and "ascii ws" and "list_all is_space ws"
  shows "assertNotProtocolMessage nfkc (units_of (ws @ m)) = Inl ProtocolFormatted"
proof -
  have a: "ascii (ws @ m)" using assms by (auto simp: ascii_def)
  have p: "action_prefixed (units_of m)" using assms(2) by (rule protocol_message_prefixed)
  then obtain x r where m: "units_of m = x # r" "\<not> is_space_unit x"
    by (auto simp: action_prefixed_def is_space_unit_def)
  have "dropWhile is_space_unit (units_of ws @ units_of m) = units_of m"
    using assms(5) m by (subst dropWhile_append2) (auto simp: units_of_def list_all_iff is_space_def is_space_unit_def)
  moreover have "units_of (ws @ m) = units_of ws @ units_of m" by (simp add: units_of_def)
  ultimately show ?thesis
    using ascii_units [OF a] assms(1) [OF a] action_prefixed_head [OF p]
    by (simp add: assertNotProtocolMessage_def)
qed

theorem challenge_guard_refuses_protocol_witness:
  "assertNotProtocolMessage id (units_of ('' '' @ buildCompleteMessage ''ab'' 7)) = Inl ProtocolFormatted"
proof (rule challenge_guard_refuses_protocol)
  show "ascii (buildCompleteMessage ''ab'' 7)"
    using ascii_show_int [of 7] by (simp add: buildCompleteMessage_def ascii_def)
  show "protocol_message (buildCompleteMessage ''ab'' 7)"
    unfolding protocol_message_def by blast
qed (simp_all add: ascii_def is_space_def)

end
