(* ===== verification/JsNum.thy ===== *)
theory JsNum
  imports Complex_Main "HOL-Library.Log_Nat" Prelude
begin

text \<open>
  JavaScript's \<open>number\<close>: IEEE-754 binary64. A finite value is the rational it denotes, every
  arithmetic operation is the exact result rounded to nearest, ties to even, to 53
  significant bits (\<open>rnd\<close>), with the subnormal range below and overflow to infinity above.
  The sign of zero is not kept (no code modelled here divides by a negative zero or looks
  at its sign). The lemmas give what the components rest on: rounding is monotone, exact on
  integers up to \<open>2 ^ 53\<close> and on values already representable, and within a relative error of
  \<open>2 powi -53\<close> in the normal range.
\<close>

section \<open>Rounding a rational to an integer\<close>

definition rhe :: "rat \<Rightarrow> int" where
  "rhe q = (let f = \<lfloor>q\<rfloor>; d = q - of_int f in
     if d < 1 / 2 then f else if 1 / 2 < d then f + 1 else if even f then f else f + 1)"

lemma rhe_err: "\<bar>of_int (rhe q) - q\<bar> \<le> 1 / 2"
proof -
  have "of_int \<lfloor>q\<rfloor> \<le> q" "q < of_int \<lfloor>q\<rfloor> + 1"
    by linarith+
  then show ?thesis
    by (auto simp: rhe_def Let_def)
qed

lemma rhe_of_int [simp]: "rhe (of_int n) = n"
  by (simp add: rhe_def)

lemma rhe_ge_floor: "\<lfloor>q\<rfloor> \<le> rhe q" and rhe_le_floor: "rhe q \<le> \<lfloor>q\<rfloor> + 1"
  by (auto simp: rhe_def Let_def)

lemma rhe_mono:
  assumes "q \<le> r"
  shows "rhe q \<le> rhe r"
proof (cases "\<lfloor>q\<rfloor> = \<lfloor>r\<rfloor>")
  case True
  with assms show ?thesis
    by (auto simp: rhe_def Let_def)
next
  case False
  with assms have "\<lfloor>q\<rfloor> + 1 \<le> \<lfloor>r\<rfloor>"
    using floor_mono [OF assms] by linarith
  then show ?thesis
    using rhe_le_floor [of q] rhe_ge_floor [of r] by linarith
qed

section \<open>The binary exponent\<close>

definition ilog2 :: "rat \<Rightarrow> int" where
  "ilog2 x = (let (p, q) = quotient_of x; e = bitlen p - bitlen q in
     if 2 powi e * of_int q \<le> (of_int p :: rat) then e else e - 1)"

lemma bitlen_powi:
  assumes "0 < p"
  shows "2 powi (bitlen p - 1) \<le> (of_int p :: rat)" and "(of_int p :: rat) < 2 powi bitlen p"
proof -
  have b: "2 ^ nat (bitlen p - 1) \<le> p" "p < 2 ^ nat (bitlen p)"
    using bitlen_bounds [OF assms] by auto
  have pos: "0 < bitlen p"
    using assms by (simp add: bitlen_def floorlog_def zero_less_nat_eq)
       (smt (verit) floor_less_zero log_less_zero_cancel_iff of_int_1_le_iff)
  have "(of_int (2 ^ nat (bitlen p - 1)) :: rat) \<le> of_int p"
    using b(1) by (simp only: of_int_le_iff)
  then show "2 powi (bitlen p - 1) \<le> (of_int p :: rat)"
    using pos by (simp add: power_int_def)
  have "(of_int p :: rat) < of_int (2 ^ nat (bitlen p))"
    using b(2) by (simp only: of_int_less_iff)
  then show "(of_int p :: rat) < 2 powi bitlen p"
    using pos by (simp add: power_int_def)
qed

lemma powi_mono2: "a \<le> b \<Longrightarrow> (2 :: rat) powi a \<le> 2 powi b"
  by (rule power_int_increasing) auto

lemma powi_le_cancel: "(2 :: rat) powi a < 2 powi b \<longleftrightarrow> a < b"
  using powi_mono2 [of b a] power_int_strict_increasing [of a b "2 :: rat"] by force

lemma powi_pos [simp]: "0 < (2 :: rat) powi a"
  by (simp add: zero_less_power_int)

lemma powi_split: "(2 :: rat) powi (a + b) = 2 powi a * 2 powi b"
  by (simp add: power_int_add)

lemma powi_nat: "0 \<le> a \<Longrightarrow> (2 :: rat) powi a = 2 ^ nat a"
  by (simp add: power_int_def)

lemma powi_53: "(2 :: rat) powi (53 + u) = 2 ^ 53 * 2 powi u"
  by (simp only: powi_split) simp

lemma powi_quotient: "u \<le> e \<Longrightarrow> (2 :: rat) powi e / 2 powi u = of_int (2 ^ nat (e - u))"
  by (simp add: powi_nat flip: power_int_diff)

lemma ilog2_bounds:
  assumes "0 < x"
  shows "2 powi ilog2 x \<le> x" and "x < 2 powi (ilog2 x + 1)"
proof -
  obtain p q where pq: "quotient_of x = (p, q)" by fastforce
  have q: "0 < q" using quotient_of_denom_pos [OF pq] .
  have x: "x = of_int p / of_int q" by (rule quotient_of_div [OF pq])
  have p: "0 < p"
    using assms q x by (simp add: zero_less_divide_iff)
  define a where "a = bitlen p"
  define b where "b = bitlen q"
  note B = bitlen_powi [OF p, folded a_def] bitlen_powi [OF q, folded b_def]
  have qq: "0 < (of_int q :: rat)" using q by simp
  have up: "x < 2 powi (a - b + 1)"
  proof -
    have "(2 :: rat) powi (a - b + 1) * of_int q \<ge> 2 powi (a - b + 1) * 2 powi (b - 1)"
      using B(3) by (simp add: mult_left_mono)
    also have "2 powi (a - b + 1) * (2 :: rat) powi (b - 1) = 2 powi a"
      by (simp flip: powi_split)
    finally have "of_int p < (2 :: rat) powi (a - b + 1) * of_int q"
      using B(2) by linarith
    then show ?thesis
      using qq by (simp add: x pos_divide_less_eq)
  qed
  have lo: "2 powi (a - b - 1) \<le> x"
  proof -
    have "(2 :: rat) powi (a - b - 1) * of_int q \<le> 2 powi (a - b - 1) * 2 powi b"
      using B(4) by (simp add: mult_left_mono)
    also have "2 powi (a - b - 1) * (2 :: rat) powi b = 2 powi (a - 1)"
      by (simp flip: powi_split)
    finally have "(2 :: rat) powi (a - b - 1) * of_int q \<le> of_int p"
      using B(1) by linarith
    then show ?thesis
      using qq by (simp add: x pos_le_divide_eq)
  qed
  have mid: "2 powi (a - b) * of_int q \<le> (of_int p :: rat) \<longleftrightarrow> 2 powi (a - b) \<le> x"
    using qq by (simp add: x pos_le_divide_eq)
  show "2 powi ilog2 x \<le> x" and "x < 2 powi (ilog2 x + 1)"
    using lo up mid by (auto simp: ilog2_def pq Let_def simp flip: a_def b_def)
qed

lemma ilog2_less_iff: "0 < x \<Longrightarrow> ilog2 x < e \<longleftrightarrow> x < 2 powi e"
proof
  assume "0 < x" "ilog2 x < e"
  then show "x < 2 powi e"
    using ilog2_bounds(2) [of x] powi_mono2 [of "ilog2 x + 1" e] by linarith
next
  assume "0 < x" "x < 2 powi e"
  then have "(2 :: rat) powi ilog2 x < 2 powi e"
    using ilog2_bounds(1) [of x] by linarith
  then show "ilog2 x < e"
    by (simp only: powi_le_cancel)
qed

lemma ilog2_mono: "0 < x \<Longrightarrow> x \<le> y \<Longrightarrow> ilog2 x \<le> ilog2 y"
  using ilog2_less_iff [of x "ilog2 y + 1"] ilog2_bounds(2) [of y] by linarith

section \<open>Rounding to binary64\<close>

definition ulp_exp :: "rat \<Rightarrow> int" where
  "ulp_exp x = max (ilog2 \<bar>x\<bar> - 52) (-1074)"

definition rnd :: "rat \<Rightarrow> rat" where
  "rnd x = (if x = 0 then 0
     else of_int (rhe (x / 2 powi ulp_exp x)) * 2 powi ulp_exp x)"

text \<open>A value that fits 53 significant bits and the exponent range rounds to itself.\<close>

lemma rnd_representable_aux:
  assumes "\<bar>m\<bar> < 2 ^ 53" and "-1074 \<le> u"
  shows "rnd (of_int m * 2 powi u) = of_int m * 2 powi u"
proof (cases "m = 0")
  case False
  define y :: rat where "y = of_int m * 2 powi u"
  define v where "v = ulp_exp y"
  have y0: "y \<noteq> 0" using False by (simp add: y_def)
  have "\<bar>y\<bar> = of_int \<bar>m\<bar> * 2 powi u"
    by (simp add: y_def abs_mult)
  also have "\<dots> < 2 ^ 53 * 2 powi u"
  proof -
    have "(of_int \<bar>m\<bar> :: rat) < of_int (2 ^ 53)"
      using assms(1) by (simp only: of_int_less_iff)
    then show ?thesis by simp
  qed
  also have "(2 :: rat) ^ 53 * 2 powi u = 2 powi (53 + u)"
    by (simp only: powi_53)
  finally have "ilog2 \<bar>y\<bar> < 53 + u"
    using y0 by (simp add: ilog2_less_iff)
  then have vu: "v \<le> u"
    using assms(2) by (simp add: v_def ulp_exp_def)
  have "y / 2 powi v = of_int m * 2 powi (u - v)"
    by (simp add: y_def power_int_diff)
  also have "\<dots> = of_int (m * 2 ^ nat (u - v))"
    using vu by (simp add: power_int_def)
  finally have "y / 2 powi v = of_int (m * 2 ^ nat (u - v))" .
  then have "of_int (rhe (y / 2 powi v)) * 2 powi v = y"
    using y0 by (metis rhe_of_int nonzero_eq_divide_eq powi_pos less_irrefl)
  then show ?thesis
    using y0 by (simp add: rnd_def v_def y_def)
qed (simp add: rnd_def)

lemma rnd_representable:
  assumes "\<bar>m\<bar> \<le> 2 ^ 53" and "-1074 \<le> u"
  shows "rnd (of_int m * 2 powi u) = of_int m * 2 powi u"
proof (cases "\<bar>m\<bar> = 2 ^ 53")
  case True
  then obtain s :: int where m: "m = 2 * (s * 2 ^ 52)" and s: "\<bar>s\<bar> = 1"
    by (cases "0 \<le> m") (force simp: abs_if)+
  have k: "\<bar>s * 2 ^ 52\<bar> < 2 ^ 53"
    using s by (simp add: abs_mult)
  have "of_int m * 2 powi u = of_int (s * 2 ^ 52) * (2 :: rat) powi (u + 1)"
    unfolding powi_split by (simp add: m)
  then show ?thesis
    using rnd_representable_aux [OF k, of "u + 1"] assms(2) by simp
qed (use assms rnd_representable_aux in simp)

lemma rnd_of_int: "\<bar>n\<bar> \<le> 2 ^ 53 \<Longrightarrow> rnd (of_int n) = of_int n"
  using rnd_representable [of n 0] by simp

lemma rnd_0 [simp]: "rnd 0 = 0"
  by (simp add: rnd_def)

lemma mantissa_bound:
  assumes "0 < x"
  shows "x / 2 powi ulp_exp x < 2 ^ 53" "0 < x / 2 powi ulp_exp x"
proof -
  have "x < 2 powi (ilog2 x + 1)" using ilog2_bounds(2) [OF assms] .
  also have "\<dots> \<le> 2 powi (53 + ulp_exp x)"
    using assms by (intro powi_mono2) (auto simp: ulp_exp_def)
  also have "\<dots> = 2 ^ 53 * 2 powi ulp_exp x"
    by (simp only: powi_53)
  finally show "x / 2 powi ulp_exp x < 2 ^ 53"
    by (simp add: pos_divide_less_eq)
  show "0 < x / 2 powi ulp_exp x" using assms by simp
qed

lemma rnd_nonneg: "0 \<le> x \<Longrightarrow> 0 \<le> rnd x"
proof -
  assume "0 \<le> x"
  then have "0 \<le> rhe (x / 2 powi ulp_exp x)"
    using rhe_mono [of 0 "x / 2 powi ulp_exp x"] rhe_of_int [of 0] by simp
  then show ?thesis by (simp add: rnd_def)
qed

lemma rnd_idem_pos:
  assumes "0 < x"
  shows "rnd (rnd x) = rnd x"
proof -
  define m where "m = rhe (x / 2 powi ulp_exp x)"
  have "m \<le> rhe (of_int (2 ^ 53))"
    unfolding m_def using mantissa_bound [OF assms] by (intro rhe_mono) simp
  moreover have "0 \<le> m"
    unfolding m_def using mantissa_bound(2) [OF assms] rhe_mono [of 0] rhe_of_int [of 0] by fastforce
  ultimately have "\<bar>m\<bar> \<le> 2 ^ 53" by (simp only: rhe_of_int abs_of_nonneg)
  moreover have "rnd x = of_int m * 2 powi ulp_exp x"
    using assms by (simp add: rnd_def m_def)
  moreover have "-1074 \<le> ulp_exp x" by (simp add: ulp_exp_def)
  ultimately show ?thesis
    using rnd_representable by metis
qed

lemma rhe_minus: "rhe (- q) = - rhe q"
proof -
  have "\<lfloor>- q\<rfloor> = (if q = of_int \<lfloor>q\<rfloor> then - \<lfloor>q\<rfloor> else - \<lfloor>q\<rfloor> - 1)"
    by (simp add: floor_minus ceiling_altdef)
  then show ?thesis
    by (cases "q = of_int \<lfloor>q\<rfloor>") (auto simp: rhe_def Let_def)
qed

lemma rnd_minus: "rnd (- x) = - rnd x"
  by (simp add: rnd_def ulp_exp_def rhe_minus)

lemma rnd_idem [simp]: "rnd (rnd x) = rnd x"
proof (cases x "0 :: rat" rule: linorder_cases)
  case less
  then have "rnd (rnd (- x)) = rnd (- x)" by (intro rnd_idem_pos) simp
  then show ?thesis by (simp add: rnd_minus)
qed (simp_all add: rnd_idem_pos)

subsection \<open>Monotonicity\<close>

lemma rnd_le_powi:
  assumes "0 < x" "x \<le> 2 powi e" "-1021 \<le> e"
  shows "rnd x \<le> 2 powi e"
proof -
  define u where "u = ulp_exp x"
  have ue: "u \<le> e"
  proof -
    have "(2 :: rat) powi e < 2 powi (e + 1)"
      by (simp only: powi_le_cancel)
    with assms have "x < 2 powi (e + 1)" by linarith
    with assms have "ilog2 x < e + 1" by (simp only: ilog2_less_iff)
    then show ?thesis using assms by (simp add: u_def ulp_exp_def)
  qed
  have "x / 2 powi u \<le> 2 powi e / 2 powi u"
    using assms(2) by (simp add: divide_right_mono)
  also have "\<dots> = of_int (2 ^ nat (e - u))"
    using ue by (rule powi_quotient)
  finally have "rhe (x / 2 powi u) \<le> 2 ^ nat (e - u)"
    using rhe_mono rhe_of_int by metis
  then have "(of_int (rhe (x / 2 powi u)) :: rat) \<le> of_int (2 ^ nat (e - u))"
    by (simp only: of_int_le_iff)
  also have "\<dots> = 2 powi e / 2 powi u"
    using ue by (simp only: powi_quotient)
  finally show ?thesis
    using assms(1) by (simp add: rnd_def u_def pos_le_divide_eq)
qed

lemma rnd_ge_powi:
  assumes "2 powi e \<le> x" "-1074 \<le> e"
  shows "2 powi e \<le> rnd x"
proof -
  define u where "u = ulp_exp x"
  have x0: "0 < x" using assms(1) powi_pos [of e] by linarith
  show ?thesis
  proof (cases "u \<le> e")
    case True
    have "of_int (2 ^ nat (e - u)) = (2 :: rat) powi e / 2 powi u"
      using True by (simp only: powi_quotient)
    also have "\<dots> \<le> x / 2 powi u"
      using assms(1) by (simp add: divide_right_mono)
    finally have "2 ^ nat (e - u) \<le> rhe (x / 2 powi u)"
      using rhe_mono rhe_of_int by metis
    then have "(of_int (2 ^ nat (e - u)) :: rat) \<le> of_int (rhe (x / 2 powi u))"
      by (simp only: of_int_le_iff)
    then have "2 powi e / 2 powi u \<le> (of_int (rhe (x / 2 powi u)) :: rat)"
      using True by (simp only: powi_quotient)
    then show ?thesis
      using x0 by (simp add: rnd_def u_def pos_divide_le_eq)
  next
    case False
    then have u: "u = ilog2 x - 52"
      using assms(2) x0 by (simp add: u_def ulp_exp_def)
    have "of_int 1 \<le> x / 2 powi u"
    proof -
      have "(2 :: rat) powi u \<le> 2 powi ilog2 x" by (intro powi_mono2) (simp add: u)
      then have "2 powi u \<le> x" using ilog2_bounds(1) [OF x0] by linarith
      then show ?thesis by (simp add: pos_le_divide_eq)
    qed
    then have "1 \<le> rhe (x / 2 powi u)"
      using rhe_mono rhe_of_int by metis
    then have "2 powi u \<le> rnd x"
      using x0 by (simp add: rnd_def u_def)
    then show ?thesis
      using False powi_mono2 [of e u] by linarith
  qed
qed

lemma rnd_mono_pos:
  assumes "0 < x" "x \<le> y"
  shows "rnd x \<le> rnd y"
proof (cases "ulp_exp x = ulp_exp y")
  case True
  have "rhe (x / 2 powi ulp_exp x) \<le> rhe (y / 2 powi ulp_exp y)"
    using assms by (intro rhe_mono) (simp add: True divide_right_mono)
  then have "(of_int (rhe (x / 2 powi ulp_exp x)) :: rat) \<le> of_int (rhe (y / 2 powi ulp_exp y))"
    by (simp only: of_int_le_iff)
  then show ?thesis
    using assms True by (simp add: rnd_def)
next
  case False
  have m: "ilog2 x \<le> ilog2 y" using assms by (rule ilog2_mono)
  have e: "-1022 < ilog2 y" "ilog2 x < ilog2 y"
    using False m assms by (auto simp: ulp_exp_def max_def split: if_splits)
  have "rnd x \<le> 2 powi ilog2 y"
  proof (rule rnd_le_powi)
    have "x < 2 powi (ilog2 x + 1)" using assms(1) by (rule ilog2_bounds)
    also have "\<dots> \<le> 2 powi ilog2 y" using e(2) by (intro powi_mono2) simp
    finally show "x \<le> 2 powi ilog2 y" by simp
  qed (use assms e in auto)
  also have "\<dots> \<le> rnd y"
    using assms ilog2_bounds(1) [of y] e by (intro rnd_ge_powi) auto
  finally show ?thesis .
qed

lemma rnd_mono:
  assumes "x \<le> y"
  shows "rnd x \<le> rnd y"
proof -
  consider "0 < x" | "x = 0" | "x < 0" "0 \<le> y" | "y < 0"
    by linarith
  then show ?thesis
  proof cases
    case 1 with assms show ?thesis by (intro rnd_mono_pos)
  next
    case 2 with assms show ?thesis by (simp add: rnd_nonneg)
  next
    case 3
    then have "0 \<le> rnd (- x)" "0 \<le> rnd y" by (simp_all add: rnd_nonneg)
    then show ?thesis by (simp add: rnd_minus)
  next
    case 4
    with assms have "rnd (- y) \<le> rnd (- x)" by (intro rnd_mono_pos) simp_all
    then show ?thesis by (simp add: rnd_minus)
  qed
qed

subsection \<open>Relative error\<close>

lemma rnd_err_pos:
  assumes "2 powi (-1022) \<le> x"
  shows "\<bar>rnd x - x\<bar> \<le> x * 2 powi (-53)"
proof -
  have x0: "0 < x" using assms powi_pos [of "-1022"] by linarith
  have "\<not> ilog2 x < -1022"
    using assms x0 by (simp add: ilog2_less_iff)
  then have u: "ulp_exp x = ilog2 x - 52"
    using x0 by (simp add: ulp_exp_def)
  define q where "q = x / 2 powi ulp_exp x"
  have "rnd x - x = (of_int (rhe q) - q) * 2 powi ulp_exp x"
    using x0 by (simp add: rnd_def q_def left_diff_distrib)
  then have "\<bar>rnd x - x\<bar> = \<bar>of_int (rhe q) - q\<bar> * 2 powi ulp_exp x"
    by (simp add: abs_mult)
  also have "\<dots> \<le> 1 / 2 * 2 powi ulp_exp x"
    using rhe_err [of q] by (intro mult_right_mono) auto
  also have "1 / 2 * 2 powi ulp_exp x = 2 powi (-1) * (2 :: rat) powi ulp_exp x"
    by (simp add: power_int_minus)
  also have "\<dots> = 2 powi ilog2 x * 2 powi (-53)"
    by (simp only: u flip: powi_split) simp
  also have "\<dots> \<le> x * 2 powi (-53)"
    using ilog2_bounds(1) [OF x0] by (intro mult_right_mono) auto
  finally show ?thesis .
qed

section \<open>Numbers and their arithmetic\<close>

datatype jsnum = NaN | PInf | NInf | Fin rat

definition fl :: "rat \<Rightarrow> jsnum" where
  "fl x = (let r = rnd x in
     if \<bar>r\<bar> < 2 ^ 1024 then Fin r else if 0 < r then PInf else NInf)"

abbreviation num_int :: "int \<Rightarrow> jsnum" where
  "num_int n \<equiv> Fin (of_int n)"

fun js_neg :: "jsnum \<Rightarrow> jsnum" where
  "js_neg NaN = NaN"
| "js_neg PInf = NInf"
| "js_neg NInf = PInf"
| "js_neg (Fin a) = Fin (- a)"

fun js_add :: "jsnum \<Rightarrow> jsnum \<Rightarrow> jsnum" where
  "js_add (Fin a) (Fin b) = fl (a + b)"
| "js_add NaN _ = NaN"
| "js_add _ NaN = NaN"
| "js_add PInf NInf = NaN"
| "js_add NInf PInf = NaN"
| "js_add PInf _ = PInf"
| "js_add _ PInf = PInf"
| "js_add NInf _ = NInf"
| "js_add _ NInf = NInf"

definition js_sub :: "jsnum \<Rightarrow> jsnum \<Rightarrow> jsnum" where
  "js_sub a b = js_add a (js_neg b)"

text \<open>The sign of a number, 0 for zero and NaN; it decides a product with an infinity.\<close>

fun js_sgn :: "jsnum \<Rightarrow> int" where
  "js_sgn NaN = 0"
| "js_sgn PInf = 1"
| "js_sgn NInf = -1"
| "js_sgn (Fin a) = (if 0 < a then 1 else if a < 0 then -1 else 0)"

definition inf_of_sgn :: "int \<Rightarrow> jsnum" where
  "inf_of_sgn s = (if 0 < s then PInf else if s < 0 then NInf else NaN)"

fun js_mul :: "jsnum \<Rightarrow> jsnum \<Rightarrow> jsnum" where
  "js_mul (Fin a) (Fin b) = fl (a * b)"
| "js_mul NaN _ = NaN"
| "js_mul _ NaN = NaN"
| "js_mul a b = inf_of_sgn (js_sgn a * js_sgn b)"

fun js_div :: "jsnum \<Rightarrow> jsnum \<Rightarrow> jsnum" where
  "js_div (Fin a) (Fin b) = (if b = 0 then inf_of_sgn (js_sgn (Fin a)) else fl (a / b))"
| "js_div NaN _ = NaN"
| "js_div _ NaN = NaN"
| "js_div (Fin a) _ = Fin 0"
| "js_div a (Fin b) = inf_of_sgn (js_sgn a * (if b = 0 then 1 else js_sgn (Fin b)))"
| "js_div _ _ = NaN"

fun js_lt :: "jsnum \<Rightarrow> jsnum \<Rightarrow> bool" where
  "js_lt (Fin a) (Fin b) = (a < b)"
| "js_lt NaN _ = False"
| "js_lt _ NaN = False"
| "js_lt NInf b = (b \<noteq> NInf)"
| "js_lt PInf _ = False"
| "js_lt _ PInf = True"
| "js_lt _ NInf = False"

fun js_le :: "jsnum \<Rightarrow> jsnum \<Rightarrow> bool" where
  "js_le (Fin a) (Fin b) = (a \<le> b)"
| "js_le NaN _ = False"
| "js_le _ NaN = False"
| "js_le NInf _ = True"
| "js_le _ PInf = True"
| "js_le _ _ = False"

text \<open>\<open>Number.isFinite\<close>, \<open>Number.isInteger\<close>, \<open>Number.isSafeInteger\<close>.\<close>

fun is_finite :: "jsnum \<Rightarrow> bool" where
  "is_finite (Fin _) = True"
| "is_finite _ = False"

fun is_integer :: "jsnum \<Rightarrow> bool" where
  "is_integer (Fin a) = (of_int \<lfloor>a\<rfloor> = a)"
| "is_integer _ = False"

fun is_safe_integer :: "jsnum \<Rightarrow> bool" where
  "is_safe_integer (Fin a) = (of_int \<lfloor>a\<rfloor> = a \<and> \<bar>a\<bar> \<le> 2 ^ 53 - 1)"
| "is_safe_integer _ = False"

text \<open>\<open>Math.round\<close> rounds halves up; \<open>Math.floor\<close>; both leave infinities and NaN alone.\<close>

fun math_round :: "jsnum \<Rightarrow> jsnum" where
  "math_round (Fin a) = num_int \<lfloor>a + 1 / 2\<rfloor>"
| "math_round a = a"

fun math_floor :: "jsnum \<Rightarrow> jsnum" where
  "math_floor (Fin a) = num_int \<lfloor>a\<rfloor>"
| "math_floor a = a"

definition math_max :: "jsnum \<Rightarrow> jsnum \<Rightarrow> jsnum" where
  "math_max a b = (if a = NaN \<or> b = NaN then NaN else if js_lt a b then b else a)"

definition math_min :: "jsnum \<Rightarrow> jsnum \<Rightarrow> jsnum" where
  "math_min a b = (if a = NaN \<or> b = NaN then NaN else if js_lt b a then b else a)"

definition math_abs :: "jsnum \<Rightarrow> jsnum" where
  "math_abs a = (if js_lt a (Fin 0) then js_neg a else a)"

lemma is_finite_iff: "is_finite a \<longleftrightarrow> (\<exists>x. a = Fin x)"
  by (cases a) auto

lemma is_integer_iff: "is_integer a \<longleftrightarrow> (\<exists>n. a = num_int n)"
proof (cases a)
  case (Fin x)
  have "of_int \<lfloor>x\<rfloor> = x \<longleftrightarrow> (\<exists>n. x = of_int n)"
    by (metis floor_of_int)
  then show ?thesis by (simp add: Fin)
qed auto

lemma is_integer_num_int [simp]: "is_integer (num_int n)"
  by simp

lemma js_le_Fin [simp]: "js_le (Fin a) (Fin b) \<longleftrightarrow> a \<le> b"
  by simp

lemma js_le_refl: "a \<noteq> NaN \<Longrightarrow> js_le a a"
  by (cases a) auto

lemma js_le_trans: "js_le a b \<Longrightarrow> js_le b c \<Longrightarrow> js_le a c"
  by (cases a; cases b; cases c) auto

lemma js_lt_imp_le: "js_lt a b \<Longrightarrow> js_le a b"
  by (cases a; cases b) auto

lemma js_lt_not_le: "a \<noteq> NaN \<Longrightarrow> b \<noteq> NaN \<Longrightarrow> js_lt a b \<longleftrightarrow> \<not> js_le b a"
  by (cases a; cases b) auto

section \<open>Rounded operations: order, exactness, error\<close>

lemma fl_not_NaN [simp]: "fl x \<noteq> NaN"
  by (simp add: fl_def Let_def)

lemma fl_mono: "x \<le> y \<Longrightarrow> js_le (fl x) (fl y)"
  using rnd_mono [of x y] by (auto simp: fl_def Let_def abs_if split: if_splits)

lemma fl_0 [simp]: "fl 0 = Fin 0"
  by (simp add: fl_def)

lemma fl_nonneg: "0 \<le> x \<Longrightarrow> js_le (Fin 0) (fl x)"
  using fl_mono [of 0 x] by simp

lemma fl_FinD: "fl x = Fin r \<Longrightarrow> r = rnd x \<and> \<bar>r\<bar> < 2 ^ 1024"
  by (auto simp: fl_def Let_def split: if_splits)

lemma fl_exact: "rnd x = x \<Longrightarrow> \<bar>x\<bar> < 2 ^ 1024 \<Longrightarrow> fl x = Fin x"
  by (simp add: fl_def)

lemma fl_of_int: "\<bar>n\<bar> \<le> 2 ^ 53 \<Longrightarrow> fl (of_int n) = num_int n"
proof (rule fl_exact)
  assume n: "\<bar>n\<bar> \<le> 2 ^ 53"
  then show "rnd (of_int n) = of_int n" by (rule rnd_of_int)
  have "(of_int \<bar>n\<bar> :: rat) \<le> of_int (2 ^ 53)" using n by (simp only: of_int_le_iff)
  then have "\<bar>of_int n :: rat\<bar> \<le> 2 ^ 53" by simp
  also have "(2 :: rat) ^ 53 < 2 ^ 1024" by (rule power_strict_increasing) simp_all
  finally show "\<bar>of_int n :: rat\<bar> < 2 ^ 1024" .
qed

text \<open>Evaluation on integer literals.\<close>

lemma fl_numeral: "(numeral k :: int) \<le> 2 ^ 53 \<Longrightarrow> fl (numeral k) = Fin (numeral k)"
  using fl_of_int [of "numeral k"] by simp

lemma fl_neg_numeral: "(numeral k :: int) \<le> 2 ^ 53 \<Longrightarrow> fl (- numeral k) = Fin (- numeral k)"
  using fl_of_int [of "- numeral k"] by simp

lemma fl_1: "fl 1 = Fin 1"
  using fl_of_int [of 1] by simp

lemmas fl_eval = fl_numeral fl_neg_numeral fl_1

lemma floor_rat_numeral [simp]: "\<lfloor>numeral a / numeral b :: rat\<rfloor> = numeral a div numeral b"
  using floor_divide_of_int_eq [of "numeral a" "numeral b", where ?'a = rat] by simp

lemma floor_rat_neg_numeral [simp]: "\<lfloor>- (numeral a / numeral b) :: rat\<rfloor> = - numeral a div numeral b"
  using floor_divide_of_int_eq [of "- numeral a" "numeral b", where ?'a = rat] by simp

text \<open>Sums and differences of integers up to \<open>2 ^ 53\<close> are exact: satoshi arithmetic is integer arithmetic.\<close>

lemma js_add_int: "\<bar>a + b\<bar> \<le> 2 ^ 53 \<Longrightarrow> js_add (num_int a) (num_int b) = num_int (a + b)"
  using fl_of_int [of "a + b"] by simp

lemma js_sub_int: "\<bar>a - b\<bar> \<le> 2 ^ 53 \<Longrightarrow> js_sub (num_int a) (num_int b) = num_int (a - b)"
  using fl_of_int [of "a - b"] by (simp add: js_sub_def)

text \<open>
  Dividing an integer by \<open>k\<close> and multiplying it back, each rounded, then \<open>Math.round\<close>: the
  integer comes back, as long as it is at most \<open>2 ^ 50\<close>.
\<close>

lemma fl_err:
  assumes "2 powi (-1022) \<le> x" "x < 2 ^ 1023"
  shows "\<exists>r. fl x = Fin r \<and> \<bar>r - x\<bar> \<le> x * 2 powi (-53)"
proof (intro exI conjI)
  have e: "\<bar>rnd x - x\<bar> \<le> x * 2 powi (-53)" using assms(1) by (rule rnd_err_pos)
  have x0: "0 < x" using assms(1) powi_pos [of "-1022"] by linarith
  have "x * 2 powi (-53) \<le> x * 1"
    using x0 powi_mono2 [of "-53" 0] by (intro mult_left_mono) auto
  then have "\<bar>rnd x\<bar> \<le> 2 * x" using e x0 by linarith
  also have "\<dots> < 2 * 2 ^ 1023" using assms(2) by (rule mult_strict_left_mono) simp
  also have "\<dots> = (2 :: rat) ^ 1024" by (simp only: power_Suc [symmetric]) simp
  finally show "fl x = Fin (rnd x)" by (simp add: fl_def)
  show "\<bar>rnd x - x\<bar> \<le> x * 2 powi (-53)" by (rule e)
qed

text \<open>
  The classic float round trip of an amount: \<open>n / k\<close> rounded, times \<open>k\<close> rounded, then
  \<open>Math.round\<close>. Two relative errors of \<open>2 powi -53\<close> on a value up to \<open>2 ^ 50\<close> stay under one half.
\<close>

lemma two_roundings:
  assumes "0 < k" "k \<le> 2 ^ 60" "0 \<le> n" "n \<le> 2 ^ 50"
  shows "math_round (js_mul (js_div (num_int n) (num_int k)) (num_int k)) = num_int n"
proof (cases "n = 0")
  case True
  have "\<lfloor>1 / 2 :: rat\<rfloor> = 0" by (intro floor_unique) auto
  with True show ?thesis using assms by simp
next
  case False
  define e :: rat where "e = 2 powi (-53)"
  have e: "0 < e" "e * 2 ^ 50 = 1 / 8" "e < 1 / 4"
    by (simp_all add: e_def power_int_minus)
  define N K :: rat where "N = of_int n" and "K = of_int k"
  have K: "0 < K" "1 \<le> K" using assms by (simp_all add: K_def)
  have "(of_int k :: rat) \<le> of_int (2 ^ 60)" using assms(2) by (simp only: of_int_le_iff)
  then have K60: "K \<le> 2 ^ 60" by (simp add: K_def)
  have N1: "1 \<le> N" using False assms by (simp add: N_def)
  have "(of_int n :: rat) \<le> of_int (2 ^ 50)" using assms(4) by (simp only: of_int_le_iff)
  then have N50: "N \<le> 2 ^ 50" by (simp add: N_def)
  have pw: "(2 :: rat) ^ 51 < 2 ^ 1023" by (rule power_strict_increasing) simp_all
  have big: "v < 2 ^ 1023" if "v \<le> N + 1 / 8" for v :: rat
  proof -
    have "v \<le> 2 ^ 51" using that N50 by simp
    then show ?thesis using pw by (rule le_less_trans)
  qed
  have p60: "(2 :: rat) powi (-1022) \<le> 1 / 2 ^ 60"
    using powi_mono2 [of "-1022" "-60"] by (simp add: power_int_minus inverse_eq_divide)
  define x where "x = N / K"
  have xlo: "2 powi (-1022) \<le> x"
  proof -
    have "1 / 2 ^ 60 \<le> 1 / K" using K60 K by (intro divide_left_mono) auto
    also have "\<dots> \<le> x" unfolding x_def using N1 K by (intro divide_right_mono) auto
    finally show ?thesis using p60 by linarith
  qed
  have xhi: "x < 2 ^ 1023"
  proof -
    have "x \<le> N / 1" unfolding x_def using K N1 by (intro divide_left_mono) auto
    then show ?thesis by (intro big) simp
  qed
  obtain r where r: "fl x = Fin r" "\<bar>r - x\<bar> \<le> x * e"
    using fl_err [OF xlo xhi] by (auto simp: e_def)
  have xK: "x * K = N" using K by (simp add: x_def)
  have d1: "\<bar>r * K - N\<bar> \<le> N * e"
  proof -
    have "\<bar>r * K - N\<bar> = \<bar>r - x\<bar> * K"
      using K xK by (metis abs_mult abs_of_pos left_diff_distrib)
    also have "\<dots> \<le> x * e * K" using r(2) K by (intro mult_right_mono) auto
    also have "\<dots> = N * e" using xK by (metis mult.commute mult.left_commute)
    finally show ?thesis .
  qed
  have Ne: "N * e \<le> 1 / 8"
    using mult_right_mono [OF N50, of e] e(1) by (simp only: e(2) mult.commute [of "2 ^ 50" e])
  define y where "y = r * K"
  have y: "N - 1 / 8 \<le> y" "y \<le> N + 1 / 8" "\<bar>y - N\<bar> \<le> 1 / 8"
    using d1 Ne unfolding y_def by linarith+
  have ylo: "2 powi (-1022) \<le> y"
    using y(1) N1 powi_mono2 [of "-1022" "-1"] by (simp add: power_int_minus)
  have yhi: "y < 2 ^ 1023" using y(2) by (rule big)
  obtain z where z: "fl y = Fin z" "\<bar>z - y\<bar> \<le> y * e"
    using fl_err [OF ylo yhi] by (auto simp: e_def)
  have "y * e \<le> (N + 1 / 8) * e" using y(2) e by (intro mult_right_mono) auto
  also have "\<dots> < 1 / 8 + 1 / 16" using Ne e by (simp add: distrib_right)
  finally have "\<bar>z - y\<bar> < 1 / 8 + 1 / 16" using z(2) by linarith
  moreover have "\<bar>y - N\<bar> \<le> 1 / 8" by (rule y(3))
  ultimately have "\<lfloor>z + 1 / 2\<rfloor> = n"
    unfolding N_def by (intro floor_unique; linarith)
  then show ?thesis
    using assms K r(1) z(1) by (simp add: x_def y_def N_def K_def)
qed

end
