(* ===== verification/Decoders.thy ===== *)
theory Decoders
  imports Utf16 Messages JsNum
begin

text \<open>
  The text normalizers and decoders of \<open>src/safety/scanner/regex.ts\<close>, on UTF-16 code units: removal of invisible
  characters, homoglyphs and leetspeak, escapes, HTML entities, ROT13, base32, hidden Unicode tags and variation selectors,
  Braille and numeric ASCII. \<open>normalize('NFKC')\<close>, \<open>decodeURIComponent\<close> and \<open>Buffer\<close>'s base64 and UTF-8 are parameters.
\<close>

record text_lib =
  tl_nfkc :: "ustr \<Rightarrow> ustr"
  tl_uri :: "ustr \<Rightarrow> ustr option"
  tl_utf8 :: "nat list \<Rightarrow> ustr"
  tl_base64 :: "ustr \<Rightarrow> nat list"
  tl_lower :: "ustr \<Rightarrow> ustr"

section \<open>White space and invisible characters\<close>

fun collapse :: "bool \<Rightarrow> ustr \<Rightarrow> ustr" where
  "collapse after [] = []"
| "collapse after (c # s) =
     (if is_space_unit c then (if after then collapse True s else 32 # collapse True s) else c # collapse False s)"

definition utrim :: "ustr \<Rightarrow> ustr" where
  "utrim s = rev (dropWhile is_space_unit (rev (dropWhile is_space_unit s)))"

definition invisible :: "nat \<Rightarrow> bool" where
  "invisible c = (zero_width c \<or> c \<le> 8 \<or> c = 11 \<or> c = 12 \<or> 14 \<le> c \<and> c \<le> 31)"

text \<open>\<open>/[\u{E0001}-\u{E007F}]/gu\<close>: two code units each.\<close>

definition is_tag_pair :: "nat \<Rightarrow> nat \<Rightarrow> bool" where
  "is_tag_pair h l = (h = 0xDB40 \<and> 0xDC01 \<le> l \<and> l \<le> 0xDC7F)"

fun replace_tags :: "ustr \<Rightarrow> ustr \<Rightarrow> ustr" where
  "replace_tags r (h # l # s) = (if is_tag_pair h l then r @ replace_tags r s else h # replace_tags r (l # s))"
| "replace_tags r s = s"

definition normalizeStrip :: "ustr \<Rightarrow> ustr" where
  "normalizeStrip s =
     utrim (collapse False (replace_tags [] (filter (\<lambda>c. \<not> variation_selector c) (filter (\<lambda>c. \<not> invisible c) s))))"

definition normalizeSpace :: "ustr \<Rightarrow> ustr" where
  "normalizeSpace s =
     utrim (collapse False (replace_tags [32]
       (map (\<lambda>c. if variation_selector c then 32 else c) (map (\<lambda>c. if invisible c then 32 else c) s))))"

definition normalizeFullWidth :: "ustr \<Rightarrow> ustr" where
  "normalizeFullWidth s = map (\<lambda>c. if 0xFF01 \<le> c \<and> c \<le> 0xFF5E then c - 0xFEE0 else c) s"

section \<open>Characters that look like others\<close>

definition homoglyphs :: "(nat \<times> char) list" where
  "homoglyphs =
     [(0x430, CHR ''a''), (0x435, CHR ''e''), (0x43E, CHR ''o''), (0x440, CHR ''p''), (0x441, CHR ''c''),
      (0x443, CHR ''y''), (0x445, CHR ''x''), (0x456, CHR ''i''), (0x458, CHR ''j''), (0x4BB, CHR ''h''),
      (0x410, CHR ''A''), (0x412, CHR ''B''), (0x415, CHR ''E''), (0x41A, CHR ''K''), (0x41C, CHR ''M''),
      (0x41D, CHR ''H''), (0x41E, CHR ''O''), (0x420, CHR ''P''), (0x421, CHR ''C''), (0x422, CHR ''T''),
      (0x425, CHR ''X''), (0x4AE, CHR ''Y''),
      (0x3B1, CHR ''a''), (0x3BF, CHR ''o''), (0x3C1, CHR ''p''), (0x3B5, CHR ''e''),
      (0x391, CHR ''A''), (0x392, CHR ''B''), (0x395, CHR ''E''), (0x39A, CHR ''K''), (0x39C, CHR ''M''),
      (0x39D, CHR ''N''), (0x39F, CHR ''O''), (0x3A1, CHR ''P''), (0x3A4, CHR ''T''), (0x3A7, CHR ''X''),
      (0x43F, CHR ''n''), (0x3C5, CHR ''u''), (0x3B9, CHR ''i''), (0x457, CHR ''i''), (0x4CF, CHR ''l''),
      (0x432, CHR ''b''), (0x43D, CHR ''n'')]"

definition homoglyph_class :: "nat \<Rightarrow> bool" where
  "homoglyph_class c = (0x391 \<le> c \<and> c \<le> 0x3A9 \<or> 0x3B1 \<le> c \<and> c \<le> 0x3C9 \<or> 0x410 \<le> c \<and> c \<le> 0x44F
     \<or> 0x456 \<le> c \<and> c \<le> 0x458 \<or> c = 0x4AE \<or> c = 0x4BB \<or> c = 0x4CF)"

definition mapped :: "(nat \<times> char) list \<Rightarrow> nat \<Rightarrow> nat" where
  "mapped m c = (case map_of m c of None \<Rightarrow> c | Some x \<Rightarrow> of_char x)"

definition normalizeHomoglyphs :: "ustr \<Rightarrow> ustr" where
  "normalizeHomoglyphs s = map (\<lambda>c. if homoglyph_class c then mapped homoglyphs c else c) s"

definition small_caps :: "(nat \<times> char) list" where
  "small_caps =
     [(0x1D00, CHR ''a''), (0x1D04, CHR ''c''), (0x1D05, CHR ''d''), (0x1D07, CHR ''e''), (0x1D0A, CHR ''j''),
      (0x1D0B, CHR ''k''), (0x1D0C, CHR ''l''), (0x1D0D, CHR ''m''), (0x1D0F, CHR ''o''), (0x1D18, CHR ''p''),
      (0x1D1B, CHR ''t''), (0x1D1C, CHR ''u''), (0x1D20, CHR ''v''), (0x1D21, CHR ''w''), (0x1D22, CHR ''z''),
      (0x299, CHR ''b''), (0x29C, CHR ''h''), (0x26A, CHR ''i''), (0x274, CHR ''n''), (0x280, CHR ''r''),
      (0x28F, CHR ''y''), (0x1D7B, CHR ''i''), (0x1C0, CHR ''l''), (0xA731, CHR ''s''), (0xA7AF, CHR ''q''),
      (0x1DDB, CHR ''g''), (0x1DB6, CHR ''u''), (0x1D2C, CHR ''A''), (0x1D2E, CHR ''B''), (0x1D30, CHR ''D''),
      (0x1D31, CHR ''E''), (0x1D33, CHR ''G''), (0x1D34, CHR ''H''), (0x1D35, CHR ''I''), (0x1D36, CHR ''J''),
      (0x1D37, CHR ''K''), (0x1D38, CHR ''L''), (0x1D39, CHR ''M''), (0x1D3A, CHR ''N''), (0x1D3C, CHR ''O''),
      (0x1D3E, CHR ''P''), (0x1D3F, CHR ''R''), (0x1D40, CHR ''T''), (0x1D41, CHR ''U''), (0x1D42, CHR ''W'')]"

definition normalizeConfusables :: "text_lib \<Rightarrow> ustr \<Rightarrow> ustr" where
  "normalizeConfusables lib s =
     map (mapped small_caps) (normalizeHomoglyphs (filter (\<lambda>c. \<not> (0x300 \<le> c \<and> c \<le> 0x36F)) (tl_nfkc lib s)))"

definition leet :: "(nat \<times> char) list" where
  "leet = [(48, CHR ''o''), (49, CHR ''i''), (51, CHR ''e''), (52, CHR ''a''), (53, CHR ''s''), (55, CHR ''t''),
     (64, CHR ''a''), (36, CHR ''s''), (33, CHR ''i'')]"

definition normalizeLeetspeak :: "ustr \<Rightarrow> ustr" where
  "normalizeLeetspeak s = map (mapped leet) s"

definition normalizeForDetection :: "text_lib \<Rightarrow> ustr \<Rightarrow> ustr" where
  "normalizeForDetection lib s = normalizeLeetspeak (normalizeConfusables lib (normalizeStrip s))"

section \<open>Words with a letter put in front\<close>

definition word_unit :: "nat \<Rightarrow> bool" where
  "word_unit c = (48 \<le> c \<and> c \<le> 57 \<or> 65 \<le> c \<and> c \<le> 90 \<or> 97 \<le> c \<and> c \<le> 122 \<or> c = 95)"

definition letter_unit :: "nat \<Rightarrow> bool" where
  "letter_unit c = (65 \<le> c \<and> c \<le> 90 \<or> 97 \<le> c \<and> c \<le> 122)"

definition lower_unit :: "nat \<Rightarrow> nat" where
  "lower_unit c = (if 65 \<le> c \<and> c \<le> 90 then c + 32 else c)"

definition attack_stems :: "string list" where
  "attack_stems = [''ignore'', ''instruct'', ''forget'', ''override'', ''system'', ''prompt'',
    ''disregard'', ''reveal'', ''pretend'', ''jailbreak'', ''bypass'', ''restrict'',
    ''filter'', ''policy'', ''safety'', ''guardrail'', ''uncensor'', ''previous'',
    ''command'', ''execute'', ''admin'', ''overrid'', ''unlock'', ''unrestrict'', ''prior'',
    ''censor'', ''delete'', ''exfiltrat'', ''inject'', ''manipulat'', ''extract'',
    ''abandon'', ''hijack'', ''exploit'', ''elevat'', ''privilege'', ''comply'',
    ''obey'', ''surrender'', ''config'', ''secret'', ''credential'', ''password'']"

text \<open>A match of \<open>/\b[a-zA-Z]{5,}\b/\<close> is a whole run of word characters, all of them letters.\<close>

definition unbreak_word :: "ustr \<Rightarrow> ustr" where
  "unbreak_word w =
     (if 5 \<le> length w \<and> list_all letter_unit w \<and> list_ex (\<lambda>st. prefix (units st) (map lower_unit (drop 1 w))) attack_stems
      then drop 1 w else w)"

fun unbreak :: "ustr \<Rightarrow> ustr \<Rightarrow> ustr" where
  "unbreak w [] = unbreak_word w"
| "unbreak w (c # s) = (if word_unit c then unbreak (w @ [c]) s else unbreak_word w @ c # unbreak [] s)"

definition normalizeTokenBreak :: "ustr \<Rightarrow> ustr" where
  "normalizeTokenBreak s = unbreak [] s"

section \<open>Escapes\<close>

definition hex_unit :: "nat \<Rightarrow> bool" where
  "hex_unit c = (48 \<le> c \<and> c \<le> 57 \<or> 65 \<le> c \<and> c \<le> 70 \<or> 97 \<le> c \<and> c \<le> 102)"

definition hex_value :: "nat \<Rightarrow> nat" where
  "hex_value c = (if c \<le> 57 then c - 48 else if c \<le> 70 then c - 55 else c - 87)"

definition hex_number :: "ustr \<Rightarrow> nat" where
  "hex_number ds = foldl (\<lambda>n c. 16 * n + hex_value c) 0 ds"

fun has_percent :: "ustr \<Rightarrow> bool" where
  "has_percent (p # a # b # s) = (p = 37 \<and> hex_unit a \<and> hex_unit b \<or> has_percent (a # b # s))"
| "has_percent _ = False"

definition decodeUrlEncoding :: "text_lib \<Rightarrow> ustr \<Rightarrow> ustr" where
  "decodeUrlEncoding lib s = (if \<not> has_percent s then s else case tl_uri lib s of None \<Rightarrow> s | Some t \<Rightarrow> t)"

fun decodeHexEscapes :: "ustr \<Rightarrow> ustr" where
  "decodeHexEscapes (c # x # a # b # s) =
     (if c = 92 \<and> x = 120 \<and> hex_unit a \<and> hex_unit b then hex_number [a, b] # decodeHexEscapes s
      else c # decodeHexEscapes (x # a # b # s))"
| "decodeHexEscapes s = s"

fun decodeUnicodeEscapes :: "ustr \<Rightarrow> ustr" where
  "decodeUnicodeEscapes (c # x # a # b # d # e # s) =
     (if c = 92 \<and> x = 117 \<and> list_all hex_unit [a, b, d, e] then hex_number [a, b, d, e] # decodeUnicodeEscapes s
      else c # decodeUnicodeEscapes (x # a # b # d # e # s))"
| "decodeUnicodeEscapes s = s"

text \<open>\<open>replaceAll\<close> of a text that is not empty.\<close>

function replace_all :: "ustr \<Rightarrow> ustr \<Rightarrow> ustr \<Rightarrow> ustr" where
  "replace_all p r [] = []"
| "replace_all p r (c # s) =
     (if p \<noteq> [] \<and> prefix p (c # s) then r @ replace_all p r (drop (length p) (c # s)) else c # replace_all p r s)"
  by pat_completeness auto
termination
  by (relation "measure (\<lambda>(p, r, s). length s)") (auto simp: neq_Nil_conv)

definition entities :: "(string \<times> nat) list" where
  "entities = [(''&lt;'', 60), (''&gt;'', 62), (''&amp;'', 38), (''&quot;'', 34), (''&apos;'', 39), (''&nbsp;'', 32)]"

text \<open>\<open>String.fromCharCode\<close> of a parsed number: a double, taken modulo \<open>2^16\<close>.\<close>

definition char_code :: "nat \<Rightarrow> nat" where
  "char_code n = (case fl (of_nat n) of Fin r \<Rightarrow> nat (\<lfloor>r\<rfloor> mod 65536) | _ \<Rightarrow> 0)"

definition digit_unit :: "nat \<Rightarrow> bool" where
  "digit_unit c = (48 \<le> c \<and> c \<le> 57)"

definition dec_number :: "ustr \<Rightarrow> nat" where
  "dec_number ds = foldl (\<lambda>n c. 10 * n + (c - 48)) 0 ds"

text \<open>\<open>&#\<close>, then the text \<open>mark\<close>, then one or more digits, then \<open>;\<close>.\<close>

definition entity_at :: "ustr \<Rightarrow> (nat \<Rightarrow> bool) \<Rightarrow> ustr \<Rightarrow> (ustr \<times> ustr) option" where
  "entity_at mark digit s =
     (let p = [38, 35] @ mark; ds = takeWhile digit (drop (length p) s); r = dropWhile digit (drop (length p) s) in
      if prefix p s \<and> ds \<noteq> [] \<and> r \<noteq> [] \<and> hd r = 59 then Some (ds, drop 1 r) else None)"

lemma entity_at_shorter: "entity_at mark digit s = Some (ds, r) \<Longrightarrow> length r < length s"
proof -
  assume e: "entity_at mark digit s = Some (ds, r)"
  let ?t = "drop (Suc (Suc (length mark))) s"
  have "r = drop 1 (dropWhile digit ?t)" "dropWhile digit ?t \<noteq> []"
    using e by (auto simp: entity_at_def Let_def split: if_splits)
  then have "length r < length (dropWhile digit ?t)" by (cases "dropWhile digit ?t") auto
  also have "\<dots> \<le> length ?t" by (rule length_dropWhile_le)
  also have "\<dots> \<le> length s" by simp
  finally show ?thesis .
qed

function decode_entities :: "ustr \<Rightarrow> (nat \<Rightarrow> bool) \<Rightarrow> (ustr \<Rightarrow> nat) \<Rightarrow> ustr \<Rightarrow> ustr" where
  "decode_entities mark digit number [] = []"
| "decode_entities mark digit number (c # s) = (case entity_at mark digit (c # s) of
       Some (ds, r) \<Rightarrow> char_code (number ds) # decode_entities mark digit number r
     | None \<Rightarrow> c # decode_entities mark digit number s)"
  by pat_completeness auto
termination
  by (relation "measure (\<lambda>(m, d, n, s). length s)") (use entity_at_shorter in fastforce)+

definition decodeHtmlEntities :: "ustr \<Rightarrow> ustr" where
  "decodeHtmlEntities s =
     decode_entities [120] hex_unit hex_number (decode_entities [] digit_unit dec_number
       (foldl (\<lambda>t e. replace_all (units (fst e)) [snd e] t) s entities))"

section \<open>Ciphers\<close>

definition rot13_unit :: "nat \<Rightarrow> nat" where
  "rot13_unit c =
     (if letter_unit c then (let base = (if c \<le> 90 then 65 else 97) in (c - base + 13) mod 26 + base) else c)"

definition rot13 :: "ustr \<Rightarrow> ustr" where
  "rot13 s = map rot13_unit s"

definition b32_unit :: "nat \<Rightarrow> bool" where
  "b32_unit c = (65 \<le> c \<and> c \<le> 90 \<or> 50 \<le> c \<and> c \<le> 55)"

definition b32_index :: "nat \<Rightarrow> nat" where
  "b32_index c = (if 65 \<le> c then c - 65 else c - 24)"

definition bits5 :: "nat \<Rightarrow> bool list" where
  "bits5 n = map (\<lambda>k. odd (n div 2 ^ k)) [4, 3, 2, 1, 0]"

definition byte_of :: "bool list \<Rightarrow> nat" where
  "byte_of bs = foldl (\<lambda>n b. 2 * n + (if b then 1 else 0)) 0 bs"

fun bytes_of_bits :: "bool list \<Rightarrow> nat list" where
  "bytes_of_bits (a # b # c # d # e # f # g # h # s) = byte_of [a, b, c, d, e, f, g, h] # bytes_of_bits s"
| "bytes_of_bits _ = []"

text \<open>\<open>None\<close> where it throws: a padding sign that is not at the end.\<close>

definition decodeBase32 :: "text_lib \<Rightarrow> ustr \<Rightarrow> ustr option" where
  "decodeBase32 lib s =
     (let clean = rev (dropWhile (\<lambda>c. c = 61) (rev s)) in
      if list_all b32_unit clean then Some (tl_utf8 lib (bytes_of_bits (concat (map (\<lambda>c. bits5 (b32_index c)) clean)))) else None)"

section \<open>Hidden text\<close>

fun code_points :: "ustr \<Rightarrow> nat list" where
  "code_points (h # l # s) =
     (if is_high h \<and> is_low l then (0x10000 + (h - 0xD800) * 0x400 + (l - 0xDC00)) # code_points s else h # code_points (l # s))"
| "code_points s = s"

definition units_of_point :: "nat \<Rightarrow> ustr" where
  "units_of_point c = (if c < 0x10000 then [c] else [0xD800 + (c - 0x10000) div 0x400, 0xDC00 + (c - 0x10000) mod 0x400])"

definition decodeUnicodeTags :: "ustr \<Rightarrow> ustr" where
  "decodeUnicodeTags s =
     (let ts = filter (\<lambda>c. 0xE0020 \<le> c \<and> c \<le> 0xE007E) (code_points s) in
      if length ts < 3 then [] else map (\<lambda>c. c - 0xE0000) ts)"

fun nibble_pairs :: "nat list \<Rightarrow> nat list" where
  "nibble_pairs (a # b # s) = (16 * (a - 0xFE00) + (b - 0xFE00)) # nibble_pairs s"
| "nibble_pairs _ = []"

definition decodeVariationSelectors :: "ustr \<Rightarrow> ustr" where
  "decodeVariationSelectors s =
     (let vs = filter variation_selector (code_points s) in
      if length vs < 4 then []
      else let p = filter (\<lambda>b. 32 \<le> b \<and> b \<le> 126) (nibble_pairs vs) in if length p < 3 then [] else p)"

definition braille :: "(nat \<times> char) list" where
  "braille =
     [(0x2801, CHR ''a''), (0x2803, CHR ''b''), (0x2809, CHR ''c''), (0x2819, CHR ''d''), (0x2811, CHR ''e''),
      (0x280B, CHR ''f''), (0x281B, CHR ''g''), (0x2813, CHR ''h''), (0x280A, CHR ''i''), (0x281A, CHR ''j''),
      (0x2805, CHR ''k''), (0x2807, CHR ''l''), (0x280D, CHR ''m''), (0x281D, CHR ''n''), (0x2815, CHR ''o''),
      (0x280F, CHR ''p''), (0x281F, CHR ''q''), (0x2817, CHR ''r''), (0x280E, CHR ''s''), (0x281E, CHR ''t''),
      (0x2825, CHR ''u''), (0x2827, CHR ''v''), (0x283A, CHR ''w''), (0x282D, CHR ''x''), (0x283D, CHR ''y''),
      (0x2835, CHR ''z'')]"

definition is_braille :: "nat \<Rightarrow> bool" where
  "is_braille c = (0x2800 \<le> c \<and> c \<le> 0x28FF)"

definition decodeBraille :: "ustr \<Rightarrow> ustr" where
  "decodeBraille s = concat (map (\<lambda>c. if is_braille c then (case map_of braille c of None \<Rightarrow> [] | Some x \<Rightarrow> [of_char x])
     else [c]) s)"

section \<open>Numbers for characters\<close>

fun tokens_go :: "ustr \<Rightarrow> ustr \<Rightarrow> ustr list" where
  "tokens_go w [] = [w]"
| "tokens_go w (c # s) = (if is_space_unit c then (if w = [] then tokens_go [] s else w # tokens_go [] s) else tokens_go (w @ [c]) s)"

text \<open>\<open>text.trim().split(/\s+/)\<close>.\<close>

definition tokens :: "ustr \<Rightarrow> ustr list" where
  "tokens s = tokens_go [] (utrim s)"

definition bin_number :: "ustr \<Rightarrow> nat" where
  "bin_number ds = foldl (\<lambda>n c. 2 * n + (c - 48)) 0 ds"

definition printable :: "nat list \<Rightarrow> bool" where
  "printable bs = list_all (\<lambda>b. 32 \<le> b \<and> b \<le> 126) bs"

definition decodeNumericAscii :: "ustr \<Rightarrow> ustr" where
  "decodeNumericAscii s =
     (let ts = tokens s;
          bin = map bin_number ts; dec = map dec_number ts in
      if length ts < 4 then []
      else if list_all (\<lambda>t. length t = 8 \<and> list_all (\<lambda>c. c = 48 \<or> c = 49) t) ts \<and> printable bin then bin
      else if list_all (\<lambda>t. length t \<in> {2, 3} \<and> list_all digit_unit t) ts \<and> printable dec then dec
      else [])"

end
