(* ===== verification/JsRegex.thy ===== *)
theory JsRegex
  imports Decoders
begin

text \<open>
  Regular expressions as JavaScript runs them, for the expressions of the scanner's tables: backtracking in the order of the
  alternatives, greedy and lazy repetition, the flags \<open>i\<close>, \<open>m\<close> and \<open>g\<close>. No expression of the source has a back reference or looks
  ahead. A matcher gives every end it can reach, the preferred one first; the second half says that these are the ends the expression
  denotes, and that an expression is found when it matches anywhere.
\<close>

section \<open>Expressions\<close>

text \<open>A member of a character class: a range, \<open>\s\<close>, \<open>\S\<close>, \<open>\w\<close>, \<open>\d\<close>.\<close>

datatype item = Range nat nat | Space | NonSpace | Word | Digit

datatype assertion = Start | End | Boundary

text \<open>\<open>Chars True\<close> is a negated class; \<open>Rep lazy lo hi\<close> repeats, without a bound for \<open>None\<close>.\<close>

datatype re =
    Empty
  | Chars bool "item list"
  | Dot
  | Assert assertion
  | Then re re
  | Or re re
  | Rep bool nat "nat option" re

record flags =
  rf_i :: bool
  rf_m :: bool

text \<open>A place in the subject: the unit before it, and what follows.\<close>

type_synonym place = "nat option \<times> ustr"

section \<open>Characters\<close>

text \<open>
  The upper case of a unit, as far as the expressions have letters: Latin, its first extension, and Cyrillic with the variants
  that have its capitals. Units of other scripts stay as they are, and none of them has an upper case in these ranges.
\<close>

definition pair_upper :: "nat \<Rightarrow> nat" where
  "pair_upper c = (if 0x100 \<le> c \<and> c \<le> 0x137 \<or> 0x14A \<le> c \<and> c \<le> 0x177 then (if odd c \<and> c \<noteq> 0x131 then c - 1 else c)
     else if 0x139 \<le> c \<and> c \<le> 0x148 \<or> 0x179 \<le> c \<and> c \<le> 0x17E then (if even c then c - 1 else c) else c)"

definition cyrillic_variants :: "(nat \<times> nat) list" where
  "cyrillic_variants = [(0x1C80, 0x412), (0x1C81, 0x414), (0x1C82, 0x41E), (0x1C83, 0x421), (0x1C84, 0x422), (0x1C85, 0x422),
     (0x1C86, 0x42A)]"

definition upper :: "nat \<Rightarrow> nat" where
  "upper c =
     (if 97 \<le> c \<and> c \<le> 122 then c - 32
      else if 0xE0 \<le> c \<and> c \<le> 0xFE \<and> c \<noteq> 0xF7 then c - 32
      else if c = 0xFF then 0x178
      else if 0x430 \<le> c \<and> c \<le> 0x44F then c - 32
      else if 0x450 \<le> c \<and> c \<le> 0x45F then c - 80
      else case map_of cyrillic_variants c of Some u \<Rightarrow> u | None \<Rightarrow> pair_upper c)"

definition canon :: "flags \<Rightarrow> nat \<Rightarrow> nat" where
  "canon f c = (if rf_i f then upper c else c)"

definition line_end :: "nat \<Rightarrow> bool" where
  "line_end c = (c = 10 \<or> c = 13 \<or> c = 0x2028 \<or> c = 0x2029)"

fun in_item :: "flags \<Rightarrow> nat \<Rightarrow> item \<Rightarrow> bool" where
  "in_item f c (Range a b) = list_ex (\<lambda>x. canon f x = canon f c) [a..<Suc b]"
| "in_item f c Space = is_space_unit c"
| "in_item f c NonSpace = (\<not> is_space_unit c)"
| "in_item f c Word = word_unit c"
| "in_item f c Digit = digit_unit c"

definition in_class :: "flags \<Rightarrow> bool \<Rightarrow> item list \<Rightarrow> nat \<Rightarrow> bool" where
  "in_class f neg its c = (list_ex (in_item f c) its \<noteq> neg)"

definition word_at :: "nat option \<Rightarrow> bool" where
  "word_at c = (case c of None \<Rightarrow> False | Some c \<Rightarrow> word_unit c)"

definition next_unit :: "ustr \<Rightarrow> nat option" where
  "next_unit s = (case s of [] \<Rightarrow> None | c # _ \<Rightarrow> Some c)"

definition edge :: "flags \<Rightarrow> nat option \<Rightarrow> bool" where
  "edge f c = (case c of None \<Rightarrow> True | Some c \<Rightarrow> rf_m f \<and> line_end c)"

fun holds :: "flags \<Rightarrow> assertion \<Rightarrow> place \<Rightarrow> bool" where
  "holds f Start x = edge f (fst x)"
| "holds f End x = edge f (next_unit (snd x))"
| "holds f Boundary x = (word_at (fst x) \<noteq> word_at (next_unit (snd x)))"

section \<open>Matching\<close>

definition step_if :: "(nat \<Rightarrow> bool) \<Rightarrow> place \<Rightarrow> place list" where
  "step_if P x = (case snd x of [] \<Rightarrow> [] | c # s \<Rightarrow> if P c then [(Some c, s)] else [])"

text \<open>Once the least number of rounds is done, a round that takes nothing is given up.\<close>

fun rep :: "nat \<Rightarrow> (place \<Rightarrow> place list) \<Rightarrow> bool \<Rightarrow> nat \<Rightarrow> nat option \<Rightarrow> place \<Rightarrow> place list" where
  "rep 0 g lazy lo hi x = []"
| "rep (Suc n) g lazy lo hi x =
     (if hi = Some 0 then [x]
      else let more = concat (map (rep n g lazy (lo - 1) (map_option (\<lambda>h. h - 1) hi))
             (filter (\<lambda>y. 0 < lo \<or> length (snd y) \<noteq> length (snd x)) (g x))) in
        if 0 < lo then more else if lazy then x # more else more @ [x])"

primrec ends :: "flags \<Rightarrow> re \<Rightarrow> place \<Rightarrow> place list" where
  "ends f Empty x = [x]"
| "ends f (Chars neg its) x = step_if (in_class f neg its) x"
| "ends f Dot x = step_if (\<lambda>c. \<not> line_end c) x"
| "ends f (Assert a) x = (if holds f a x then [x] else [])"
| "ends f (Then a b) x = concat (map (ends f b) (ends f a x))"
| "ends f (Or a b) x = ends f a x @ ends f b x"
| "ends f (Rep lazy lo hi a) x = rep (lo + length (snd x) + 1) (ends f a) lazy lo hi x"

text \<open>The first place from which the expression matches, and the end it prefers.\<close>

fun exec_from :: "flags \<Rightarrow> re \<Rightarrow> nat option \<Rightarrow> ustr \<Rightarrow> (place \<times> place) option" where
  "exec_from f r p [] = (case ends f r (p, []) of y # _ \<Rightarrow> Some ((p, []), y) | [] \<Rightarrow> None)"
| "exec_from f r p (c # s) = (case ends f r (p, c # s) of y # _ \<Rightarrow> Some ((p, c # s), y) | [] \<Rightarrow> exec_from f r (Some c) s)"

definition between :: "place \<times> place \<Rightarrow> ustr" where
  "between m = take (length (snd (fst m)) - length (snd (snd m))) (snd (fst m))"

definition exec :: "flags \<Rightarrow> re \<Rightarrow> ustr \<Rightarrow> ustr option" where
  "exec f r s = map_option between (exec_from f r None s)"

section \<open>Where a match can end\<close>

text \<open>\<open>y\<close> is \<open>x\<close> or comes after it.\<close>

definition moves :: "place \<Rightarrow> place \<Rightarrow> bool" where
  "moves x y = (\<exists>w. snd x = w @ snd y \<and> fst y = (if w = [] then fst x else Some (last w)))"

lemma moves_refl [simp]: "moves x x"
  by (simp add: moves_def)

lemma moves_step: "moves (p, c # s) (Some c, s)"
  by (auto simp: moves_def intro: exI [of _ "[c]"])

lemma moves_trans: "moves x y \<Longrightarrow> moves y z \<Longrightarrow> moves x z"
proof -
  assume "moves x y" "moves y z"
  then obtain v w where "snd x = v @ snd y" "fst y = (if v = [] then fst x else Some (last v))"
      "snd y = w @ snd z" "fst z = (if w = [] then fst y else Some (last w))"
    by (auto simp: moves_def)
  then show ?thesis unfolding moves_def by (intro exI [of _ "v @ w"]) simp
qed

lemma moves_length: "moves x y \<Longrightarrow> length (snd y) \<le> length (snd x)"
  by (auto simp: moves_def)

lemma moves_same: "moves x y \<Longrightarrow> length (snd y) = length (snd x) \<longleftrightarrow> y = x"
  by (cases x; cases y) (auto simp: moves_def)

lemma step_if_in: "y \<in> set (step_if P x) \<longleftrightarrow> (\<exists>p c s. x = (p, c # s) \<and> y = (Some c, s) \<and> P c)"
  by (cases x) (auto simp: step_if_def split: list.splits)

lemma concat_filter_in: "y \<in> set (concat (map g (filter P xs))) \<longleftrightarrow> (\<exists>z \<in> set xs. P z \<and> y \<in> set (g z))"
  by auto

lemma rep_in:
  "y \<in> set (rep (Suc n) g lazy lo hi x) \<longleftrightarrow>
     (if hi = Some 0 then y = x
      else lo = 0 \<and> y = x \<or> (\<exists>z \<in> set (g x). (0 < lo \<or> length (snd z) \<noteq> length (snd x))
        \<and> y \<in> set (rep n g lazy (lo - 1) (map_option (\<lambda>h. h - 1) hi) z)))"
proof (cases "hi = Some 0")
  case False
  define more where "more = concat (map (rep n g lazy (lo - 1) (map_option (\<lambda>h. h - 1) hi))
      (filter (\<lambda>y. 0 < lo \<or> length (snd y) \<noteq> length (snd x)) (g x)))"
  have "rep (Suc n) g lazy lo hi x = (if 0 < lo then more else if lazy then x # more else more @ [x])"
    unfolding rep.simps(2) more_def [symmetric] Let_def using False by simp
  then have "y \<in> set (rep (Suc n) g lazy lo hi x) \<longleftrightarrow> lo = 0 \<and> y = x \<or> y \<in> set more" by auto
  then show ?thesis unfolding more_def concat_filter_in using False by (simp only: if_False)
qed simp

lemma rep_moves:
  assumes "\<And>x y. y \<in> set (g x) \<Longrightarrow> moves x y"
  shows "y \<in> set (rep n g lazy lo hi x) \<Longrightarrow> moves x y"
proof (induction n arbitrary: lo hi x)
  case (Suc n)
  show ?case using Suc.prems [unfolded rep_in] Suc.IH assms by (metis moves_refl moves_trans)
qed simp

lemma ends_moves: "y \<in> set (ends f r x) \<Longrightarrow> moves x y"
proof (induction r arbitrary: x y)
  case (Then a b)
  obtain z where "z \<in> set (ends f a x)" "y \<in> set (ends f b z)" using Then.prems by auto
  then show ?case by (rule moves_trans [OF Then.IH])
next
  case (Rep lazy lo hi a)
  then show ?case using rep_moves [of "ends f a"] by (simp del: rep.simps)
qed (auto simp: step_if_in moves_step split: if_splits)

text \<open>More fuel changes nothing: every round counts down, or leaves less to read.\<close>

lemma rep_fuel:
  assumes "\<And>x y. y \<in> set (g x) \<Longrightarrow> moves x y" "lo + length (snd x) < n"
  shows "rep n g lazy lo hi x = rep (Suc n) g lazy lo hi x"
  using assms(2)
proof (induction n arbitrary: lo hi x)
  case (Suc n)
  have "rep n g lazy (lo - 1) h y = rep (Suc n) g lazy (lo - 1) h y"
    if y: "y \<in> set (g x)" "0 < lo \<or> length (snd y) \<noteq> length (snd x)" for y h
  proof (rule Suc.IH)
    have "length (snd y) \<le> length (snd x)" using assms(1) [OF y(1)] by (rule moves_length)
    then show "lo - 1 + length (snd y) < n" using y(2) Suc.prems by auto
  qed
  then have e: "map (rep n g lazy (lo - 1) h) (filter (\<lambda>y. 0 < lo \<or> length (snd y) \<noteq> length (snd x)) (g x))
      = map (rep (Suc n) g lazy (lo - 1) h) (filter (\<lambda>y. 0 < lo \<or> length (snd y) \<noteq> length (snd x)) (g x))" for h
    by (intro map_cong) auto
  show ?case by (simp only: rep.simps(2) [of "Suc n"] rep.simps(2) [of n] e)
qed simp

lemma exec_from_moves: "exec_from f r p s = Some (a, b) \<Longrightarrow> moves (p, s) a \<and> moves a b"
proof (induction s arbitrary: p)
  case Nil
  then show ?case using ends_moves [of b f r "(p, [])"] by (auto split: list.splits)
next
  case (Cons c s)
  show ?case
  proof (cases "ends f r (p, c # s)")
    case Nil
    then show ?thesis using Cons moves_trans [OF moves_step] by simp
  next
    case (Cons y ys)
    then show ?thesis using Cons.prems ends_moves [of b f r "(p, c # s)"] by auto
  qed
qed

section \<open>All matches\<close>

text \<open>With the flag \<open>g\<close> the search goes on where the last match ended, one unit further after an empty one.\<close>

function finds :: "flags \<Rightarrow> re \<Rightarrow> nat option \<Rightarrow> ustr \<Rightarrow> (place \<times> place) list" where
  "finds f r p s = (case exec_from f r p s of
       None \<Rightarrow> []
     | Some m \<Rightarrow> m # (if length (snd (snd m)) < length (snd (fst m)) then finds f r (fst (snd m)) (snd (snd m))
         else case snd (snd m) of [] \<Rightarrow> [] | c # t \<Rightarrow> finds f r (Some c) t))"
  by pat_completeness auto
termination
proof (relation "measure (\<lambda>(f, r, p, s). length s)", goal_cases)
  case (2 f r p s m)
  have "moves (p, s) (fst m)" using exec_from_moves [of f r p s "fst m" "snd m"] 2 by simp
  then have "length (snd (fst m)) \<le> length s" using moves_length by fastforce
  then have "length (snd (snd m)) < length s" using 2(2) by linarith
  then show ?case by (simp add: case_prod_beta)
next
  case (3 f r p s m c t)
  then show ?case
    using exec_from_moves [of f r p s "fst m" "snd m"] moves_length [of "(p, s)" "fst m"] moves_length [of "fst m" "snd m"] by simp
qed simp

declare finds.simps [simp del]

definition all_matches :: "flags \<Rightarrow> re \<Rightarrow> ustr \<Rightarrow> ustr list" where
  "all_matches f r s = map between (finds f r None s)"

definition count_matches :: "flags \<Rightarrow> re \<Rightarrow> ustr \<Rightarrow> nat" where
  "count_matches f r s = length (all_matches f r s)"

text \<open>\<open>split\<close> by an expression that matches no empty text.\<close>

fun pieces :: "ustr \<Rightarrow> (place \<times> place) list \<Rightarrow> ustr list" where
  "pieces s [] = [s]"
| "pieces s ((a, b) # ms) = take (length s - length (snd a)) s # pieces (snd b) ms"

definition split_by :: "flags \<Rightarrow> re \<Rightarrow> ustr \<Rightarrow> ustr list" where
  "split_by f r s = pieces s (finds f r None s)"

section \<open>Writing expressions\<close>

text \<open>What the literals of the source are written with: text, sequences, alternatives, repetitions and the usual classes.\<close>

definition unit :: "nat \<Rightarrow> re" where
  "unit c = Chars False [Range c c]"

definition seq :: "re list \<Rightarrow> re" where
  "seq rs = foldr Then rs Empty"

definition raw :: "nat list \<Rightarrow> re" where
  "raw cs = seq (map unit cs)"

definition lit :: "string \<Rightarrow> re" where
  "lit s = raw (units s)"

fun alts :: "re list \<Rightarrow> re" where
  "alts [] = Empty"
| "alts [r] = r"
| "alts (r # q # rs) = Or r (alts (q # rs))"

definition opt :: "re \<Rightarrow> re" where
  "opt r = Rep False 0 (Some 1) r"

definition many :: "re \<Rightarrow> re" where
  "many r = Rep False 0 None r"

definition plus :: "re \<Rightarrow> re" where
  "plus r = Rep False 1 None r"

definition space :: re where
  "space = Chars False [Space]"

definition spaces :: re where
  "spaces = plus space"

definition blanks :: re where
  "blanks = many space"

definition wordb :: re where
  "wordb = Assert Boundary"

definition plain :: flags where
  "plain = \<lparr>rf_i = False, rf_m = False\<rparr>"

definition nocase :: flags where
  "nocase = \<lparr>rf_i = True, rf_m = False\<rparr>"

definition nocase_lines :: flags where
  "nocase_lines = \<lparr>rf_i = True, rf_m = True\<rparr>"

section \<open>What an expression denotes\<close>

primrec takes :: "flags \<Rightarrow> re \<Rightarrow> place \<Rightarrow> place \<Rightarrow> bool" where
  "takes f Empty x y = (y = x)"
| "takes f (Chars neg its) x y = (\<exists>p c s. x = (p, c # s) \<and> y = (Some c, s) \<and> in_class f neg its c)"
| "takes f Dot x y = (\<exists>p c s. x = (p, c # s) \<and> y = (Some c, s) \<and> \<not> line_end c)"
| "takes f (Assert a) x y = (holds f a x \<and> y = x)"
| "takes f (Then a b) x y = (\<exists>z. takes f a x z \<and> takes f b z y)"
| "takes f (Or a b) x y = (takes f a x y \<or> takes f b x y)"
| "takes f (Rep lazy lo hi a) x y = (\<exists>n \<ge> lo. (case hi of None \<Rightarrow> True | Some h \<Rightarrow> n \<le> h) \<and> (takes f a ^^ n) x y)"

text \<open>The rounds that are given up are not needed.\<close>

definition rounds :: "(place \<Rightarrow> place \<Rightarrow> bool) \<Rightarrow> nat \<Rightarrow> nat option \<Rightarrow> place \<Rightarrow> place \<Rightarrow> bool" where
  "rounds R lo hi x y = (\<exists>n \<ge> lo. (case hi of None \<Rightarrow> True | Some h \<Rightarrow> n \<le> h) \<and> (R ^^ n) x y)"

lemma rounds_stop: "rounds R 0 hi x x"
  unfolding rounds_def by (intro exI [of _ 0]) (auto split: option.splits)

lemma rounds_more:
  assumes "R x z" "rounds R (lo - 1) (map_option (\<lambda>h. h - 1) hi) z y" "hi \<noteq> Some 0"
  shows "rounds R lo hi x y"
proof -
  obtain n where n: "lo - 1 \<le> n" "case map_option (\<lambda>h. h - 1) hi of None \<Rightarrow> True | Some h \<Rightarrow> n \<le> h" "(R ^^ n) z y"
    using assms(2) by (auto simp: rounds_def)
  have "(R ^^ Suc n) x y" using assms(1) n(3) by (rule relpowp_Suc_I2)
  moreover have "lo \<le> Suc n" "case hi of None \<Rightarrow> True | Some h \<Rightarrow> Suc n \<le> h" using n(1,2) assms(3) by (auto split: option.splits)
  ultimately show ?thesis unfolding rounds_def by blast
qed

lemma rounds_first:
  assumes "rounds R lo hi x y"
  shows "(lo = 0 \<and> y = x) \<or> (hi \<noteq> Some 0 \<and> (\<exists>z. R x z \<and> (0 < lo \<or> z \<noteq> x) \<and> rounds R (lo - 1) (map_option (\<lambda>h. h - 1) hi) z y))"
proof -
  obtain n where "lo \<le> n" "case hi of None \<Rightarrow> True | Some h \<Rightarrow> n \<le> h" "(R ^^ n) x y"
    using assms by (auto simp: rounds_def)
  then show ?thesis
  proof (induction n)
    case (Suc n)
    obtain z where z: "R x z" "(R ^^ n) z y" using Suc.prems(3) by (rule relpowp_Suc_E2)
    show ?case
    proof (cases "0 < lo \<or> z \<noteq> x")
      case True
      have "rounds R (lo - 1) (map_option (\<lambda>h. h - 1) hi) z y"
        unfolding rounds_def using z(2) Suc.prems(1,2) by (intro exI [of _ n]) (auto split: option.splits)
      moreover have "hi \<noteq> Some 0" using Suc.prems(2) by auto
      ultimately show ?thesis using z(1) True by blast
    next
      case False
      then show ?thesis using Suc.IH Suc.prems(2) z(2) by (auto split: option.splits)
    qed
  qed simp
qed

definition bounds_ok :: "nat \<Rightarrow> nat option \<Rightarrow> bool" where
  "bounds_ok lo hi = (case hi of None \<Rightarrow> True | Some h \<Rightarrow> lo \<le> h)"

lemma rep_rounds:
  assumes g: "\<And>x y. y \<in> set (g x) \<longleftrightarrow> R x y" and m: "\<And>x y. R x y \<Longrightarrow> moves x y"
    and "lo + length (snd x) < n" "bounds_ok lo hi"
  shows "y \<in> set (rep n g lazy lo hi x) \<longleftrightarrow> rounds R lo hi x y"
  using assms(3,4)
proof (induction n arbitrary: lo hi x)
  case (Suc n)
  let ?hi = "map_option (\<lambda>h. h - 1) hi"
  have new: "length (snd z) \<noteq> length (snd x) \<longleftrightarrow> z \<noteq> x" if "R x z" for z using moves_same [OF m [OF that]] by simp
  have IH: "y \<in> set (rep n g lazy (lo - 1) ?hi z) \<longleftrightarrow> rounds R (lo - 1) ?hi z y" if z: "R x z" "0 < lo \<or> z \<noteq> x" for z
  proof (rule Suc.IH)
    show "lo - 1 + length (snd z) < n"
      using moves_length [OF m [OF z(1)]] new [OF z(1)] z(2) Suc.prems(1) by auto
    show "bounds_ok (lo - 1) ?hi" using Suc.prems(2) by (auto simp: bounds_ok_def split: option.splits)
  qed
  have "y \<in> set (rep (Suc n) g lazy lo hi x) \<longleftrightarrow>
      (if hi = Some 0 then y = x
       else lo = 0 \<and> y = x \<or> (\<exists>z. R x z \<and> (0 < lo \<or> z \<noteq> x) \<and> rounds R (lo - 1) ?hi z y))"
  proof (cases "hi = Some 0")
    case False
    have "(\<exists>z. R x z \<and> (0 < lo \<or> length (snd z) \<noteq> length (snd x)) \<and> y \<in> set (rep n g lazy (lo - 1) ?hi z))
        \<longleftrightarrow> (\<exists>z. R x z \<and> (0 < lo \<or> z \<noteq> x) \<and> rounds R (lo - 1) ?hi z y)"
      by (intro ex_cong1) (metis IH new)
    then show ?thesis unfolding rep_in Bex_def g using False by (simp only: if_False)
  qed (simp add: rep_in)
  also have "\<dots> \<longleftrightarrow> rounds R lo hi x y"
  proof (cases "hi = Some 0")
    case True
    then show ?thesis using Suc.prems(2) by (auto simp: bounds_ok_def rounds_def)
  next
    case False
    then have "rounds R lo hi x y" if "lo = 0 \<and> y = x \<or> (\<exists>z. R x z \<and> (0 < lo \<or> z \<noteq> x) \<and> rounds R (lo - 1) ?hi z y)"
      using that rounds_more [of R x _ lo hi y] rounds_stop [of R hi x] by blast
    then show ?thesis using rounds_first [of R lo hi x y] False by auto
  qed
  finally show ?case .
qed simp

text \<open>The bounds of every repetition are in order; anything else is a syntax error.\<close>

primrec wf_re :: "re \<Rightarrow> bool" where
  "wf_re Empty = True"
| "wf_re (Chars neg its) = True"
| "wf_re Dot = True"
| "wf_re (Assert a) = True"
| "wf_re (Then a b) = (wf_re a \<and> wf_re b)"
| "wf_re (Or a b) = (wf_re a \<and> wf_re b)"
| "wf_re (Rep lazy lo hi a) = (bounds_ok lo hi \<and> wf_re a)"

lemma takes_moves: "wf_re r \<Longrightarrow> (\<And>x y. y \<in> set (ends f r x) \<longleftrightarrow> takes f r x y) \<Longrightarrow> takes f r x y \<Longrightarrow> moves x y"
  using ends_moves by blast

text \<open>The matcher reaches exactly the ends that the expression denotes.\<close>

lemma ends_takes: "wf_re r \<Longrightarrow> y \<in> set (ends f r x) \<longleftrightarrow> takes f r x y"
proof (induction r arbitrary: x y)
  case (Rep lazy lo hi a)
  have "\<And>x y. y \<in> set (ends f a x) \<longleftrightarrow> takes f a x y" using Rep by simp
  then show ?case
    using rep_rounds [of "ends f a" "takes f a" lo x "lo + length (snd x) + 1" hi y lazy] takes_moves [of a f] Rep.prems
    by (simp add: rounds_def)
next
  case (Then a b)
  then show ?case by (simp add: Bex_def)
qed (simp_all add: step_if_in, auto)

text \<open>An expression is found exactly when it matches somewhere.\<close>

definition before :: "nat option \<Rightarrow> ustr \<Rightarrow> nat option" where
  "before p v = (if v = [] then p else Some (last v))"

lemma exec_from_None: "exec_from f r p s = None \<longleftrightarrow> (\<forall>v u. s = v @ u \<longrightarrow> ends f r (before p v, u) = [])"
proof (induction s arbitrary: p)
  case Nil
  then show ?case by (simp add: before_def split: list.splits)
next
  case (Cons c s)
  have "(\<forall>v u. c # s = v @ u \<longrightarrow> ends f r (before p v, u) = [])
      \<longleftrightarrow> ends f r (p, c # s) = [] \<and> (\<forall>v u. s = v @ u \<longrightarrow> ends f r (before (Some c) v, u) = [])"
  proof (intro iffI conjI allI impI)
    fix v u assume a: "\<forall>v u. c # s = v @ u \<longrightarrow> ends f r (before p v, u) = []" and "s = v @ u"
    then have "ends f r (before p (c # v), u) = []" by simp
    then show "ends f r (before (Some c) v, u) = []" by (simp add: before_def split: if_splits)
  next
    fix v u assume a: "ends f r (p, c # s) = [] \<and> (\<forall>v u. s = v @ u \<longrightarrow> ends f r (before (Some c) v, u) = [])" and s: "c # s = v @ u"
    show "ends f r (before p v, u) = []"
    proof (cases v)
      case Nil
      then show ?thesis using a s by (simp add: before_def)
    next
      case (Cons d w)
      then have "ends f r (before (Some c) w, u) = []" using a s by simp
      then show ?thesis using Cons s by (simp add: before_def split: if_splits)
    qed
  next
    assume "\<forall>v u. c # s = v @ u \<longrightarrow> ends f r (before p v, u) = []"
    then have "ends f r (before p [], c # s) = []" by simp
    then show "ends f r (p, c # s) = []" by (simp add: before_def)
  qed
  then show ?case using Cons.IH by (simp split: list.splits)
qed

lemma exec_found: "wf_re r \<Longrightarrow> exec f r s \<noteq> None \<longleftrightarrow> (\<exists>v u y. s = v @ u \<and> takes f r (before None v, u) y)"
proof -
  assume w: "wf_re r"
  have "exec f r s \<noteq> None \<longleftrightarrow> (\<exists>v u. s = v @ u \<and> ends f r (before None v, u) \<noteq> [])"
    by (simp add: exec_def exec_from_None)
  then show ?thesis by (simp only: ends_takes [OF w, symmetric] neq_Nil_conv) (metis list.set_intros(1) list.set_cases)
qed

end
