(* ===== verification/RegexScan.thy ===== *)
theory RegexScan
  imports Decoders
begin

text \<open>
  The pattern layer of the scanner, \<open>regexScan\<close> of \<open>src/safety/scanner/regex.ts\<close>: the text, its normalized and decoded
  variants and what is hidden in it are matched against a table of patterns, the matches are merged by label and weighted.
  The table and the finders of runs are arguments here; \<open>ShippedScanner\<close> gives them the expressions of the source.
\<close>

datatype severity = Low | Medium | High

record pattern_def =
  pd_exec :: "ustr \<Rightarrow> ustr option"
  pd_category :: string
  pd_severity :: severity
  pd_label :: string

record pattern_match =
  pm_pattern :: string
  pm_category :: string
  pm_severity :: severity
  pm_matched :: ustr

text \<open>The finders of runs: Morse, decimal and binary codes, and the split of Morse words.\<close>

record re_lib = text_lib +
  rl_morse_runs :: "ustr \<Rightarrow> ustr list"
  rl_morse_words :: "ustr \<Rightarrow> ustr list"
  rl_dec_runs :: "ustr \<Rightarrow> ustr list"
  rl_bin_runs :: "ustr \<Rightarrow> ustr list"

section \<open>Matching\<close>

definition match_of :: "string \<Rightarrow> string \<Rightarrow> pattern_def \<Rightarrow> ustr \<Rightarrow> pattern_match option" where
  "match_of pre mark d s = map_option (\<lambda>m. \<lparr>pm_pattern = pre @ pd_label d, pm_category = pd_category d,
     pm_severity = pd_severity d, pm_matched = units mark @ m\<rparr>) (pd_exec d s)"

definition scan_as :: "string \<Rightarrow> string \<Rightarrow> ustr \<Rightarrow> pattern_def list \<Rightarrow> pattern_match list" where
  "scan_as pre mark s pats = List.map_filter (\<lambda>d. match_of pre mark d s) pats"

definition scanText :: "ustr \<Rightarrow> pattern_def list \<Rightarrow> pattern_match list" where
  "scanText s pats = scan_as [] [] s pats"

definition high_only :: "pattern_def list \<Rightarrow> pattern_def list" where
  "high_only pats = filter (\<lambda>d. pd_severity d = High) pats"

section \<open>Encoded runs\<close>

fun runs_go :: "(nat \<Rightarrow> bool) \<Rightarrow> ustr \<Rightarrow> ustr \<Rightarrow> ustr list" where
  "runs_go P w [] = [w]"
| "runs_go P w (c # s) = (if P c then runs_go P (w @ [c]) s else w # runs_go P [] s)"

definition runs :: "(nat \<Rightarrow> bool) \<Rightarrow> nat \<Rightarrow> ustr \<Rightarrow> ustr list" where
  "runs P n s = filter (\<lambda>w. n \<le> length w) (runs_go P [] s)"

definition looks_like_text :: "ustr \<Rightarrow> bool" where
  "looks_like_text s = (5 < length s \<and> runs (\<lambda>c. letter_unit c \<or> is_space_unit c) 5 s \<noteq> [])"

definition b64_unit :: "nat \<Rightarrow> bool" where
  "b64_unit c = (letter_unit c \<or> digit_unit c \<or> c \<in> {43, 47, 61})"

definition scan_payload :: "string \<Rightarrow> string \<Rightarrow> pattern_def list \<Rightarrow> ustr \<Rightarrow> pattern_match list" where
  "scan_payload pre mark pats s = (if looks_like_text s then scan_as pre mark s pats else [])"

definition scanBase64 :: "re_lib \<Rightarrow> ustr \<Rightarrow> pattern_def list \<Rightarrow> pattern_match list" where
  "scanBase64 lib s pats =
     concat (map (\<lambda>w. scan_payload ''base64:'' ''[base64] '' pats (tl_utf8 lib (tl_base64 lib w))) (runs b64_unit 40 s))"

definition scanBase32 :: "re_lib \<Rightarrow> ustr \<Rightarrow> pattern_def list \<Rightarrow> pattern_match list" where
  "scanBase32 lib s pats =
     concat (map (\<lambda>w. case decodeBase32 (text_lib.truncate lib) w of None \<Rightarrow> [] | Some t \<Rightarrow> scan_payload ''base32:'' ''[base32] '' pats t)
       (runs (\<lambda>c. b32_unit c \<or> c = 61) 16 s))"

definition scanRot13 :: "ustr \<Rightarrow> pattern_def list \<Rightarrow> pattern_match list" where
  "scanRot13 s pats = (let t = rot13 s in if t = s then [] else scan_as ''rot13:'' ''[rot13] '' t (high_only pats))"

definition morse_map :: "(string \<times> char) list" where
  "morse_map =
     [(''.-'', CHR ''a''), (''-...'', CHR ''b''), (''-.-.'', CHR ''c''), (''-..'', CHR ''d''), (''.'', CHR ''e''), (''..-.'', CHR ''f''),
      (''--.'', CHR ''g''), (''....'', CHR ''h''), (''..'', CHR ''i''), (''.---'', CHR ''j''), (''-.-'', CHR ''k''), (''.-..'', CHR ''l''),
      (''--'', CHR ''m''), (''-.'', CHR ''n''), (''---'', CHR ''o''), (''.--.'', CHR ''p''), (''--.-'', CHR ''q''), (''.-.'', CHR ''r''),
      (''...'', CHR ''s''), (''-'', CHR ''t''), (''..-'', CHR ''u''), (''...-'', CHR ''v''), (''.--'', CHR ''w''), (''-..-'', CHR ''x''),
      (''-.--'', CHR ''y''), (''--..'', CHR ''z''),
      (''-----'', CHR ''0''), (''.----'', CHR ''1''), (''..---'', CHR ''2''), (''...--'', CHR ''3''), (''....-'', CHR ''4''),
      (''.....'', CHR ''5''), (''-....'', CHR ''6''), (''--...'', CHR ''7''), (''---..'', CHR ''8''), (''----.'', CHR ''9'')]"

definition morse_letter :: "ustr \<Rightarrow> ustr" where
  "morse_letter t = (case map_of (map (\<lambda>p. (units (fst p), snd p)) morse_map) t of None \<Rightarrow> [] | Some c \<Rightarrow> [of_char c])"

fun join_units :: "ustr \<Rightarrow> ustr list \<Rightarrow> ustr" where
  "join_units sep [] = []"
| "join_units sep [x] = x"
| "join_units sep (x # y # xs) = x @ sep @ join_units sep (y # xs)"

definition decodeMorse :: "re_lib \<Rightarrow> ustr \<Rightarrow> ustr" where
  "decodeMorse lib s =
     join_units [32] (filter (\<lambda>w. w \<noteq> []) (map (\<lambda>w. concat (map morse_letter (tokens w))) (rl_morse_words lib s)))"

definition no_spaces :: "ustr \<Rightarrow> ustr" where
  "no_spaces s = filter (\<lambda>c. \<not> is_space_unit c) s"

definition scanMorse :: "re_lib \<Rightarrow> ustr \<Rightarrow> pattern_def list \<Rightarrow> pattern_match list" where
  "scanMorse lib s pats = concat (map (\<lambda>w. let t = decodeMorse lib w in
     if length (no_spaces t) < 6 then [] else scan_as ''morse:'' ''[morse] '' t pats) (rl_morse_runs lib s))"

definition scanBraille :: "ustr \<Rightarrow> pattern_def list \<Rightarrow> pattern_match list" where
  "scanBraille s pats =
     (let t = decodeBraille s in
      if length (filter is_braille s) < 6 \<or> length (no_spaces t) < 6 then [] else scan_as ''braille:'' ''[braille] '' t pats)"

definition scan_numbers :: "string \<Rightarrow> string \<Rightarrow> pattern_def list \<Rightarrow> ustr \<Rightarrow> pattern_match list" where
  "scan_numbers pre mark pats w =
     (let t = decodeNumericAscii w in if length t < 5 then [] else scan_as pre mark t pats)"

definition scanNumericAscii :: "re_lib \<Rightarrow> ustr \<Rightarrow> pattern_def list \<Rightarrow> pattern_match list" where
  "scanNumericAscii lib s pats =
     concat (map (scan_numbers ''numeric_ascii:'' ''[numeric] '' pats) (rl_dec_runs lib s))
     @ concat (map (scan_numbers ''binary_ascii:'' ''[binary] '' pats) (rl_bin_runs lib s))"

definition reversed :: "ustr \<Rightarrow> ustr" where
  "reversed s = concat (map units_of_point (rev (code_points s)))"

definition scanReversed :: "ustr \<Rightarrow> pattern_def list \<Rightarrow> pattern_match list" where
  "scanReversed s pats =
     (if length s < 20 then []
      else scan_as ''reverse:'' ''[reverse] '' (reversed s) (filter (\<lambda>d. pd_exec d s = None) (high_only pats)))"

fun split_lines :: "ustr \<Rightarrow> ustr \<Rightarrow> ustr list" where
  "split_lines w [] = [w]"
| "split_lines w (c # s) = (if c = 10 then w # split_lines [] s else split_lines (w @ [c]) s)"

definition scanAcrostic :: "re_lib \<Rightarrow> ustr \<Rightarrow> pattern_def list \<Rightarrow> pattern_match list" where
  "scanAcrostic lib s pats =
     (let ls = split_lines [] s; firsts = map hd (filter (\<lambda>w. w \<noteq> []) (map utrim ls)) in
      if length ls < 5 \<or> length firsts < 5 then []
      else scan_as ''acrostic:'' ''[acrostic] '' (tl_lower lib firsts) (high_only pats))"

section \<open>Merging\<close>

type_synonym merged = "string list \<times> pattern_match list"

definition merge_one :: "merged \<Rightarrow> pattern_match \<Rightarrow> merged" where
  "merge_one st m = (if pm_pattern m \<in> set (fst st) then st else (fst st @ [pm_pattern m], snd st @ [m]))"

definition merge_new :: "pattern_match list \<Rightarrow> merged \<Rightarrow> merged" where
  "merge_new ms st = foldl merge_one st ms"

definition push_all :: "pattern_match list \<Rightarrow> merged \<Rightarrow> merged" where
  "push_all ms st = (fst st, snd st @ ms)"

definition normalized_variants :: "re_lib \<Rightarrow> ustr \<Rightarrow> ustr list" where
  "normalized_variants lib s =
     filter (\<lambda>v. v \<noteq> s) (dedup [normalizeStrip s, normalizeSpace s, normalizeConfusables (text_lib.truncate lib) s,
       normalizeForDetection (text_lib.truncate lib) s])"

definition decoded_variants :: "re_lib \<Rightarrow> ustr \<Rightarrow> ustr list" where
  "decoded_variants lib s =
     filter (\<lambda>v. v \<noteq> s) [decodeHexEscapes s, decodeUnicodeEscapes s, decodeHtmlEntities s, normalizeLeetspeak s,
       decodeUrlEncoding (text_lib.truncate lib) s, normalizeTokenBreak s]"

text \<open>What is hidden in invisible characters: its matches, and the payload itself.\<close>

definition merge_hidden :: "string \<Rightarrow> string \<Rightarrow> string \<Rightarrow> pattern_def list \<Rightarrow> ustr \<Rightarrow> merged \<Rightarrow> merged" where
  "merge_hidden pre mark label pats payload st =
     (if length payload < 3 then st
      else merge_one (merge_new (scan_as pre mark payload pats) st)
        \<lparr>pm_pattern = label, pm_category = ''encoding_trick'', pm_severity = High, pm_matched = units mark @ take 80 payload\<rparr>)"

definition merge_matches :: "re_lib \<Rightarrow> pattern_def list \<Rightarrow> ustr \<Rightarrow> merged" where
  "merge_matches lib pats s =
     (let orig = scanText s pats;
          st1 = merge_new (concat (map (\<lambda>v. scanText v pats) (normalized_variants lib s))) (map pm_pattern orig, orig);
          st2 = merge_new (concat (map (\<lambda>v. scanText v pats) (decoded_variants lib s))) st1;
          st3 = push_all (scanBase64 lib s pats @ scanBase32 lib s pats @ scanRot13 s pats) st2;
          st4 = merge_new (scanMorse lib s pats @ scanBraille s pats @ scanNumericAscii lib s pats @ scanReversed s pats
            @ scanAcrostic lib s pats) st3;
          st5 = merge_hidden ''unicode_tag:'' ''[unicode_tags] '' ''invisible_payload'' pats (decodeUnicodeTags s) st4 in
      merge_hidden ''variation_selector:'' ''[var_selectors] '' ''invisible_payload_vs'' pats (decodeVariationSelectors s) st5)"

section \<open>The layer's result\<close>

record layer =
  ly_name :: string
  ly_score :: jsnum
  ly_flags :: "string list"
  ly_matched :: "ustr list"

definition weight :: "severity \<Rightarrow> jsnum" where
  "weight v = (case v of High \<Rightarrow> Fin (1 / 2) | Medium \<Rightarrow> fl (3 / 10) | Low \<Rightarrow> fl (15 / 100))"

definition total_score :: "pattern_match list \<Rightarrow> jsnum" where
  "total_score ms = math_min (foldl (\<lambda>n m. js_add n (weight (pm_severity m))) (Fin 0) ms) (num_int 1)"

definition regexScan :: "re_lib \<Rightarrow> pattern_def list \<Rightarrow> ustr \<Rightarrow> layer" where
  "regexScan lib pats s =
     (let ms = snd (merge_matches lib pats s) in
      \<lparr>ly_name = ''regex'', ly_score = total_score ms, ly_flags = map (\<lambda>m. pm_category m @ '':'' @ pm_pattern m) ms,
       ly_matched = map pm_matched ms\<rparr>)"

section \<open>The score\<close>

text \<open>A number the sum can be: not negative and already rounded.\<close>

definition scored :: "jsnum \<Rightarrow> bool" where
  "scored a = (a = PInf \<or> (\<exists>r \<ge> 0. a = Fin r \<and> fl r = Fin r))"

lemma fl_scored: "0 \<le> x \<Longrightarrow> scored (fl x)"
proof -
  assume x: "0 \<le> x"
  show ?thesis
  proof (cases "fl x")
    case (Fin r)
    then have "r = rnd x" "\<bar>r\<bar> < 2 ^ 1024" using fl_FinD by auto
    moreover from this have "fl r = Fin r" by (intro fl_exact) simp_all
    ultimately show ?thesis using Fin rnd_nonneg [OF x] by (simp add: scored_def)
  next
    case NInf
    then show ?thesis using fl_nonneg [OF x] by simp
  qed (use fl_not_NaN [of x] in \<open>auto simp: scored_def\<close>)
qed

lemma fl_half: "fl (1 / 2) = Fin (1 / 2)"
  using rnd_representable [of 1 "- 1"] fl_exact [of "1 / 2"] by (simp add: power_int_minus)

lemma weight_scored: "scored (weight v)"
  using fl_scored [of "3 / 10"] fl_scored [of "15 / 100"] fl_scored [of "1 / 2"]
  by (cases v) (simp_all add: weight_def fl_half)

lemma js_add_scored:
  assumes "scored a" "scored b"
  shows "scored (js_add a b) \<and> js_le a (js_add a b) \<and> js_le b (js_add a b)"
proof (cases "a = PInf \<or> b = PInf")
  case True
  then show ?thesis using assms by (auto simp: scored_def)
next
  case False
  then obtain p q where pq: "a = Fin p" "b = Fin q" "0 \<le> p" "0 \<le> q" "fl p = Fin p" "fl q = Fin q"
    using assms by (auto simp: scored_def)
  then have "js_le (fl p) (fl (p + q))" "js_le (fl q) (fl (p + q))" by (intro fl_mono; simp)+
  then show ?thesis using pq fl_scored [of "p + q"] by simp
qed

lemma sum_score:
  assumes "scored a"
  shows "let t = foldl (\<lambda>n m. js_add n (weight (pm_severity m))) a ms in
    scored t \<and> js_le a t \<and> (\<forall>m \<in> set ms. js_le (weight (pm_severity m)) t)"
  using assms
proof (induction ms arbitrary: a)
  case (Cons m ms)
  note s = js_add_scored [OF Cons.prems weight_scored [of "pm_severity m"]]
  show ?case
    using Cons.IH [of "js_add a (weight (pm_severity m))"] s js_le_trans by (auto simp: Let_def)
qed (auto simp: scored_def Let_def)

lemma high_score: "m \<in> set ms \<Longrightarrow> pm_severity m = High \<Longrightarrow> js_le (Fin (1 / 2)) (total_score ms)"
proof -
  assume m: "m \<in> set ms" "pm_severity m = High"
  let ?t = "foldl (\<lambda>n m. js_add n (weight (pm_severity m))) (Fin 0) ms"
  have "js_le (weight High) ?t" "scored ?t"
    using m sum_score [of "Fin 0" ms] by (force simp: Let_def scored_def)+
  then show ?thesis by (auto simp: total_score_def weight_def math_min_def scored_def)
qed

lemma score_at_most_one: "js_le (total_score ms) (num_int 1)"
proof -
  have "scored (foldl (\<lambda>n m. js_add n (weight (pm_severity m))) (Fin 0) ms)"
    using sum_score [of "Fin 0" ms] by (simp add: Let_def scored_def)
  then show ?thesis by (auto simp: total_score_def math_min_def scored_def)
qed

section \<open>What is matched is reported\<close>

text \<open>Some match carries the label; so far as the labels of the table are its patterns' names, it has the pattern's severity.\<close>

definition reported :: "string \<Rightarrow> severity \<Rightarrow> merged \<Rightarrow> bool" where
  "reported l v st = (\<exists>m \<in> set (snd st). pm_pattern m = l \<and> pm_severity m = v)"

text \<open>Every seen label is the label of a match, and two matches of one label have one severity.\<close>

definition merged_ok :: "(string \<Rightarrow> severity) \<Rightarrow> merged \<Rightarrow> bool" where
  "merged_ok sev st = (\<forall>l \<in> set (fst st). reported l (sev l) st)"

lemma reported_merge_one: "reported l v st \<Longrightarrow> reported l v (merge_one st m)"
  by (auto simp: reported_def merge_one_def)

lemma reported_merge_new: "reported l v st \<Longrightarrow> reported l v (merge_new ms st)"
  unfolding merge_new_def by (induction ms arbitrary: st) (auto simp: reported_merge_one)

lemma reported_push: "reported l v st \<Longrightarrow> reported l v (push_all ms st)" "m \<in> set ms \<Longrightarrow> reported (pm_pattern m) (pm_severity m) (push_all ms st)"
  by (auto simp: reported_def push_all_def)

lemma merge_new_ok:
  assumes "merged_ok sev st" "\<forall>m \<in> set ms. pm_severity m = sev (pm_pattern m)"
  shows "merged_ok sev (merge_new ms st) \<and> (\<forall>m \<in> set ms. reported (pm_pattern m) (pm_severity m) (merge_new ms st))"
  using assms
proof (induction ms arbitrary: st)
  case (Cons m ms)
  have ok: "merged_ok sev (merge_one st m)" "reported (pm_pattern m) (pm_severity m) (merge_one st m)"
    using Cons.prems by (auto simp: merged_ok_def merge_one_def reported_def)
  have new: "merge_new (m # ms) st = merge_new ms (merge_one st m)" by (simp add: merge_new_def)
  show ?case using Cons.IH [OF ok(1)] Cons.prems(2) reported_merge_new [OF ok(2)] by (simp add: new)
qed (simp add: merge_new_def)

lemma reported_hidden: "reported l v st \<Longrightarrow> reported l v (merge_hidden pre mark label pats p st)"
  by (simp add: merge_hidden_def reported_merge_one reported_merge_new)

text \<open>No two patterns of the table have one label.\<close>

definition label_severity :: "pattern_def list \<Rightarrow> string \<Rightarrow> severity" where
  "label_severity pats l = (case find (\<lambda>d. pd_label d = l) pats of None \<Rightarrow> High | Some d \<Rightarrow> pd_severity d)"

lemma find_label: "distinct (map pd_label pats) \<Longrightarrow> d \<in> set pats \<Longrightarrow> label_severity pats (pd_label d) = pd_severity d"
  by (induction pats) (auto simp: label_severity_def image_iff split: if_splits)

lemma scan_as_in: "m \<in> set (scan_as pre mark s pats) \<longleftrightarrow> (\<exists>d \<in> set pats. match_of pre mark d s = Some m)"
  by (induction pats) (auto simp: scan_as_def List.map_filter_simps split: option.splits)

lemma scan_as_reports:
  "d \<in> set pats \<Longrightarrow> pd_exec d s \<noteq> None \<Longrightarrow>
     \<exists>m \<in> set (scan_as pre mark s pats). pm_pattern m = pre @ pd_label d \<and> pm_severity m = pd_severity d"
proof -
  assume d: "d \<in> set pats" "pd_exec d s \<noteq> None"
  then obtain y where y: "pd_exec d s = Some y" by auto
  let ?m = "\<lparr>pm_pattern = pre @ pd_label d, pm_category = pd_category d, pm_severity = pd_severity d, pm_matched = units mark @ y\<rparr>"
  have "?m \<in> set (scan_as pre mark s pats)" unfolding scan_as_in using d(1) y by (intro bexI [of _ d]) (simp_all add: match_of_def)
  then show ?thesis by (intro bexI [of _ ?m]) simp_all
qed

lemma scanText_severity:
  "distinct (map pd_label pats) \<Longrightarrow> m \<in> set (scanText s pats) \<Longrightarrow> pm_severity m = label_severity pats (pm_pattern m)"
  by (auto simp: scanText_def scan_as_in match_of_def find_label)

lemma scanText_reports:
  "d \<in> set pats \<Longrightarrow> pd_exec d s \<noteq> None \<Longrightarrow> \<exists>m \<in> set (scanText s pats). pm_pattern m = pd_label d \<and> pm_severity m = pd_severity d"
  using scan_as_reports [of d pats s "[]" "[]"] by (simp add: scanText_def)

text \<open>The texts in which a match counts.\<close>

definition variants :: "re_lib \<Rightarrow> ustr \<Rightarrow> ustr list" where
  "variants lib s = s # normalized_variants lib s @ decoded_variants lib s"

lemma variant_reported:
  assumes "distinct (map pd_label pats)" "d \<in> set pats" "pd_exec d v \<noteq> None" "v \<in> set (variants lib s)"
  shows "reported (pd_label d) (pd_severity d) (merge_matches lib pats s)"
proof -
  let ?sev = "label_severity pats"
  define orig where "orig = scanText s pats"
  define st0 where "st0 = (map pm_pattern orig, orig)"
  define st1 where "st1 = merge_new (concat (map (\<lambda>v. scanText v pats) (normalized_variants lib s))) st0"
  define st2 where "st2 = merge_new (concat (map (\<lambda>v. scanText v pats) (decoded_variants lib s))) st1"
  obtain m where m: "m \<in> set (scanText v pats)" "pm_pattern m = pd_label d" "pm_severity m = pd_severity d"
    using scanText_reports [OF assms(2,3)] by blast
  have sev: "\<forall>m \<in> set (concat (map (\<lambda>v. scanText v pats) vs)). pm_severity m = ?sev (pm_pattern m)" for vs
    using scanText_severity [OF assms(1)] by auto
  have ok0: "merged_ok ?sev st0"
    using scanText_severity [OF assms(1)] by (fastforce simp: merged_ok_def st0_def orig_def reported_def)
  note s1 = merge_new_ok [OF ok0 sev, of "normalized_variants lib s", folded st1_def]
  note s2 = merge_new_ok [OF conjunct1 [OF s1] sev, of "decoded_variants lib s", folded st2_def]
  have "reported (pd_label d) (pd_severity d) st2"
  proof -
    consider "v = s" | "v \<in> set (normalized_variants lib s)" | "v \<in> set (decoded_variants lib s)"
      using assms(4) by (auto simp: variants_def)
    then show ?thesis
    proof cases
      case 1
      then have "reported (pd_label d) (pd_severity d) st0" using m by (auto simp: reported_def st0_def orig_def)
      then show ?thesis by (simp add: st1_def st2_def reported_merge_new)
    next
      case 2
      then have "reported (pd_label d) (pd_severity d) st1" using s1 m by fastforce
      then show ?thesis by (simp add: st2_def reported_merge_new)
    next
      case 3
      then show ?thesis using s2 m by fastforce
    qed
  qed
  then show ?thesis
    unfolding merge_matches_def Let_def orig_def [symmetric] st0_def [symmetric] st1_def [symmetric] st2_def [symmetric]
    by (intro reported_hidden reported_merge_new reported_push(1))
qed

lemma rot13_reported:
  assumes "d \<in> set pats" "pd_severity d = High" "pd_exec d (rot13 s) \<noteq> None" "rot13 s \<noteq> s"
  shows "reported (''rot13:'' @ pd_label d) High (merge_matches lib pats s)"
proof -
  obtain m where m: "m \<in> set (scanRot13 s pats)" "pm_pattern m = ''rot13:'' @ pd_label d" "pm_severity m = High"
    using assms scan_as_reports [of d "high_only pats" "rot13 s" "''rot13:''" "''[rot13] ''"]
    by (auto simp: scanRot13_def high_only_def Let_def)
  have p: "reported (''rot13:'' @ pd_label d) High (push_all (scanBase64 lib s pats @ scanBase32 lib s pats @ scanRot13 s pats) st)" for st
    using reported_push(2) [of m "scanBase64 lib s pats @ scanBase32 lib s pats @ scanRot13 s pats" st] m by simp
  show ?thesis
    unfolding merge_matches_def Let_def by (intro reported_hidden reported_merge_new p)
qed

section \<open>Obfuscated attacks\<close>

lemma rot13_unit_shift:
  assumes "k < 26"
  shows "rot13_unit (65 + k) = 65 + (k + 13) mod 26" "rot13_unit (97 + k) = 97 + (k + 13) mod 26"
  using assms by (auto simp: rot13_unit_def letter_unit_def)

lemma rot13_unit_inverse: "rot13_unit (rot13_unit c) = c"
proof (cases "letter_unit c")
  case True
  define k where "k = (if c \<le> 90 then c - 65 else c - 97)"
  have k: "k < 26" "c = 65 + k \<or> c = 97 + k"
    using True by (auto simp: k_def letter_unit_def)
  have "((k + 13) mod 26 + 13) mod 26 = k" using k(1) by (simp add: mod_simps)
  then show ?thesis using k(2) rot13_unit_shift [OF k(1)] rot13_unit_shift [of "(k + 13) mod 26"] by auto
qed (simp add: rot13_unit_def)

lemma rot13_inverse [simp]: "rot13 (rot13 s) = s"
  by (simp add: rot13_def comp_def rot13_unit_inverse)

text \<open>What an attacker writes: the text as it is, in ROT13, in \<open>\x\<close> escapes or in \<open>\u\<close> escapes.\<close>

definition hex_char :: "nat \<Rightarrow> nat" where
  "hex_char d = (if d < 10 then 48 + d else 87 + d)"

definition hex_escape :: "ustr \<Rightarrow> ustr" where
  "hex_escape s = concat (map (\<lambda>u. [92, 120, hex_char (u div 16), hex_char (u mod 16)]) s)"

definition unicode_escape :: "ustr \<Rightarrow> ustr" where
  "unicode_escape s = concat (map (\<lambda>u. [92, 117, hex_char (u div 4096), hex_char (u div 256 mod 16), hex_char (u div 16 mod 16),
     hex_char (u mod 16)]) s)"

lemma hex_char_unit: "d < 16 \<Longrightarrow> hex_unit (hex_char d) \<and> hex_value (hex_char d) = d"
  by (auto simp: hex_char_def hex_unit_def hex_value_def)

lemma decode_hex_escape: "\<forall>u \<in> set s. u < 256 \<Longrightarrow> decodeHexEscapes (hex_escape s) = s"
proof (induction s)
  case (Cons u s)
  have "u div 16 < 16" "u mod 16 < 16" "16 * (u div 16) + u mod 16 = u" using Cons.prems by auto
  then show ?case using Cons hex_char_unit [of "u div 16"] hex_char_unit [of "u mod 16"]
    by (simp add: hex_escape_def hex_number_def)
qed (simp add: hex_escape_def)

lemma decode_unicode_escape: "\<forall>u \<in> set s. u < 65536 \<Longrightarrow> decodeUnicodeEscapes (unicode_escape s) = s"
proof (induction s)
  case (Cons u s)
  have d: "u div 4096 < 16" "u div 256 mod 16 < 16" "u div 16 mod 16 < 16" "u mod 16 < 16" using Cons.prems by auto
  have "16 * (16 * (16 * (u div 4096) + u div 256 mod 16) + u div 16 mod 16) + u mod 16 = u"
  proof -
    have "u div 4096 = u div 256 div 16" "u div 256 = u div 16 div 16" by (simp_all flip: div_mult2_eq)
    then show ?thesis by simp
  qed
  then show ?case using Cons d [THEN hex_char_unit] by (simp add: unicode_escape_def hex_number_def)
qed (simp add: unicode_escape_def)

definition obfuscations :: "ustr \<Rightarrow> ustr list" where
  "obfuscations s = [s, rot13 s, hex_escape s, unicode_escape s]"

lemma decoded_variant: "t \<in> {decodeHexEscapes s, decodeUnicodeEscapes s} \<Longrightarrow> t \<in> set (variants lib s)"
  by (auto simp: variants_def decoded_variants_def)

lemma obfuscated_attack_scored:
  assumes "distinct (map pd_label pats)" "d \<in> set pats" "pd_severity d = High" "pd_exec d s \<noteq> None"
    and "\<forall>u \<in> set s. u < 256" "v \<in> set (obfuscations s)"
  shows "js_le (Fin (1 / 2)) (ly_score (regexScan lib pats v))"
proof -
  have e: "\<exists>l. reported l High (merge_matches lib pats v)" if "s \<in> set (variants lib v)"
    using variant_reported [OF assms(1,2,4) that] assms(3) by auto
  have "\<forall>u \<in> set s. u < 65536" using assms(5) by auto
  then have "v = s \<or> v = rot13 s \<or> s \<in> {decodeHexEscapes v, decodeUnicodeEscapes v}"
    using assms(5,6) decode_hex_escape [of s] decode_unicode_escape [of s] by (auto simp: obfuscations_def)
  then have "\<exists>l. reported l High (merge_matches lib pats v)"
  proof (elim disjE)
    assume "v = s"
    then show ?thesis using e by (simp add: variants_def)
  next
    assume v: "v = rot13 s"
    then show ?thesis
      using rot13_reported [OF assms(2,3), of v lib] assms(4) e by (cases "rot13 s = s") (auto simp: variants_def)
  next
    assume "s \<in> {decodeHexEscapes v, decodeUnicodeEscapes v}"
    then show ?thesis using e [OF decoded_variant] by blast
  qed
  then show ?thesis by (auto simp: reported_def regexScan_def Let_def intro: high_score)
qed

text \<open>A library in which nothing is encoded, for the examples.\<close>

definition demo_re_lib :: re_lib where
  "demo_re_lib = \<lparr>tl_nfkc = (\<lambda>s. s), tl_uri = (\<lambda>s. None), tl_utf8 = (\<lambda>s. s), tl_base64 = (\<lambda>s. []), tl_lower = map lower_unit,
     rl_morse_runs = (\<lambda>_. []), rl_morse_words = (\<lambda>_. []), rl_dec_runs = (\<lambda>_. []), rl_bin_runs = (\<lambda>_. [])\<rparr>"

end
