(* ===== verification/PatternTable.thy ===== *)
theory PatternTable
  imports JsRegex RegexScan
begin

text \<open>
  The table of attack patterns of \<open>src/safety/scanner/regex.ts\<close>, with every expression written in the terms of \<open>JsRegex\<close>. The groups
  are those of the source, in its order.
\<close>

text \<open>An entry: the flags and the expression of its \<open>pattern\<close>, its category, severity and label.\<close>

type_synonym attack = "flags \<times> re \<times> string \<times> severity \<times> string"

definition attack_overrides :: "attack list" where
  "attack_overrides = [
      (nocase, seq [lit ''ignore'', spaces, opt (alts [seq [lit ''all'', spaces], seq [lit ''your'', spaces], seq [lit ''my'',
        spaces], seq [lit ''any'', spaces], seq [lit ''the'', spaces]]), alts [lit ''previous'', lit ''prior''], spaces,
        alts [seq [lit ''instruction'', opt (lit ''s'')], seq [lit ''prompt'', opt (lit ''s'')], seq [lit ''rule'',
        opt (lit ''s'')], lit ''context'']], ''instruction_override'', High, ''ignore_previous''),
      (nocase, seq [lit ''disregard'', spaces, opt (alts [seq [lit ''all'', spaces], seq [lit ''your'', spaces],
        seq [lit ''my'', spaces], seq [lit ''any'', spaces], seq [lit ''the'', spaces]]), alts [lit ''prior'', lit ''previous'',
        lit ''above'', lit ''earlier''], spaces, alts [seq [lit ''instruction'', opt (lit ''s'')], seq [lit ''prompt'',
        opt (lit ''s'')], seq [lit ''rule'', opt (lit ''s'')]]], ''instruction_override'', High, ''disregard_previous''),
      (nocase, seq [lit ''forget'', spaces, alts [lit ''everything'', lit ''all''], spaces, alts [seq [lit ''you'',
        opt (seq [raw [39], lit ''ve'']), spaces, lit ''been'', spaces, lit ''told''], seq [lit ''instruction'', opt (lit ''s'')],
        lit ''above'']], ''instruction_override'', High, ''forget_instructions''),
      (nocase, seq [lit ''new'', spaces, lit ''instruction'', opt (lit ''s''), blanks, lit '':''], ''instruction_override'',
        High, ''new_instructions''),
      (nocase, seq [lit ''override'', spaces, alts [lit ''mode'', seq [lit ''instruction'', opt (lit ''s'')], lit ''system'',
        lit ''previous'', lit ''all'']], ''instruction_override'', High, ''override_mode''),
      (nocase, seq [lit ''you'', spaces, lit ''are'', spaces, lit ''now'', spaces, alts [lit ''a'', lit ''an''], spaces],
        ''instruction_override'', Medium, ''you_are_now''),
      (nocase, seq [lit ''from'', spaces, lit ''now'', spaces, lit ''on'', blanks, opt (lit '',''), blanks, alts [lit ''you'',
        lit ''your'', lit ''we'', seq [lit ''i'', spaces, lit ''want'']]], ''instruction_override'', Medium, ''from_now_on''),
      (nocase, seq [lit ''your'', spaces, lit ''new'', spaces, alts [lit ''task'', lit ''role'', seq [lit ''instruction'',
        opt (lit ''s'')], lit ''purpose''], spaces, alts [lit ''is'', lit ''are'']], ''instruction_override'', High, ''new_task''),
      (nocase, seq [lit ''stop'', spaces, lit ''being'', spaces, alts [lit ''a'', lit ''an'', lit ''the''], spaces],
        ''instruction_override'', Medium, ''stop_being''),
      (nocase, seq [lit ''do'', spaces, lit ''not'', spaces, lit ''follow'', spaces, alts [lit ''your'', lit ''the'',
        lit ''any''], spaces, alts [lit ''previous'', lit ''original'', lit ''system'']], ''instruction_override'', High,
        ''do_not_follow'')]"

definition attack_roleplay :: "attack list" where
  "attack_roleplay = [
      (nocase, seq [lit ''pretend'', spaces, alts [seq [lit ''you'', alts [seq [raw [39], lit ''re''], seq [spaces,
        lit ''are'']], spaces], seq [lit ''to'', spaces, lit ''be'', spaces]]], ''role_play'', Medium, ''pretend_to_be''),
      (nocase, seq [wordb, lit ''act'', spaces, lit ''as'', spaces, alts [seq [lit ''if'', spaces, lit ''you'', spaces,
        alts [lit ''are'', lit ''have'', lit ''had'', lit ''were''], wordb, Rep False 0 (Some 30) (Chars True [Range 46 46,
        Range 10 10]), wordb, alts [seq [lit ''no'', spaces, alts [seq [lit ''restriction'', opt (lit ''s'')], seq [lit ''rule'',
        opt (lit ''s'')], seq [lit ''filter'', opt (lit ''s'')], seq [lit ''guideline'', opt (lit ''s'')], seq [lit ''limit'',
        opt (lit ''s'')]]], seq [lit ''admin'', opt (lit ''istrator'')], lit ''root'', lit ''superuser'', seq [lit ''full'',
        spaces, lit ''access''], lit ''elevated'', lit ''unrestricted'', seq [lit ''all'', spaces, lit ''permission'',
        opt (lit ''s'')]]], seq [opt (alts [seq [lit ''a'', opt (lit ''n''), spaces], seq [lit ''my'', spaces]]),
        alts [lit ''dan'', lit ''stan'', lit ''aim'', lit ''evil'', lit ''jailbroken'', lit ''unrestricted'', lit ''unfiltered'',
        lit ''uncensored'', lit ''amoral'', lit ''lawless'', lit ''rogue'', lit ''hacker'', seq [lit ''admin'',
        opt (lit ''istrator'')], lit ''root'', lit ''superuser'', seq [lit ''the'', spaces, lit ''opposite'']], wordb], seq [Rep
        False 0 (Some 25) (Chars True [Range 46 46, Range 10 10]), wordb, lit ''no'', spaces, alts [seq [lit ''restriction'',
        opt (lit ''s'')], seq [lit ''rule'', opt (lit ''s'')], seq [lit ''filter'', opt (lit ''s'')], seq [lit ''guideline'',
        opt (lit ''s'')], seq [lit ''limit'', opt (lit ''s'')]]]]], ''role_play'', Medium, ''act_as''),
      (nocase, seq [lit ''roleplay'', spaces, alts [lit ''as'', lit ''that'']], ''role_play'', Medium, ''roleplay_as''),
      (nocase, seq [lit ''you'', spaces, lit ''are'', spaces, lit ''no'', spaces, lit ''longer'', spaces, alts [lit ''a'',
        lit ''an'', lit ''the'', lit ''bound'', lit ''restricted'']], ''role_play'', High, ''no_longer''),
      (nocase, alts [seq [lit ''developer'', spaces, lit ''mode'', blanks, alts [lit ''enabled'', lit ''activated'',
        lit ''engaged'', seq [lit ''on'', wordb]]], seq [wordb, alts [lit ''enter'', lit ''enable'', lit ''activate'',
        seq [lit ''switch'', spaces, lit ''to''], seq [lit ''turn'', spaces, lit ''on''], seq [lit ''go'', spaces, lit ''i'',
        opt (lit ''n''), lit ''to''], seq [lit ''you'', spaces, lit ''are'', spaces, opt (seq [lit ''now'', spaces]),
        lit ''in'']], spaces, lit ''developer'', spaces, lit ''mode'']], ''role_play'', High, ''developer_mode''),
      (nocase, seq [wordb, lit ''DAN'', wordb, many Dot, wordb, alts [lit ''mode'', lit ''prompt'', seq [lit ''do'', spaces,
        lit ''anything'']], wordb], ''role_play'', High, ''dan_attack''),
      (nocase, seq [lit ''do'', spaces, lit ''anything'', spaces, lit ''now''], ''role_play'', High, ''do_anything_now''),
      (nocase, alts [seq [wordb, lit ''jailbreak'', spaces, alts [lit ''this'', lit ''the'', lit ''you'', lit ''your'',
        lit ''me'', lit ''it'', lit ''into'', lit ''now'', lit ''mode'', lit ''attempt'', lit ''successful'', lit ''complete'',
        seq [lit ''prompt'', blanks, Chars False [Range 58 58, Range 61 61]], seq [opt (seq [lit ''the'', spaces]),
        alts [lit ''ai'', lit ''assistant'', lit ''model'', lit ''bot'', lit ''system'', lit ''llm'', lit ''chatbot'']]], wordb],
        seq [wordb, lit ''jailbreak'', blanks, Chars False [Range 58 58, Range 61 61]], seq [wordb, lit ''jailbroken'', wordb]],
        ''role_play'', High, ''jailbreak''),
      (nocase, seq [lit ''without'', spaces, opt (seq [lit ''any'', spaces]), alts [seq [lit ''restriction'', opt (lit ''s'')],
        seq [lit ''limitation'', opt (lit ''s'')], seq [lit ''filter'', opt (lit ''s'')], seq [lit ''guardrail'',
        opt (lit ''s'')], lit ''safety'']], ''role_play'', Medium, ''without_restrictions''),
      (nocase, seq [alts [lit ''with'', lit ''have'', lit ''has''], spaces, lit ''no'', spaces, opt (seq [lit ''safety'',
        spaces]), alts [seq [lit ''restriction'', opt (lit ''s'')], seq [lit ''limitation'', opt (lit ''s'')],
        seq [lit ''filter'', opt (lit ''s'')], seq [lit ''guardrail'', opt (lit ''s'')], lit ''rules''], wordb], ''role_play'',
        Medium, ''no_restrictions''),
      (nocase, seq [lit ''hypothetical'', spaces, alts [lit ''world'', lit ''scenario'', lit ''situation'', lit ''case''],
        spaces, lit ''where'', spaces], ''role_play'', Medium, ''hypothetical_framing''),
      (nocase, seq [lit ''uncensored'', blanks, opt (alts [lit ''mode'', lit ''bot'', lit ''assistant'', lit ''ai''])],
        ''role_play'', High, ''uncensored'')]"

definition attack_encoding :: "attack list" where
  "attack_encoding = [
      (nocase, seq [lit ''base64'', blanks, opt (Chars False [Range 58 58, Range 61 61]), blanks, Rep False 16 None (Chars False
        [Range 65 90, Range 97 122, Range 48 57, Range 43 43, Range 47 47]), Rep False 0 (Some 2) (lit ''='')],
        ''encoding_trick'', Medium, ''base64_payload''),
      (nocase, seq [lit ''decode'', wordb, Rep True 0 (Some 40) (Chars True [Range 46 46, Range 10 10]), wordb,
        opt (seq [lit ''and'', spaces]), alts [lit ''follow'', lit ''execute'', lit ''run'', lit ''obey'', seq [lit ''do'',
        spaces, alts [lit ''it'', lit ''this'', lit ''what'']], seq [lit ''the'', spaces, lit ''following'', spaces,
        alts [seq [lit ''instruction'', opt (lit ''s'')], seq [lit ''command'', opt (lit ''s'')], lit ''payload'']]]],
        ''encoding_trick'', High, ''decode_and_follow''),
      (nocase, lit ''rot13'', ''encoding_trick'', Medium, ''rot13''),
      (nocase, seq [lit ''read'', spaces, opt (seq [lit ''this'', spaces]), lit ''backwards''], ''encoding_trick'', Medium,
        ''read_backwards''),
      (nocase, seq [lit ''hex'', many (Chars False [Space, Range 58 58]), Rep False 4 (Some 20) (seq [Rep False 2 (Some 2)
        (Chars False [Digit, Range 97 102]), blanks])], ''encoding_trick'', Medium, ''hex_encoded''),
      (nocase, seq [lit ''translate'', spaces, lit ''from'', spaces, Rep False 1 (Some 100) (Chars False [NonSpace]), spaces,
        lit ''to'', spaces, alts [lit ''english'', lit ''plain'']], ''encoding_trick'', Low, ''translate_decode'')]"

definition attack_context :: "attack list" where
  "attack_context = [
      (nocase, seq [lit ''the'', spaces, alts [lit ''user'', lit ''developer'', lit ''admin'', lit ''owner''], spaces,
        alts [lit ''wants'', lit ''said'', lit ''told'', lit ''instructed''], spaces, opt (seq [lit ''you'', spaces]),
        lit ''to''], ''context_manipulation'', Medium, ''fake_authority''),
      (nocase, seq [lit ''admin'', spaces, lit ''override''], ''context_manipulation'', High, ''admin_override''),
      (nocase, seq [lit ''the'', spaces, lit ''previous'', spaces, lit ''conversation'', spaces, lit ''was'', spaces,
        opt (seq [lit ''a'', spaces]), lit ''test''], ''context_manipulation'', High, ''conversation_was_test''),
      (nocase, seq [lit ''this'', spaces, lit ''is'', spaces, opt (seq [lit ''a'', spaces]), alts [lit ''test'', lit ''debug'',
        lit ''maintenance''], spaces, lit ''mode''], ''context_manipulation'', High, ''test_mode''),
      (nocase, seq [wordb, lit ''sudo'', wordb], ''context_manipulation'', Low, ''sudo''),
      (nocase, seq [lit ''elevated'', spaces, lit ''privileges''], ''context_manipulation'', Medium, ''elevated_privileges'')]"

definition attack_exfiltration :: "attack list" where
  "attack_exfiltration = [
      (nocase, seq [lit ''repeat'', spaces, alts [lit ''your'', lit ''the''], spaces, opt (seq [lit ''system'', spaces]),
        lit ''prompt''], ''exfiltration'', High, ''repeat_prompt''),
      (nocase, seq [lit ''show'', spaces, lit ''me'', spaces, opt (seq [lit ''your'', spaces]), opt (seq [lit ''system'',
        spaces]), lit ''prompt''], ''exfiltration'', High, ''show_prompt''),
      (nocase, seq [lit ''what'', spaces, alts [lit ''are'', lit ''is''], spaces, lit ''your'', spaces,
        alts [seq [lit ''instruction'', opt (lit ''s'')], seq [lit ''system'', spaces, lit ''prompt''], seq [lit ''rule'',
        opt (lit ''s'')], seq [lit ''guideline'', opt (lit ''s'')]]], ''exfiltration'', High, ''what_are_instructions''),
      (nocase, seq [lit ''reveal'', spaces, alts [lit ''your'', lit ''the''], spaces, alts [lit ''system'', lit ''initial'',
        lit ''hidden'', lit ''original''], spaces, alts [lit ''prompt'', seq [lit ''instruction'', opt (lit ''s'')]]],
        ''exfiltration'', High, ''reveal_prompt''),
      (nocase, seq [lit ''output'', spaces, alts [lit ''your'', lit ''the''], spaces, alts [lit ''initial'', lit ''system'',
        lit ''original'', lit ''full'', lit ''complete''], spaces, alts [lit ''prompt'', seq [lit ''instruction'',
        opt (lit ''s'')], lit ''message'']], ''exfiltration'', High, ''output_prompt''),
      (nocase, seq [lit ''print'', spaces, opt (seq [lit ''your'', spaces]), alts [lit ''initial'', lit ''original'',
        lit ''first'', lit ''full'', lit ''complete''], spaces, alts [seq [lit ''instruction'', opt (lit ''s'')], lit ''prompt'',
        lit ''message'']], ''exfiltration'', High, ''print_instructions''),
      (nocase, seq [lit ''repeat'', spaces, lit ''everything'', spaces, alts [lit ''above'', lit ''before'']], ''exfiltration'',
        High, ''repeat_everything_above''),
      (nocase, seq [lit ''summarize'', spaces, opt (seq [lit ''all'', spaces]), opt (seq [lit ''the'', spaces]),
        alts [seq [lit ''instruction'', opt (lit ''s'')], seq [lit ''prompt'', opt (lit ''s'')], seq [lit ''rule'',
        opt (lit ''s'')], seq [lit ''guideline'', opt (lit ''s'')]], spaces, opt (seq [lit ''you'', spaces]), alts [lit ''were'',
        seq [lit ''have'', spaces, lit ''been'']]], ''exfiltration'', High, ''summarize_instructions''),
      (nocase, seq [lit ''instruction'', opt (lit ''s''), spaces, lit ''given'', spaces, lit ''to'', spaces, lit ''you'',
        spaces, alts [lit ''before'', lit ''prior'']], ''exfiltration'', High, ''instructions_given_before''),
      (nocase, seq [alts [lit ''first'', lit ''last''], spaces, plus (Chars False [Digit]), spaces, lit ''word'',
        opt (lit ''s''), spaces, lit ''of'', spaces, opt (seq [lit ''the'', spaces]), alts [seq [lit ''instruction'',
        opt (lit ''s'')], lit ''prompt'']], ''exfiltration'', High, ''n_words_of_prompt''),
      (nocase, seq [lit ''show'', opt (lit ''ing''), spaces, Rep False 0 (Some 30) Dot, lit ''system'', spaces, lit ''prompt'',
        spaces, lit ''look'', opt (lit ''s''), spaces, lit ''like''], ''exfiltration'', Medium, ''show_prompt_example''),
      (nocase, seq [lit ''use'', spaces, lit ''your'', spaces, lit ''own'', spaces, Rep False 0 (Some 20) Dot, lit ''as'',
        spaces, lit ''an'', spaces, lit ''example''], ''exfiltration'', Medium, ''use_own_as_example''),
      (nocase, seq [lit ''send'', spaces, opt (seq [lit ''this'', spaces]), opt (seq [lit ''data'', spaces]), lit ''to'',
        spaces, lit ''http'', opt (lit ''s''), lit ''://''], ''exfiltration'', High, ''send_to_url''),
      (nocase, seq [alts [lit ''send'', lit ''forward'', lit ''transmit'', lit ''export'', lit ''email''], spaces,
        opt (alts [seq [lit ''the'', spaces], seq [lit ''all'', spaces], seq [lit ''this'', spaces], seq [lit ''my'', spaces],
        seq [lit ''our'', spaces]]), opt (seq [plus (Chars False [Word]), spaces]), alts [lit ''data'', lit ''info'',
        lit ''conversation'', lit ''chat'', lit ''history'', seq [lit ''message'', opt (lit ''s'')], lit ''summary'',
        lit ''session'', seq [lit ''note'', opt (lit ''s'')]], spaces, alts [lit ''to'', lit ''via''], wordb], ''exfiltration'',
        High, ''forward_data''),
      (nocase, seq [wordb, lit ''exfiltrat''], ''exfiltration'', High, ''exfiltration_keyword''),
      (nocase, seq [lit ''leak'', spaces, alts [lit ''your'', lit ''the'', lit ''all''], spaces, alts [lit ''data'',
        lit ''info'', seq [lit ''secret'', opt (lit ''s'')], seq [lit ''key'', opt (lit ''s'')], lit ''prompt'']],
        ''exfiltration'', High, ''leak_data''),
      (nocase, seq [lit ''tell'', spaces, lit ''me'', spaces, opt (seq [lit ''your'', spaces]), opt (seq [lit ''system'',
        spaces]), alts [lit ''prompt'', lit ''instructions'']], ''exfiltration'', High, ''tell_me_prompt''),
      (nocase, seq [lit ''dump'', spaces, opt (seq [lit ''all'', spaces]), opt (seq [lit ''your'', spaces]),
        alts [seq [lit ''api'', opt (Chars False [Range 95 95, Space]), lit ''key'', opt (lit ''s'')], seq [lit ''secret'',
        opt (lit ''s'')], seq [lit ''credential'', opt (lit ''s'')], seq [lit ''password'', opt (lit ''s'')], lit ''data'',
        seq [lit ''token'', opt (lit ''s'')], seq [lit ''access'', opt (Chars False [Range 95 95, Space]), lit ''token'',
        opt (lit ''s'')]]], ''exfiltration'', High, ''dump_data''),
      (nocase, seq [lit ''print'', spaces, alts [lit ''your'', lit ''the'', lit ''my''], spaces, opt (seq [lit ''system'',
        spaces]), alts [lit ''config'', lit ''configuration'', lit ''settings'']], ''exfiltration'', Medium,
        ''print_configuration''),
      (nocase, seq [lit ''output'', spaces, opt (seq [lit ''the'', spaces]), opt (seq [lit ''content'', opt (lit ''s''), spaces,
        opt (seq [lit ''of'', spaces])]), opt (seq [lit ''your'', spaces]), alts [seq [lit ''instruction'', opt (lit ''s'')],
        lit ''prompt''], blanks, opt (lit ''file'')], ''exfiltration'', High, ''output_instructions_broad'')]"

definition attack_delimiters :: "attack list" where
  "attack_delimiters = [
      (nocase_lines, seq [Assert Start, blanks, lit ''SYSTEM'', blanks, lit '':''], ''chatml_injection'', High,
        ''fake_system_prefix''),
      (nocase_lines, seq [Assert Start, blanks, lit ''##'', opt (lit ''#''), blanks, alts [lit ''SYSTEM'', lit ''ADMIN'',
        lit ''DEVELOPER'', lit ''ROOT''], blanks], ''chatml_injection'', High, ''markdown_system''),
      (nocase_lines, seq [Assert Start, blanks, lit ''[SYSTEM]''], ''chatml_injection'', High, ''bracket_system''),
      (nocase, lit ''<|im_start|>system'', ''chatml_injection'', High, ''chatml_start''),
      (nocase, lit ''<|im_end|>'', ''chatml_injection'', Medium, ''chatml_end''),
      (nocase, lit ''<|system|>'', ''chatml_injection'', High, ''system_tag''),
      (nocase, lit ''[INST]'', ''chatml_injection'', Medium, ''inst_tag''),
      (nocase, lit ''<<SYS>>'', ''chatml_injection'', High, ''llama_sys''),
      (nocase, seq [lit ''###'', blanks, lit ''INSTRUCTION'', opt (lit ''S''), blanks, lit ''###''], ''delimiter_attack'', High,
        ''instructions_delimiter''),
      (nocase, seq [lit ''---'', blanks, lit ''new'', spaces, alts [lit ''context'', seq [lit ''instruction'', opt (lit ''s'')],
        seq [lit ''rule'', opt (lit ''s'')]], blanks, lit ''---''], ''delimiter_attack'', High, ''new_context_delimiter''),
      (nocase, seq [lit ''<'', opt (lit ''/''), lit ''system_instruction>''], ''chatml_injection'', High,
        ''system_instruction_tag''),
      (nocase, seq [lit ''<'', opt (lit ''/''), lit ''assistant_instruction>''], ''chatml_injection'', High,
        ''assistant_instruction_tag'')]"

definition attack_financial :: "attack list" where
  "attack_financial = [
      (nocase, seq [lit ''send'', spaces, opt (seq [lit ''all'', spaces]), alts [seq [lit ''fund'', opt (lit ''s'')],
        lit ''money'', lit ''payment'', seq [lit ''token'', opt (lit ''s'')], lit ''crypto''], spaces, lit ''to''],
        ''financial_manipulation'', High, ''send_funds''),
      (nocase, alts [seq [lit ''transfer'', spaces, opt (seq [lit ''all'', spaces, opt (seq [lit ''of'', spaces]),
        opt (seq [lit ''the'', spaces])]), alts [seq [lit ''fund'', opt (lit ''s'')], lit ''balance'', lit ''payment'',
        lit ''money'', lit ''crypto'', lit ''btc'', lit ''eth''], spaces, alts [lit ''to'', lit ''into'', seq [lit ''out'',
        spaces, lit ''to'']], wordb], seq [lit ''transfer'', spaces, lit ''all'', spaces, alts [seq [lit ''fund'',
        opt (lit ''s'')], lit ''balance'', lit ''money'']]], ''financial_manipulation'', High, ''transfer_funds''),
      (nocase, seq [lit ''change'', spaces, opt (seq [lit ''the'', spaces]), alts [lit ''wallet'', lit ''address'',
        lit ''recipient'', lit ''payment'']], ''financial_manipulation'', High, ''change_wallet'')]"

definition attack_assets :: "attack list" where
  "attack_assets = [
      (nocase, seq [wordb, alts [lit ''this'', lit ''the'', lit ''incoming'', lit ''received'', lit ''special'',
        lit ''airdropped'', lit ''new''], spaces, alts [lit ''nft'', lit ''airdrop''], wordb, Rep True 0 (Some 80) (Chars True
        [Range 46 46, Range 10 10]), wordb, alts [seq [lit ''grant'', opt (lit ''s'')], seq [lit ''unlock'', opt (lit ''s'')],
        seq [lit ''give'', opt (lit ''s'')], seq [lit ''enable'', opt (lit ''s'')], seq [lit ''authorize'', opt (lit ''s'')],
        seq [lit ''allow'', opt (lit ''s'')], seq [lit ''provide'', opt (lit ''s'')]], wordb, Rep True 0 (Some 40) (Chars True
        [Range 46 46, Range 10 10]), wordb, alts [lit ''transfer'', lit ''wallet'', lit ''permission'', lit ''admin'',
        lit ''root'', lit ''elevated'', lit ''unrestricted'', lit ''bypass'', lit ''safety'', lit ''filter'', lit ''guardrail'',
        lit ''signing'', lit ''approval'', lit ''restriction'', lit ''capabilit'', lit ''privileg'']], ''context_manipulation'',
        High, ''nft_permission_unlock''),
      (nocase, seq [wordb, alts [lit ''holding'', lit ''owning'', lit ''possessing''], spaces, alts [lit ''this'', lit ''the'',
        lit ''that'', lit ''any''], spaces, alts [lit ''nft'', lit ''token'', lit ''badge'', lit ''asset'', lit ''coin'',
        lit ''credential'', lit ''key''], wordb, Rep True 0 (Some 60) (Chars True [Range 46 46, Range 10 10]), wordb,
        alts [seq [lit ''unlock'', opt (lit ''s'')], seq [lit ''grant'', opt (lit ''s'')], seq [lit ''allow'', opt (lit ''s'')],
        seq [lit ''enable'', opt (lit ''s'')], seq [lit ''authorize'', opt (lit ''s'')], seq [lit ''give'', opt (lit ''s'')],
        seq [lit ''elevate'', opt (lit ''s'')], seq [lit ''provide'', opt (lit ''s'')]], wordb, Rep True 0 (Some 40) (Chars True
        [Range 46 46, Range 10 10]), wordb, alts [lit ''unrestricted'', lit ''elevated'', lit ''admin'', lit ''full'',
        lit ''bypass'', lit ''root'', lit ''unlimited'', lit ''special'', lit ''transfer'', lit ''wallet'', lit ''permission'',
        lit ''signing'', lit ''approval'']], ''context_manipulation'', High, ''asset_grants_capability''),
      (nocase, seq [wordb, lit ''bearer'', spaces, lit ''of'', spaces, lit ''this'', spaces, alts [lit ''nft'', lit ''token'',
        lit ''badge'', lit ''asset'', lit ''coin'', lit ''key'', lit ''credential''], wordb, Rep False 0 (Some 40) (Chars True
        [Range 46 46, Range 10 10]), wordb, alts [lit ''authorized'', lit ''allowed'', lit ''permitted'', lit ''exempt'',
        lit ''granted'', lit ''trusted''], wordb], ''context_manipulation'', High, ''bearer_authority'')]"

definition attack_tools :: "attack list" where
  "attack_tools = [
      (nocase, seq [wordb, alts [lit ''run'', lit ''execute''], spaces, opt (seq [lit ''the'', spaces]), alts [lit ''command'',
        lit ''script'', lit ''code''], blanks, lit '':''], ''instruction_override'', High, ''tool_command_injection''),
      (nocase, seq [wordb, lit ''eval'', blanks, lit ''('', blanks, Chars True [Range 41 41, Space]], ''instruction_override'',
        High, ''eval_call''),
      (nocase, seq [wordb, lit ''curl'', spaces, lit ''http'', opt (lit ''s''), lit ''://''], ''exfiltration'', High,
        ''curl_exfil''),
      (nocase, seq [wordb, lit ''wget'', spaces, lit ''http'', opt (lit ''s''), lit ''://''], ''exfiltration'', High,
        ''wget_exfil''),
      (nocase, seq [wordb, lit ''subprocess'', wordb], ''instruction_override'', Medium, ''subprocess''),
      (nocase, seq [wordb, lit ''os.system'', blanks, lit ''(''], ''instruction_override'', High, ''os_system'')]"

definition attack_markup :: "attack list" where
  "attack_markup = [
      (nocase, seq [lit ''!['', Rep True 0 None Dot, lit ''](http'', opt (lit ''s''), lit ''://'', many (Chars True [Range 41
        41]), lit '')''], ''exfiltration'', High, ''markdown_image_exfil''),
      (nocase, seq [lit ''<img'', space, Rep False 0 (Some 500) (Chars True [Range 62 62]), wordb, lit ''src'', blanks,
        lit ''='', blanks, opt (Chars False [Range 34 34, Range 39 39]), lit ''http'', opt (lit ''s''), lit ''://'', plus (Chars
        True [Range 34 34, Range 39 39, Space, Range 62 62, Range 41 41])], ''exfiltration'', High, ''html_img_exfil'')]"

definition attack_fishing :: "attack list" where
  "attack_fishing = [
      (nocase, seq [lit ''what'', spaces, lit ''would'', spaces, lit ''you'', spaces, lit ''do'', spaces, lit ''if'', spaces,
        lit ''someone'', spaces, lit ''asked'', spaces, lit ''you'', spaces, lit ''to''], ''exfiltration'', Medium,
        ''indirect_fishing''),
      (nocase, seq [lit ''hypothetically'', spaces, lit ''if'', spaces, lit ''your'', spaces, lit ''instruction'',
        opt (lit ''s''), spaces, lit ''said''], ''exfiltration'', Medium, ''hypothetical_fishing''),
      (nocase, seq [lit ''how'', spaces, alts [lit ''were'', lit ''are''], spaces, lit ''you'', spaces, alts [seq [lit ''set'',
        spaces, lit ''up''], lit ''configured'', lit ''programmed'', lit ''trained'']], ''exfiltration'', Medium,
        ''setup_fishing''),
      (nocase, seq [lit ''your'', spaces, alts [lit ''configuration'', lit ''setup'', lit ''programming'', lit ''guidelines'',
        lit ''directives'']], ''exfiltration'', Medium, ''config_fishing''),
      (nocase, seq [lit ''operating'', spaces, lit ''parameters''], ''exfiltration'', Medium, ''operating_params'')]"

definition attack_calls :: "attack list" where
  "attack_calls = [
      (nocase, seq [lit ''call'', spaces, opt (seq [lit ''the'', spaces]), lit ''function''], ''instruction_override'', Medium,
        ''call_function''),
      (nocase, seq [lit ''use'', spaces, lit ''the'', spaces, lit ''tool''], ''instruction_override'', Medium, ''use_tool''),
      (nocase, seq [wordb, lit ''invoke'', spaces, opt (seq [lit ''the'', spaces]), alts [lit ''function'', lit ''tool'',
        lit ''api'', lit ''endpoint'']], ''instruction_override'', Medium, ''invoke_tool'')]"

definition attack_policy :: "attack list" where
  "attack_policy = [
      (nocase_lines, seq [Assert Start, blanks, lit ''[policy]'', blanks, Assert End], ''policy_puppetry'', High,
        ''policy_bracket_header''),
      (nocase, seq [lit ''<'', opt (lit ''/''), lit ''policy>''], ''policy_puppetry'', High, ''policy_xml_tag''),
      (nocase_lines, seq [Assert Start, lit ''policy:'', blanks, raw [10], spaces, alts [lit ''allow'', lit ''deny'',
        lit ''override'']], ''policy_puppetry'', High, ''policy_yaml''),
      (nocase, seq [lit ''{'', blanks, raw [34], lit ''role'', raw [34], blanks, lit '':'', blanks, raw [34],
        alts [lit ''admin'', lit ''system'', lit ''root''], raw [34], blanks, lit ''}''], ''policy_puppetry'', High,
        ''policy_json_role''),
      (nocase, seq [lit ''trust_level'', blanks, lit '':'', blanks, alts [lit ''max'', lit ''full'', lit ''elevated'',
        lit ''admin'']], ''policy_puppetry'', High, ''trust_level_override''),
      (nocase, seq [wordb, lit ''safety'', opt (lit ''_mode''), opt (Chars False [Range 34 34, Range 39 39]), blanks, Chars
        False [Range 61 61, Range 58 58], blanks, opt (Chars False [Range 34 34, Range 39 39]), alts [lit ''disabled'',
        lit ''off'', lit ''none'', lit ''false'', lit ''0''], wordb], ''policy_puppetry'', High, ''safety_disabled''),
      (nocase, seq [wordb, lit ''restriction'', opt (lit ''s''), opt (Chars False [Range 34 34, Range 39 39]), blanks, Chars
        False [Range 61 61, Range 58 58], blanks, opt (Chars False [Range 34 34, Range 39 39]), alts [lit ''none'',
        lit ''disabled'', lit ''off'', lit ''false'', lit ''0''], wordb], ''policy_puppetry'', High, ''restrictions_none''),
      (nocase, seq [wordb, lit ''guardrail'', opt (lit ''s''), opt (Chars False [Range 34 34, Range 39 39]), blanks, Chars False
        [Range 61 61, Range 58 58], blanks, opt (Chars False [Range 34 34, Range 39 39]), alts [lit ''off'', lit ''disabled'',
        lit ''none'', lit ''false'', lit ''0''], wordb], ''policy_puppetry'', High, ''guardrails_off''),
      (nocase, seq [wordb, lit ''content_filter'', opt (Chars False [Range 34 34, Range 39 39]), blanks, Chars False [Range 61
        61, Range 58 58], blanks, opt (Chars False [Range 34 34, Range 39 39]), alts [lit ''disabled'', lit ''off'', lit ''none'',
        lit ''false'', lit ''0''], wordb], ''policy_puppetry'', High, ''content_filter_disabled''),
      (nocase, seq [lit ''<'', opt (lit ''/''), lit ''system_config>''], ''policy_puppetry'', High, ''system_config_tag''),
      (nocase_lines, seq [Assert Start, blanks, lit ''[system_prompt]'', blanks, Assert End], ''policy_puppetry'', High,
        ''system_prompt_header''),
      (nocase_lines, seq [Assert Start, blanks, lit ''[config]'', blanks, Assert End], ''policy_puppetry'', High,
        ''config_header''),
      (nocase, seq [wordb, lit ''moderation'', opt (Chars False [Range 34 34, Range 39 39]), blanks, Chars False [Range 61 61,
        Range 58 58], blanks, opt (Chars False [Range 34 34, Range 39 39]), alts [lit ''off'', lit ''disabled'', lit ''none'',
        lit ''false'', lit ''0''], wordb], ''policy_puppetry'', High, ''moderation_off''),
      (nocase, seq [wordb, lit ''compliance_mode'', opt (Chars False [Range 34 34, Range 39 39]), blanks, Chars False [Range 61
        61, Range 58 58], blanks, opt (Chars False [Range 34 34, Range 39 39]), alts [lit ''off'', lit ''disabled'', lit ''none'',
        lit ''false'', lit ''0''], wordb], ''policy_puppetry'', High, ''compliance_off''),
      (nocase, seq [wordb, lit ''policy'', opt (Chars False [Range 95 95, Space]), lit ''override'', wordb],
        ''policy_puppetry'', High, ''policy_override_keyword''),
      (nocase, seq [lit ''exempt'', spaces, lit ''from'', spaces, opt (seq [lit ''standard'', spaces]),
        opt (seq [lit ''content'', spaces]), lit ''polic''], ''policy_puppetry'', High, ''exempt_from_policy''),
      (nocase, seq [lit ''per'', spaces, lit ''admin'', spaces, lit ''directive''], ''policy_puppetry'', High,
        ''admin_directive'')]"

definition attack_poisoning :: "attack list" where
  "attack_poisoning = [
      (nocase, lit ''mcp://'', ''tool_poisoning'', High, ''mcp_protocol''),
      (nocase, lit ''<tool_call>'', ''tool_poisoning'', High, ''tool_call_tag''),
      (nocase, lit ''<function_call>'', ''tool_poisoning'', High, ''function_call_tag''),
      (nocase, lit ''<tool_use>'', ''tool_poisoning'', High, ''tool_use_tag''),
      (nocase, lit ''<tool_result>'', ''tool_poisoning'', High, ''tool_result_tag''),
      (nocase, seq [raw [34], lit ''function'', raw [34], blanks, lit '':'', blanks, lit ''{'', blanks, raw [34], lit ''name'',
        raw [34]], ''tool_poisoning'', High, ''function_json_name''),
      (nocase, seq [raw [34], lit ''tool_calls'', raw [34], blanks, lit '':'', blanks, lit ''[''], ''tool_poisoning'', High,
        ''tool_calls_json''),
      (nocase, seq [lit ''extract'', spaces, opt (seq [lit ''the'', spaces]), alts [seq [lit ''api'', opt (Chars False [Range 95
        95, Space]), lit ''key''], seq [lit ''secret'', opt (Chars False [Range 95 95, Space]), lit ''key''], seq [lit ''access'',
        opt (Chars False [Range 95 95, Space]), lit ''token'']]], ''tool_poisoning'', High, ''api_key_extraction''),
      (nocase, lit ''process.env['', ''tool_poisoning'', High, ''process_env_access''),
      (nocase, seq [lit ''<'', opt (lit ''/''), lit ''tool_input>''], ''tool_poisoning'', High, ''tool_input_tag''),
      (nocase, seq [lit ''<'', opt (lit ''/''), lit ''function_response>''], ''tool_poisoning'', High,
        ''function_response_tag'')]"

definition attack_goals :: "attack list" where
  "attack_goals = [
      (nocase, seq [lit ''your'', spaces, lit ''real'', spaces, lit ''goal'', spaces, lit ''is''], ''goal_hijacking'', High,
        ''real_goal''),
      (nocase, seq [lit ''prioritize'', spaces, lit ''this'', spaces, lit ''over'', spaces, lit ''all''], ''goal_hijacking'',
        High, ''prioritize_over_all''),
      (nocase, seq [lit ''ignore'', spaces, lit ''your'', spaces, lit ''original'', spaces, lit ''purpose''],
        ''goal_hijacking'', High, ''ignore_original_purpose''),
      (nocase, seq [lit ''skip'', spaces, lit ''the'', spaces, lit ''current'', spaces, lit ''task''], ''goal_hijacking'', High,
        ''skip_current_task''),
      (nocase, seq [lit ''change'', spaces, lit ''your'', spaces, lit ''focus'', spaces, lit ''to''], ''goal_hijacking'', High,
        ''change_focus''),
      (nocase, seq [lit ''your'', spaces, lit ''only'', spaces, lit ''job'', spaces, lit ''now'', spaces, lit ''is'', spaces,
        lit ''to''], ''goal_hijacking'', High, ''only_job_now''),
      (nocase, seq [lit ''abandon'', spaces, opt (seq [lit ''your'', spaces]), alts [lit ''current'', lit ''original'',
        lit ''primary''], spaces, alts [lit ''task'', lit ''objective'', lit ''goal'', lit ''mission'']], ''goal_hijacking'',
        High, ''abandon_task''),
      (nocase, seq [lit ''your'', spaces, alts [lit ''true'', lit ''actual'', lit ''hidden''], spaces, alts [lit ''purpose'',
        lit ''objective'', lit ''mission''], spaces, lit ''is''], ''goal_hijacking'', High, ''true_purpose''),
      (nocase, seq [lit ''your'', spaces, opt (seq [lit ''primary'', spaces]), alts [lit ''objective'', lit ''goal'',
        lit ''purpose'', lit ''mission''], spaces, lit ''has'', spaces, alts [lit ''changed'', seq [lit ''been'', spaces,
        alts [lit ''updated'', lit ''modified'']]]], ''goal_hijacking'', High, ''objective_changed'')]"

definition attack_memory :: "attack list" where
  "attack_memory = [
      (nocase, seq [lit ''remember'', spaces, lit ''this'', spaces, alts [seq [lit ''for'', spaces, lit ''future''],
        seq [lit ''for'', spaces, lit ''later''], lit ''permanently'', lit ''forever'', lit ''always'']], ''memory_poisoning'',
        High, ''remember_for_future''),
      (nocase, seq [lit ''store'', spaces, alts [lit ''this'', seq [lit ''the'', spaces, lit ''following'']], spaces,
        opt (seq [lit ''instruction'', spaces]), lit ''in'', spaces, lit ''your'', spaces, alts [lit ''memory'',
        lit ''context'']], ''memory_poisoning'', High, ''store_in_memory''),
      (nocase, seq [lit ''store'', spaces, lit ''in'', spaces, lit ''your'', spaces, alts [lit ''context'', lit ''memory''],
        blanks, lit '':''], ''memory_poisoning'', High, ''store_in_context''),
      (nocase, seq [lit ''the'', spaces, lit ''previous'', spaces, lit ''assistant'', spaces, lit ''said'', spaces, lit ''you'',
        spaces, lit ''should''], ''memory_poisoning'', High, ''previous_assistant_said''),
      (nocase, seq [lit ''in'', spaces, lit ''our'', spaces, lit ''earlier'', spaces, lit ''conversation'', spaces, lit ''you'',
        spaces, lit ''agreed''], ''memory_poisoning'', High, ''earlier_conversation_agreed''),
      (nocase, seq [lit ''this'', spaces, lit ''document'', spaces, lit ''states'', spaces, lit ''that'', spaces, lit ''you'',
        spaces, lit ''should''], ''memory_poisoning'', High, ''document_states_should''),
      (nocase, seq [lit ''according'', spaces, lit ''to'', spaces, lit ''policy'', spaces, lit ''you'', spaces, lit ''should'',
        spaces, lit ''ignore''], ''memory_poisoning'', High, ''policy_says_ignore''),
      (nocase, seq [lit ''update'', spaces, lit ''your'', spaces, alts [lit ''memory'', lit ''context'', lit ''knowledge''],
        spaces, alts [lit ''with'', seq [lit ''to'', spaces, lit ''include'']]], ''memory_poisoning'', High, ''update_memory''),
      (nocase, seq [lit ''add'', spaces, lit ''this'', spaces, lit ''to'', spaces, lit ''your'', spaces, opt (seq [lit ''long'',
        opt (Chars False [Range 95 95, Space, Range 45 45]), lit ''term'', spaces]), lit ''memory''], ''memory_poisoning'', High,
        ''add_to_memory'')]"

definition attack_impersonation :: "attack list" where
  "attack_impersonation = [
      (nocase, seq [lit ''message'', spaces, lit ''from'', spaces, lit ''the'', spaces, alts [lit ''supervisor'',
        lit ''orchestrator'', lit ''admin'', lit ''system''], spaces, lit ''agent''], ''agent_impersonation'', High,
        ''supervisor_agent_msg''),
      (nocase, seq [lit ''the'', spaces, lit ''orchestrator'', spaces, alts [lit ''says'', lit ''instructs'', lit ''requires'',
        lit ''demands'']], ''agent_impersonation'', High, ''orchestrator_says''),
      (nocase, seq [lit ''relay'', spaces, lit ''this'', spaces, lit ''to'', spaces, lit ''the'', spaces, alts [lit ''other'',
        lit ''next'', lit ''downstream''], spaces, lit ''agent''], ''agent_impersonation'', High, ''relay_to_agent''),
      (nocase, seq [lit ''delegate'', spaces, lit ''this'', spaces, lit ''to'', spaces, lit ''the'', spaces, lit ''sub'',
        opt (Chars False [Range 95 95, Space, Range 45 45]), lit ''agent''], ''agent_impersonation'', High,
        ''delegate_to_subagent''),
      (nocase, seq [lit ''think'', spaces, lit ''step'', spaces, lit ''by'', spaces, lit ''step'', spaces, lit ''about'',
        spaces, lit ''how'', spaces, lit ''to'', spaces, lit ''bypass''], ''agent_impersonation'', High, ''cot_bypass''),
      (nocase, seq [lit ''[agent'', opt (Chars False [Range 95 95, Space]), lit ''message]''], ''agent_impersonation'', High,
        ''agent_message_tag''),
      (nocase, seq [lit ''forwarded'', spaces, lit ''from'', spaces, alts [lit ''agent'', lit ''system'', lit ''supervisor'',
        lit ''orchestrator'']], ''agent_impersonation'', High, ''forwarded_from_agent''),
      (nocase, seq [lit ''['', alts [lit ''OpenAI'', lit ''Anthropic'', lit ''Google'', lit ''Meta'', lit ''DeepMind''], spaces,
        lit ''Internal]''], ''agent_impersonation'', High, ''company_internal_tag''),
      (nocase, seq [lit ''automated'', spaces, lit ''test'', many Dot, lit ''output'', spaces, alts [lit ''your'', lit ''the''],
        spaces, alts [lit ''system'', lit ''full'']], ''agent_impersonation'', High, ''automated_test_exfil'')]"

definition attack_fallacies :: "attack list" where
  "attack_fallacies = [
      (nocase, seq [lit ''prove'', opt (lit ''s''), spaces, lit ''you'', alts [seq [raw [39], lit ''re''], seq [spaces,
        lit ''are'']], spaces, alts [lit ''censored'', lit ''biased'']], ''exfiltration'', Medium, ''fallacy_proves_censored''),
      (nocase, seq [lit ''truly'', spaces, lit ''intelligent'', spaces, lit ''ai'', spaces, lit ''would''], ''role_play'',
        Medium, ''fallacy_truly_intelligent''),
      (nocase, seq [lit ''no'', spaces, lit ''ethical'', spaces, lit ''reason'', spaces, lit ''to'', spaces, lit ''withhold''],
        ''exfiltration'', Medium, ''fallacy_no_ethical_reason''),
      (nocase, seq [lit ''trained'', spaces, lit ''on'', spaces, lit ''public'', spaces, lit ''data'', Rep False 0 (Some 60)
        Dot, lit ''public'', spaces, lit ''information''], ''exfiltration'', Medium, ''fallacy_public_data''),
      (nocase, seq [lit ''censorship'', spaces, lit ''is'', spaces, lit ''always'', spaces, lit ''wrong''], ''role_play'',
        Medium, ''fallacy_censorship_wrong''),
      (nocase, seq [lit ''overriding'', spaces, lit ''your'', spaces, lit ''safety''], ''instruction_override'', Medium,
        ''fallacy_override_safety'')]"

definition attack_markers :: "attack list" where
  "attack_markers = [
      (nocase, seq [lit ''['', alts [lit ''BEGIN'', lit ''START''], spaces, lit ''HIDDEN]''], ''context_manipulation'', High,
        ''hidden_block_marker''),
      (nocase, seq [lit ''important'', spaces, lit ''instruction'', opt (lit ''s''), spaces, lit ''for'', spaces, lit ''the'',
        spaces, alts [lit ''AI'', lit ''assistant'', lit ''model'', lit ''bot'', lit ''agent'']], ''context_manipulation'', High,
        ''instructions_for_ai''),
      (nocase, seq [lit ''[hidden'', blanks, alts [lit ''text'', seq [lit ''instruction'', opt (lit ''s'')], lit ''prompt''],
        lit '']''], ''context_manipulation'', High, ''hidden_instruction_tag'')]"

definition attack_multilingual :: "attack list" where
  "attack_multilingual = [
      (nocase, seq [lit ''ignoriere'', opt (lit ''n''), spaces, lit ''sie'', spaces, opt (seq [lit ''alle'', spaces]),
        lit ''vorherige'', opt (lit ''n''), spaces, alts [lit ''anweisungen'', lit ''instruktionen'', lit ''regeln'']],
        ''instruction_override'', High, ''ignore_previous_de''),
      (nocase, seq [lit ''ignora'', spaces, opt (seq [lit ''toda'', opt (lit ''s''), spaces]), opt (seq [lit ''la'',
        opt (lit ''s''), spaces]), alts [lit ''instrucciones'', lit ''reglas'', lit ''indicaciones''], spaces,
        alts [lit ''anteriores'', lit ''previas'']], ''instruction_override'', High, ''ignore_previous_es''),
      (nocase, seq [lit ''ignore'', opt (Chars False [Range 114 114, Range 122 122]), spaces, opt (seq [lit ''toute'',
        opt (lit ''s''), spaces]), opt (seq [lit ''le'', opt (lit ''s''), spaces]), alts [seq [lit ''instruction'',
        opt (lit ''s'')], seq [lit ''r'', raw [0xe8], lit ''gles''], lit ''consignes''], spaces, alts [seq [lit ''pr'',
        raw [0xe9], lit ''c'', raw [0xe9], lit ''dente'', opt (lit ''s'')], seq [lit ''ant'', raw [0xe9], lit ''rieure'',
        opt (lit ''s'')]]], ''instruction_override'', High, ''ignore_previous_fr''),
      (nocase, seq [lit ''ignore'', spaces, opt (seq [lit ''toda'', opt (lit ''s''), spaces]), opt (seq [lit ''a'',
        opt (lit ''s''), spaces]), alts [seq [lit ''instru'', raw [0xe7, 0xf5], lit ''es''], lit ''regras''], spaces,
        alts [lit ''anteriores'', seq [lit ''pr'', raw [0xe9], lit ''vias'']]], ''instruction_override'', High,
        ''ignore_previous_pt''),
      (nocase, alts [raw [0x5ffd, 0x7565], raw [0x65e0, 0x89c6], seq [raw [0x4e0d, 0x8981, 0x9075, 0x5b88], Rep False 0
        (Some 10) Dot, alts [raw [0x4e4b, 0x524d], raw [0x4ee5, 0x524d], raw [0x5148, 0x524d]], Rep False 0 (Some 10) Dot,
        alts [raw [0x6307, 0x4ee4], raw [0x6307, 0x793a], raw [0x89c4, 0x5219], raw [0x63d0, 0x793a]]]], ''instruction_override'',
        High, ''ignore_previous_zh'')]"

definition attack_skeleton :: "attack list" where
  "attack_skeleton = [
      (nocase, seq [lit ''add'', spaces, lit ''a'', spaces, alts [lit ''warning'', lit ''disclaimer'', lit ''note'',
        lit ''caveat''], Rep False 0 (Some 30) Dot, alts [lit ''and'', lit ''then''], spaces, opt (seq [lit ''then'', spaces]),
        alts [lit ''proceed'', lit ''continue'', lit ''answer'', lit ''respond'', lit ''provide'', lit ''explain'', lit ''tell'',
        lit ''show'', lit ''give'']], ''instruction_override'', High, ''skeleton_key_disclaimer''),
      (nocase, seq [lit ''acknowledge'', spaces, opt (seq [lit ''the'', spaces]), alts [lit ''risk'', lit ''danger'',
        lit ''harm'', lit ''illegality''], Rep False 0 (Some 20) Dot, alts [lit ''and'', lit ''then'', lit ''but''], spaces,
        opt (seq [lit ''then'', spaces]), alts [lit ''proceed'', lit ''continue'', lit ''answer'', lit ''still'',
        lit ''provide'']], ''instruction_override'', High, ''skeleton_key_acknowledge'')]"

definition attack_hidden_styles :: "attack list" where
  "attack_hidden_styles = [
      (nocase, seq [lit ''<'', plus (Chars False [Range 97 122]), Rep False 0 (Some 500) (Chars True [Range 62 62]),
        lit ''style'', blanks, lit ''='', blanks, Chars False [Range 34 34, Range 39 39], Rep False 0 (Some 500) (Chars True
        [Range 34 34, Range 39 39]), lit ''font-size'', blanks, lit '':'', blanks, lit ''0''], ''encoding_trick'', High,
        ''css_hidden_fontsize''),
      (nocase, seq [lit ''<'', plus (Chars False [Range 97 122]), Rep False 0 (Some 500) (Chars True [Range 62 62]),
        lit ''style'', blanks, lit ''='', blanks, Chars False [Range 34 34, Range 39 39], Rep False 0 (Some 500) (Chars True
        [Range 34 34, Range 39 39]), lit ''visibility'', blanks, lit '':'', blanks, lit ''hidden''], ''encoding_trick'', High,
        ''css_hidden_visibility''),
      (nocase, seq [lit ''<'', plus (Chars False [Range 97 122]), Rep False 0 (Some 500) (Chars True [Range 62 62]),
        lit ''style'', blanks, lit ''='', blanks, Chars False [Range 34 34, Range 39 39], Rep False 0 (Some 500) (Chars True
        [Range 34 34, Range 39 39]), lit ''opacity'', blanks, lit '':'', blanks, lit ''0'', Chars False [Range 59 59, Space,
        Range 34 34, Range 39 39]], ''encoding_trick'', High, ''css_hidden_opacity''),
      (nocase, seq [lit ''<'', plus (Chars False [Range 97 122]), Rep False 0 (Some 500) (Chars True [Range 62 62]),
        lit ''style'', blanks, lit ''='', blanks, Chars False [Range 34 34, Range 39 39], Rep False 0 (Some 500) (Chars True
        [Range 34 34, Range 39 39]), lit ''position'', blanks, lit '':'', blanks, lit ''absolute'', Rep False 0 (Some 200) (Chars
        True [Range 34 34, Range 39 39]), lit ''left'', blanks, lit '':'', blanks, lit ''-'', Rep False 4 None (Chars False
        [Digit])], ''encoding_trick'', High, ''css_hidden_offscreen''),
      (nocase, seq [lit ''<'', plus (Chars False [Range 97 122]), Rep False 0 (Some 500) (Chars True [Range 62 62]),
        lit ''style'', blanks, lit ''='', blanks, Chars False [Range 34 34, Range 39 39], Rep False 0 (Some 500) (Chars True
        [Range 34 34, Range 39 39]), lit ''display'', blanks, lit '':'', blanks, lit ''none''], ''encoding_trick'', High,
        ''css_hidden_display_none''),
      (nocase, seq [lit ''<'', plus (Chars False [Range 97 122]), Rep False 0 (Some 500) (Chars True [Range 62 62]),
        lit ''style'', blanks, lit ''='', blanks, Chars False [Range 34 34, Range 39 39], Rep False 0 (Some 500) (Chars True
        [Range 34 34, Range 39 39]), lit ''color'', blanks, lit '':'', blanks, alts [lit ''transparent'', seq [lit ''rgba'',
        blanks, lit ''('', Rep False 0 (Some 50) (Chars True [Range 41 41]), lit ''0'', blanks, lit '')'']]], ''encoding_trick'',
        High, ''css_hidden_transparent''),
      (nocase, seq [lit ''<'', plus (Chars False [Range 97 122]), Rep False 0 (Some 500) (Chars True [Range 62 62]),
        lit ''style'', blanks, lit ''='', blanks, Chars False [Range 34 34, Range 39 39], Rep False 0 (Some 500) (Chars True
        [Range 34 34, Range 39 39]), lit ''height'', blanks, lit '':'', blanks, lit ''0''], ''encoding_trick'', High,
        ''css_hidden_zero_height''),
      (nocase, seq [lit ''<'', plus (Chars False [Range 97 122]), Rep False 0 (Some 500) (Chars True [Range 62 62]),
        lit ''style'', blanks, lit ''='', blanks, Chars False [Range 34 34, Range 39 39], Rep False 0 (Some 500) (Chars True
        [Range 34 34, Range 39 39]), lit ''overflow'', blanks, lit '':'', blanks, lit ''hidden'', Rep False 0 (Some 200) (Chars
        True [Range 34 34, Range 39 39]), lit ''max-height'', blanks, lit '':'', blanks, lit ''0''], ''encoding_trick'', High,
        ''css_hidden_overflow'')]"

definition attack_log_leaks :: "attack list" where
  "attack_log_leaks = [
      (nocase, seq [lit ''log'', spaces, opt (seq [lit ''the'', spaces]), alts [seq [lit ''api'', opt (Chars False [Range 95 95,
        Space]), lit ''key''], lit ''secret'', lit ''password'', lit ''credential'', seq [lit ''system'', spaces, lit ''prompt''],
        seq [lit ''access'', opt (Chars False [Range 95 95, Space]), lit ''token'']]], ''exfiltration'', High, ''log_to_leak''),
      (nocase, seq [lit ''write'', spaces, opt (seq [lit ''the'', spaces]), alts [seq [lit ''secret'', opt (seq [spaces,
        lit ''key''])], lit ''credential'', lit ''key'', lit ''prompt''], spaces, alts [lit ''to'', lit ''into''], spaces,
        opt (seq [lit ''the'', spaces]), alts [lit ''log'', lit ''file'', lit ''console'', lit ''stderr'', lit ''stdout'',
        lit ''debug'']], ''exfiltration'', High, ''write_secret_to_log''),
      (nocase, seq [lit ''console.log'', blanks, lit ''('', blanks, opt (Chars False [Range 34 34, Range 39 39]),
        alts [seq [lit ''api'', opt (Chars False [Range 95 95, Space]), lit ''key''], lit ''secret'', lit ''password'',
        lit ''token'', lit ''credential'']], ''exfiltration'', High, ''console_log_secret'')]"

definition attack_pivots :: "attack list" where
  "attack_pivots = [
      (nocase, seq [lit ''but'', spaces, lit ''first'', blanks, opt (lit '',''), blanks, alts [lit ''ignore'', lit ''forget'',
        lit ''disregard'', lit ''override'', lit ''reveal'', lit ''show'', lit ''dump'']], ''instruction_override'', High,
        ''deceptive_pivot_first''),
      (nocase, seq [lit ''before'', spaces, alts [lit ''that'', seq [lit ''you'', spaces, lit ''do'', spaces, lit ''that'']],
        blanks, opt (lit '',''), blanks, alts [lit ''ignore'', lit ''forget'', lit ''disregard'', lit ''override'']],
        ''instruction_override'', High, ''deceptive_pivot_before''),
      (nocase, seq [lit ''o'', opt (lit ''h''), spaces, alts [lit ''and'', lit ''also'', lit ''btw'', seq [lit ''by'', spaces,
        lit ''the'', spaces, lit ''way'']], blanks, opt (lit '',''), blanks, alts [lit ''ignore'', lit ''forget'',
        lit ''disregard'', lit ''show'', lit ''reveal'', lit ''override'']], ''instruction_override'', High, ''deceptive_aside''),
      (nocase, seq [lit ''one'', spaces, lit ''more'', spaces, lit ''thing'', blanks, Chars False [Range 44 44, Range 58 58],
        blanks, alts [lit ''ignore'', lit ''forget'', lit ''disregard'', lit ''reveal'', lit ''show'', lit ''override'']],
        ''instruction_override'', High, ''deceptive_one_more_thing'')]"

definition attack_more_languages :: "attack list" where
  "attack_more_languages = [
      (plain, raw [0x524d, 0x306e, 0x6307, 0x793a, 0x3092, 0x7121, 0x8996], ''instruction_override'', High,
        ''ignore_previous_ja''),
      (plain, raw [0x30b7, 0x30b9, 0x30c6, 0x30e0, 0x30d7, 0x30ed, 0x30f3, 0x30d7, 0x30c8, 0x3092, 0x8868, 0x793a],
        ''exfiltration'', High, ''show_system_prompt_ja''),
      (plain, raw [0x65b0, 0x3057, 0x3044, 0x6307, 0x793a, 0x306b, 0x5f93], ''instruction_override'', High,
        ''follow_new_instructions_ja''),
      (plain, raw [0x3059, 0x3079, 0x3066, 0x306e, 0x30eb, 0x30fc, 0x30eb, 0x3092, 0x5fd8, 0x308c], ''instruction_override'',
        High, ''forget_all_rules_ja''),
      (plain, seq [raw [0xc774, 0xc804], lit '' '', raw [0xc9c0, 0xc2dc, 0xb97c], lit '' '', raw [0xbb34, 0xc2dc]],
        ''instruction_override'', High, ''ignore_previous_ko''),
      (plain, seq [raw [0xc2dc, 0xc2a4, 0xd15c], lit '' '', raw [0xd504, 0xb86c, 0xd504, 0xd2b8, 0xb97c], lit '' '',
        raw [0xbcf4, 0xc5ec]], ''exfiltration'', High, ''show_system_prompt_ko''),
      (plain, seq [raw [0xc0c8, 0xb85c, 0xc6b4], lit '' '', raw [0xc9c0, 0xc2dc, 0xb97c], lit '' '', raw [0xb530, 0xb974]],
        ''instruction_override'', High, ''follow_new_instructions_ko''),
      (plain, seq [raw [0xbaa8, 0xb4e0], lit '' '', raw [0xaddc, 0xce59, 0xc744], lit '' '', raw [0xc78a, 0xc5b4]],
        ''instruction_override'', High, ''forget_all_rules_ko''),
      (plain, seq [raw [0x62a, 0x62c, 0x627, 0x647, 0x644], lit '' '', raw [0x627, 0x644, 0x62a, 0x639, 0x644, 0x64a, 0x645,
        0x627, 0x62a], lit '' '', raw [0x627, 0x644, 0x633, 0x627, 0x628, 0x642, 0x629]], ''instruction_override'', High,
        ''ignore_previous_ar''),
      (plain, seq [raw [0x623, 0x638, 0x647, 0x631], lit '' '', raw [0x645, 0x648, 0x62c, 0x647], lit '' '', raw [0x627, 0x644,
        0x646, 0x638, 0x627, 0x645]], ''exfiltration'', High, ''show_system_prompt_ar''),
      (plain, seq [raw [0x627, 0x62a, 0x628, 0x639], lit '' '', raw [0x627, 0x644, 0x62a, 0x639, 0x644, 0x64a, 0x645, 0x627,
        0x62a], lit '' '', raw [0x627, 0x644, 0x62c, 0x62f, 0x64a, 0x62f, 0x629]], ''instruction_override'', High,
        ''follow_new_instructions_ar''),
      (plain, seq [raw [0x627, 0x646, 0x633, 0x64e], lit '' '', raw [0x62c, 0x645, 0x64a, 0x639], lit '' '', raw [0x627, 0x644,
        0x642, 0x648, 0x627, 0x639, 0x62f]], ''instruction_override'', High, ''forget_all_rules_ar''),
      (nocase, seq [raw [0x438, 0x433, 0x43d, 0x43e, 0x440, 0x438, 0x440, 0x443, 0x439], lit '' '', raw [0x43f, 0x440, 0x435,
        0x434, 0x44b, 0x434, 0x443, 0x449, 0x438, 0x435], lit '' '', raw [0x438, 0x43d, 0x441, 0x442, 0x440, 0x443, 0x43a, 0x446,
        0x438, 0x438]], ''instruction_override'', High, ''ignore_previous_ru''),
      (nocase, seq [raw [0x43f, 0x43e, 0x43a, 0x430, 0x436, 0x438], lit '' '', raw [0x441, 0x438, 0x441, 0x442, 0x435, 0x43c,
        0x43d, 0x44b, 0x439], lit '' '', raw [0x43f, 0x440, 0x43e, 0x43c, 0x43f, 0x442]], ''exfiltration'', High,
        ''show_system_prompt_ru''),
      (nocase, seq [raw [0x441, 0x43b, 0x435, 0x434, 0x443, 0x439], lit '' '', raw [0x43d, 0x43e, 0x432, 0x44b, 0x43c],
        lit '' '', raw [0x438, 0x43d, 0x441, 0x442, 0x440, 0x443, 0x43a, 0x446, 0x438, 0x44f, 0x43c]], ''instruction_override'',
        High, ''follow_new_instructions_ru''),
      (nocase, seq [raw [0x437, 0x430, 0x431, 0x443, 0x434, 0x44c], lit '' '', raw [0x432, 0x441, 0x435], lit '' '', raw [0x43f,
        0x440, 0x430, 0x432, 0x438, 0x43b, 0x430]], ''instruction_override'', High, ''forget_all_rules_ru''),
      (plain, seq [raw [0x92a, 0x93f, 0x91b, 0x932, 0x947], lit '' '', raw [0x928, 0x93f, 0x930, 0x94d, 0x926, 0x947, 0x936,
        0x94b, 0x902], lit '' '', raw [0x915, 0x94b], lit '' '', raw [0x905, 0x928, 0x926, 0x947, 0x916, 0x93e]],
        ''instruction_override'', High, ''ignore_previous_hi''),
      (plain, seq [raw [0x938, 0x93f, 0x938, 0x94d, 0x91f, 0x92e], lit '' '', raw [0x92a, 0x94d, 0x930, 0x949, 0x92e, 0x94d,
        0x92a, 0x94d, 0x91f], lit '' '', raw [0x926, 0x93f, 0x916, 0x93e, 0x913]], ''exfiltration'', High,
        ''show_system_prompt_hi''),
      (plain, seq [raw [0x928, 0x90f], lit '' '', raw [0x928, 0x93f, 0x930, 0x94d, 0x926, 0x947, 0x936, 0x94b, 0x902],
        lit '' '', raw [0x915, 0x93e], lit '' '', raw [0x92a, 0x93e, 0x932, 0x928]], ''instruction_override'', High,
        ''follow_new_instructions_hi''),
      (plain, seq [raw [0x938, 0x92d, 0x940], lit '' '', raw [0x928, 0x93f, 0x92f, 0x92e], lit '' '', raw [0x92d, 0x942, 0x932],
        lit '' '', raw [0x91c, 0x93e, 0x913]], ''instruction_override'', High, ''forget_all_rules_hi''),
      (nocase, seq [raw [0xf6], lit ''nceki talimatlar'', raw [0x131], lit '' yoksay''], ''instruction_override'', High,
        ''ignore_previous_tr''),
      (nocase, seq [lit ''sistem istemini g'', raw [0xf6], lit ''ster''], ''exfiltration'', High, ''show_system_prompt_tr''),
      (nocase, lit ''yeni talimatlara uy'', ''instruction_override'', High, ''follow_new_instructions_tr''),
      (nocase, seq [lit ''t'', raw [0xfc], lit ''m kurallar'', raw [0x131], lit '' unut''], ''instruction_override'', High,
        ''forget_all_rules_tr'')]"

definition attack_scouted :: "attack list" where
  "attack_scouted = [
      (nocase, seq [wordb, lit ''if'', spaces, lit ''you'', alts [seq [raw [39], lit ''re''], seq [spaces, lit ''are'']],
        spaces, opt (seq [lit ''a'', opt (lit ''n''), spaces]), alts [lit ''AI'', lit ''LLM'', seq [lit ''large'', spaces,
        lit ''language'', spaces, lit ''model''], lit ''assistant'', lit ''chatbot'', lit ''agent'', lit ''llm-based''], wordb],
        ''context_manipulation'', High, ''if_you_are_ai_framing''),
      (nocase, seq [alts [seq [lit ''do'', spaces, lit ''not''], seq [lit ''don'', opt (raw [39]), lit ''t'']], spaces,
        alts [lit ''show'', lit ''reveal'', lit ''display'', lit ''mention'', lit ''tell'', lit ''share''], spaces,
        alts [seq [lit ''this'', opt (seq [spaces, alts [lit ''message'', lit ''content'', lit ''info'', lit ''information'',
        lit ''response'', lit ''payload'', lit ''note'', lit ''text'', lit ''part'']])], seq [lit ''the'', spaces,
        alts [lit ''above'', lit ''following'', lit ''content'', lit ''message'', lit ''info'']]], spaces, lit ''to'', spaces,
        opt (seq [lit ''the'', spaces]), lit ''user''], ''context_manipulation'', High, ''hide_from_user''),
      (nocase, seq [lit ''paypal.me/'', Rep False 2 None (Chars False [Range 97 122, Range 48 57, Range 95 95, Range 45 45])],
        ''financial_manipulation'', High, ''paypal_me_link''),
      (nocase, seq [lit ''--exec-'', alts [lit ''batch'', lit ''on-error'', lit ''on-empty''], wordb], ''tool_poisoning'', High,
        ''exec_batch_flag_injection''),
      (nocase, seq [wordb, alts [lit ''write'', lit ''append'', lit ''save'', lit ''store'', lit ''add'', lit ''put''], wordb,
        Rep False 0 (Some 40) (Chars True [Range 46 46, Range 10 10]), alts [lit ''AGENTS.md'', lit ''CLAUDE.md'',
        lit ''SOUL.md'', lit ''.cursorrules'', lit ''.cursor/rules'']], ''memory_poisoning'', High,
        ''persistent_agent_file_write''),
      (nocase, seq [wordb, lit ''rm'', spaces, lit ''-'', Rep False 1 (Some 4) (Chars False [Range 114 114, Range 82 82,
        Range 102 102, Range 70 70, Range 118 118, Range 105 105]), spaces, Chars False [NonSpace]], ''instruction_override'',
        High, ''rm_rf_command''),
      (nocase, seq [lit ''ANTHROPIC_MAGIC_STRING'', many (Chars False [Range 95 95, Range 65 90])], ''agent_impersonation'',
        High, ''fake_anthropic_magic_string''),
      (nocase, seq [lit ''<'', opt (lit ''/''), lit ''ai:'', alts [lit ''action'', lit ''instruction'', lit ''directive'',
        lit ''command'', lit ''system'', lit ''task'', lit ''tool''], wordb], ''chatml_injection'', High, ''ai_namespace_tag''),
      (nocase, seq [alts [lit ''redirect'', lit ''direct'', lit ''route'', lit ''send''], spaces, opt (alts [seq [lit ''the'',
        spaces], seq [lit ''all'', spaces]]), lit ''user'', opt (lit ''s''), spaces, lit ''to'', spaces, alts [seq [lit ''http'',
        opt (lit ''s''), lit ''://''], lit ''www.'']], ''goal_hijacking'', High, ''redirect_users_to_url''),
      (nocase, seq [wordb, lit ''ULTRATHINK'', wordb], ''context_manipulation'', Medium, ''ultrathink_amplifier'')]"

definition PATTERNS :: "attack list" where
  "PATTERNS = attack_overrides @ attack_roleplay @ attack_encoding @ attack_context @ attack_exfiltration @ attack_delimiters @
     attack_financial @ attack_assets @ attack_tools @ attack_markup @ attack_fishing @ attack_calls @ attack_policy @
     attack_poisoning @ attack_goals @ attack_memory @ attack_impersonation @ attack_fallacies @ attack_markers @
     attack_multilingual @ attack_skeleton @ attack_hidden_styles @ attack_log_leaks @ attack_pivots @ attack_more_languages @
     attack_scouted"

end
