(* ===== verification/CodeExec.thy ===== *)
theory CodeExec
  imports RegexScan
begin

text \<open>
  Dangerous code in content, \<open>src/safety/scanner/codeexec.ts\<close> and \<open>src/safety/scanner/content.ts\<close>: what is matched, where the
  content is going to be written, and the decision to allow, warn or block. The table of patterns is an argument (\<open>ShippedScanner\<close>
  gives the shipped one); the rules on paths are the regular expressions of the source, written out.
\<close>

section \<open>Detection\<close>

datatype code_category = ReverseShell | DownloadAndExecute | PackageLifecycleExec | Persistence
datatype code_tier = Weapon | Contextual

definition category_name :: "code_category \<Rightarrow> string" where
  "category_name c = (case c of ReverseShell \<Rightarrow> ''reverse_shell'' | DownloadAndExecute \<Rightarrow> ''download_and_execute''
     | PackageLifecycleExec \<Rightarrow> ''package_lifecycle_exec'' | Persistence \<Rightarrow> ''persistence'')"

record code_pattern =
  cp_exec :: "ustr \<Rightarrow> ustr option"
  cp_category :: code_category
  cp_tier :: code_tier
  cp_label :: string

record code_match =
  cm_category :: code_category
  cm_tier :: code_tier
  cm_label :: string
  cm_matched :: ustr

definition code_match_of :: "ustr \<Rightarrow> code_pattern \<Rightarrow> code_match option" where
  "code_match_of s d = map_option (\<lambda>m. \<lparr>cm_category = cp_category d, cm_tier = cp_tier d, cm_label = cp_label d,
     cm_matched = take 200 m\<rparr>) (cp_exec d s)"

definition scanOnce :: "code_pattern list \<Rightarrow> ustr \<Rightarrow> code_match list" where
  "scanOnce pats s = List.map_filter (code_match_of s) pats"

definition b64_plain :: "nat \<Rightarrow> bool" where
  "b64_plain c = (letter_unit c \<or> digit_unit c \<or> c = 43 \<or> c = 47)"

text \<open>The matches of \<open>/[A-Za-z0-9+/]{16,}={0,2}/g\<close>.\<close>

fun b64_finds :: "ustr \<Rightarrow> ustr \<Rightarrow> ustr list" where
  "b64_finds w [] = (if 16 \<le> length w then [w] else [])"
| "b64_finds w (c # s) =
     (if b64_plain c then b64_finds (w @ [c]) s
      else (if 16 \<le> length w then [w @ takeWhile (\<lambda>x. x = 61) (take 2 (c # s))] else []) @ b64_finds [] s)"

definition base64Variants :: "re_lib \<Rightarrow> ustr \<Rightarrow> ustr list" where
  "base64Variants lib s =
     filter (\<lambda>t. 4 < length t \<and> runs (\<lambda>c. 32 \<le> c \<and> c \<le> 126) 4 t \<noteq> [])
       (map (\<lambda>w. tl_utf8 lib (tl_base64 lib w)) (take 20 (b64_finds [] s)))"

definition code_variants :: "re_lib \<Rightarrow> ustr \<Rightarrow> ustr list" where
  "code_variants lib s =
     dedup (s # filter (\<lambda>v. v \<noteq> s) [decodeHexEscapes s, decodeUnicodeEscapes s, decodeUrlEncoding (text_lib.truncate lib) s]
       @ base64Variants lib s)"

definition same_key :: "code_match \<Rightarrow> code_match \<Rightarrow> bool" where
  "same_key m n = (cm_category m = cm_category n \<and> cm_label m = cm_label n)"

definition add_code :: "code_match list \<Rightarrow> code_match \<Rightarrow> code_match list" where
  "add_code ms m = (if list_ex (same_key m) ms then ms else ms @ [m])"

definition detectCodeExec :: "re_lib \<Rightarrow> code_pattern list \<Rightarrow> ustr \<Rightarrow> code_match list" where
  "detectCodeExec lib pats s = foldl add_code [] (concat (map (scanOnce pats) (code_variants lib s)))"

section \<open>Where the content goes\<close>

record exec_context =
  xc_path :: "string option"
  xc_executes :: bool

definition given_text :: "string option \<Rightarrow> string option" where
  "given_text p = (if p = Some [] then None else p)"

definition last_segment :: "string \<Rightarrow> string" where
  "last_segment p = rev (takeWhile (\<lambda>c. c \<noteq> CHR ''/'') (rev p))"

text \<open>\<open>(?:^|\/)lit\<close> and \<open>(?:^|\/)lit$\<close>.\<close>

definition at_segment :: "string \<Rightarrow> string \<Rightarrow> bool" where
  "at_segment lit p = (starts_with p lit \<or> includes_sub p (CHR ''/'' # lit))"

definition is_tail :: "string \<Rightarrow> string \<Rightarrow> bool" where
  "is_tail lit p = (p = lit \<or> ends_with p (CHR ''/'' # lit))"

definition is_dockerfile :: "string \<Rightarrow> bool" where
  "is_dockerfile p =
     (let b = last_segment p; r = drop 10 b in
      starts_with b ''dockerfile''
      \<and> (r = [] \<or> (2 \<le> length r \<and> hd r = CHR ''.'' \<and> list_all (\<lambda>c. word_unit (of_char c) \<or> c = CHR ''.'' \<or> c = CHR ''-'') (drop 1 r))))"

definition risky_rules :: "((string \<Rightarrow> bool) \<times> string) list" where
  "risky_rules =
     [(at_segment ''.git/hooks/'', ''git_hook''), (is_tail ''package.json'', ''npm_scripts''),
      (\<lambda>p. is_tail ''makefile'' p \<or> is_tail ''gnumakefile'' p, ''makefile''), (at_segment ''.github/workflows/'', ''ci_workflow''),
      (is_dockerfile, ''dockerfile''), (is_tail ''.envrc'', ''direnv''), (is_tail ''setup.py'', ''setup_py''),
      (is_tail ''build.rs'', ''build_rs''), (is_tail ''.vscode/tasks.json'', ''vscode_tasks''),
      (\<lambda>p. list_ex (\<lambda>l. is_tail l p) [''.bashrc'', ''.zshrc'', ''.profile'', ''.bash_profile'', ''.bash_login''], ''shell_rc''),
      (\<lambda>p. at_segment ''crontab'' p \<or> at_segment ''cron.d/'' p, ''crontab'')]"

definition riskyPath :: "string option \<Rightarrow> string option" where
  "riskyPath path = (case given_text path of None \<Rightarrow> None
     | Some p \<Rightarrow> map_option snd (find (\<lambda>r. fst r (to_lower p)) risky_rules))"

definition doc_path :: "string \<Rightarrow> bool" where
  "doc_path p =
     (list_ex (starts_with (last_segment p)) [''readme'', ''changelog'', ''contributing'', ''license'']
      \<or> list_ex (ends_with p) [''.md'', ''.markdown'', ''.mdx'', ''.rst''] \<or> at_segment ''doc/'' p \<or> at_segment ''docs/'' p)"

definition isDocPath :: "string option \<Rightarrow> string option \<Rightarrow> bool" where
  "isDocPath path mime = (case given_text path of
       Some p \<Rightarrow> doc_path (to_lower p)
     | None \<Rightarrow> (case given_text mime of None \<Rightarrow> False | Some t \<Rightarrow> to_lower t \<in> {''text/markdown'', ''text/x-markdown''}))"

section \<open>The decision\<close>

datatype code_action = AllowCode | WarnCode | BlockCode

definition action_name :: "code_action \<Rightarrow> string" where
  "action_name a = (case a of AllowCode \<Rightarrow> ''allow'' | WarnCode \<Rightarrow> ''warn'' | BlockCode \<Rightarrow> ''block'')"

definition action_rank :: "code_action \<Rightarrow> nat" where
  "action_rank a = (case a of AllowCode \<Rightarrow> 0 | WarnCode \<Rightarrow> 1 | BlockCode \<Rightarrow> 2)"

record code_decision =
  cd_action :: code_action
  cd_score :: jsnum
  cd_flags :: "string list"
  cd_warnings :: "string list"
  cd_category :: "code_category option"
  cd_reason :: "string option"

definition action_for :: "bool \<Rightarrow> bool \<Rightarrow> code_match \<Rightarrow> code_action" where
  "action_for risk doc m =
     (if cm_tier m = Weapon then BlockCode else if risk then BlockCode else if doc then AllowCode else WarnCode)"

definition code_flag :: "code_match \<Rightarrow> string" where
  "code_flag m = ''code:'' @ category_name (cm_category m) @ '':'' @ cm_label m"

record decision_state =
  ds_action :: code_action
  ds_category :: "code_category option"
  ds_flags :: "string list"
  ds_warnings :: "string list"

definition decide_one :: "bool \<Rightarrow> bool \<Rightarrow> decision_state \<Rightarrow> code_match \<Rightarrow> decision_state" where
  "decide_one risk doc st m =
     (let a = action_for risk doc m;
          st1 = (case a of BlockCode \<Rightarrow> st\<lparr>ds_flags := ds_flags st @ [code_flag m]\<rparr>
                 | WarnCode \<Rightarrow> st\<lparr>ds_warnings := ds_warnings st @ [code_flag m]\<rparr> | AllowCode \<Rightarrow> st) in
      if action_rank (ds_action st) < action_rank a then st1\<lparr>ds_action := a, ds_category := Some (cm_category m)\<rparr> else st1)"

definition is_risk :: "exec_context option \<Rightarrow> bool" where
  "is_risk ctx = (case ctx of None \<Rightarrow> False | Some c \<Rightarrow> xc_executes c \<or> riskyPath (xc_path c) \<noteq> None)"

definition is_doc :: "exec_context option \<Rightarrow> string option \<Rightarrow> bool" where
  "is_doc ctx mime = isDocPath (case ctx of None \<Rightarrow> None | Some c \<Rightarrow> xc_path c) mime"

definition decision_score :: "code_action \<Rightarrow> code_match list \<Rightarrow> jsnum" where
  "decision_score a ms = (case a of
       BlockCode \<Rightarrow> if list_ex (\<lambda>m. cm_tier m = Weapon) ms then fl (9 / 10) else fl (8 / 10)
     | WarnCode \<Rightarrow> fl (4 / 10) | AllowCode \<Rightarrow> Fin 0)"

definition decideCodeExec :: "code_match list \<Rightarrow> exec_context option \<Rightarrow> string option \<Rightarrow> code_decision" where
  "decideCodeExec ms ctx mime =
     (if ms = [] then \<lparr>cd_action = AllowCode, cd_score = Fin 0, cd_flags = [], cd_warnings = [], cd_category = None, cd_reason = None\<rparr>
      else let st = foldl (decide_one (is_risk ctx) (is_doc ctx mime))
            \<lparr>ds_action = AllowCode, ds_category = None, ds_flags = [], ds_warnings = []\<rparr> ms in
        \<lparr>cd_action = ds_action st, cd_score = decision_score (ds_action st) ms, cd_flags = dedup (ds_flags st),
         cd_warnings = dedup (ds_warnings st), cd_category = ds_category st,
         cd_reason = map_option (\<lambda>c. map (\<lambda>x. if x = CHR ''_'' then CHR '' '' else x) (category_name c) @ '' ('' @ action_name (ds_action st) @ '')'')
           (ds_category st)\<rparr>)"

section \<open>Content\<close>

definition MAX_CONTENT :: nat where "MAX_CONTENT = 1000000"

record content_result =
  ct_safe :: bool
  ct_score :: jsnum
  ct_flags :: "string list"
  ct_action :: code_action
  ct_warnings :: "string list"
  ct_category :: "code_category option"
  ct_reason :: "string option"

definition network_exfil :: "string \<Rightarrow> bool" where
  "network_exfil f = (ends_with f '':curl_exfil'' \<or> ends_with f '':wget_exfil'')"

definition fold_content :: "layer \<Rightarrow> code_decision \<Rightarrow> bool \<Rightarrow> content_result" where
  "fold_content ly code doc =
     (let all = dedup (map (\<lambda>f. ''content:'' @ f) (ly_flags ly));
          injected = filter (\<lambda>f. \<not> (doc \<and> network_exfil f)) all;
          lowered = filter (\<lambda>f. doc \<and> network_exfil f) all;
          flags = dedup (injected @ cd_flags code);
          warnings = dedup (lowered @ cd_warnings code);
          action = (if flags \<noteq> [] then BlockCode else if warnings \<noteq> [] then WarnCode else AllowCode);
          base = math_max (if injected \<noteq> [] then ly_score ly else Fin 0) (cd_score code) in
      \<lparr>ct_safe = (flags = []), ct_score = (if action = WarnCode \<and> base = Fin 0 then fl (15 / 100) else base), ct_flags = flags,
       ct_action = action, ct_warnings = warnings, ct_category = cd_category code, ct_reason = cd_reason code\<rparr>)"

definition scanContent ::
  "re_lib \<Rightarrow> pattern_def list \<Rightarrow> code_pattern list \<Rightarrow> exec_context option \<Rightarrow> string option \<Rightarrow> ustr \<Rightarrow> content_result" where
  "scanContent lib pats codes ctx mime s =
     (let t = (if MAX_CONTENT < length s then take MAX_CONTENT s else s) in
      fold_content (regexScan lib pats t) (decideCodeExec (detectCodeExec lib codes t) ctx mime) (is_doc ctx mime))"

section \<open>The decision, declaratively\<close>

definition decision_inv :: "bool \<Rightarrow> bool \<Rightarrow> code_match list \<Rightarrow> decision_state \<Rightarrow> bool" where
  "decision_inv risk doc ms st = (set (ds_flags st) = code_flag ` {m \<in> set ms. action_for risk doc m = BlockCode}
     \<and> set (ds_warnings st) = code_flag ` {m \<in> set ms. action_for risk doc m = WarnCode}
     \<and> (ds_action st = BlockCode \<longleftrightarrow> (\<exists>m \<in> set ms. action_for risk doc m = BlockCode))
     \<and> (ds_action st = AllowCode \<longleftrightarrow> (\<forall>m \<in> set ms. action_for risk doc m = AllowCode)))"

lemma decide_one_inv: "decision_inv risk doc ms st \<Longrightarrow> decision_inv risk doc (ms @ [m]) (decide_one risk doc st m)"
  by (cases "action_for risk doc m"; cases "ds_action st")
    (auto simp: decision_inv_def decide_one_def action_rank_def)

lemma decide_inv:
  "decision_inv risk doc ms (foldl (decide_one risk doc) \<lparr>ds_action = AllowCode, ds_category = None, ds_flags = [], ds_warnings = []\<rparr> ms)"
proof (induction ms rule: rev_induct)
  case (snoc m ms)
  then show ?case using decide_one_inv by simp
qed (simp add: decision_inv_def)

lemma decide_flags:
  "set (cd_flags (decideCodeExec ms ctx mime)) = code_flag ` {m \<in> set ms. cm_tier m = Weapon \<or> is_risk ctx}"
  "set (cd_warnings (decideCodeExec ms ctx mime)) = code_flag ` {m \<in> set ms. cm_tier m \<noteq> Weapon \<and> \<not> is_risk ctx \<and> \<not> is_doc ctx mime}"
  using decide_inv [of "is_risk ctx" "is_doc ctx mime" ms]
  by (auto simp: decideCodeExec_def decision_inv_def action_for_def Let_def split: if_splits)

text \<open>
  C25. The fold over the matches is the declared policy: the content is blocked exactly when some match is a weapon or any
  match goes where the host executes, whatever else is said of it; it is warned about exactly when it is not blocked and
  some match is outside a document; everything else is allowed.
\<close>

theorem decideCodeExec_policy:
  "cd_action (decideCodeExec ms ctx mime) =
     (if (\<exists>m \<in> set ms. cm_tier m = Weapon) \<or> (is_risk ctx \<and> ms \<noteq> []) then BlockCode
      else if ms \<noteq> [] \<and> \<not> is_doc ctx mime then WarnCode else AllowCode)"
proof (cases "ms = []")
  case False
  let ?st = "foldl (decide_one (is_risk ctx) (is_doc ctx mime)) \<lparr>ds_action = AllowCode, ds_category = None, ds_flags = [], ds_warnings = []\<rparr> ms"
  have i: "decision_inv (is_risk ctx) (is_doc ctx mime) ms ?st" by (rule decide_inv)
  have b: "(\<exists>m \<in> set ms. action_for (is_risk ctx) (is_doc ctx mime) m = BlockCode) \<longleftrightarrow> (\<exists>m \<in> set ms. cm_tier m = Weapon) \<or> is_risk ctx"
    using False by (cases ms) (auto simp: action_for_def)
  have a: "(\<forall>m \<in> set ms. action_for (is_risk ctx) (is_doc ctx mime) m = AllowCode)
      \<longleftrightarrow> \<not> ((\<exists>m \<in> set ms. cm_tier m = Weapon) \<or> is_risk ctx) \<and> is_doc ctx mime"
    using False by (cases ms) (auto simp: action_for_def)
  have "cd_action (decideCodeExec ms ctx mime) = ds_action ?st" using False by (simp add: decideCodeExec_def Let_def)
  then show ?thesis using i a b False by (cases "ds_action ?st") (auto simp: decision_inv_def)
qed (simp add: decideCodeExec_def)

text \<open>An explicit \<open>false\<close> does not lift the risk of a path the host executes.\<close>

lemma risky_path_not_lifted: "riskyPath (xc_path c) \<noteq> None \<Longrightarrow> is_risk (Some c)"
  by (simp add: is_risk_def)

text \<open>What is content blocked for.\<close>

lemma fold_content_blocks:
  "ct_action (fold_content ly code doc) = BlockCode \<longleftrightarrow>
     (\<exists>f \<in> set (ly_flags ly). \<not> (doc \<and> network_exfil (''content:'' @ f))) \<or> cd_flags code \<noteq> []"
  by (auto simp: fold_content_def Let_def filter_empty_conv)

lemma scanContent_safe: "ct_safe (scanContent lib pats codes ctx mime s) \<longleftrightarrow> ct_action (scanContent lib pats codes ctx mime s) \<noteq> BlockCode"
  by (auto simp: scanContent_def fold_content_def Let_def)

text \<open>Nothing beyond the first million units is looked at, and nothing says so.\<close>

lemma content_tail_unscanned:
  "length s = MAX_CONTENT \<Longrightarrow> scanContent lib pats codes ctx mime (s @ t) = scanContent lib pats codes ctx mime s"
  by (cases "t = []") (auto simp: scanContent_def)

section \<open>Encoded weapons\<close>

lemma add_code_sub: "set (foldl add_code acc ms) \<subseteq> set acc \<union> set ms"
proof (induction ms arbitrary: acc)
  case (Cons m ms)
  have "set (add_code acc m) \<subseteq> insert m (set acc)" by (auto simp: add_code_def)
  then show ?case using Cons.IH [of "add_code acc m"] by auto
qed simp

lemma add_code_keeps: "m \<in> set acc \<Longrightarrow> m \<in> set (foldl add_code acc ms)"
  by (induction ms arbitrary: acc) (auto simp: add_code_def)

lemma add_code_covers: "m \<in> set ms \<Longrightarrow> \<exists>m' \<in> set (foldl add_code acc ms). same_key m m'"
proof (induction ms arbitrary: acc)
  case (Cons a ms)
  show ?case
  proof (cases "m = a")
    case True
    have "\<exists>m' \<in> set (add_code acc a). same_key a m'"
      by (auto simp: add_code_def list_ex_iff same_key_def)
    then show ?thesis using True add_code_keeps by fastforce
  qed (use Cons in auto)
qed simp

lemma scanOnce_in: "m \<in> set (scanOnce pats s) \<longleftrightarrow> (\<exists>d \<in> set pats. code_match_of s d = Some m)"
  by (induction pats) (auto simp: scanOnce_def List.map_filter_simps split: option.splits)

lemma distinct_label: "distinct (map cp_label pats) \<Longrightarrow> d \<in> set pats \<Longrightarrow> d' \<in> set pats \<Longrightarrow> cp_label d = cp_label d' \<Longrightarrow> d = d'"
  by (simp add: distinct_map inj_on_def)

lemma weapon_detected:
  assumes "distinct (map cp_label pats)" "d \<in> set pats" "cp_tier d = Weapon" "cp_exec d v \<noteq> None" "v \<in> set (code_variants lib s)"
  shows "\<exists>m \<in> set (detectCodeExec lib pats s). cm_tier m = Weapon"
proof -
  let ?all = "concat (map (scanOnce pats) (code_variants lib s))"
  obtain y where y: "cp_exec d v = Some y" using assms(4) by auto
  let ?m = "\<lparr>cm_category = cp_category d, cm_tier = cp_tier d, cm_label = cp_label d, cm_matched = take 200 y\<rparr>"
  have "?m \<in> set (scanOnce pats v)" unfolding scanOnce_in using assms(2) y by (intro bexI [of _ d]) (simp_all add: code_match_of_def)
  then have "?m \<in> set ?all" using assms(5) by auto
  then obtain m where m: "m \<in> set (detectCodeExec lib pats s)" "same_key ?m m"
    using add_code_covers unfolding detectCodeExec_def by blast
  have "m \<in> set ?all" using m(1) add_code_sub [of "[]" ?all] by (auto simp: detectCodeExec_def)
  then obtain w where "m \<in> set (scanOnce pats w)" by auto
  then obtain d' where d': "d' \<in> set pats" "code_match_of w d' = Some m" by (auto simp: scanOnce_in)
  then have "cp_label d' = cp_label d" "cm_tier m = cp_tier d'" using m(2) by (auto simp: code_match_of_def same_key_def)
  then have "cm_tier m = Weapon" using distinct_label [OF assms(1) d'(1) assms(2)] assms(3) by simp
  then show ?thesis using m(1) by blast
qed

text \<open>
  Code that is a weapon is blocked wherever it is written to and whatever it is called, as it is or in \<open>\x\<close> or \<open>\u\<close>
  escapes, when it is within the first million characters.
\<close>

theorem weapon_blocked:
  assumes "distinct (map cp_label codes)" "d \<in> set codes" "cp_tier d = Weapon" "cp_exec d s \<noteq> None"
    and "\<forall>u \<in> set s. u < 256" "v \<in> {s, hex_escape s, unicode_escape s}" "length v \<le> MAX_CONTENT"
  shows "ct_action (scanContent lib pats codes ctx mime v) = BlockCode \<and> \<not> ct_safe (scanContent lib pats codes ctx mime v)"
proof -
  have "\<forall>u \<in> set s. u < 65536" using assms(5) by auto
  then have "s \<in> {v, decodeHexEscapes v, decodeUnicodeEscapes v}"
    using assms(5,6) decode_hex_escape [of s] decode_unicode_escape [of s] by auto
  then have "s \<in> set (code_variants lib v)" by (auto simp: code_variants_def)
  then obtain m where m: "m \<in> set (detectCodeExec lib codes v)" "cm_tier m = Weapon"
    using weapon_detected [OF assms(1-4)] by blast
  then have "cd_flags (decideCodeExec (detectCodeExec lib codes v) ctx mime) \<noteq> []"
    using decide_flags(1) [of "detectCodeExec lib codes v" ctx mime] by (metis (mono_tags, lifting) empty_iff empty_set image_eqI mem_Collect_eq)
  then have "ct_action (scanContent lib pats codes ctx mime v) = BlockCode"
    using assms(7) by (simp add: scanContent_def fold_content_blocks Let_def)
  then show ?thesis by (simp add: scanContent_safe)
qed

definition demo_weapon :: code_pattern where
  "demo_weapon = \<lparr>cp_exec = (\<lambda>s. if sublist (units ''/dev/tcp/'') s then Some (units ''/dev/tcp/'') else None),
     cp_category = ReverseShell, cp_tier = Weapon, cp_label = ''dev_tcp''\<rparr>"

lemma weapon_blocked_witness:
  "ct_action (scanContent demo_re_lib [] [demo_weapon] (Some \<lparr>xc_path = Some ''README.md'', xc_executes = False\<rparr>) None
     (hex_escape (units ''x > /dev/tcp/1/2''))) = BlockCode"
proof -
  have "sublist (units ''/dev/tcp/'') (units ''x > /dev/tcp/1/2'')" by code_simp
  then have "cp_exec demo_weapon (units ''x > /dev/tcp/1/2'') \<noteq> None" by (simp add: demo_weapon_def)
  moreover have "\<forall>u \<in> set (units ''x > /dev/tcp/1/2''). u < 256" by (simp add: units_def)
  moreover have "length (hex_escape (units ''x > /dev/tcp/1/2'')) \<le> MAX_CONTENT" by (simp add: hex_escape_def units_def MAX_CONTENT_def)
  ultimately show ?thesis
    using weapon_blocked [of "[demo_weapon]" demo_weapon "units ''x > /dev/tcp/1/2''" "hex_escape (units ''x > /dev/tcp/1/2'')"
        demo_re_lib "[]" "Some \<lparr>xc_path = Some ''README.md'', xc_executes = False\<rparr>" None]
    by (simp add: demo_weapon_def)
qed

end
