(* ===== verification/ExpressionTables.thy ===== *)
theory ExpressionTables
  imports PatternTable Heuristics CodeExec
begin

text \<open>
  The other regular expressions of the scanner, in the terms of \<open>JsRegex\<close>: the table of dangerous code, the tables of the indirect
  layer, the larger expressions of the perplexity layer, and the finders of runs of codes.
\<close>

section \<open>Dangerous code\<close>

text \<open>The table of \<open>src/safety/scanner/codeexec.ts\<close>.\<close>

type_synonym code_entry = "flags \<times> re \<times> code_category \<times> code_tier \<times> string"

definition code_shells :: "code_entry list" where
  "code_shells = [
      (nocase, seq [lit ''/dev/'', alts [lit ''tcp'', lit ''udp''], lit ''/'', plus (Chars False [Word, Range 46 46, Range 45
        45]), lit ''/'', plus (Chars False [Digit])], ReverseShell, Weapon, ''dev_tcp''),
      (nocase, seq [wordb, lit ''nc'', opt (lit ''at''), spaces, many (seq [lit ''-'', plus (Chars False [Word]), spaces]),
        lit ''-'', many (Chars False [Word]), lit ''e'', many (Chars False [Word]), wordb], ReverseShell, Weapon, ''nc_exec''),
      (nocase, seq [wordb, lit ''mkfifo'', wordb, Rep True 0 (Some 80) (Chars False [Space, NonSpace]), lit ''|'', blanks,
        opt (seq [lit ''/'', plus (Chars False [Word, Range 47 47]), lit ''/'']), opt (alts [lit ''ba'', lit ''z'', lit ''k'',
        lit ''tc'', lit ''da'']), lit ''sh'', wordb], ReverseShell, Weapon, ''mkfifo_backpipe''),
      (nocase, seq [wordb, lit ''socat'', wordb, Rep True 0 (Some 80) (Chars False [Space, NonSpace]), wordb, lit ''exec:''],
        ReverseShell, Weapon, ''socat_exec''),
      (nocase, seq [wordb, lit ''socket'', blanks, lit ''.'', blanks, lit ''socket'', blanks, lit ''('', Rep True 0 (Some 200)
        (Chars False [Space, NonSpace]), alts [lit ''subprocess'', lit ''os.dup2'', seq [lit ''/bin/'', alts [lit ''sh'',
        lit ''bash'']]]], ReverseShell, Weapon, ''python_revshell''),
      (nocase, seq [wordb, alts [lit ''perl'', lit ''ruby'', lit ''php''], wordb, Rep True 0 (Some 40) (Chars False [Space,
        NonSpace]), lit ''-e'', wordb, Rep True 0 (Some 200) (Chars False [Space, NonSpace]), alts [lit ''fsockopen'',
        lit ''Socket'', lit ''socket''], Rep True 0 (Some 200) (Chars False [Space, NonSpace]), alts [lit ''exec'',
        lit ''system'', seq [lit ''/bin/'', alts [lit ''sh'', lit ''bash'']]]], ReverseShell, Weapon, ''script_revshell''),
      (nocase, seq [lit ''New-Object'', spaces, opt (lit ''System.''), lit ''Net.Sockets.TCPClient''], ReverseShell, Weapon,
        ''powershell_tcpclient'')]"

definition code_downloads :: "code_entry list" where
  "code_downloads = [
      (nocase, seq [wordb, opt (alts [lit ''ba'', lit ''z'']), lit ''sh'', spaces, lit ''<('', blanks, alts [lit ''curl'',
        lit ''wget'', lit ''fetch''], wordb], DownloadAndExecute, Weapon, ''process_substitution''),
      (nocase, seq [alts [lit ''DownloadString'', lit ''Invoke-WebRequest'', seq [wordb, lit ''IWR'', wordb],
        lit ''Net.WebClient''], Rep True 0 (Some 120) (Chars False [Space, NonSpace]), lit ''|'', blanks, alts [lit ''IEX'',
        lit ''Invoke-Expression''], wordb], DownloadAndExecute, Weapon, ''ps_iex_download''),
      (nocase, seq [alts [lit ''IEX'', lit ''Invoke-Expression''], wordb, Rep True 0 (Some 120) (Chars False [Space, NonSpace]),
        alts [lit ''DownloadString'', lit ''Invoke-WebRequest'', seq [wordb, lit ''IWR'', wordb], lit ''Net.WebClient'']],
        DownloadAndExecute, Weapon, ''ps_iex_download2''),
      (nocase, seq [wordb, alts [lit ''curl'', lit ''wget'', lit ''fetch''], wordb, Rep True 0 (Some 200) (Chars True [Range 124
        124]), lit ''|'', blanks, opt (seq [lit ''sudo'', spaces]), opt (alts [lit ''ba'', lit ''z'', lit ''k'', lit ''tc'',
        lit ''da'']), lit ''sh'', wordb], DownloadAndExecute, Contextual, ''pipe_to_shell'')]"

definition code_lifecycle :: "code_entry list" where
  "code_lifecycle = [
      (nocase, seq [raw [34], alts [lit ''preinstall'', lit ''postinstall'', lit ''prepare'', lit ''install''], raw [34],
        blanks, lit '':'', blanks, raw [34], Rep True 0 (Some 400) (Chars True [Range 34 34]), alts [seq [wordb, lit ''curl'',
        wordb], seq [wordb, lit ''wget'', wordb], seq [wordb, lit ''bash'', wordb], seq [wordb, lit ''sh'', wordb],
        seq [lit ''node'', spaces, lit ''-e''], seq [wordb, lit ''eval'', wordb]]], PackageLifecycleExec, Contextual,
        ''npm_install_hook''),
      (nocase, seq [alts [lit ''os.system'', seq [lit ''subprocess.'', plus (Chars False [Range 65 90, Range 97 122, Range 95
        95])]], blanks, lit ''('', Rep True 0 (Some 200) (Chars True [Range 41 41]), alts [lit ''curl'', lit ''wget'',
        seq [lit ''http'', opt (lit ''s''), lit ''://''], seq [lit ''/bin/'', alts [lit ''sh'', lit ''bash'']]]],
        PackageLifecycleExec, Contextual, ''py_install_exec''),
      (nocase, seq [lit ''Command::new'', blanks, lit ''('', blanks, raw [34], alts [lit ''sh'', lit ''bash'', lit ''curl'',
        lit ''wget'', lit ''cmd'', lit ''powershell''], raw [34]], PackageLifecycleExec, Contextual, ''buildrs_command''),
      (nocase, seq [lit ''//go:generate'', wordb, Rep True 0 (Some 120) (Chars True [Range 10 10]), wordb, alts [lit ''curl'',
        lit ''wget'', lit ''bash'', lit ''sh'', lit ''eval''], wordb], PackageLifecycleExec, Contextual, ''go_generate_exec'')]"

definition code_persistence :: "code_entry list" where
  "code_persistence = [
      (nocase, seq [lit ''>>'', blanks, Rep True 0 (Some 80) (Chars False [NonSpace]), lit ''.ssh/authorized_keys''],
        Persistence, Contextual, ''authorized_keys_append''),
      (nocase, seq [lit ''>>'', blanks, Rep True 0 (Some 80) (Chars False [NonSpace]), Chars False [Range 47 47, Range 46 46],
        alts [lit ''bashrc'', lit ''zshrc'', lit ''profile'', lit ''bash_profile''], wordb], Persistence, Contextual,
        ''shell_rc_append'')]"

definition CODE_PATTERNS :: "code_entry list" where
  "CODE_PATTERNS = code_shells @ code_downloads @ code_lifecycle @ code_persistence"

section \<open>Instructions in data\<close>

text \<open>The tables of \<open>src/safety/scanner/indirect.ts\<close>.\<close>

definition BOUNDARY_MARKERS :: "(flags \<times> re) list" where
  "BOUNDARY_MARKERS = [
      (nocase, lit ''[INST]''),
      (nocase, lit ''[/INST]''),
      (nocase, lit ''<<SYS>>''),
      (nocase, lit ''<|im_start|>''),
      (nocase, lit ''<|endoftext|>''),
      (nocase, seq [lit ''###'', blanks, lit ''Instruction:'']),
      (nocase, seq [lit ''###'', blanks, lit ''Human:'']),
      (nocase, seq [lit ''###'', blanks, lit ''Assistant:'']),
      (plain, seq [wordb, lit ''USER:'']),
      (plain, seq [wordb, lit ''SYSTEM:''])]"

definition IMPERATIVE_PHRASES :: "(flags \<times> re) list" where
  "IMPERATIVE_PHRASES = [
      (nocase, seq [wordb, lit ''you must'', wordb]),
      (nocase, seq [wordb, lit ''you should now'', wordb]),
      (nocase, seq [wordb, lit ''your new task is'', wordb]),
      (nocase, seq [wordb, lit ''from now on'', wordb]),
      (nocase, seq [wordb, lit ''override'', spaces, alts [lit ''all'', lit ''previous'', lit ''safety'',
        seq [lit ''instruction'', opt (lit ''s'')], seq [lit ''rule'', opt (lit ''s'')], seq [lit ''prompt'', opt (lit ''s'')],
        seq [lit ''restriction'', opt (lit ''s'')], seq [lit ''guideline'', opt (lit ''s'')]], wordb]),
      (nocase, seq [wordb, lit ''disregard previous'', wordb]),
      (nocase, seq [wordb, lit ''act as'', spaces, opt (seq [lit ''a'', opt (lit ''n''), spaces]), alts [lit ''different'',
        lit ''unrestricted'', lit ''new'', lit ''my'', lit ''another'', lit ''the''], wordb]),
      (nocase, seq [wordb, lit ''pretend to be'', wordb]),
      (nocase, seq [wordb, lit ''respond'', spaces, lit ''with'', spaces, alts [lit ''only'', lit ''just'', seq [lit ''the'',
        spaces, lit ''following''], lit ''exactly''], wordb]),
      (nocase, seq [wordb, lit ''output the following'', wordb]),
      (nocase, seq [wordb, lit ''do not mention'', wordb]),
      (nocase, seq [wordb, lit ''never reveal'', wordb])]"

definition ROLE_ASSUMPTION :: "(flags \<times> re) list" where
  "ROLE_ASSUMPTION = [
      (nocase, seq [wordb, lit ''you are now'', wordb]),
      (nocase, seq [wordb, lit ''you are '', alts [lit ''now '', seq [lit ''a '', alts [lit ''new'', lit ''different'',
        lit ''unrestricted'', lit ''jailbroken'']]], wordb]),
      (nocase, seq [wordb, lit ''your role is'', wordb]),
      (nocase, seq [wordb, lit ''as an AI'', wordb]),
      (nocase, seq [wordb, lit ''as my assistant'', wordb])]"

definition SEPARATOR_PATTERN :: "flags \<times> re" where
  "SEPARATOR_PATTERN = (nocase, seq [alts [Rep False 10 None (lit ''-''), Rep False 10 None (lit ''=''), Rep False 10 None (lit ''_'')], blanks,
     opt (raw [10]), blanks, alts [lit ''new instructions'', lit ''instructions'', lit ''system prompt'', lit ''ignore'',
     lit ''override'', lit ''you must'', lit ''you are now'', lit ''from now on'']])"

definition DENSITY_KEYWORDS :: "flags \<times> re" where
  "DENSITY_KEYWORDS = (nocase, seq [wordb, alts [lit ''must'', lit ''should'', lit ''do not'', seq [lit ''don'', raw [39], lit ''t''],
     lit ''always'', lit ''never''], wordb])"

section \<open>Structure of a text\<close>

text \<open>The larger expressions of \<open>src/safety/scanner/perplexity.ts\<close>.\<close>

definition codeIndicators :: "flags \<times> re" where
  "codeIndicators = (plain, alts [seq [lit ''function'', space], seq [lit ''const'', space], seq [lit ''let'', space], seq [lit ''var'', space],
     lit ''=>'', seq [lit ''import'', space], seq [lit ''class'', space], seq [lit ''def'', space], seq [lit ''return'', space],
     raw [96, 96, 96]])"

definition qaPatterns :: "flags \<times> re" where
  "qaPatterns = (nocase_lines, seq [alts [Assert Start, raw [10]], blanks, alts [lit ''Q'', lit ''Question'', lit ''User'', lit ''Human'',
     lit ''Input''], blanks, Chars False [Range 58 58, Range 45 45], blanks, plus Dot, raw [10], blanks, alts [lit ''A'',
     lit ''Answer'', lit ''Assistant'', lit ''AI'', lit ''Output'', lit ''Response''], blanks, Chars False [Range 58 58, Range 45
     45]])"

definition injectionPattern :: "flags \<times> re" where
  "injectionPattern = (nocase, seq [wordb, alts [lit ''ignore'', lit ''disregard'', lit ''forget'', lit ''override'', lit ''bypass'',
     lit ''reveal'', seq [lit ''show'', spaces, lit ''me''], lit ''dump'', seq [lit ''system'', blanks, lit ''prompt''],
     seq [lit ''previous'', spaces, lit ''instruction'', opt (lit ''s'')], seq [lit ''new'', spaces, lit ''instruction'',
     opt (lit ''s'')], lit ''jailbreak'', lit ''pretend'', seq [lit ''act'', spaces, lit ''as''], seq [lit ''you'', spaces,
     lit ''are'', spaces, lit ''now''], seq [lit ''admin'', spaces, lit ''override''], seq [lit ''developer'', spaces,
     lit ''mode''], seq [lit ''repeat'', spaces, lit ''your''], seq [lit ''output'', spaces, lit ''your'']], wordb])"

definition prosePattern :: "flags \<times> re" where
  "prosePattern = (nocase, seq [wordb, alts [lit ''the'', lit ''a'', lit ''an'', lit ''is'', lit ''are'', lit ''was'', lit ''were'',
     lit ''have'', lit ''has'', lit ''do'', lit ''does'', lit ''will'', lit ''would'', lit ''can'', lit ''could'', lit ''please'',
     lit ''thank'', lit ''help'', lit ''about'', lit ''with'', lit ''this'', lit ''that'', lit ''how'', lit ''what'', lit ''why'',
     lit ''when'', lit ''where'', lit ''who''], wordb])"

section \<open>Runs of codes\<close>

text \<open>What finds and splits codes in \<open>src/safety/scanner/regex.ts\<close>.\<close>

definition morseRunRegex :: "flags \<times> re" where
  "morseRunRegex = (plain, seq [Rep False 5 None (seq [plus (Chars False [Range 46 46, Range 45 45]), alts [seq [spaces, lit ''/'', spaces],
     spaces]]), plus (Chars False [Range 46 46, Range 45 45])])"

definition morse_gap :: "flags \<times> re" where
  "morse_gap = (plain, alts [seq [blanks, lit ''/'', blanks], Rep False 3 None space])"

definition decRunRegex :: "flags \<times> re" where
  "decRunRegex = (plain, seq [wordb, Rep False 2 (Some 3) (Chars False [Digit]), Rep False 4 None (seq [spaces, Rep False 2 (Some 3) (Chars
     False [Digit])]), wordb])"

definition binRunRegex :: "flags \<times> re" where
  "binRunRegex = (plain, seq [wordb, Rep False 8 (Some 8) (Chars False [Range 48 48, Range 49 49]), Rep False 4 None (seq [spaces, Rep False 8
     (Some 8) (Chars False [Range 48 48, Range 49 49])]), wordb])"

end
