(* ===== verification/Payment.thy ===== *)
theory Payment
  imports JsNum "HOL-Library.Multiset"
begin

text \<open>
  Building payments, \<open>src/tx/payment.ts\<close>: coin selection, the single- and multi-output
  transactions and their change. Amounts in VRSC and satoshi sums are binary64 numbers, as
  in the code, so rounding is part of the model; a UTXO's own value is an integer, as the
  platform returns it. The address codec, the WIF decoding and the transaction builder are
  \<open>@bitgo/utxo-lib\<close> and \<open>bs58check\<close>, not in the repository: they are the functions of the record
  \<open>utxolib\<close>, and \<open>tx\<close> is the sequence of calls the code makes on the builder.
\<close>

section \<open>Data\<close>

record utxo =
  txid :: string
  vout :: nat
  addr :: "string option"
  satoshis :: int
  script :: "string option"

datatype network = Verus | Verustest

text \<open>The builder's inputs, outputs and signatures in call order; \<open>in_script\<close> is the hex given to \<open>addInput\<close>.\<close>

record tx_in =
  in_txid :: string
  in_vout :: nat
  in_script :: "string option"

record tx =
  tx_version :: nat
  tx_group :: nat
  tx_expiry :: "jsnum option"
  tx_ins :: "tx_in list"
  tx_outs :: "(nat list \<times> jsnum) list"
  tx_signed :: "(nat \<times> int) list"

text \<open>
  \<open>from58\<close> is \<open>address.fromBase58Check\<close> (version and hash, or a throw), \<open>p2pkh\<close> is
  \<open>address.toOutputScript\<close>, \<open>wif_addr\<close> is \<open>keypairFromWIF(..).address\<close>, \<open>finish\<close> signs with the
  WIF key, builds, and returns \<open>toHex\<close> and \<open>getId\<close>.
\<close>

record utxolib =
  from58 :: "string \<Rightarrow> (string, nat \<times> nat list) result"
  p2pkh :: "string \<Rightarrow> network \<Rightarrow> (string, nat list) result"
  wif_addr :: "string \<Rightarrow> network \<Rightarrow> (string, string) result"
  finish :: "string \<Rightarrow> network \<Rightarrow> tx \<Rightarrow> (string, string \<times> string) result"

datatype pay_error =
    InvalidAmount jsnum
  | AmountTooLarge
  | InsufficientFunds jsnum jsnum
  | NotIAddress nat string
  | NoOutputs
  | InvalidOutputAmount jsnum
  | LibError string

definition lift_lib :: "(string, 'a) result \<Rightarrow> (pay_error, 'a) result" where
  "lift_lib r = (case r of Inl e \<Rightarrow> Inl (LibError e) | Inr a \<Rightarrow> Inr a)"

lemma lift_lib_simps [simp]:
  "lift_lib (Inr a) = Inr a"
  "lift_lib (Inl e) = Inl (LibError e)"
  "lift_lib r = Inr a \<longleftrightarrow> r = Inr a"
  by (auto simp: lift_lib_def split: sum.splits)

definition DEFAULT_FEE :: jsnum where "DEFAULT_FEE = num_int 10000"

definition SATS_PER_COIN :: jsnum where "SATS_PER_COIN = num_int 100000000"

definition DEFAULT_TX_EXPIRY_DELTA :: nat where "DEFAULT_TX_EXPIRY_DELTA = 60"

definition I_ADDRESS_VERSION :: nat where "I_ADDRESS_VERSION = 102"

section \<open>Output scripts\<close>

definition buildP2IDScript :: "utxolib \<Rightarrow> string \<Rightarrow> (pay_error, nat list) result" where
  "buildP2IDScript lib a = bind_r (lift_lib (from58 lib a)) (\<lambda>(version, hash).
     if version \<noteq> I_ADDRESS_VERSION then Inl (NotIAddress version a)
     else Inr ([0x05, 0x04, 0x03, 0x00, 0x00, 0x00, 0xcc, 0x1b,
                0x04, 0x03, 0x00, 0x01, 0x01, 0x15, 0x04] @ hash @ [0x75]))"

definition isIAddress :: "utxolib \<Rightarrow> string \<Rightarrow> bool" where
  "isIAddress lib a = (case from58 lib a of Inl _ \<Rightarrow> False | Inr (version, _) \<Rightarrow> version = I_ADDRESS_VERSION)"

definition toOutputScript :: "utxolib \<Rightarrow> network \<Rightarrow> string \<Rightarrow> (pay_error, nat list) result" where
  "toOutputScript lib net a =
     (if isIAddress lib a then buildP2IDScript lib a else lift_lib (p2pkh lib a net))"

definition hex_digit :: "nat \<Rightarrow> char" where
  "hex_digit n = char_of (if n < 10 then 48 + n else 87 + n)"

definition to_hex :: "nat list \<Rightarrow> string" where
  "to_hex bs = concat (map (\<lambda>b. [hex_digit (b div 16), hex_digit (b mod 16)]) bs)"

section \<open>Coin selection\<close>

definition total_of :: "utxo list \<Rightarrow> jsnum" where
  "total_of us = foldl (\<lambda>t u. js_add t (num_int (satoshis u))) (num_int 0) us"

fun select_loop :: "jsnum \<Rightarrow> utxo list \<Rightarrow> utxo list \<Rightarrow> jsnum \<Rightarrow> utxo list \<times> jsnum" where
  "select_loop target [] sel tot = (sel, tot)"
| "select_loop target (u # us) sel tot =
     (let sel' = sel @ [u]; tot' = js_add tot (num_int (satoshis u)) in
      if js_le target tot' then (sel', tot') else select_loop target us sel' tot')"

definition selectUtxos :: "utxo list \<Rightarrow> jsnum \<Rightarrow> (pay_error, utxo list \<times> jsnum) result" where
  "selectUtxos utxos targetAmount =
     (let targetSatoshis = math_round (js_mul targetAmount SATS_PER_COIN);
          sorted = sort_key (\<lambda>u. - satoshis u) utxos;
          (selected, tot) = select_loop targetSatoshis sorted [] (num_int 0) in
      if js_lt tot targetSatoshis then Inl (InsufficientFunds targetSatoshis tot)
      else Inr (selected, tot))"

section \<open>Payments\<close>

record payment_params =
  p_wif :: string
  p_to :: string
  p_amount :: jsnum
  p_utxos :: "utxo list"
  p_fee :: jsnum
  p_change :: "string option"
  p_network :: network
  p_expiry :: "jsnum option"

record multi_params =
  m_wif :: string
  m_outputs :: "(string \<times> jsnum) list"
  m_utxos :: "utxo list"
  m_fee :: jsnum
  m_change :: "string option"
  m_network :: network
  m_expiry :: "jsnum option"

text \<open>\<open>built\<close> is the transaction given to \<open>txb.build()\<close>; \<open>rawhex\<close> is its encoding by the library.\<close>

record payment_result =
  rawhex :: string
  spentUtxos :: "(string \<times> nat) list"
  changeUtxo :: "utxo option"
  built :: tx

text \<open>\<open>setExpiryHeight\<close> is called only for a positive integer.\<close>

definition expiry_field :: "jsnum option \<Rightarrow> jsnum option" where
  "expiry_field e = (case e of Some h \<Rightarrow> if is_integer h \<and> js_lt (num_int 0) h then Some h else None | None \<Rightarrow> None)"

text \<open>
  A change UTXO carries the change as its integer value: the change is a difference of
  integers whenever the fee is one.
\<close>

text \<open>\<open>x || y\<close> and \<open>if (x)\<close> on an optional string: an absent or empty string is falsy.\<close>

definition truthy_str :: "string option \<Rightarrow> bool" where
  "truthy_str s = (case s of None \<Rightarrow> False | Some x \<Rightarrow> x \<noteq> [])"

definition change_address :: "utxolib \<Rightarrow> string \<Rightarrow> network \<Rightarrow> string option \<Rightarrow> (pay_error, string) result" where
  "change_address lib wif net c = (if truthy_str c then Inr (the c) else lift_lib (wif_addr lib wif net))"

definition input_of :: "utxo \<Rightarrow> tx_in" where
  "input_of u = \<lparr>in_txid = txid u, in_vout = vout u,
     in_script = (if truthy_str (script u) then script u else None)\<rparr>"

definition outpoint :: "utxo \<Rightarrow> string \<times> nat" where
  "outpoint u = (txid u, vout u)"

definition make_tx :: "jsnum option \<Rightarrow> utxo list \<Rightarrow> (nat list \<times> jsnum) list \<Rightarrow> tx" where
  "make_tx e selected outs = \<lparr>tx_version = 4, tx_group = 0x892f2085, tx_expiry = expiry_field e,
     tx_ins = map input_of selected, tx_outs = outs,
     tx_signed = zip [0..<length selected] (map satoshis selected)\<rparr>"

text \<open>The change output, built when the change is more than 1000 satoshis.\<close>

definition change_script ::
  "utxolib \<Rightarrow> network \<Rightarrow> string \<Rightarrow> jsnum \<Rightarrow> (pay_error, nat list option) result" where
  "change_script lib net ca change =
     (if js_lt (num_int 1000) change then bind_r (toOutputScript lib net ca) (\<lambda>s. Inr (Some s))
      else Inr None)"

definition change_outs :: "nat list option \<Rightarrow> jsnum \<Rightarrow> (nat list \<times> jsnum) list" where
  "change_outs s change = (case s of None \<Rightarrow> [] | Some sc \<Rightarrow> [(sc, change)])"

fun num_floor :: "jsnum \<Rightarrow> int" where
  "num_floor (Fin q) = \<lfloor>q\<rfloor>"
| "num_floor _ = 0"

definition change_utxo :: "string \<Rightarrow> nat \<Rightarrow> string \<Rightarrow> nat list option \<Rightarrow> jsnum \<Rightarrow> utxo option" where
  "change_utxo tid n ca s change = (case s of None \<Rightarrow> None
     | Some sc \<Rightarrow> Some \<lparr>txid = tid, vout = n, addr = Some ca, satoshis = num_floor change,
                       script = Some (to_hex sc)\<rparr>)"

definition buildPayment :: "utxolib \<Rightarrow> payment_params \<Rightarrow> (pay_error, payment_result) result" where
  "buildPayment lib p =
     (if \<not> is_finite (p_amount p) \<or> js_le (p_amount p) (num_int 0) then Inl (InvalidAmount (p_amount p))
      else let amountSatoshis = math_round (js_mul (p_amount p) SATS_PER_COIN) in
      if \<not> is_safe_integer amountSatoshis then Inl AmountTooLarge
      else let totalNeeded = js_add amountSatoshis (p_fee p) in
      bind_r (selectUtxos (p_utxos p) (js_div totalNeeded SATS_PER_COIN)) (\<lambda>(selected, inputTotal).
      bind_r (change_address lib (p_wif p) (p_network p) (p_change p)) (\<lambda>ca.
      let change = js_sub (js_sub inputTotal amountSatoshis) (p_fee p) in
      bind_r (toOutputScript lib (p_network p) (p_to p)) (\<lambda>toScript.
      bind_r (change_script lib (p_network p) ca change) (\<lambda>cs.
      let t = make_tx (p_expiry p) selected ((toScript, amountSatoshis) # change_outs cs change) in
      bind_r (lift_lib (finish lib (p_wif p) (p_network p) t)) (\<lambda>(hex, tid).
      Inr \<lparr>rawhex = hex, spentUtxos = map outpoint selected,
           changeUtxo = change_utxo tid 1 ca cs change, built = t\<rparr>))))))"

definition output_sats :: "string \<times> jsnum \<Rightarrow> jsnum" where
  "output_sats x = math_round (js_mul (snd x) SATS_PER_COIN)"

definition check_output :: "string \<times> jsnum \<Rightarrow> (pay_error, unit) result" where
  "check_output x = guard_r (\<not> (\<not> is_finite (snd x) \<or> js_le (snd x) (num_int 0))) (InvalidOutputAmount (snd x))"

fun output_scripts ::
  "utxolib \<Rightarrow> network \<Rightarrow> (string \<times> jsnum) list \<Rightarrow> (pay_error, (nat list \<times> jsnum) list) result" where
  "output_scripts lib net [] = Inr []"
| "output_scripts lib net (x # xs) =
     bind_r (toOutputScript lib net (fst x)) (\<lambda>s.
     bind_r (output_scripts lib net xs) (\<lambda>rest. Inr ((s, output_sats x) # rest)))"

definition buildMultiPayment :: "utxolib \<Rightarrow> multi_params \<Rightarrow> (pay_error, payment_result) result" where
  "buildMultiPayment lib p =
     (if m_outputs p = [] then Inl NoOutputs
      else bind_r (each_r check_output (m_outputs p)) (\<lambda>_.
      let totalOutput = foldl (\<lambda>s x. js_add s (output_sats x)) (num_int 0) (m_outputs p);
          totalNeeded = js_add totalOutput (m_fee p) in
      bind_r (selectUtxos (m_utxos p) (js_div totalNeeded SATS_PER_COIN)) (\<lambda>(selected, inputTotal).
      bind_r (change_address lib (m_wif p) (m_network p) (m_change p)) (\<lambda>ca.
      let change = js_sub (js_sub inputTotal totalOutput) (m_fee p) in
      bind_r (output_scripts lib (m_network p) (m_outputs p)) (\<lambda>outs.
      bind_r (change_script lib (m_network p) ca change) (\<lambda>cs.
      let t = make_tx (m_expiry p) selected (outs @ change_outs cs change) in
      bind_r (lift_lib (finish lib (m_wif p) (m_network p) t)) (\<lambda>(hex, tid).
      Inr \<lparr>rawhex = hex, spentUtxos = map outpoint selected,
           changeUtxo = change_utxo tid (length (m_outputs p)) ca cs change, built = t\<rparr>)))))))"

section \<open>Coin selection: what every selector promises\<close>

definition sats_sum :: "utxo list \<Rightarrow> int" where
  "sats_sum us = sum_list (map satoshis us)"

lemma sats_sum_simps [simp]:
  "sats_sum [] = 0" "sats_sum (u # us) = satoshis u + sats_sum us"
  "sats_sum (us @ vs) = sats_sum us + sats_sum vs"
  by (simp_all add: sats_sum_def)

lemma sats_sum_mset: "mset us = mset vs \<Longrightarrow> sats_sum us = sats_sum vs"
  unfolding sats_sum_def by (metis mset_map sum_mset_sum_list)

text \<open>A wallet whose float sums are exact: positive values with a sum of at most \<open>2 ^ 53\<close>.\<close>

definition exact_wallet :: "utxo list \<Rightarrow> bool" where
  "exact_wallet us = ((\<forall>u \<in> set us. 0 < satoshis u) \<and> sats_sum us \<le> 2 ^ 53)"

lemma sats_sum_nonneg: "\<forall>u \<in> set us. 0 < satoshis u \<Longrightarrow> 0 \<le> sats_sum us"
  by (induction us) auto

lemma total_of_snoc: "total_of (us @ [u]) = js_add (total_of us) (num_int (satoshis u))"
  by (simp add: total_of_def)

lemma total_of_Nil [simp]: "total_of [] = num_int 0"
  by (simp add: total_of_def)

lemma total_of_exact: "exact_wallet us \<Longrightarrow> total_of us = num_int (sats_sum us)"
proof (induction us rule: rev_induct)
  case (snoc u us)
  then have "exact_wallet us" and n: "0 \<le> sats_sum us" "0 < satoshis u" "sats_sum us + satoshis u \<le> 2 ^ 53"
    using sats_sum_nonneg [of us] by (auto simp: exact_wallet_def)
  with snoc.IH show ?case
    using js_add_int [of "sats_sum us" "satoshis u"] by (simp add: total_of_snoc)
qed simp

lemma select_loop_spec:
  assumes "select_loop t us sel tot = (s, r)" "tot = total_of sel"
  shows "\<exists>pre post. us = pre @ post \<and> s = sel @ pre \<and> r = total_of s
    \<and> (js_le t r \<or> post = [])
    \<and> (\<forall>k < length pre. 0 < k \<longrightarrow> \<not> js_le t (total_of (sel @ take k pre)))"
  using assms
proof (induction t us sel tot rule: select_loop.induct)
  case (2 t u us sel tot)
  let ?tot = "js_add tot (num_int (satoshis u))"
  have tot': "?tot = total_of (sel @ [u])"
    using 2 by (simp add: total_of_snoc)
  show ?case
  proof (cases "js_le t ?tot")
    case True
    with 2 tot' show ?thesis
      by (intro exI [of _ "[u]"] exI [of _ us]) (auto simp: Let_def)
  next
    case False
    have "select_loop t us (sel @ [u]) ?tot = (s, r)"
      using 2(2) False by (simp add: Let_def)
    from 2(1) [OF refl refl False this tot'] obtain pre post where p: "us = pre @ post" "s = (sel @ [u]) @ pre" "r = total_of s"
        "js_le t r \<or> post = []"
        "\<forall>k < length pre. 0 < k \<longrightarrow> \<not> js_le t (total_of ((sel @ [u]) @ take k pre))"
      by blast
    have "\<not> js_le t (total_of (sel @ take k (u # pre)))" if k: "k < length (u # pre)" "0 < k" for k
    proof (cases "k = 1")
      case True
      then show ?thesis using False tot' by simp
    next
      case False
      then obtain j where "k = Suc j" "0 < j" "j < length pre"
        using k by (cases k) auto
      then show ?thesis using p(5) by simp
    qed
    with p show ?thesis
      by (intro exI [of _ "u # pre"] exI [of _ post]) auto
  qed
qed auto

lemma submset_append:
  assumes "mset ys \<subseteq># mset xs"
  obtains zs where "mset xs = mset (ys @ zs)"
  using assms by (metis mset_subset_eq_exists_conv ex_mset mset_append)

lemma distinct_submset: "distinct xs \<Longrightarrow> mset ys \<subseteq># mset xs \<Longrightarrow> distinct ys"
  by (elim submset_append) (metis distinct_append mset_eq_imp_distinct_iff)

text \<open>
  The contract a selector gives its builders: the selection is a sub-multiset of the wallet,
  its reported total is the float sum of its values and reaches the target, no proper prefix
  of it does, and it fails only on a wallet whose whole sum is short.
\<close>

locale coin_selection =
  fixes select :: "utxo list \<Rightarrow> 't \<Rightarrow> ('e, utxo list \<times> jsnum) result"
    and target :: "'t \<Rightarrow> jsnum"
  assumes sub: "select us t = Inr (sel, tot) \<Longrightarrow> mset sel \<subseteq># mset us"
    and tot: "select us t = Inr (sel, tot) \<Longrightarrow> tot = total_of sel"
    and reaches: "select us t = Inr (sel, tot) \<Longrightarrow> \<not> js_lt tot (target t)"
    and minimal: "select us t = Inr (sel, tot) \<Longrightarrow> 0 < k \<Longrightarrow> k < length sel
      \<Longrightarrow> \<not> js_le (target t) (total_of (take k sel))"
    and fails: "select us t = Inl e \<Longrightarrow> \<exists>vs. mset vs = mset us \<and> js_lt (total_of vs) (target t)"
begin

lemma sel_exact:
  assumes "exact_wallet us" and "select us t = Inr (sel, x)"
  shows "exact_wallet sel"
proof -
  obtain zs where z: "mset us = mset (sel @ zs)"
    using sub [OF assms(2)] by (rule submset_append)
  have "set us = set (sel @ zs)" using z by (rule mset_eq_setD)
  moreover have "sats_sum us = sats_sum (sel @ zs)"
    using z by (rule sats_sum_mset)
  moreover have "0 \<le> sats_sum zs"
    using calculation(1) assms(1) by (intro sats_sum_nonneg) (auto simp: exact_wallet_def)
  ultimately show ?thesis
    using assms(1) by (auto simp: exact_wallet_def)
qed

lemma sel_total: "exact_wallet us \<Longrightarrow> select us t = Inr (sel, x) \<Longrightarrow> x = num_int (sats_sum sel)"
  using tot sel_exact total_of_exact by blast

lemma sel_covers:
  "exact_wallet us \<Longrightarrow> select us t = Inr (sel, x) \<Longrightarrow> target t = num_int n \<Longrightarrow> n \<le> sats_sum sel"
  using reaches [of us t sel x] sel_total [of us t sel x] by (auto simp: not_less)

lemma sel_distinct:
  "distinct (map outpoint us) \<Longrightarrow> select us t = Inr (sel, x) \<Longrightarrow> distinct (map outpoint sel)"
proof -
  assume d: "distinct (map outpoint us)" and s: "select us t = Inr (sel, x)"
  have "mset (map outpoint sel) \<subseteq># mset (map outpoint us)"
    using sub [OF s] by (simp add: image_mset_subseteq_mono)
  with d show ?thesis by (rule distinct_submset)
qed

text \<open>No input is superfluous: without its last coin the selection is short of the target.\<close>

lemma sel_no_slack:
  assumes "exact_wallet us" "select us t = Inr (sel, x)" "target t = num_int n" "1 < length sel"
  shows "sats_sum (butlast sel) < n"
proof -
  have k: "0 < length sel - 1" "length sel - 1 < length sel" using assms(4) by auto
  have "exact_wallet sel" using assms sel_exact by blast
  moreover have "sel = butlast sel @ [last sel]" using assms(4) by (metis append_butlast_last_id list.size(3) not_one_less_zero)
  ultimately have "exact_wallet (butlast sel)"
    unfolding exact_wallet_def by (smt (verit) in_set_butlastD last_in_set sats_sum_simps append_is_Nil_conv list.discI)
  then have "total_of (take (length sel - 1) sel) = num_int (sats_sum (butlast sel))"
    by (simp add: total_of_exact butlast_conv_take)
  with minimal [OF assms(2) k] assms(3) show ?thesis by auto
qed

lemma sel_fails:
  "exact_wallet us \<Longrightarrow> select us t = Inl e \<Longrightarrow> target t = num_int n \<Longrightarrow> sats_sum us < n"
proof -
  assume w: "exact_wallet us" and s: "select us t = Inl e" and n: "target t = num_int n"
  obtain vs where v: "mset vs = mset us" "js_lt (total_of vs) (target t)" using fails [OF s] by blast
  have "sats_sum vs = sats_sum us"
    using v(1) by (rule sats_sum_mset)
  moreover have "set vs = set us" using v(1) by (metis set_mset_mset)
  ultimately have "exact_wallet vs" using w by (simp add: exact_wallet_def)
  with v n show "sats_sum us < n"
    using \<open>sats_sum vs = sats_sum us\<close> by (simp add: total_of_exact)
qed

end

section \<open>The payment selector meets the contract\<close>

definition payment_target :: "jsnum \<Rightarrow> jsnum" where
  "payment_target amount = math_round (js_mul amount SATS_PER_COIN)"

lemma selectUtxos_spec:
  assumes "selectUtxos us t = Inr (sel, x)"
  shows "mset sel \<subseteq># mset us" "x = total_of sel" "\<not> js_lt x (payment_target t)"
    "\<And>k. 0 < k \<Longrightarrow> k < length sel \<Longrightarrow> \<not> js_le (payment_target t) (total_of (take k sel))"
proof -
  define srt where "srt = sort_key (\<lambda>u. - satoshis u) us"
  have l: "select_loop (payment_target t) srt [] (num_int 0) = (sel, x)" "\<not> js_lt x (payment_target t)"
    using assms by (auto simp: selectUtxos_def Let_def srt_def payment_target_def split: prod.splits if_splits)
  obtain pre post where p: "srt = pre @ post" "sel = pre" "x = total_of sel"
      "\<forall>k < length pre. 0 < k \<longrightarrow> \<not> js_le (payment_target t) (total_of (take k pre))"
    using select_loop_spec [OF l(1)] by auto
  have "mset sel \<subseteq># mset srt" using p by simp
  then show "mset sel \<subseteq># mset us" by (simp add: srt_def)
  show "x = total_of sel" "\<not> js_lt x (payment_target t)" using p l by auto
  show "\<And>k. 0 < k \<Longrightarrow> k < length sel \<Longrightarrow> \<not> js_le (payment_target t) (total_of (take k sel))"
    using p by auto
qed

lemma selectUtxos_fails:
  assumes "selectUtxos us t = Inl e"
  shows "\<exists>vs. mset vs = mset us \<and> js_lt (total_of vs) (payment_target t)"
proof -
  define srt where "srt = sort_key (\<lambda>u. - satoshis u) us"
  obtain sel x where l: "select_loop (payment_target t) srt [] (num_int 0) = (sel, x)" "js_lt x (payment_target t)"
    using assms by (auto simp: selectUtxos_def Let_def srt_def payment_target_def split: prod.splits if_splits)
  obtain pre post where p: "srt = pre @ post" "sel = pre" "x = total_of sel"
      "js_le (payment_target t) x \<or> post = []"
    using select_loop_spec [OF l(1)] by auto
  have "\<not> js_le (payment_target t) x"
    using l(2) js_lt_not_le [of x "payment_target t"] by (cases x; cases "payment_target t") auto
  with p have "srt = sel" by simp
  moreover have "mset srt = mset us" by (simp add: srt_def)
  ultimately show ?thesis
    using p l(2) by auto
qed

interpretation payment_coins: coin_selection selectUtxos payment_target
  by unfold_locales (use selectUtxos_spec selectUtxos_fails in auto)

text \<open>Asking for \<open>n / SATS_PER_COIN\<close> VRSC asks for exactly \<open>n\<close> satoshis, up to \<open>2 ^ 50\<close>.\<close>

lemma payment_target_exact:
  "0 \<le> n \<Longrightarrow> n \<le> 2 ^ 50 \<Longrightarrow> payment_target (js_div (num_int n) SATS_PER_COIN) = num_int n"
  using two_roundings [of 100000000 n] by (simp add: payment_target_def SATS_PER_COIN_def)

section \<open>What the built transaction moves\<close>

definition tx_value_in :: "tx \<Rightarrow> int" where
  "tx_value_in t = sum_list (map snd (tx_signed t))"

definition tx_value_out :: "tx \<Rightarrow> int" where
  "tx_value_out t = sum_list (map (num_floor \<circ> snd) (tx_outs t))"

lemma make_tx_value_in [simp]: "tx_value_in (make_tx e sel outs) = sats_sum sel"
  by (simp add: tx_value_in_def make_tx_def sats_sum_def)

lemma make_tx_fields [simp]:
  "tx_outs (make_tx e sel outs) = outs" "tx_ins (make_tx e sel outs) = map input_of sel"
  "tx_expiry (make_tx e sel outs) = expiry_field e"
  by (simp_all add: make_tx_def)

lemma math_round_finite: "is_safe_integer x \<Longrightarrow> x = num_int (num_floor x)"
  by (cases x) auto

text \<open>
  The arithmetic both builders share: from a successful selection for \<open>a + f\<close> satoshis the
  change is the exact difference, and it is never negative.
\<close>

lemma change_exact:
  assumes w: "exact_wallet us" and s: "selectUtxos us (js_div (js_add (num_int a) (num_int f)) SATS_PER_COIN) = Inr (sel, x)"
    and b: "0 \<le> a" "0 \<le> f" "a + f \<le> 2 ^ 50"
  shows "x = num_int (sats_sum sel)" "a + f \<le> sats_sum sel"
    "js_sub (js_sub x (num_int a)) (num_int f) = num_int (sats_sum sel - a - f)"
proof -
  have sum: "js_add (num_int a) (num_int f) = num_int (a + f)"
    using b by (intro js_add_int) simp
  show x: "x = num_int (sats_sum sel)"
    using w s by (rule payment_coins.sel_total)
  have t: "payment_target (js_div (js_add (num_int a) (num_int f)) SATS_PER_COIN) = num_int (a + f)"
    using b by (simp only: sum payment_target_exact add_nonneg_nonneg)
  show c: "a + f \<le> sats_sum sel"
    using w s t by (rule payment_coins.sel_covers)
  have "sats_sum sel \<le> 2 ^ 53"
    using payment_coins.sel_exact [OF w s] by (simp add: exact_wallet_def)
  with b c show "js_sub (js_sub x (num_int a)) (num_int f) = num_int (sats_sum sel - a - f)"
    unfolding x by (simp add: js_sub_int del: of_int_diff)
qed

lemma change_script_cases:
  assumes "change_script lib net ca (num_int c) = Inr cs"
  shows "(c \<le> 1000 \<and> cs = None) \<or> (1000 < c \<and> (\<exists>sc. cs = Some sc \<and> toOutputScript lib net ca = Inr sc))"
  using assms by (auto simp: change_script_def bind_r_eq_Inr split: if_splits)

lemma change_outs_value:
  "sum_list (map (num_floor \<circ> snd) (change_outs cs x)) = (if cs = None then 0 else num_floor x)"
  by (cases cs) (simp_all add: change_outs_def)

lemma change_utxo_None [simp]: "change_utxo tid n ca cs x = None \<longleftrightarrow> cs = None"
  by (cases cs) (simp_all add: change_utxo_def)

lemma buildPayment_cases:
  assumes "buildPayment lib p = Inr r"
  obtains a sel x ca ts cs tid where
    "payment_target (p_amount p) = num_int a" "0 \<le> a" "is_finite (p_amount p)"
    "js_lt (num_int 0) (p_amount p)"
    "selectUtxos (p_utxos p) (js_div (js_add (num_int a) (p_fee p)) SATS_PER_COIN) = Inr (sel, x)"
    "change_address lib (p_wif p) (p_network p) (p_change p) = Inr ca"
    "toOutputScript lib (p_network p) (p_to p) = Inr ts"
    "change_script lib (p_network p) ca (js_sub (js_sub x (num_int a)) (p_fee p)) = Inr cs"
    "built r = make_tx (p_expiry p) sel
       ((ts, num_int a) # change_outs cs (js_sub (js_sub x (num_int a)) (p_fee p)))"
    "spentUtxos r = map outpoint sel"
    "changeUtxo r = change_utxo tid 1 ca cs (js_sub (js_sub x (num_int a)) (p_fee p))"
proof -
  obtain q where q: "p_amount p = Fin q" "0 < q"
    using assms by (cases "p_amount p") (auto simp: buildPayment_def not_le split: if_splits)
  have "is_safe_integer (payment_target (p_amount p))"
    using assms by (auto simp: buildPayment_def payment_target_def Let_def split: if_splits)
  then obtain a where a: "payment_target (p_amount p) = num_int a"
    using math_round_finite by blast
  have "0 \<le> a"
  proof -
    have "js_le (Fin 0) (fl (q * 100000000))" using q by (intro fl_nonneg) simp
    then obtain r where "fl (q * 100000000) = Fin r" "0 \<le> r"
      using a q by (cases "fl (q * 100000000)") (auto simp: payment_target_def SATS_PER_COIN_def)
    then show ?thesis using a q by (auto simp: payment_target_def SATS_PER_COIN_def)
  qed
  with assms a q show thesis
    by (auto simp: buildPayment_def Let_def bind_r_eq_Inr payment_target_def [symmetric]
        split: if_splits prod.splits intro: that)
qed


text \<open>An instance of the library's functions and a wallet to evaluate on.\<close>

definition demo_lib :: utxolib where
  "demo_lib = \<lparr>from58 = (\<lambda>a. if a = ''iId'' then Inr (102, replicate 20 7) else Inr (60, replicate 20 1)),
     p2pkh = (\<lambda>a n. Inr [118, 169, 20]), wif_addr = (\<lambda>w n. Inr ''Rself''),
     finish = (\<lambda>w n t. Inr (''0400'', ''t1''))\<rparr>"

definition demo_utxo :: "string \<Rightarrow> int \<Rightarrow> utxo" where
  "demo_utxo t v = \<lparr>txid = t, vout = 0, addr = Some ''Rself'', satoshis = v, script = None\<rparr>"

definition demo_pay :: payment_params where
  "demo_pay = \<lparr>p_wif = ''w'', p_to = ''Rbob'', p_amount = num_int 1,
     p_utxos = [demo_utxo ''a'' 5000, demo_utxo ''b'' 300000000], p_fee = DEFAULT_FEE,
     p_change = Some ''Rself'', p_network = Verus, p_expiry = Some (num_int 100)\<rparr>"

lemma payment_target_numeral:
  "(numeral k :: int) \<le> 2 ^ 50 \<Longrightarrow>
   math_round (js_mul (js_div (Fin (numeral k)) SATS_PER_COIN) SATS_PER_COIN) = Fin (numeral k)"
  using payment_target_exact [of "numeral k"] by (simp add: payment_target_def)

lemmas payment_eval = buildPayment_def demo_lib_def demo_pay_def demo_utxo_def DEFAULT_FEE_def
  selectUtxos_def Let_def toOutputScript_def isIAddress_def change_address_def change_script_def
  truthy_str_def I_ADDRESS_VERSION_def buildP2IDScript_def change_utxo_def js_sub_def fl_eval

lemma demo_pay_sats: "math_round (js_mul (p_amount demo_pay) SATS_PER_COIN) = Fin 100000000"
  by (simp add: demo_pay_def SATS_PER_COIN_def fl_eval)

lemma demo_pay_runs: "\<exists>r. buildPayment demo_lib demo_pay = Inr r \<and> changeUtxo r \<noteq> None"
  using demo_pay_sats by (simp add: payment_eval payment_target_numeral)


text \<open>
  The selection wastes no coin and repeats none: a payment's inputs are distinct outpoints
  of the wallet, and without the last one the inputs could not pay the amount and the fee.
\<close>

theorem buildPayment_inputs_minimal:
  assumes "buildPayment lib p = Inr r" and "exact_wallet (p_utxos p)"
    and "p_fee p = num_int f" and "0 \<le> f"
    and "num_floor (math_round (js_mul (p_amount p) SATS_PER_COIN)) + f \<le> 2 ^ 50"
    and "distinct (map outpoint (p_utxos p))"
  shows "distinct (spentUtxos r) \<and> set (spentUtxos r) \<subseteq> outpoint ` set (p_utxos p)
    \<and> spentUtxos r = map (\<lambda>i. (in_txid i, in_vout i)) (tx_ins (built r))
    \<and> (1 < length (spentUtxos r) \<longrightarrow> tx_value_in (built r) - snd (last (tx_signed (built r)))
         < num_floor (math_round (js_mul (p_amount p) SATS_PER_COIN)) + f)"
proof -
  obtain a sel x ca ts cs tid where B:
    "payment_target (p_amount p) = num_int a" "0 \<le> a"
    "selectUtxos (p_utxos p) (js_div (js_add (num_int a) (num_int f)) SATS_PER_COIN) = Inr (sel, x)"
    "built r = make_tx (p_expiry p) sel
       ((ts, num_int a) # change_outs cs (js_sub (js_sub x (num_int a)) (num_int f)))"
    "spentUtxos r = map outpoint sel"
    using assms(1,3) by (elim buildPayment_cases) auto
  have b: "a + f \<le> 2 ^ 50" using assms(5) B(1) by (simp add: payment_target_def)
  have "js_add (num_int a) (num_int f) = num_int (a + f)"
    using b B(2) assms(4) by (intro js_add_int) simp
  then have t: "payment_target (js_div (js_add (num_int a) (num_int f)) SATS_PER_COIN) = num_int (a + f)"
    using b B(2) assms(4) by (simp only: payment_target_exact add_nonneg_nonneg)
  have last: "tx_value_in (built r) - snd (last (tx_signed (built r))) = sats_sum (butlast sel)" if ne: "sel \<noteq> []"
  proof -
    obtain us u where su: "sel = us @ [u]" using ne by (cases sel rule: rev_cases) auto
    have "last (map snd (tx_signed (built r))) = satoshis u"
      by (simp add: B(4) make_tx_def su)
    then show ?thesis
      using su by (simp add: B(4) last_map make_tx_def tx_value_in_def sats_sum_def)
  qed
  have "mset sel \<subseteq># mset (p_utxos p)" using B(3) by (rule payment_coins.sub)
  then have "set sel \<subseteq> set (p_utxos p)" by (metis set_mset_mono set_mset_mset)
  moreover have "1 < length sel \<Longrightarrow> sats_sum (butlast sel) < a + f"
    using assms(2) B(3) t by (rule payment_coins.sel_no_slack)
  moreover have "num_floor (payment_target (p_amount p)) = a" by (simp add: B(1))
  ultimately have short: "tx_value_in (built r) - snd (last (tx_signed (built r)))
      < num_floor (math_round (js_mul (p_amount p) SATS_PER_COIN)) + f" if "1 < length sel"
    using last that by (cases "sel = []") (simp_all add: payment_target_def)
  have "spentUtxos r = map (\<lambda>i. (in_txid i, in_vout i)) (tx_ins (built r))"
    by (simp add: B(4,5) input_of_def outpoint_def)
  moreover have "distinct (spentUtxos r)" "set (spentUtxos r) \<subseteq> outpoint ` set (p_utxos p)"
    using payment_coins.sel_distinct [OF assms(6) B(3)] \<open>set sel \<subseteq> set (p_utxos p)\<close>
    by (simp_all add: B(5) image_mono)
  moreover have "length (spentUtxos r) = length sel" by (simp add: B(5))
  ultimately show ?thesis using short by simp
qed

theorem buildPayment_inputs_minimal_witness:
  "\<exists>r. buildPayment demo_lib demo_pay = Inr r \<and> distinct (spentUtxos r)"
proof -
  obtain r where r: "buildPayment demo_lib demo_pay = Inr r"
    using demo_pay_runs by blast
  have "exact_wallet (p_utxos demo_pay)" "p_fee demo_pay = num_int 10000"
      "distinct (map outpoint (p_utxos demo_pay))"
    by (simp_all add: exact_wallet_def demo_pay_def demo_utxo_def DEFAULT_FEE_def outpoint_def)
  with buildPayment_inputs_minimal [OF r] r show ?thesis
    by (auto simp: demo_pay_sats)
qed

lemma output_scripts_values:
  "output_scripts lib net xs = Inr outs \<Longrightarrow> map snd outs = map output_sats xs"
  by (induction lib net xs arbitrary: outs rule: output_scripts.induct) (auto simp: bind_r_eq_Inr)

definition output_total :: "(string \<times> jsnum) list \<Rightarrow> int" where
  "output_total xs = sum_list (map (num_floor \<circ> output_sats) xs)"

lemma output_sum_exact:
  assumes "\<forall>x \<in> set xs. is_safe_integer (output_sats x) \<and> 0 \<le> num_floor (output_sats x)"
    and "0 \<le> n" "n + output_total xs \<le> 2 ^ 53"
  shows "foldl (\<lambda>s x. js_add s (output_sats x)) (num_int n) xs = num_int (n + output_total xs)"
  using assms
proof (induction xs arbitrary: n)
  case (Cons x xs)
  define v where "v = num_floor (output_sats x)"
  have v: "output_sats x = num_int v" "0 \<le> v"
    unfolding v_def using Cons.prems(1) math_round_finite by auto
  have rest: "0 \<le> output_total xs"
    using Cons.prems(1) by (auto simp: output_total_def intro!: sum_list_nonneg)
  have tot: "output_total (x # xs) = v + output_total xs"
    by (simp add: output_total_def v_def)
  have "js_add (num_int n) (output_sats x) = num_int (n + v)"
    using rest tot v(2) Cons.prems(2,3) unfolding v(1) by (intro js_add_int) simp
  with Cons.IH [of "n + v"] Cons.prems v rest tot show ?case
    by (simp del: of_int_add add: add.assoc)
qed (simp add: output_total_def)

text \<open>
  The two-recipient payment (agent and platform fee in one transaction) conserves value
  the same way: every output carries its rounded amount, in order, the change comes last, and
  what is left to the fee exceeds it by at most 1000 satoshis.
\<close>

theorem buildMultiPayment_conserves:
  assumes "buildMultiPayment lib p = Inr r" and "exact_wallet (m_utxos p)"
    and "m_fee p = num_int f" and "0 \<le> f"
    and "\<forall>x \<in> set (m_outputs p). is_safe_integer (output_sats x) \<and> 0 \<le> num_floor (output_sats x)"
    and "output_total (m_outputs p) + f \<le> 2 ^ 50"
  shows "map snd (take (length (m_outputs p)) (tx_outs (built r))) = map output_sats (m_outputs p)
    \<and> f \<le> tx_value_in (built r) - tx_value_out (built r)
    \<and> tx_value_in (built r) - tx_value_out (built r) \<le> f + (if changeUtxo r = None then 1000 else 0)
    \<and> (\<forall>c. changeUtxo r = Some c \<longrightarrow> vout c = length (m_outputs p) \<and> 1000 < satoshis c)"
proof -
  define a where "a = output_total (m_outputs p)"
  have a: "0 \<le> a" "a + f \<le> 2 ^ 50"
    using assms(5,6) by (auto simp: a_def output_total_def intro!: sum_list_nonneg)
  have fold: "foldl (\<lambda>s x. js_add s (output_sats x)) (Fin 0) (m_outputs p) = num_int a"
    using output_sum_exact [OF assms(5), of 0] a assms(4) by (simp add: a_def)
  obtain sel x ca outs cs tid where B:
    "selectUtxos (m_utxos p) (js_div (js_add (num_int a) (num_int f)) SATS_PER_COIN) = Inr (sel, x)"
    "output_scripts lib (m_network p) (m_outputs p) = Inr outs"
    "change_script lib (m_network p) ca (js_sub (js_sub x (num_int a)) (num_int f)) = Inr cs"
    "built r = make_tx (m_expiry p) sel (outs @ change_outs cs (js_sub (js_sub x (num_int a)) (num_int f)))"
    "changeUtxo r = change_utxo tid (length (m_outputs p)) ca cs (js_sub (js_sub x (num_int a)) (num_int f))"
    using assms(1,3) fold
    by (auto simp: buildMultiPayment_def Let_def bind_r_eq_Inr split: if_splits prod.splits)
  note C = change_exact [OF assms(2) B(1) a(1) assms(4) a(2)]
  note D = change_script_cases [OF B(3) [unfolded C(3)]]
  note V = output_scripts_values [OF B(2)]
  have len: "length outs = length (m_outputs p)" using V by (metis length_map)
  have sum: "sum_list (map (num_floor \<circ> snd) outs) = a"
    using arg_cong [OF V, of "\<lambda>l. sum_list (map num_floor l)"] by (simp add: a_def output_total_def)
  show ?thesis
    using C(2) D V len sum
    by (auto simp: B(4,5) C(3) tx_value_out_def change_outs_value change_utxo_def)
qed

definition demo_multi :: multi_params where
  "demo_multi = \<lparr>m_wif = ''w'', m_outputs = [(''Rbob'', num_int 1), (''iId'', num_int 2)],
     m_utxos = [demo_utxo ''a'' 200000000, demo_utxo ''b'' 300000000], m_fee = DEFAULT_FEE,
     m_change = None, m_network = Verus, m_expiry = None\<rparr>"

lemma demo_multi_sats:
  "output_sats (q, num_int 1) = Fin 100000000" "output_sats (q, num_int 2) = Fin 200000000"
  by (simp_all add: output_sats_def SATS_PER_COIN_def fl_eval)

lemma demo_multi_runs: "\<exists>r. buildMultiPayment demo_lib demo_multi = Inr r \<and> changeUtxo r \<noteq> None"
  using demo_multi_sats [simplified]
  by (simp add: payment_eval payment_target_numeral buildMultiPayment_def demo_multi_def check_output_def)

theorem buildMultiPayment_conserves_witness:
  "\<exists>r. buildMultiPayment demo_lib demo_multi = Inr r \<and> tx_value_in (built r) - tx_value_out (built r) = 10000"
proof -
  obtain r where r: "buildMultiPayment demo_lib demo_multi = Inr r" "changeUtxo r \<noteq> None"
    using demo_multi_runs by blast
  have "exact_wallet (m_utxos demo_multi)" "m_fee demo_multi = num_int 10000"
    by (simp_all add: exact_wallet_def demo_multi_def demo_utxo_def DEFAULT_FEE_def)
  moreover have "\<forall>x \<in> set (m_outputs demo_multi). is_safe_integer (output_sats x) \<and> 0 \<le> num_floor (output_sats x)"
    "output_total (m_outputs demo_multi) = 300000000"
    using demo_multi_sats [simplified] by (simp_all add: demo_multi_def output_total_def)
  ultimately show ?thesis
    using buildMultiPayment_conserves [OF r(1)] r by fastforce
qed

end
