(* ===== verification/Wallet.thy ===== *)
theory Wallet
  imports Payment
begin

text \<open>
  The agent's wallet, \<open>src/agent.ts\<close>: the two sends, \<open>mergeUtxos\<close> and \<open>transferFunds\<close>, over the
  state \<open>_spentUtxos\<close> (a \<open>Set\<close> of outpoints, oldest first) and \<open>_pendingChange\<close>. An outpoint's
  key \<open>txid:vout\<close> is the pair of its parts. \<open>serializeSend\<close> runs the sends one after the other, so
  a history is a list of whole sends, each with the answers the network gives it. The header of
  each step is the error it can stop with; the transaction it built, if it got that far, is
  returned beside the result.
\<close>

section \<open>State and environment\<close>

record agent =
  a_wif :: "string option"
  a_iaddr :: "string option"
  a_net :: network
  a_spent :: "(string \<times> nat) list"
  a_pending :: "utxo list"

text \<open>
  What the platform answers during one send: login, \<open>getAgentPaymentAddress(to).address\<close>,
  \<open>getUtxos\<close> (\<open>None\<close> when the response holds no array), the chain tip, and \<open>broadcast\<close>, whose
  answer is the txid string the code derives from it.
\<close>

record net_env =
  e_login :: "(string, unit) result"
  e_payinfo :: "(string, string option) result"
  e_utxos :: "(string, utxo list option) result"
  e_tip :: "(string, jsnum option) result"
  e_trust :: bool
  e_broadcast :: "string \<Rightarrow> (string, string) result"

datatype wallet_error =
    NotInitialized
  | NoIAddress
  | ApiError string
  | VerusIdRefused string
  | WalletEmpty
  | NoneOnSource string
  | NonSelfChange string
  | PayError pay_error

record send_opts =
  o_change :: "string option"
  o_source :: "string option"
  o_trust :: "bool option"

definition MAX_SPENT_UTXOS :: nat where "MAX_SPENT_UTXOS = 10000"

definition MAX_PENDING_CHANGE :: nat where "MAX_PENDING_CHANGE = 1000"

definition computeExpiryHeight :: "jsnum option \<Rightarrow> nat \<Rightarrow> jsnum option" where
  "computeExpiryHeight tip d = (case tip of
     Some h \<Rightarrow> if is_integer h then Some (js_add h (num_int (int d))) else None
   | None \<Rightarrow> None)"

section \<open>Merging the platform's coins with our own change\<close>

fun merge_loop :: "(string \<times> nat) list \<Rightarrow> (string \<times> nat) list \<Rightarrow> utxo list \<Rightarrow> utxo list" where
  "merge_loop spent seen [] = []"
| "merge_loop spent seen (u # us) =
     (if outpoint u \<in> set spent \<or> outpoint u \<in> set seen then merge_loop spent seen us
      else u # merge_loop spent (seen @ [outpoint u]) us)"

definition mergeUtxos :: "agent \<Rightarrow> utxo list \<Rightarrow> agent \<times> utxo list" where
  "mergeUtxos a api =
     (let apiKeys = map outpoint api;
          pending = filter (\<lambda>u. outpoint u \<notin> set (a_spent a) \<and> outpoint u \<notin> set apiKeys) (a_pending a);
          a' = a\<lparr>a_pending := pending\<rparr> in
      (a', merge_loop (a_spent a') [] (api @ pending)))"

section \<open>The sends\<close>

definition lift_api :: "(string, 'a) result \<Rightarrow> (wallet_error, 'a) result" where
  "lift_api r = (case r of Inl e \<Rightarrow> Inl (ApiError e) | Inr x \<Rightarrow> Inr x)"

definition lift_pay :: "(pay_error, 'a) result \<Rightarrow> (wallet_error, 'a) result" where
  "lift_pay r = (case r of Inl e \<Rightarrow> Inl (PayError e) | Inr x \<Rightarrow> Inr x)"

definition is_verusid :: "string \<Rightarrow> bool" where
  "is_verusid t = (CHR ''@'' \<in> set t \<or> CHR ''.'' \<in> set t)"

definition resolve_to :: "net_env \<Rightarrow> bool option \<Rightarrow> string \<Rightarrow> (wallet_error, string) result" where
  "resolve_to env trust t =
     (if \<not> is_verusid t then Inr t
      else if \<not> (case trust of Some b \<Rightarrow> b | None \<Rightarrow> e_trust env) then Inl (VerusIdRefused t)
      else case e_payinfo env of
             Inl _ \<Rightarrow> Inr t
           | Inr ad \<Rightarrow> Inr (if truthy_str ad then the ad else t))"

definition positive_utxos :: "utxo list option \<Rightarrow> utxo list" where
  "positive_utxos r = filter (\<lambda>u. 0 < satoshis u) (case r of None \<Rightarrow> [] | Some us \<Rightarrow> us)"

text \<open>Only coins of \<open>sourceAddress\<close>, when one is given.\<close>

definition source_filter :: "string option \<Rightarrow> utxo list \<Rightarrow> (wallet_error, utxo list) result" where
  "source_filter src us =
     (if truthy_str src
      then let fs = filter (\<lambda>u. addr u = src) us in
           if fs = [] then Inl (NoneOnSource (the src)) else Inr fs
      else Inr us)"

definition default_change :: "utxolib \<Rightarrow> agent \<Rightarrow> string \<Rightarrow> utxo list \<Rightarrow> (wallet_error, string) result" where
  "default_change lib a wif us =
     (if (\<forall>u \<in> set us. truthy_str (addr u) \<and> isIAddress lib (the (addr u))) \<and> truthy_str (a_iaddr a)
      then Inr (the (a_iaddr a))
      else lift_pay (lift_lib (wif_addr lib wif (a_net a))))"

text \<open>The change address, which must be one of the agent's own.\<close>

definition pick_change ::
  "utxolib \<Rightarrow> agent \<Rightarrow> string \<Rightarrow> string option \<Rightarrow> utxo list \<Rightarrow> (wallet_error, string) result" where
  "pick_change lib a wif want us =
     bind_r (if truthy_str want then Inr (the want) else default_change lib a wif us) (\<lambda>ca.
     bind_r (lift_pay (lift_lib (wif_addr lib wif (a_net a)))) (\<lambda>own.
     if (own \<noteq> [] \<and> ca = own) \<or> (truthy_str (a_iaddr a) \<and> ca = the (a_iaddr a))
     then Inr ca else Inl (NonSelfChange ca)))"

definition mark_spent :: "agent \<Rightarrow> (string \<times> nat) list \<Rightarrow> agent" where
  "mark_spent a ks = a\<lparr>a_spent := foldl set_add (a_spent a) ks\<rparr>"

text \<open>The change output joins \<open>_pendingChange\<close> under the txid the broadcast returned.\<close>

definition chain_change :: "agent \<Rightarrow> string \<Rightarrow> utxo option \<Rightarrow> agent" where
  "chain_change a tid c = (case c of None \<Rightarrow> a
     | Some u \<Rightarrow> a\<lparr>a_pending := a_pending a @ [u\<lparr>txid := tid\<rparr>]\<rparr>)"

type_synonym send_outcome = "agent \<times> tx option \<times> (wallet_error, string) result"

text \<open>Everything of \<open>sendCurrency\<close> up to the built payment; no state changes but the merge's pruning.\<close>

definition prepare_send ::
  "utxolib \<Rightarrow> agent \<Rightarrow> net_env \<Rightarrow> string \<Rightarrow> string \<Rightarrow> jsnum \<Rightarrow> send_opts
   \<Rightarrow> agent \<times> (wallet_error, payment_result) result" where
  "prepare_send lib a env wif dest amount opts =
     (case bind_r (lift_api (e_login env)) (\<lambda>_.
           bind_r (resolve_to env (o_trust opts) dest) (\<lambda>toAddress.
           bind_r (lift_api (e_utxos env)) (\<lambda>us. Inr (toAddress, us)))) of
        Inl e \<Rightarrow> (a, Inl e)
      | Inr (toAddress, us) \<Rightarrow>
          (let (a', utxos) = mergeUtxos a (positive_utxos us) in
           (a', if utxos = [] then Inl WalletEmpty
                else bind_r (source_filter (o_source opts) utxos) (\<lambda>utxos.
                     bind_r (pick_change lib a' wif (o_change opts) utxos) (\<lambda>ca.
                     bind_r (lift_api (e_tip env)) (\<lambda>tip.
                     lift_pay (buildPayment lib \<lparr>p_wif = wif, p_to = toAddress, p_amount = amount,
                       p_utxos = utxos, p_fee = DEFAULT_FEE, p_change = Some ca, p_network = a_net a',
                       p_expiry = computeExpiryHeight tip DEFAULT_TX_EXPIRY_DELTA\<rparr>)))))))"

definition sendCurrency ::
  "utxolib \<Rightarrow> agent \<Rightarrow> net_env \<Rightarrow> string \<Rightarrow> jsnum \<Rightarrow> send_opts \<Rightarrow> send_outcome" where
  "sendCurrency lib a env dest amount opts =
     (if \<not> truthy_str (a_wif a) then (a, None, Inl NotInitialized)
      else case prepare_send lib a env (the (a_wif a)) dest amount opts of
        (a', Inl e) \<Rightarrow> (a', None, Inl e)
      | (a', Inr b) \<Rightarrow>
          (let a1 = mark_spent a' (spentUtxos b);
               a2 = a1\<lparr>a_spent := evict_loop MAX_SPENT_UTXOS (a_spent a1)\<rparr> in
           case e_broadcast env (rawhex b) of
             Inl e \<Rightarrow> (a2, Some (built b), Inl (ApiError e))
           | Inr tid \<Rightarrow>
               (let a3 = chain_change a2 tid (changeUtxo b);
                    a4 = (if changeUtxo b = None then a3
                          else a3\<lparr>a_pending := evict_loop MAX_PENDING_CHANGE (a_pending a3)\<rparr>) in
                (a4, Some (built b), Inr tid))))"

definition sendMultiPayment ::
  "utxolib \<Rightarrow> agent \<Rightarrow> net_env \<Rightarrow> (string \<times> jsnum) list \<Rightarrow> send_outcome" where
  "sendMultiPayment lib a env outputs =
     (if \<not> truthy_str (a_wif a) then (a, None, Inl NotInitialized)
      else let wif = the (a_wif a) in
      case bind_r (lift_api (e_login env)) (\<lambda>_. lift_api (e_utxos env)) of
        Inl e \<Rightarrow> (a, None, Inl e)
      | Inr us \<Rightarrow>
          (let (a', utxos) = mergeUtxos a (positive_utxos us) in
           case (if utxos = [] then Inl WalletEmpty
                 else bind_r (lift_pay (lift_lib (wif_addr lib wif (a_net a')))) (\<lambda>ca.
                      bind_r (lift_api (e_tip env)) (\<lambda>tip.
                      lift_pay (buildMultiPayment lib \<lparr>m_wif = wif, m_outputs = outputs, m_utxos = utxos,
                        m_fee = DEFAULT_FEE, m_change = Some ca, m_network = a_net a',
                        m_expiry = computeExpiryHeight tip DEFAULT_TX_EXPIRY_DELTA\<rparr>)))) of
             Inl e \<Rightarrow> (a', None, Inl e)
           | Inr b \<Rightarrow>
               (let a1 = mark_spent a' (spentUtxos b) in
                case e_broadcast env (rawhex b) of
                  Inl e \<Rightarrow> (a1, Some (built b), Inl (ApiError e))
                | Inr tid \<Rightarrow> (chain_change a1 tid (changeUtxo b), Some (built b), Inr tid))))"

datatype direction = ToIdentity | ToRAddress

definition transferFunds ::
  "utxolib \<Rightarrow> agent \<Rightarrow> net_env \<Rightarrow> direction \<Rightarrow> jsnum \<Rightarrow> send_outcome" where
  "transferFunds lib a env dir amount =
     (if \<not> truthy_str (a_wif a) then (a, None, Inl NotInitialized)
      else if \<not> truthy_str (a_iaddr a) then (a, None, Inl NoIAddress)
      else case wif_addr lib (the (a_wif a)) (a_net a) of
        Inl e \<Rightarrow> (a, None, Inl (PayError (LibError e)))
      | Inr r \<Rightarrow>
          (case dir of
             ToIdentity \<Rightarrow> sendCurrency lib a env (the (a_iaddr a)) amount
               \<lparr>o_change = Some r, o_source = Some r, o_trust = None\<rparr>
           | ToRAddress \<Rightarrow> sendCurrency lib a env r amount
               \<lparr>o_change = a_iaddr a, o_source = a_iaddr a, o_trust = None\<rparr>))"

text \<open>\<open>stop()\<close> forgets both collections.\<close>

definition stop_wallet :: "agent \<Rightarrow> agent" where
  "stop_wallet a = a\<lparr>a_spent := [], a_pending := []\<rparr>"

section \<open>What a merge offers\<close>

lemma merge_loop_outpoints:
  "outpoint ` set (merge_loop spent seen us) = outpoint ` set us - (set spent \<union> set seen)"
  by (induction spent seen us rule: merge_loop.induct) auto

lemma merge_loop_distinct: "distinct (map outpoint (merge_loop spent seen us))"
proof (induction spent seen us rule: merge_loop.induct)
  case (2 spent seen u us)
  then show ?case
    by (simp add: merge_loop_outpoints del: set_map flip: image_set)
qed simp

lemma mergeUtxos_fields:
  assumes "mergeUtxos a api = (a', us)"
  shows "a_spent a' = a_spent a" "a_wif a' = a_wif a" "a_iaddr a' = a_iaddr a" "a_net a' = a_net a"
    "distinct (map outpoint us)" "outpoint ` set us \<inter> set (a_spent a) = {}"
proof -
  have a': "a_spent a' = a_spent a" "a_wif a' = a_wif a" "a_iaddr a' = a_iaddr a" "a_net a' = a_net a"
    and "\<exists>vs. us = merge_loop (a_spent a) [] vs"
    using assms by (auto simp: mergeUtxos_def Let_def)
  then obtain vs where us: "us = merge_loop (a_spent a) [] vs" by blast
  show "a_spent a' = a_spent a" "a_wif a' = a_wif a" "a_iaddr a' = a_iaddr a" "a_net a' = a_net a"
    by (rule a')+
  show "distinct (map outpoint us)" unfolding us by (rule merge_loop_distinct)
  show "outpoint ` set us \<inter> set (a_spent a) = {}" unfolding us merge_loop_outpoints by blast
qed

lemma image_filter_diff:
  "f ` set (filter (\<lambda>u. f u \<notin> A \<and> f u \<notin> B) xs) = f ` set xs - A - B"
  by auto

text \<open>
  Merging offers each spendable coin once: no outpoint twice and none already spent by the
  agent, every unspent coin of the platform's list and of the pending change, and the pending
  list keeps only change that is neither spent nor confirmed.
\<close>

theorem mergeUtxos_correct:
  "distinct (map outpoint (snd (mergeUtxos a api)))
   \<and> outpoint ` set (snd (mergeUtxos a api))
       = outpoint ` (set api \<union> set (a_pending a)) - set (a_spent a)
   \<and> a_pending (fst (mergeUtxos a api))
       = filter (\<lambda>u. outpoint u \<notin> set (a_spent a) \<union> outpoint ` set api) (a_pending a)"
proof -
  define pend where "pend = filter (\<lambda>u. outpoint u \<notin> set (a_spent a) \<and> outpoint u \<notin> outpoint ` set api) (a_pending a)"
  have m: "mergeUtxos a api = (a\<lparr>a_pending := pend\<rparr>, merge_loop (a_spent a) [] (api @ pend))"
    by (simp add: mergeUtxos_def pend_def Let_def)
  have "outpoint ` set pend = outpoint ` set (a_pending a) - set (a_spent a) - outpoint ` set api"
    unfolding pend_def by (rule image_filter_diff)
  then have "outpoint ` set (api @ pend) - set (a_spent a) = outpoint ` (set api \<union> set (a_pending a)) - set (a_spent a)"
    unfolding set_append image_Un by blast
  then have "outpoint ` set (merge_loop (a_spent a) [] (api @ pend))
      = outpoint ` (set api \<union> set (a_pending a)) - set (a_spent a)"
    by (simp add: merge_loop_outpoints)
  then show ?thesis
    by (simp add: m merge_loop_distinct) (simp add: pend_def)
qed

section \<open>No coin is spent twice\<close>

definition inputs_of :: "tx \<Rightarrow> (string \<times> nat) list" where
  "inputs_of t = map (\<lambda>i. (in_txid i, in_vout i)) (tx_ins t)"

lemma inputs_of_make_tx [simp]: "inputs_of (make_tx e sel outs) = map outpoint sel"
  by (simp add: inputs_of_def input_of_def outpoint_def)

lemma lift_Inr [simp]:
  "lift_api r = Inr x \<longleftrightarrow> r = Inr x" "lift_pay q = Inr y \<longleftrightarrow> q = Inr y"
  by (auto simp: lift_api_def lift_pay_def split: sum.splits)

lemma buildPayment_inputs:
  assumes "buildPayment lib p = Inr r" "distinct (map outpoint (p_utxos p))"
  shows "inputs_of (built r) = spentUtxos r" "distinct (spentUtxos r)"
    "set (spentUtxos r) \<subseteq> outpoint ` set (p_utxos p)"
proof -
  obtain a sel x ca ts cs where s: "selectUtxos (p_utxos p) (js_div (js_add (num_int a) (p_fee p)) SATS_PER_COIN) = Inr (sel, x)"
    and b: "built r = make_tx (p_expiry p) sel
       ((ts, num_int a) # change_outs cs (js_sub (js_sub x (num_int a)) (p_fee p)))"
    and o: "spentUtxos r = map outpoint sel"
    using assms(1) by (elim buildPayment_cases) auto
  show "inputs_of (built r) = spentUtxos r" by (simp add: b o)
  show "distinct (spentUtxos r)" using payment_coins.sel_distinct [OF assms(2) s] by (simp add: o)
  have "set sel \<subseteq> set (p_utxos p)"
    using payment_coins.sub [OF s] by (metis set_mset_mono set_mset_mset)
  then show "set (spentUtxos r) \<subseteq> outpoint ` set (p_utxos p)" by (auto simp: o)
qed

lemma buildMultiPayment_inputs:
  assumes "buildMultiPayment lib p = Inr r" "distinct (map outpoint (m_utxos p))"
  shows "inputs_of (built r) = spentUtxos r" "distinct (spentUtxos r)"
    "set (spentUtxos r) \<subseteq> outpoint ` set (m_utxos p)"
proof -
  obtain t sel x outs where s: "selectUtxos (m_utxos p) t = Inr (sel, x)"
    and b: "built r = make_tx (m_expiry p) sel outs" and o: "spentUtxos r = map outpoint sel"
    using assms(1) by (auto simp: buildMultiPayment_def Let_def bind_r_eq_Inr split: if_splits prod.splits)
  show "inputs_of (built r) = spentUtxos r" by (simp add: b o)
  show "distinct (spentUtxos r)" using payment_coins.sel_distinct [OF assms(2) s] by (simp add: o)
  have "set sel \<subseteq> set (m_utxos p)"
    using payment_coins.sub [OF s] by (metis set_mset_mono set_mset_mset)
  then show "set (spentUtxos r) \<subseteq> outpoint ` set (m_utxos p)" by (auto simp: o)
qed

lemma prepare_send_fields:
  "prepare_send lib a env wif dest amount opts = (a', r) \<Longrightarrow> a_spent a' = a_spent a"
  by (auto simp: prepare_send_def mergeUtxos_def Let_def split: sum.splits prod.splits)

lemma source_filter_sub:
  assumes "source_filter src us = Inr vs"
  shows "set vs \<subseteq> set us" "distinct (map outpoint us) \<Longrightarrow> distinct (map outpoint vs)"
  using assms by (auto simp: source_filter_def Let_def distinct_map_filter split: if_splits)

lemma prepare_send_inputs:
  assumes "prepare_send lib a env wif dest amount opts = (a', Inr b)"
  shows "inputs_of (built b) = spentUtxos b" "distinct (spentUtxos b)"
    "set (spentUtxos b) \<inter> set (a_spent a) = {}"
proof -
  obtain toA us utxos vs ca tip where m: "mergeUtxos a (positive_utxos us) = (a', utxos)"
    and f: "source_filter (o_source opts) utxos = Inr vs"
    and p: "buildPayment lib \<lparr>p_wif = wif, p_to = toA, p_amount = amount,
       p_utxos = vs, p_fee = DEFAULT_FEE, p_change = Some ca, p_network = a_net a',
       p_expiry = computeExpiryHeight tip DEFAULT_TX_EXPIRY_DELTA\<rparr> = Inr b"
    using assms by (auto simp: prepare_send_def bind_r_eq_Inr Let_def split: sum.splits prod.splits if_splits)
  note M = mergeUtxos_fields [OF m] and F = source_filter_sub [OF f]
  have d: "distinct (map outpoint vs)" by (rule F(2)) (rule M)
  note P = buildPayment_inputs [OF p, simplified, OF d]
  show "inputs_of (built b) = spentUtxos b" "distinct (spentUtxos b)" by (rule P)+
  show "set (spentUtxos b) \<inter> set (a_spent a) = {}" using P(3) F(1) M(6) by fastforce
qed

lemma foldl_set_add_fresh:
  "distinct (s @ ks) \<Longrightarrow> foldl set_add s ks = s @ ks"
  by (induction ks arbitrary: s) (auto simp: set_add_def)

lemma mark_spent_fields [simp]:
  "a_pending (mark_spent a ks) = a_pending a" "a_spent (mark_spent a ks) = foldl set_add (a_spent a) ks"
  by (simp_all add: mark_spent_def)

lemma chain_change_spent [simp]: "a_spent (chain_change a tid c) = a_spent a"
  by (cases c) (simp_all add: chain_change_def)

text \<open>What one send does to the spent set: \<open>t\<close> is the transaction it built, if any.\<close>

definition spends_fresh :: "agent \<Rightarrow> agent \<Rightarrow> tx option \<Rightarrow> bool" where
  "spends_fresh a a' t = (case t of
     None \<Rightarrow> a_spent a' = a_spent a
   | Some x \<Rightarrow> distinct (inputs_of x) \<and> set (inputs_of x) \<inter> set (a_spent a) = {}
       \<and> (length (a_spent a) + length (inputs_of x) \<le> MAX_SPENT_UTXOS \<longrightarrow> a_spent a' = a_spent a @ inputs_of x))"

lemma sendCurrency_fresh:
  assumes "sendCurrency lib a env dest amount opts = (a', t, r)" "distinct (a_spent a)"
  shows "spends_fresh a a' t"
proof (cases t)
  case None
  with assms prepare_send_fields show ?thesis
    by (fastforce simp: sendCurrency_def spends_fresh_def Let_def split: if_splits sum.splits prod.splits)
next
  case (Some x)
  obtain a1 b where p: "prepare_send lib a env (the (a_wif a)) dest amount opts = (a1, Inr b)"
    and x: "x = built b"
    and s: "a_spent a' = evict MAX_SPENT_UTXOS (foldl set_add (a_spent a1) (spentUtxos b))"
    using assms(1) Some
    by (auto simp: sendCurrency_def Let_def evict_loop_eq split: if_splits sum.splits prod.splits)
  note P = prepare_send_inputs [OF p] and F = prepare_send_fields [OF p]
  have "foldl set_add (a_spent a1) (spentUtxos b) = a_spent a @ spentUtxos b"
    unfolding F using P(2,3) assms(2) by (intro foldl_set_add_fresh) auto
  with P s show ?thesis
    by (simp add: spends_fresh_def Some x)
qed

lemma sendMultiPayment_inputs:
  assumes "sendMultiPayment lib a env outs = (a', Some t, r)" "distinct (a_spent a)"
  shows "distinct (inputs_of t)" "set (inputs_of t) \<inter> set (a_spent a) = {}"
    "a_spent a' = a_spent a @ inputs_of t"
proof -
  obtain us a1 utxos ca e b where m: "mergeUtxos a (positive_utxos us) = (a1, utxos)"
    and p: "buildMultiPayment lib \<lparr>m_wif = the (a_wif a), m_outputs = outs, m_utxos = utxos,
              m_fee = DEFAULT_FEE, m_change = Some ca, m_network = a_net a1, m_expiry = e\<rparr> = Inr b"
    and t: "t = built b" and s: "a_spent a' = foldl set_add (a_spent a1) (spentUtxos b)"
    using assms(1)
    by (auto simp: sendMultiPayment_def Let_def bind_r_eq_Inr split: if_splits sum.splits prod.splits)
  note M = mergeUtxos_fields [OF m]
  note P = buildMultiPayment_inputs [OF p, simplified, OF M(5)]
  show d: "distinct (inputs_of t)" "set (inputs_of t) \<inter> set (a_spent a) = {}"
    using P M(6) by (auto simp: t)
  show "a_spent a' = a_spent a @ inputs_of t"
    unfolding s M(1) using d assms(2) P by (subst foldl_set_add_fresh) (auto simp: t)
qed

lemma sendMultiPayment_fresh:
  assumes "sendMultiPayment lib a env outs = (a', t, r)" "distinct (a_spent a)"
  shows "spends_fresh a a' t"
proof (cases t)
  case None
  with assms mergeUtxos_fields(1) show ?thesis
    by (fastforce simp: sendMultiPayment_def spends_fresh_def Let_def split: if_splits sum.splits prod.splits)
next
  case (Some x)
  with sendMultiPayment_inputs assms show ?thesis
    by (simp add: spends_fresh_def)
qed

section \<open>Histories of sends\<close>

datatype wallet_op =
    OpSend net_env string jsnum send_opts
  | OpMulti net_env "(string \<times> jsnum) list"
  | OpTransfer net_env direction jsnum

fun wallet_step :: "utxolib \<Rightarrow> agent \<Rightarrow> wallet_op \<Rightarrow> send_outcome" where
  "wallet_step lib a (OpSend env dest amount opts) = sendCurrency lib a env dest amount opts"
| "wallet_step lib a (OpMulti env outs) = sendMultiPayment lib a env outs"
| "wallet_step lib a (OpTransfer env dir amount) = transferFunds lib a env dir amount"

fun run_txs :: "utxolib \<Rightarrow> agent \<Rightarrow> wallet_op list \<Rightarrow> tx list" where
  "run_txs lib a [] = []"
| "run_txs lib a (op # ops) = (case wallet_step lib a op of (a', t, _) \<Rightarrow>
     (case t of None \<Rightarrow> [] | Some x \<Rightarrow> [x]) @ run_txs lib a' ops)"

lemma transferFunds_fresh:
  assumes "transferFunds lib a env dir amount = (a', t, r)" "distinct (a_spent a)"
  shows "spends_fresh a a' t"
  using assms sendCurrency_fresh
  by (auto simp: transferFunds_def spends_fresh_def split: if_splits sum.splits direction.splits)

lemma wallet_step_fresh:
  assumes "wallet_step lib a op = (a', t, r)" "distinct (a_spent a)"
  shows "spends_fresh a a' t"
  using assms sendCurrency_fresh sendMultiPayment_fresh transferFunds_fresh by (cases op) auto

text \<open>The spent set stays a set, and a send of VRSC keeps it and the pending list within their caps.\<close>

lemma sendCurrency_distinct:
  assumes "sendCurrency lib a env dest amount opts = (a', t, r)" "distinct (a_spent a)"
  shows "distinct (a_spent a')"
  using assms
  by (auto simp: sendCurrency_def Let_def evict_loop_eq foldl_set_add_distinct dest!: prepare_send_fields
      split: if_splits sum.splits prod.splits)

lemma wallet_step_distinct:
  assumes "distinct (a_spent a)"
  shows "distinct (a_spent (fst (wallet_step lib a op)))"
proof (cases "wallet_step lib a op")
  case (fields a' t r)
  show ?thesis
  proof (cases op)
    case (OpMulti env outs)
    with fields have m: "sendMultiPayment lib a env outs = (a', t, r)" by simp
    show ?thesis
    proof (cases t)
      case None
      with sendMultiPayment_fresh [OF m assms] assms fields show ?thesis
        by (simp add: spends_fresh_def)
    next
      case (Some x)
      note I = sendMultiPayment_inputs [OF m [unfolded Some] assms]
      then show ?thesis using assms fields by (simp add: Int_commute)
    qed
  qed (use fields assms sendCurrency_distinct in
      \<open>auto simp: transferFunds_def split: if_splits sum.splits direction.splits\<close>)
qed

interpretation wallet: invariant_machine "\<lambda>a op. fst (wallet_step lib a op)" "\<lambda>a. distinct (a_spent a)" for lib
  by unfold_locales (rule wallet_step_distinct)

lemma run_txs_fresh:
  assumes "distinct (a_spent a)"
    and "length (a_spent a) + length (concat (map inputs_of (run_txs lib a ops))) \<le> MAX_SPENT_UTXOS"
  shows "distinct (a_spent a @ concat (map inputs_of (run_txs lib a ops)))"
  using assms
proof (induction ops arbitrary: a)
  case (Cons op ops)
  obtain a' t r where st: "wallet_step lib a op = (a', t, r)" by (cases "wallet_step lib a op")
  note fresh = wallet_step_fresh [OF st Cons.prems(1)]
  have d': "distinct (a_spent a')" using wallet_step_distinct [OF Cons.prems(1), of lib op] by (simp add: st)
  show ?case
  proof (cases t)
    case None
    with fresh Cons.IH [OF d'] Cons.prems st show ?thesis by (simp add: spends_fresh_def)
  next
    case (Some x)
    with fresh Cons.prems st have "a_spent a' = a_spent a @ inputs_of x" by (simp add: spends_fresh_def)
    with Cons.IH [OF d'] Cons.prems st Some show ?thesis by simp
  qed
qed simp

text \<open>
  C2. No coin is spent twice: over any sequence of sends, whatever the platform answers (stale
  UTXO lists, failed broadcasts, repeated coins), all inputs of all transactions built are
  pairwise distinct outpoints, as long as they number at most the cap of 10000 of the spent set.
\<close>

theorem no_double_spend:
  assumes "a_spent a = []"
    and "length (concat (map inputs_of (run_txs lib a ops))) \<le> MAX_SPENT_UTXOS"
  shows "distinct (concat (map inputs_of (run_txs lib a ops)))"
  using run_txs_fresh [of a lib ops] assms by simp

definition demo_agent :: agent where
  "demo_agent = \<lparr>a_wif = Some ''w'', a_iaddr = Some ''iId'', a_net = Verus, a_spent = [], a_pending = []\<rparr>"

definition demo_env :: net_env where
  "demo_env = \<lparr>e_login = Inr (), e_payinfo = Inr None,
     e_utxos = Inr (Some [demo_utxo ''a'' 200000000, demo_utxo ''b'' 300000000, demo_utxo ''b'' 300000000]),
     e_tip = Inr (Some (num_int 100)), e_trust = False, e_broadcast = (\<lambda>h. Inr ''T'')\<rparr>"

definition demo_ops :: "wallet_op list" where
  "demo_ops = [OpMulti demo_env [(''Rbob'', num_int 1)], OpMulti demo_env [(''Rbob'', num_int 2)]]"

lemmas wallet_eval = demo_agent_def demo_env_def demo_ops_def sendMultiPayment_def mergeUtxos_def
  positive_utxos_def lift_api_def lift_pay_def computeExpiryHeight_def DEFAULT_TX_EXPIRY_DELTA_def
  mark_spent_def chain_change_def set_add_def outpoint_def buildMultiPayment_def payment_eval check_output_def

lemma demo_txs: "map inputs_of (run_txs demo_lib demo_agent demo_ops) = [[(''b'', 0)], [(''a'', 0), (''T'', 1)]]
    \<or> map inputs_of (run_txs demo_lib demo_agent demo_ops) = [[(''b'', 0)], [(''T'', 1), (''a'', 0)]]"
  using demo_multi_sats [simplified]
  by (simp add: wallet_eval payment_target_numeral)

theorem no_double_spend_witness:
  "length (run_txs demo_lib demo_agent demo_ops) = 2
   \<and> distinct (concat (map inputs_of (run_txs demo_lib demo_agent demo_ops)))"
proof -
  have "length (map inputs_of (run_txs demo_lib demo_agent demo_ops)) = 2"
    and "length (concat (map inputs_of (run_txs demo_lib demo_agent demo_ops))) \<le> MAX_SPENT_UTXOS"
    using demo_txs by (auto simp: MAX_SPENT_UTXOS_def)
  moreover have "a_spent demo_agent = []" by (simp add: demo_agent_def)
  ultimately show ?thesis
    using no_double_spend [of demo_agent demo_lib demo_ops] by simp
qed

section \<open>Where the money goes\<close>

text \<open>The addresses the agent owns: the one of its key and its identity.\<close>

definition own_addresses :: "utxolib \<Rightarrow> agent \<Rightarrow> string set" where
  "own_addresses lib a = {ad. wif_addr lib (the (a_wif a)) (a_net a) = Inr ad}
     \<union> (if truthy_str (a_iaddr a) then {the (a_iaddr a)} else {})"

lemma pick_change_own:
  "pick_change lib a (the (a_wif a)) want us = Inr ca \<Longrightarrow> ca \<in> own_addresses lib a \<and> ca \<noteq> []"
  by (auto simp: pick_change_def own_addresses_def bind_r_eq_Inr truthy_str_def split: if_splits option.splits)

lemma prepare_send_payment:
  assumes "prepare_send lib a env (the (a_wif a)) dest amount opts = (a', Inr b)"
  obtains toA ca vs e where "resolve_to env (o_trust opts) dest = Inr toA"
    "ca \<in> own_addresses lib a" "ca \<noteq> []"
    "buildPayment lib \<lparr>p_wif = the (a_wif a), p_to = toA, p_amount = amount, p_utxos = vs,
       p_fee = DEFAULT_FEE, p_change = Some ca, p_network = a_net a, p_expiry = e\<rparr> = Inr b"
proof -
  obtain toA us utxos vs ca tip where m: "mergeUtxos a (positive_utxos us) = (a', utxos)"
    and t: "resolve_to env (o_trust opts) dest = Inr toA"
    and c: "pick_change lib a' (the (a_wif a)) (o_change opts) vs = Inr ca"
    and p: "buildPayment lib \<lparr>p_wif = the (a_wif a), p_to = toA, p_amount = amount,
       p_utxos = vs, p_fee = DEFAULT_FEE, p_change = Some ca, p_network = a_net a',
       p_expiry = computeExpiryHeight tip DEFAULT_TX_EXPIRY_DELTA\<rparr> = Inr b"
    using assms by (auto simp: prepare_send_def bind_r_eq_Inr Let_def split: sum.splits prod.splits if_splits)
  note M = mergeUtxos_fields [OF m]
  have "ca \<in> own_addresses lib a' \<and> ca \<noteq> []"
    using c M pick_change_own [of lib a' "o_change opts" vs ca] by simp
  moreover have "own_addresses lib a' = own_addresses lib a"
    by (simp add: own_addresses_def M)
  ultimately show thesis
    using that [OF t _ _ p [unfolded M]] by simp
qed

text \<open>
  A send pays the requested satoshis to the address the caller named and everything else
  it outputs goes to one of the agent's own addresses, even if the caller asked for another
  change address; a VerusID is followed to a platform-resolved address only with the explicit
  opt-in.
\<close>

theorem sendCurrency_outputs:
  assumes "sendCurrency lib a env dest amount opts = (a', Some t, r)"
  shows "\<exists>toA s own rest. tx_outs t = (s, math_round (js_mul amount SATS_PER_COIN)) # rest
    \<and> toOutputScript lib (a_net a) toA = Inr s
    \<and> (toA \<noteq> dest \<longrightarrow> (o_trust opts = Some True \<or> o_trust opts = None \<and> e_trust env)
          \<and> e_payinfo env = Inr (Some toA))
    \<and> own \<in> own_addresses lib a
    \<and> (rest = [] \<or> (\<exists>cs change. rest = [(cs, change)] \<and> toOutputScript lib (a_net a) own = Inr cs
          \<and> js_lt (num_int 1000) change))"
proof -
  obtain a1 b where p: "prepare_send lib a env (the (a_wif a)) dest amount opts = (a1, Inr b)" and t: "t = built b"
    using assms by (auto simp: sendCurrency_def Let_def split: if_splits sum.splits prod.splits)
  obtain toA ca vs e where R: "resolve_to env (o_trust opts) dest = Inr toA"
      and ca: "ca \<in> own_addresses lib a" "ca \<noteq> []"
      and bp: "buildPayment lib \<lparr>p_wif = the (a_wif a), p_to = toA, p_amount = amount, p_utxos = vs,
       p_fee = DEFAULT_FEE, p_change = Some ca, p_network = a_net a, p_expiry = e\<rparr> = Inr b"
    using p by (rule prepare_send_payment)
  obtain m ca' ts cs change where B: "payment_target amount = num_int m"
      "change_address lib (the (a_wif a)) (a_net a) (Some ca) = Inr ca'"
      "toOutputScript lib (a_net a) toA = Inr ts" "change_script lib (a_net a) ca' change = Inr cs"
      "tx_outs (built b) = (ts, num_int m) # change_outs cs change"
    using bp by (elim buildPayment_cases) auto
  have "ca' = ca" using B(2) ca by (simp add: change_address_def truthy_str_def)
  moreover have "toA \<noteq> dest \<longrightarrow> (o_trust opts = Some True \<or> o_trust opts = None \<and> e_trust env)
          \<and> e_payinfo env = Inr (Some toA)"
    using R by (auto simp: resolve_to_def truthy_str_def split: if_splits sum.splits option.splits)
  ultimately show ?thesis
    using B ca
    by (intro exI [of _ toA] exI [of _ ts] exI [of _ ca] exI [of _ "change_outs cs change"])
       (auto simp: t payment_target_def change_outs_def change_script_def bind_r_eq_Inr split: option.splits if_splits)
qed

lemma demo_send_runs:
  "\<exists>a' t r. sendCurrency demo_lib demo_agent demo_env ''Rbob'' (num_int 1)
     \<lparr>o_change = Some ''iId'', o_source = None, o_trust = None\<rparr> = (a', Some t, r)"
  using demo_pay_sats [unfolded demo_pay_def, simplified]
  by (simp add: wallet_eval sendCurrency_def prepare_send_def resolve_to_def is_verusid_def source_filter_def
      pick_change_def payment_target_numeral MAX_SPENT_UTXOS_def)

theorem sendCurrency_outputs_witness:
  "\<exists>a' t r. sendCurrency demo_lib demo_agent demo_env ''Rbob'' (num_int 1)
     \<lparr>o_change = Some ''iId'', o_source = None, o_trust = None\<rparr> = (a', Some t, r)
     \<and> tx_outs t \<noteq> [] \<and> snd (hd (tx_outs t)) = Fin 100000000"
proof -
  obtain a' t r where s: "sendCurrency demo_lib demo_agent demo_env ''Rbob'' (num_int 1)
     \<lparr>o_change = Some ''iId'', o_source = None, o_trust = None\<rparr> = (a', Some t, r)"
    using demo_send_runs by blast
  show ?thesis
    using s sendCurrency_outputs [OF s] demo_pay_sats [unfolded demo_pay_def, simplified] by auto
qed

end
