(* ===== verification/JsValue.thy ===== *)
theory JsValue
  imports JsNum JsText
begin

text \<open>
  JSON values as JavaScript holds them once parsed, for the code that checks data of unknown
  shape: \<open>typeof\<close>, property reads, own keys, truthiness and strict equality. An object is the
  list of its own properties in order; a missing property reads as \<open>undefined\<close>.
\<close>

datatype jv =
    JUndef
  | JNull
  | JBool bool
  | JNum jsnum
  | JStr string
  | JArr "jv list"
  | JObj "(string \<times> jv) list"

definition is_object :: "jv \<Rightarrow> bool" where
  "is_object v = (case v of JObj _ \<Rightarrow> True | _ \<Rightarrow> False)"

definition is_array :: "jv \<Rightarrow> bool" where
  "is_array v = (case v of JArr _ \<Rightarrow> True | _ \<Rightarrow> False)"

definition is_string :: "jv \<Rightarrow> bool" where
  "is_string v = (case v of JStr _ \<Rightarrow> True | _ \<Rightarrow> False)"

definition is_number :: "jv \<Rightarrow> bool" where
  "is_number v = (case v of JNum _ \<Rightarrow> True | _ \<Rightarrow> False)"

definition str_of :: "jv \<Rightarrow> string" where
  "str_of v = (case v of JStr s \<Rightarrow> s | _ \<Rightarrow> [])"

definition num_of :: "jv \<Rightarrow> jsnum" where
  "num_of v = (case v of JNum n \<Rightarrow> n | _ \<Rightarrow> NaN)"

definition arr_of :: "jv \<Rightarrow> jv list" where
  "arr_of v = (case v of JArr xs \<Rightarrow> xs | _ \<Rightarrow> [])"

definition props_of :: "jv \<Rightarrow> (string \<times> jv) list" where
  "props_of v = (case v of JObj m \<Rightarrow> m | _ \<Rightarrow> [])"

definition jget :: "jv \<Rightarrow> string \<Rightarrow> jv" where
  "jget v k = (case map_get (props_of v) k of Some x \<Rightarrow> x | None \<Rightarrow> JUndef)"

definition jkeys :: "jv \<Rightarrow> string list" where
  "jkeys v = map fst (props_of v)"

definition has_key :: "jv \<Rightarrow> string \<Rightarrow> bool" where
  "has_key v k = (k \<in> set (jkeys v))"

fun jtruthy :: "jv \<Rightarrow> bool" where
  "jtruthy JUndef = False"
| "jtruthy JNull = False"
| "jtruthy (JBool b) = b"
| "jtruthy (JNum n) = (n \<noteq> NaN \<and> n \<noteq> Fin 0)"
| "jtruthy (JStr s) = (s \<noteq> [])"
| "jtruthy (JArr _) = True"
| "jtruthy (JObj _) = True"

definition nullish :: "jv \<Rightarrow> bool" where
  "nullish v = (v = JUndef \<or> v = JNull)"

text \<open>A property set under a condition, in an object literal or after it.\<close>

definition opt_field :: "bool \<Rightarrow> 'k \<Rightarrow> 'v \<Rightarrow> ('k \<times> 'v) list" where
  "opt_field c k v = (if c then [(k, v)] else [])"

lemma jv_test_simps [simp]:
  "is_object (JObj m)" "\<not> is_object JUndef" "\<not> is_object JNull" "\<not> is_object (JBool b)" "\<not> is_object (JNum n)"
  "\<not> is_object (JStr s)" "\<not> is_object (JArr xs)"
  "is_string (JStr s)" "\<not> is_string JUndef" "\<not> is_string JNull" "\<not> is_string (JBool b)" "\<not> is_string (JNum n)"
  "\<not> is_string (JObj m)" "\<not> is_string (JArr xs)"
  "is_array (JArr xs)" "\<not> is_array JUndef" "\<not> is_array JNull" "\<not> is_array (JBool b)" "\<not> is_array (JNum n)"
  "\<not> is_array (JObj m)" "\<not> is_array (JStr s)"
  "is_number (JNum n)" "\<not> is_number JUndef" "\<not> is_number JNull" "\<not> is_number (JBool b)" "\<not> is_number (JStr s)"
  "\<not> is_number (JObj m)" "\<not> is_number (JArr xs)"
  "str_of (JStr s) = s" "num_of (JNum n) = n" "arr_of (JArr xs) = xs" "props_of (JObj m) = m"
  by (simp_all add: is_object_def is_string_def is_array_def is_number_def str_of_def num_of_def arr_of_def props_of_def)

lemma jget_simps [simp]:
  "jget (JObj ((k, v) # m)) k' = (if k = k' then v else jget (JObj m) k')"
  "jget (JObj []) k' = JUndef"
  by (simp_all add: jget_def)

lemma jkeys_simps [simp]: "jkeys (JObj m) = map fst m"
  by (simp add: jkeys_def)

lemma is_object_iff: "is_object v \<longleftrightarrow> (\<exists>m. v = JObj m)"
  by (cases v) auto

lemma is_string_iff: "is_string v \<longleftrightarrow> (\<exists>s. v = JStr s)"
  by (cases v) auto

end
