(* ===== verification/Paths.thy ===== *)
theory Paths
  imports JsText
begin

text \<open>
  The parts of \<open>path\<close> and \<open>fs\<close> that the workspace uses (POSIX): a directory tree, looking up and writing a
  file in it, \<open>path.resolve\<close> and the text of an absolute path. A path is the list of its
  names. Symbolic links are not modelled: an entry is a file, a directory or neither.
\<close>

section \<open>A tree of files\<close>

datatype node = FFile "nat list" | FDir "(string \<times> node) list" | FOther

fun is_dir :: "node \<Rightarrow> bool" where
  "is_dir (FDir _) = True"
| "is_dir _ = False"

fun tree_lookup :: "node \<Rightarrow> string list \<Rightarrow> node option" where
  "tree_lookup n [] = Some n"
| "tree_lookup (FDir es) (x # xs) = (case map_get es x of None \<Rightarrow> None | Some n \<Rightarrow> tree_lookup n xs)"
| "tree_lookup _ (x # xs) = None"

text \<open>The directories that \<open>mkdir\<close> with \<open>recursive\<close> adds above a new file.\<close>

fun fresh_file :: "string list \<Rightarrow> nat list \<Rightarrow> node" where
  "fresh_file [] bs = FFile bs"
| "fresh_file (x # xs) bs = FDir [(x, fresh_file xs bs)]"

text \<open>
  Making the parent directory and writing the file; \<open>None\<close> where the system refuses: the path is
  a directory, or goes through a file.
\<close>

fun tree_write :: "node \<Rightarrow> string list \<Rightarrow> nat list \<Rightarrow> node option" where
  "tree_write (FFile _) [] bs = Some (FFile bs)"
| "tree_write (FDir es) (x # xs) bs =
     (case map_get es x of
        None \<Rightarrow> Some (FDir (map_set es x (fresh_file xs bs)))
      | Some n \<Rightarrow> (case tree_write n xs bs of None \<Rightarrow> None | Some n' \<Rightarrow> Some (FDir (map_set es x n'))))"
| "tree_write _ _ bs = None"

fun fresh_dir :: "string list \<Rightarrow> node" where
  "fresh_dir [] = FDir []"
| "fresh_dir (x # xs) = FDir [(x, fresh_dir xs)]"

fun tree_mkdir :: "node \<Rightarrow> string list \<Rightarrow> node option" where
  "tree_mkdir n [] = Some n"
| "tree_mkdir (FDir es) (x # xs) =
     (case map_get es x of
        None \<Rightarrow> Some (FDir (map_set es x (fresh_dir xs)))
      | Some n \<Rightarrow> (case tree_mkdir n xs of None \<Rightarrow> None | Some n' \<Rightarrow> Some (FDir (map_set es x n'))))"
| "tree_mkdir _ (x # xs) = None"

lemma fresh_dir_no_file: "tree_lookup (fresh_dir p) q \<noteq> Some (FFile cs)"
proof (induction p arbitrary: q)
  case Nil
  then show ?case by (cases q) simp_all
next
  case (Cons x p)
  then show ?case by (cases q) (auto split: if_splits option.splits)
qed

lemma mkdir_files: "tree_mkdir t p = Some t' \<Longrightarrow> tree_lookup t' q = Some (FFile cs) \<longleftrightarrow> tree_lookup t q = Some (FFile cs)"
proof (induction t p arbitrary: t' q rule: tree_mkdir.induct)
  case (2 es x xs)
  show ?case
  proof (cases q)
    case Nil
    with 2(2) show ?thesis by (auto split: option.splits)
  next
    case q: (Cons y ys)
    show ?thesis
    proof (cases "map_get es x")
      case None
      then show ?thesis using 2(2) q fresh_dir_no_file [of xs ys cs] by (cases "y = x") auto
    next
      case (Some n)
      then obtain n' where n': "tree_mkdir n xs = Some n'" "t' = FDir (map_set es x n')"
        using 2(2) by (auto split: option.splits)
      show ?thesis using 2(1) [OF Some n'(1), of ys] n'(2) q Some by simp
    qed
  qed
qed simp_all

lemma lookup_fresh: "tree_lookup (fresh_file p bs) p = Some (FFile bs)"
  by (induction p) simp_all

lemma fresh_prefix: "tree_lookup (fresh_file p bs) q = Some (FFile cs) \<Longrightarrow> q = p"
proof (induction p arbitrary: q)
  case Nil
  then show ?case by (cases q) simp_all
next
  case (Cons x p)
  then show ?case by (cases q) (auto split: if_splits option.splits)
qed

lemma write_read: "tree_write t p bs = Some t' \<Longrightarrow> tree_lookup t' p = Some (FFile bs)"
  by (induction t p bs arbitrary: t' rule: tree_write.induct) (auto simp: lookup_fresh split: option.splits)

lemma write_other:
  assumes "tree_write t p bs = Some t'" "q \<noteq> p"
  shows "tree_lookup t' q = Some (FFile cs) \<longleftrightarrow> tree_lookup t q = Some (FFile cs)"
  using assms
proof (induction t p bs arbitrary: t' q rule: tree_write.induct)
  case (1 old bs)
  then show ?case by (cases q) auto
next
  case (2 es x xs bs)
  show ?case
  proof (cases q)
    case Nil
    with 2(2) show ?thesis by (auto split: option.splits)
  next
    case q: (Cons y ys)
    show ?thesis
    proof (cases "map_get es x")
      case None
      then show ?thesis using 2(2,3) q fresh_prefix [of xs bs ys cs] by (cases "y = x") auto
    next
      case (Some n)
      then obtain n' where n': "tree_write n xs bs = Some n'" "t' = FDir (map_set es x n')"
        using 2(2) by (auto split: option.splits)
      show ?thesis using 2(1) [OF Some n'(1), of ys] 2(3) n'(2) q Some by (cases "y = x") simp_all
    qed
  qed
qed simp_all

text \<open>Names as a directory has them.\<close>

definition name_ok :: "string \<Rightarrow> bool" where
  "name_ok x = (x \<noteq> [] \<and> x \<noteq> ''.'' \<and> x \<noteq> ''..'' \<and> CHR ''/'' \<notin> set x)"

section \<open>Resolving a path\<close>

fun norm_segs :: "string list \<Rightarrow> string list \<Rightarrow> string list" where
  "norm_segs acc [] = acc"
| "norm_segs acc (x # xs) =
     (if x = [] \<or> x = ''.'' then norm_segs acc xs
      else if x = ''..'' then norm_segs (butlast acc) xs
      else norm_segs (acc @ [x]) xs)"

definition path_resolve :: "string list \<Rightarrow> string \<Rightarrow> string list" where
  "path_resolve base rel = norm_segs (if starts_with rel ''/'' then [] else base) (split_on CHR ''/'' rel)"

definition path_str :: "string list \<Rightarrow> string" where
  "path_str p = CHR ''/'' # join_with CHR ''/'' p"

definition rel_str :: "string list \<Rightarrow> string" where
  "rel_str p = join_with CHR ''/'' p"

lemma names_butlast: "list_all name_ok acc \<Longrightarrow> list_all name_ok (butlast acc)"
  by (auto simp: list_all_iff dest: in_set_butlastD)

lemma norm_ok: "list_all name_ok acc \<Longrightarrow> \<forall>x \<in> set xs. CHR ''/'' \<notin> set x \<Longrightarrow> list_all name_ok (norm_segs acc xs)"
proof (induction xs arbitrary: acc)
  case (Cons x xs)
  then have r: "\<And>acc. list_all name_ok acc \<Longrightarrow> list_all name_ok (norm_segs acc xs)" and x: "CHR ''/'' \<notin> set x" by simp_all
  consider "x = [] \<or> x = ''.''" | "x = ''..''" | "name_ok x" "x \<noteq> []" "x \<noteq> ''.''" "x \<noteq> ''..''" using x by (auto simp: name_ok_def)
  then show ?case
  proof cases
    case 3
    then have "list_all name_ok (acc @ [x])" using Cons.prems(1) by simp
    with 3 r show ?thesis by simp
  qed (use r names_butlast Cons.prems(1) in auto)
qed simp

lemma resolve_ok: "list_all name_ok base \<Longrightarrow> list_all name_ok (path_resolve base rel)"
  unfolding path_resolve_def by (rule norm_ok) (auto dest: split_no_sep)

lemma norm_names: "list_all name_ok xs \<Longrightarrow> norm_segs acc xs = acc @ xs"
  by (induction xs arbitrary: acc) (simp_all add: name_ok_def)

lemma split_rel: "p \<noteq> [] \<Longrightarrow> list_all name_ok p \<Longrightarrow> split_on CHR ''/'' (rel_str p) = p"
  unfolding rel_str_def by (rule split_join) (auto simp: list_all_iff name_ok_def)

lemma rel_str_head: "p \<noteq> [] \<Longrightarrow> list_all name_ok p \<Longrightarrow> \<not> starts_with (rel_str p) ''/''"
  by (cases p; cases "tl p"; cases "hd p") (auto simp: rel_str_def name_ok_def starts_with_def)

text \<open>The text of a path below the base resolves to the path.\<close>

lemma resolve_rel: "p \<noteq> [] \<Longrightarrow> list_all name_ok p \<Longrightarrow> path_resolve base (rel_str p) = base @ p"
  by (simp add: path_resolve_def rel_str_head split_rel norm_names)

lemma split_append: "split_on c (a @ c # r) = split_on c a @ split_on c r"
proof (induction a)
  case (Cons x a)
  then show ?case by (cases "split_on c a") auto
qed simp

lemma split_path_str: "p \<noteq> [] \<Longrightarrow> list_all name_ok p \<Longrightarrow> split_on CHR ''/'' (path_str p) = [] # p"
  using split_rel [of p] by (simp add: path_str_def rel_str_def)

text \<open>A path whose text starts with the text of the base and a slash is below the base.\<close>

lemma below_base:
  assumes "starts_with (path_str q) (path_str b @ ''/'')" "b \<noteq> []" "list_all name_ok b" "list_all name_ok q"
  shows "\<exists>p. q = b @ p"
proof -
  obtain r where r: "path_str q = path_str b @ CHR ''/'' # r"
    using assms(1) by (auto simp: starts_with_iff)
  have q: "q \<noteq> []" using r by (cases b; cases "tl b") (auto simp: path_str_def)
  have "[] # q = split_on CHR ''/'' (path_str b @ CHR ''/'' # r)"
    using split_path_str [OF q assms(4)] r by simp
  also have "\<dots> = [] # b @ split_on CHR ''/'' r"
    by (simp only: split_append split_path_str [OF assms(2,3)] append_Cons)
  finally show ?thesis by blast
qed

end
