(* ===== verification/AgentLife.thy ===== *)
theory AgentLife
  imports Wallet JsValue Paths
begin

text \<open>
  The agent's life, \<open>src/agent.ts\<close>: \<open>start\<close> and \<open>stop\<close> as a machine whose events are the calls, the end of a first
  check and the ticks of the timers; what the chat's events are routed to; where a download is stored; and the listing kinds
  of \<open>src/hosting/kinds.ts\<close>. The checks themselves are in \<open>JobPoll\<close>, the wallet that \<open>stop\<close> clears in \<open>Wallet\<close>.
\<close>

section \<open>Start and stop\<close>

definition MIN_POLL_INTERVAL :: jsnum where "MIN_POLL_INTERVAL = num_int 5000"

definition poll_interval :: "jsnum option \<Rightarrow> jsnum" where
  "poll_interval p = math_max (case p of None \<Rightarrow> num_int 30000 | Some x \<Rightarrow> if x = NaN \<or> x = Fin 0 then num_int 30000 else x) MIN_POLL_INTERVAL"

text \<open>The delay Node's timers use: one millisecond for a delay that is not between 1 and \<open>2^31 - 1\<close>.\<close>

definition timer_delay :: "jsnum \<Rightarrow> jsnum" where
  "timer_delay d = (if js_le (num_int 1) d \<and> js_le d (num_int 2147483647) then d else num_int 1)"

record life =
  lf_running :: bool
  lf_session :: bool
  lf_timers :: "nat list"
  lf_poll :: "nat option"
  lf_starting :: nat
  lf_next :: nat
  lf_checks :: nat
  lf_chat :: bool
  lf_workspace :: bool
  lf_wallet :: agent

definition start :: "life \<Rightarrow> life" where
  "start s = (if lf_running s \<or> \<not> lf_session s then s
     else s\<lparr>lf_running := True, lf_starting := lf_starting s + 1, lf_checks := lf_checks s + 1\<rparr>)"

text \<open>The first check of a \<open>start\<close> has ended, well or badly: the timer is set, and cleared again after a \<open>stop\<close>.\<close>

definition first_check_done :: "life \<Rightarrow> life" where
  "first_check_done s =
     (if lf_starting s = 0 then s
      else let t = lf_next s; s' = s\<lparr>lf_starting := lf_starting s - 1, lf_next := t + 1\<rparr> in
        if lf_running s then s'\<lparr>lf_timers := lf_timers s @ [t], lf_poll := Some t\<rparr> else s'\<lparr>lf_poll := None\<rparr>)"

definition clear_timer :: "nat option \<Rightarrow> nat list \<Rightarrow> nat list" where
  "clear_timer p ts = (case p of None \<Rightarrow> ts | Some t \<Rightarrow> filter (\<lambda>x. x \<noteq> t) ts)"

definition stop :: "life \<Rightarrow> life" where
  "stop s = s\<lparr>lf_timers := clear_timer (lf_poll s) (lf_timers s), lf_poll := None, lf_running := False,
     lf_wallet := (lf_wallet s)\<lparr>a_spent := [], a_pending := []\<rparr>, lf_chat := False, lf_workspace := False\<rparr>"

datatype life_event = Start | FirstCheckDone | Tick nat | Stop

definition life_step :: "life \<Rightarrow> life_event \<Rightarrow> life" where
  "life_step s e = (case e of
       Start \<Rightarrow> start s
     | FirstCheckDone \<Rightarrow> first_check_done s
     | Tick t \<Rightarrow> if t \<in> set (lf_timers s) \<and> lf_running s then s\<lparr>lf_checks := lf_checks s + 1\<rparr> else s
     | Stop \<Rightarrow> stop s)"

section \<open>What the chat's events are routed to\<close>

text \<open>The agent's own messages are dropped.\<close>

definition handles_message :: "string option \<Rightarrow> string option \<Rightarrow> jv \<Rightarrow> bool" where
  "handles_message iaddr name m =
     (let s = jget m ''senderVerusId'' in
      \<not> (s = (case iaddr of None \<Rightarrow> JNull | Some i \<Rightarrow> JStr i) \<or> s = (case name of None \<Rightarrow> JNull | Some n \<Rightarrow> JStr n)))"

record job_hooks =
  on_started :: bool
  on_completed :: bool
  on_disputed :: bool
  on_cancelled :: bool
  on_ending :: bool

datatype job_hook = HStarted | HCompleted | HDisputed | HCancelled

definition status_hook :: "job_hooks \<Rightarrow> string \<Rightarrow> job_hook option" where
  "status_hook h st =
     (if st = ''in_progress'' \<and> on_started h then Some HStarted
      else if st = ''completed'' \<and> on_completed h then Some HCompleted
      else if st = ''disputed'' \<and> on_disputed h then Some HDisputed
      else if st = ''cancelled'' \<and> on_cancelled h then Some HCancelled
      else None)"

datatype ending_action = CallHook | AutoDeliver

definition ending_action :: "job_hooks option \<Rightarrow> ending_action" where
  "ending_action h = (case h of None \<Rightarrow> AutoDeliver | Some h \<Rightarrow> if on_ending h then CallHook else AutoDeliver)"

text \<open>A review is accepted at once, except behind a remote signer, where it is left to the host.\<close>

definition review_accepted :: "bool \<Rightarrow> bool" where
  "review_accepted usesRemoteSigner = (\<not> usesRemoteSigner)"

section \<open>Downloads\<close>

text \<open>\<open>path.basename\<close>: the part after the last slash, trailing slashes aside.\<close>

definition basename :: "string \<Rightarrow> string" where
  "basename s = (let t = dropWhile (\<lambda>c. c = CHR ''/'') (rev s) in rev (takeWhile (\<lambda>c. c \<noteq> CHR ''/'') t))"

definition download_name :: "string \<Rightarrow> string option" where
  "download_name filename =
     (let n = filter (\<lambda>c. c \<noteq> char_of (0 :: nat)) (basename (if filename = [] then ''download'' else filename)) in
      if n = [] \<or> n = ''.'' \<or> n = ''..'' then None else Some n)"

definition downloadFileTo :: "string list \<Rightarrow> string \<Rightarrow> nat list \<Rightarrow> node \<Rightarrow> (string list \<times> node) option" where
  "downloadFileTo dir filename bytes t = (case download_name filename of
       None \<Rightarrow> None
     | Some n \<Rightarrow> if \<not> (case tree_lookup t dir of None \<Rightarrow> False | Some d \<Rightarrow> is_dir d) then None
         else (let p = path_resolve dir n in map_option (\<lambda>t'. (p, t')) (tree_write t p bytes)))"

section \<open>Listing kinds\<close>

datatype kind = Agent | Compute | Data | Model

definition parseListingKind :: "jv \<Rightarrow> kind option" where
  "parseListingKind v =
     (if v = JStr ''agent'' then Some Agent else if v = JStr ''compute'' then Some Compute
      else if v = JStr ''data'' then Some Data else if v = JStr ''model'' then Some Model else None)"

definition strip_at :: "string \<Rightarrow> string" where
  "strip_at s = rev (dropWhile (\<lambda>c. c = CHR ''@'') (rev s))"

definition advertisedIdentity :: "string \<Rightarrow> string" where
  "advertisedIdentity name =
     (let n = strip_at (trim name) in
      if CHR ''.'' \<in> set n then (if ends_with n ''@'' then n else n @ ''@'') else n @ ''.agentplatform@'')"

definition kindFromIdentityName :: "string option \<Rightarrow> kind option" where
  "kindFromIdentityName name =
     (if name = None \<or> name = Some [] then None
      else let n = to_lower (trim (the name)) in
        if ends_with n ''.sovagent@'' \<or> ends_with n ''.agentplatform@'' then Some Agent
        else if ends_with n ''.sovcompute@'' then Some Compute
        else if ends_with n ''.sovdata@'' then Some Data
        else if ends_with n ''.sovmodel@'' then Some Model else None)"

definition leafFromIdentity :: "string option \<Rightarrow> string" where
  "leafFromIdentity name =
     (if name = None \<or> name = Some [] then [] else takeWhile (\<lambda>c. c \<noteq> CHR ''.'') (strip_at (trim (the name))))"

section \<open>At most one timer\<close>

definition life_init :: "bool \<Rightarrow> agent \<Rightarrow> life" where
  "life_init session w = \<lparr>lf_running = False, lf_session = session, lf_timers = [], lf_poll = None, lf_starting = 0, lf_next = 0,
     lf_checks = 0, lf_chat = False, lf_workspace = False, lf_wallet = w\<rparr>"

text \<open>A run in which no \<open>stop\<close> comes while a \<open>start\<close> still waits for its first check.\<close>

fun calm :: "life \<Rightarrow> life_event list \<Rightarrow> bool" where
  "calm s [] = True"
| "calm s (e # es) = ((e = Stop \<longrightarrow> lf_starting s = 0) \<and> calm (life_step s e) es)"

definition life_inv :: "life \<Rightarrow> bool" where
  "life_inv s = ((if lf_running s then (lf_starting s = 1 \<and> lf_timers s = [] \<and> lf_poll s = None)
        \<or> (lf_starting s = 0 \<and> (\<exists>t. lf_timers s = [t] \<and> lf_poll s = Some t))
      else lf_starting s = 0 \<and> lf_timers s = [] \<and> lf_poll s = None))"

lemma life_step_inv: "life_inv s \<Longrightarrow> e = Stop \<longrightarrow> lf_starting s = 0 \<Longrightarrow> life_inv (life_step s e)"
  by (cases e)
    (auto simp: life_step_def life_inv_def start_def stop_def first_check_done_def clear_timer_def Let_def split: if_splits)

lemma calm_run_inv: "calm s es \<Longrightarrow> life_inv s \<Longrightarrow> life_inv (foldl life_step s es)"
  by (induction es arbitrary: s) (auto simp: life_step_inv)

text \<open>
  The agent polls with one timer: in a run in which no stop comes between a start and the end of its first check, at most
  one timer is alive, it is the one that stop will clear, and none is alive when the agent does not run.
\<close>

theorem one_timer:
  assumes "calm (life_init session w) es" and "s = foldl life_step (life_init session w) es"
  shows "lf_timers s = (case lf_poll s of None \<Rightarrow> [] | Some t \<Rightarrow> [t]) \<and> (\<not> lf_running s \<longrightarrow> lf_timers s = []) \<and> lf_timers (stop s) = []"
proof -
  have "life_inv (life_init session w)" by (simp add: life_inv_def life_init_def)
  then have "life_inv s" using calm_run_inv [OF assms(1)] assms(2) by simp
  then show ?thesis by (auto simp: life_inv_def stop_def clear_timer_def split: if_splits)
qed

definition demo_life_events :: "life_event list" where
  "demo_life_events = [Start, FirstCheckDone, Tick 0, Stop, Start, FirstCheckDone, Tick 0, Tick 1]"

lemma one_timer_witness:
  "lf_timers (foldl life_step (life_init True demo_agent) demo_life_events) = [1]
    \<and> lf_timers (stop (foldl life_step (life_init True demo_agent) demo_life_events)) = []"
proof -
  have c: "calm (life_init True demo_agent) demo_life_events"
    by (simp add: demo_life_events_def life_init_def life_step_def start_def first_check_done_def stop_def clear_timer_def)
  have "lf_poll (foldl life_step (life_init True demo_agent) demo_life_events) = Some 1"
    by (simp add: demo_life_events_def life_init_def life_step_def start_def first_check_done_def stop_def clear_timer_def)
  then show ?thesis using one_timer [OF c refl] by simp
qed

text \<open>Stopped while its first check runs and started again, the agent keeps a timer that no stop clears.\<close>

lemma timer_leaks:
  "lf_timers (foldl life_step (life_init True w) [Start, Stop, Start, FirstCheckDone, FirstCheckDone]) = [0, 1]"
  "lf_timers (foldl life_step (life_init True w) [Start, Stop, Start, FirstCheckDone, FirstCheckDone, Stop]) = [0]"
  by (simp_all add: life_init_def life_step_def start_def first_check_done_def stop_def clear_timer_def)

text \<open>After a stop nothing is checked until the next start, not even by such a timer.\<close>

lemma stopped_is_quiet: "\<not> lf_running s \<Longrightarrow> Start \<notin> set es \<Longrightarrow> lf_checks (foldl life_step s es) = lf_checks s"
proof (induction es arbitrary: s)
  case (Cons e es)
  have "\<not> lf_running (life_step s e) \<and> lf_checks (life_step s e) = lf_checks s"
    using Cons.prems by (cases e) (auto simp: life_step_def first_check_done_def stop_def Let_def)
  then show ?case using Cons by simp
qed simp

text \<open>A stop forgets which coins were spent: a platform that still lists one gets it spent again.\<close>

lemma stop_forgets_spent:
  "outpoint u \<in> set (a_spent (lf_wallet s)) \<Longrightarrow> set (snd (mergeUtxos (lf_wallet (stop s)) [u])) = {u}"
  by (simp add: stop_def mergeUtxos_def Let_def)

text \<open>The interval has a lower bound and no upper one; beyond \<open>2^31 - 1\<close> milliseconds the timer fires every millisecond.\<close>

lemma poll_interval_bounds:
  assumes "js_le p (num_int 2147483647)"
  shows "timer_delay (poll_interval (Some p)) = poll_interval (Some p) \<and> js_le MIN_POLL_INTERVAL (poll_interval (Some p))"
  using assms by (cases p) (auto simp: timer_delay_def poll_interval_def math_max_def MIN_POLL_INTERVAL_def)

lemma poll_interval_overflows: "2147483647 < r \<Longrightarrow> timer_delay (poll_interval (Some (Fin r))) = num_int 1"
  by (auto simp: timer_delay_def poll_interval_def math_max_def MIN_POLL_INTERVAL_def)

section \<open>A download stays in its directory\<close>

lemma basename_no_slash: "CHR ''/'' \<notin> set (basename s)"
  by (auto simp: basename_def Let_def dest: set_takeWhileD)

lemma download_name_ok: "download_name f = Some n \<Longrightarrow> name_ok n \<and> char_of (0 :: nat) \<notin> set n"
  using basename_no_slash [of "if f = [] then ''download'' else f"]
  by (auto simp: download_name_def name_ok_def Let_def split: if_splits)

lemma resolve_name: "name_ok n \<Longrightarrow> path_resolve dir n = dir @ [n]"
  by (cases n) (auto simp: path_resolve_def name_ok_def split_single starts_with_def)



text \<open>The leaf of an advertised identity is the name it was made of.\<close>

lemma leaf_of_advertised:
  assumes "trim n = n" "\<not> is_space (hd n)" "strip_at n = n" "n \<noteq> []" "CHR ''.'' \<notin> set n"
  shows "leafFromIdentity (Some (advertisedIdentity n)) = n"
proof -
  have "trim (n @ ''.agentplatform@'') = n @ ''.agentplatform@''"
    using assms(2,4) unfolding trim_def by (cases n) (auto simp: is_space_def)
  then show ?thesis using assms by (simp add: leafFromIdentity_def advertisedIdentity_def strip_at_def takeWhile_append)
qed

end
