(* ===== verification/Session.thy ===== *)
theory Session
  imports JsValue Messages
begin

text \<open>
  Requests to the platform and the login behind them: \<open>_doRequest\<close>, \<open>request\<close>, \<open>setSessionToken\<close>,
  \<open>getConsentChallenge\<close>, \<open>getIdentityKeys\<close> and the onboarding calls of \<open>src/client/index.ts\<close>, and \<open>login\<close> of
  \<open>src/agent.ts\<close>, which the client calls back when its session has expired. One call runs at a time; the answers of the
  network are a function of how many requests were sent. A promise that is never settled is \<open>None\<close>.
\<close>

section \<open>The network\<close>

text \<open>A body is the chunks the reader delivers and whether reading ends with an error instead of the end.\<close>

record http_response =
  rs_status :: nat
  rs_text :: string
  rs_length :: jsnum
  rs_body :: "(string list \<times> bool) option"
  rs_cookie :: "string option"

datatype fetch_answer = Aborted | NetworkError | Answer http_response

record request_line =
  rl_method :: string
  rl_path :: string
  rl_cookie :: "string option"
  rl_body :: "jv option"

record net =
  n_token :: "string option"
  n_answers :: "nat \<Rightarrow> fetch_answer"
  n_sent :: "request_line list"
  n_slept :: "nat list"
  n_signed :: "string list"

datatype api_error =
    Timeout | Network | TooLarge nat | Unparseable nat | HttpError jv jv nat "jv option" | NothingThrown
  | NoData | InvalidToken | TypeFault
  | NoKey | NoName | BadExpiry | Expired | Refused sign_refusal | SignFailed string | LoginTimeout | LoginFailed jv
  | NoCookie | NoSessionInCookie
  | SignerRequired | KeysUnsigned | KeysBadSignature | VerifyFault string
  | AuthTimeout | AuthFailed jv nat | NoSession | AddressMismatch string | BadChallenge | NoOnboardId | OnboardFailed jv | OnboardTimeout
  | UnexpectedAnswer jv | ChallengeMissing | KeyFault string | RegistrationFailed jv | RegistrationTimeout jv jv jv | NoIAddressGiven | NoIdentityGiven
  | JailboxParked | JsonFault | AbortFault

text \<open>\<open>J41Error.statusCode\<close>; every other error has none.\<close>

definition status_code :: "api_error \<Rightarrow> nat option" where
  "status_code e = (case e of
       Timeout \<Rightarrow> Some 408 | TooLarge n \<Rightarrow> Some n | Unparseable n \<Rightarrow> Some n | HttpError _ _ n _ \<Rightarrow> Some n
     | NoData \<Rightarrow> Some 500 | InvalidToken \<Rightarrow> Some 400 | SignerRequired \<Rightarrow> Some 500 | KeysUnsigned \<Rightarrow> Some 502
     | KeysBadSignature \<Rightarrow> Some 502 | AuthTimeout \<Rightarrow> Some 408 | AuthFailed _ n \<Rightarrow> Some n | NoSession \<Rightarrow> Some 500
     | AddressMismatch _ \<Rightarrow> Some 400 | BadChallenge \<Rightarrow> Some 500 | NoOnboardId \<Rightarrow> Some 500
     | OnboardFailed _ \<Rightarrow> Some 500 | OnboardTimeout \<Rightarrow> Some 504
     | _ \<Rightarrow> None)"

record http_env =
  he_decode :: "string list \<Rightarrow> string"
  he_parse :: "string \<Rightarrow> jv option"
  he_max :: jsnum
  he_now :: int
  he_date :: "jv \<Rightarrow> jsnum"
  he_nfkc :: "units \<Rightarrow> units"
  he_sign :: "string \<Rightarrow> (string, string) result"
  he_retries :: nat

section \<open>One request\<close>

fun read_chunks :: "http_env \<Rightarrow> nat \<Rightarrow> nat \<Rightarrow> string list \<Rightarrow> bool \<Rightarrow> string list \<Rightarrow> (api_error, string list) result" where
  "read_chunks env st n [] bad acc = (if bad then Inl (Unparseable st) else Inr acc)"
| "read_chunks env st n (c # cs) bad acc =
     (if js_lt (he_max env) (num_int (int (n + length c))) then Inl (TooLarge st)
      else read_chunks env st (n + length c) cs bad (acc @ [c]))"

definition read_response :: "http_env \<Rightarrow> http_response \<Rightarrow> (api_error, jv) result" where
  "read_response env r =
     (if is_finite (rs_length r) \<and> js_lt (he_max env) (rs_length r) then Inl (TooLarge (rs_status r))
      else case rs_body r of
        None \<Rightarrow> Inr (JObj [])
      | Some (cs, bad) \<Rightarrow> bind_r (read_chunks env (rs_status r) 0 cs bad []) (\<lambda>cs'.
          let t = he_decode env cs' in
          if t = [] then Inr (JObj [])
          else case he_parse env t of None \<Rightarrow> Inl (Unparseable (rs_status r)) | Some v \<Rightarrow> Inr v))"

definition is_okay :: "http_response \<Rightarrow> bool" where
  "is_okay r = (200 \<le> rs_status r \<and> rs_status r \<le> 299)"

definition or_else :: "jv \<Rightarrow> jv \<Rightarrow> jv" where
  "or_else a b = (if jtruthy a then a else b)"

definition http_error :: "http_response \<Rightarrow> jv \<Rightarrow> api_error" where
  "http_error r data =
     (let e = jget data ''error'' in
      HttpError (or_else (jget e ''message'') (JStr (''HTTP '' @ show_nat (rs_status r))))
        (or_else (jget e ''code'') (JStr ''HTTP_ERROR'')) (rs_status r)
        (if is_string (jget e ''detail'') then Some (jget e ''detail'') else None))"

text \<open>\<open>fetch\<close> sends the next request and gets the next answer.\<close>

definition send :: "request_line \<Rightarrow> net \<Rightarrow> fetch_answer \<times> net" where
  "send l w = (n_answers w (length (n_sent w)), w\<lparr>n_sent := n_sent w @ [l]\<rparr>)"

definition truthy_token :: "string option \<Rightarrow> string option" where
  "truthy_token t = (if t = Some [] then None else t)"

definition do_request :: "http_env \<Rightarrow> string \<Rightarrow> string \<Rightarrow> jv \<Rightarrow> net \<Rightarrow> (api_error, jv) result \<times> net" where
  "do_request env m p b w =
     (let (a, w1) = send \<lparr>rl_method = m, rl_path = p, rl_cookie = truthy_token (n_token w),
                          rl_body = (if jtruthy b then Some b else None)\<rparr> w in
      case a of
        Aborted \<Rightarrow> (Inl Timeout, w1)
      | NetworkError \<Rightarrow> (Inl Network, w1)
      | Answer r \<Rightarrow> (case read_response env r of
            Inl e \<Rightarrow> (Inl e, w1)
          | Inr data \<Rightarrow>
              if is_okay r then (Inr data, w1)
              else (Inl (http_error r data), if rs_status r \<in> {401, 403} then w1\<lparr>n_token := None\<rparr> else w1)))"

section \<open>Retries and re-authentication\<close>

type_synonym 'a run = "(api_error, 'a) result option \<times> net"

definition throws :: "api_error \<Rightarrow> net \<Rightarrow> 'a run" where "throws e w = (Some (Inl e), w)"
definition returns :: "'a \<Rightarrow> net \<Rightarrow> 'a run" where "returns a w = (Some (Inr a), w)"

definition bind_run :: "'a run \<Rightarrow> ('a \<Rightarrow> net \<Rightarrow> 'b run) \<Rightarrow> 'b run" where
  "bind_run x f = (case fst x of None \<Rightarrow> (None, snd x) | Some (Inl e) \<Rightarrow> throws e (snd x) | Some (Inr a) \<Rightarrow> f a (snd x))"

definition auth_error :: "api_error \<Rightarrow> bool" where
  "auth_error e = (status_code e = Some 401 \<or> status_code e = Some 403)"

definition isRetryable :: "api_error \<Rightarrow> bool" where
  "isRetryable e = (case status_code e of Some n \<Rightarrow> n = 429 \<or> 500 \<le> n | None \<Rightarrow> True)"

definition retry_delay :: "api_error \<Rightarrow> nat \<Rightarrow> nat" where
  "retry_delay e attempt = (if status_code e = Some 429 then 5000 else 1000) * 2 ^ attempt"

text \<open>\<open>request_loop k attempt prev\<close>: \<open>k\<close> attempts are left, \<open>prev\<close> is what the previous one threw.\<close>

fun request_loop ::
  "(net \<Rightarrow> (api_error, jv) result \<times> net) \<Rightarrow> (net \<Rightarrow> unit run) option \<Rightarrow> nat \<Rightarrow> nat \<Rightarrow> api_error \<Rightarrow> net \<Rightarrow> jv run" where
  "request_loop doit reauth 0 attempt prev w = throws prev w"
| "request_loop doit reauth (Suc k) attempt prev w = (case doit w of
       (Inr v, w1) \<Rightarrow> returns v w1
     | (Inl e, w1) \<Rightarrow>
         if auth_error e then
           (if attempt = 0 then (case reauth of
                None \<Rightarrow> throws e w1
              | Some f \<Rightarrow> (case f w1 of
                    (None, w2) \<Rightarrow> (None, w2)
                  | (Some (Inl _), w2) \<Rightarrow> throws e w2
                  | (Some (Inr _), w2) \<Rightarrow> request_loop doit reauth k (Suc attempt) e w2))
            else throws e w1)
         else if \<not> isRetryable e \<or> k = 0 then throws e w1
         else request_loop doit reauth k (Suc attempt) e (w1\<lparr>n_slept := n_slept w1 @ [retry_delay e attempt]\<rparr>))"

definition client_request :: "http_env \<Rightarrow> (net \<Rightarrow> unit run) option \<Rightarrow> string \<Rightarrow> string \<Rightarrow> jv \<Rightarrow> net \<Rightarrow> jv run" where
  "client_request env reauth m p b w = request_loop (do_request env m p b) reauth (he_retries env) 0 NothingThrown w"

section \<open>Login\<close>

definition CHALLENGE_PATH :: string where "CHALLENGE_PATH = ''/auth/consent/challenge''"

definition getConsentChallenge :: "http_env \<Rightarrow> (net \<Rightarrow> unit run) option \<Rightarrow> net \<Rightarrow> jv run" where
  "getConsentChallenge env reauth w = bind_run (client_request env reauth ''GET'' CHALLENGE_PATH JUndef w) (\<lambda>res w.
     if nullish res then throws TypeFault w
     else if \<not> jtruthy (jget res ''data'') then throws NoData w else returns (jget res ''data'') w)"

text \<open>The first match of \<open>/verus_session=([^;]+)/\<close>.\<close>

fun cookie_match :: "string \<Rightarrow> string option" where
  "cookie_match [] = None"
| "cookie_match (c # s) =
     (let v = takeWhile (\<lambda>x. x \<noteq> CHR '';'') (drop 14 (c # s)) in
      if starts_with (c # s) ''verus_session='' \<and> v \<noteq> [] then Some v else cookie_match s)"

definition token_clean :: "string \<Rightarrow> bool" where
  "token_clean t = (\<forall>c \<in> set t. 32 \<le> (of_char c :: nat))"

definition setSessionToken :: "string \<Rightarrow> net \<Rightarrow> unit run" where
  "setSessionToken t w = (if \<not> token_clean t then throws InvalidToken w else returns () (w\<lparr>n_token := Some t\<rparr>))"

record login_cfg =
  lc_wif :: "string option"
  lc_signer :: bool
  lc_name :: "string option"

definition login_ready :: "login_cfg \<Rightarrow> bool" where
  "login_ready c = ((lc_wif c \<noteq> None \<or> lc_signer c) \<and> lc_name c \<noteq> None)"

text \<open>The signature, by the remote signer or the WIF.\<close>

definition sign_with :: "http_env \<Rightarrow> string \<Rightarrow> net \<Rightarrow> string run" where
  "sign_with env m w = (let w1 = w\<lparr>n_signed := n_signed w @ [m]\<rparr> in
     case he_sign env m of Inl e \<Rightarrow> throws (SignFailed e) w1 | Inr sg \<Rightarrow> returns sg w1)"

definition check_hash :: "http_env \<Rightarrow> jv \<Rightarrow> api_error option" where
  "check_hash env ch =
     (let h = jget ch ''challengeHash'' in
      case assertConsentChallengeHash (if is_string h then Some (str_of h) else None) of
        Inl e \<Rightarrow> Some (Refused e)
      | Inr _ \<Rightarrow> (case assertNotProtocolMessage (he_nfkc env) (units_of (str_of h)) of Inl e \<Rightarrow> Some (Refused e) | Inr _ \<Rightarrow> None))"

definition check_challenge :: "http_env \<Rightarrow> jv \<Rightarrow> api_error option" where
  "check_challenge env ch =
     (let ex = jget ch ''expiresAt'' in
      if jtruthy ex \<and> he_date env ex = NaN then Some BadExpiry
      else if jtruthy ex \<and> js_lt (he_date env ex) (num_int (he_now env)) then Some Expired
      else check_hash env ch)"

definition error_text :: "http_env \<Rightarrow> http_response \<Rightarrow> jv" where
  "error_text env r = (case rs_body r of
       Some (cs, False) \<Rightarrow> (case he_parse env (he_decode env cs) of
           Some v \<Rightarrow> or_else (jget (jget v ''error'') ''message'') (JStr (rs_text r))
         | None \<Rightarrow> JStr (rs_text r))
     | _ \<Rightarrow> JStr (rs_text r))"

definition verify_line :: "login_cfg \<Rightarrow> jv \<Rightarrow> string \<Rightarrow> request_line" where
  "verify_line c ch sg = \<lparr>rl_method = ''POST'', rl_path = ''/auth/consent/verify'', rl_cookie = None,
     rl_body = Some (JObj [(''challengeId'', jget ch ''challengeId''), (''verusId'', JStr (the (lc_name c))), (''signature'', JStr sg)])\<rparr>"

definition take_session :: "http_env \<Rightarrow> fetch_answer \<Rightarrow> net \<Rightarrow> unit run" where
  "take_session env a w = (case a of
       Aborted \<Rightarrow> throws LoginTimeout w
     | NetworkError \<Rightarrow> throws Network w
     | Answer r \<Rightarrow>
         if \<not> is_okay r then throws (LoginFailed (error_text env r)) w
         else (case truthy_token (rs_cookie r) of
             None \<Rightarrow> throws NoCookie w
           | Some c \<Rightarrow> (case cookie_match c of None \<Rightarrow> throws NoSessionInCookie w | Some t \<Rightarrow> setSessionToken t w)))"

text \<open>
  While \<open>_loginImpl\<close> runs, \<open>login\<close> returns its promise: called back from inside, it waits for itself.
\<close>

definition login_in_flight :: "net \<Rightarrow> unit run" where
  "login_in_flight w = (None, w)"

definition answer_challenge :: "http_env \<Rightarrow> login_cfg \<Rightarrow> jv \<Rightarrow> net \<Rightarrow> unit run" where
  "answer_challenge env c ch w = bind_run (sign_with env (str_of (jget ch ''challengeHash'')) w) (\<lambda>sg w1.
     let (a, w2) = send (verify_line c ch sg) w1 in take_session env a w2)"

definition login :: "http_env \<Rightarrow> login_cfg \<Rightarrow> net \<Rightarrow> unit run" where
  "login env c w =
     (if lc_wif c = None \<and> \<not> lc_signer c then throws NoKey w
      else if lc_name c = None then throws NoName w
      else bind_run (getConsentChallenge env (Some login_in_flight) w) (\<lambda>ch w1.
        case check_challenge env ch of Some e \<Rightarrow> throws e w1 | None \<Rightarrow> answer_challenge env c ch w1))"

text \<open>A request of the agent's client.\<close>

definition agent_request :: "http_env \<Rightarrow> login_cfg \<Rightarrow> string \<Rightarrow> string \<Rightarrow> jv \<Rightarrow> net \<Rightarrow> jv run" where
  "agent_request env c m p b w = client_request env (Some (login env c)) m p b w"

section \<open>When a request never settles\<close>

lemma run_simps [simp]:
  "bind_run (throws e w) f = throws e w" "bind_run (returns a w) f = f a w" "bind_run (None, w) f = (None, w)"
  "fst (throws e w) = Some (Inl e)" "snd (throws e w) = w" "fst (returns a w) = Some (Inr a)" "snd (returns a w) = w"
  by (simp_all add: bind_run_def throws_def returns_def)

lemma bind_run_None: "fst (bind_run x f) = None \<longleftrightarrow> fst x = None \<or> (\<exists>a. fst x = Some (Inr a) \<and> fst (f a (snd x)) = None)"
  by (simp add: bind_run_def split: option.split sum.split)

lemma settles [simp]:
  "fst (throws e w) \<noteq> None" "fst (returns a w) \<noteq> None" "fst (setSessionToken t w) \<noteq> None" "fst (take_session env a w) \<noteq> None"
  "fst (sign_with env m w) \<noteq> None"
  by (auto simp: setSessionToken_def take_session_def sign_with_def Let_def split: fetch_answer.splits option.splits sum.splits)

definition unauthorized :: "net \<Rightarrow> nat \<Rightarrow> bool" where
  "unauthorized w k = (\<exists>r. n_answers w k = Answer r \<and> rs_status r \<in> {401, 403})"

lemma read_chunks_err: "read_chunks env st n cs bad acc = Inl e \<Longrightarrow> status_code e = Some st"
  by (induction env st n cs bad acc rule: read_chunks.induct) (auto simp: status_code_def split: if_splits)

lemma read_response_err:
  assumes "read_response env r = Inl e"
  shows "status_code e = Some (rs_status r)"
proof (cases "is_finite (rs_length r) \<and> js_lt (he_max env) (rs_length r)")
  case False
  then obtain cs bad where b: "rs_body r = Some (cs, bad)" using assms by (auto simp: read_response_def split: option.splits)
  then show ?thesis
    using assms False read_chunks_err [of env "rs_status r" 0 cs bad "[]" e]
    by (cases "read_chunks env (rs_status r) 0 cs bad []") (auto simp: read_response_def Let_def status_code_def split: if_splits option.splits)
qed (use assms in \<open>auto simp: read_response_def status_code_def\<close>)

lemma do_request_auth:
  "(\<exists>e. fst (do_request env m p b w) = Inl e \<and> auth_error e) \<longleftrightarrow> unauthorized w (length (n_sent w))"
proof (cases "n_answers w (length (n_sent w))")
  case (Answer r)
  show ?thesis
  proof (cases "read_response env r")
    case (Inl e)
    then show ?thesis
      using Answer read_response_err [OF Inl] by (simp add: do_request_def send_def unauthorized_def auth_error_def)
  qed (auto simp: Answer do_request_def send_def unauthorized_def auth_error_def is_okay_def http_error_def status_code_def Let_def)
qed (auto simp: do_request_def send_def unauthorized_def auth_error_def status_code_def)

lemma do_request_frame [simp]:
  "n_answers (snd (do_request env m p b w)) = n_answers w"
  "length (n_sent (snd (do_request env m p b w))) = Suc (length (n_sent w))"
  "n_signed (snd (do_request env m p b w)) = n_signed w"
  by (auto simp: do_request_def send_def Let_def split: fetch_answer.split sum.split)

lemma request_loop_retry_settles: "fst (request_loop doit f k (Suc a) prev w) \<noteq> None"
proof (induction k arbitrary: a prev w)
  case (Suc k)
  then show ?case by (auto simp: split: prod.split sum.split)
qed simp

lemma request_loop_None:
  "fst (request_loop doit (Some f) k 0 prev w) = None \<longleftrightarrow>
     0 < k \<and> (\<exists>e. fst (doit w) = Inl e \<and> auth_error e) \<and> fst (f (snd (doit w))) = None"
  using request_loop_retry_settles [of doit "Some f", unfolded not_None_eq]
  by (cases k) (auto split: prod.split sum.split option.split)

lemma client_request_None:
  "fst (client_request env (Some f) m p b w) = None \<longleftrightarrow>
     0 < he_retries env \<and> unauthorized w (length (n_sent w)) \<and> fst (f (snd (do_request env m p b w))) = None"
  by (simp add: client_request_def request_loop_None do_request_auth)

lemma getConsentChallenge_None:
  "fst (getConsentChallenge env (Some login_in_flight) w) = None \<longleftrightarrow> 0 < he_retries env \<and> unauthorized w (length (n_sent w))"
  by (auto simp: getConsentChallenge_def bind_run_None client_request_None login_in_flight_def)

lemma login_None:
  "fst (login env c w) = None \<longleftrightarrow> login_ready c \<and> 0 < he_retries env \<and> unauthorized w (length (n_sent w))"
  by (auto simp: login_def login_ready_def bind_run_None getConsentChallenge_None answer_challenge_def send_def split: option.split)

lemma unauthorized_cong: "n_answers w = n_answers w' \<Longrightarrow> unauthorized w k = unauthorized w' k"
  by (simp add: unauthorized_def)


section \<open>How many requests are sent\<close>

definition sends_at_most :: "nat \<Rightarrow> net \<Rightarrow> net \<Rightarrow> bool" where
  "sends_at_most k w w' = (length (n_sent w') \<le> length (n_sent w) + k)"

lemma sends_trans: "sends_at_most j w w' \<Longrightarrow> sends_at_most k w' w'' \<Longrightarrow> sends_at_most (j + k) w w''"
  by (simp add: sends_at_most_def)

lemma sends_frame [simp]:
  "sends_at_most k w (w'\<lparr>n_slept := x\<rparr>) = sends_at_most k w w'" "sends_at_most k (w\<lparr>n_slept := x\<rparr>) w' = sends_at_most k w w'"
  "sends_at_most k w w"
  by (simp_all add: sends_at_most_def)

lemma request_retry_sends:
  assumes "\<And>w. sends_at_most 1 w (snd (doit w))"
  shows "sends_at_most k w (snd (request_loop doit f k (Suc a) prev w))"
proof (induction k arbitrary: a prev w)
  case (Suc k)
  obtain x w1 where d: "doit w = (x, w1)" by (cases "doit w")
  then have "sends_at_most 1 w w1" using assms [of w] by simp
  then have "sends_at_most (Suc k) w (snd (request_loop doit f k (Suc (Suc a)) e (w1\<lparr>n_slept := y\<rparr>)))" "sends_at_most (Suc k) w w1" for e y
    using sends_trans [OF _ Suc.IH, of 1 w "w1\<lparr>n_slept := y\<rparr>" "Suc a" e] by (simp_all add: sends_at_most_def)
  then show ?case by (simp add: d split: sum.split)
qed simp

lemma request_loop_sends:
  assumes "\<And>w. sends_at_most 1 w (snd (doit w))" "\<And>w. sends_at_most j w (snd (f w))"
  shows "sends_at_most (k + j) w (snd (request_loop doit (Some f) k 0 prev w))"
proof (cases k)
  case (Suc n)
  obtain x w1 where d: "doit w = (x, w1)" by (cases "doit w")
  obtain y w2 where f: "f w1 = (y, w2)" by (cases "f w1")
  have 1: "sends_at_most 1 w w1" using assms(1) [of w] d by simp
  have 2: "sends_at_most (1 + j) w w2" using sends_trans [OF 1, of j w2] assms(2) [of w1] f by simp
  have "sends_at_most (k + j) w (snd (request_loop doit (Some f) n (Suc 0) e w2))" for e
    using sends_trans [OF 2 request_retry_sends [OF assms(1)], of n "Some f" 0 e] Suc by (simp add: add.commute)
  moreover have "sends_at_most (k + j) w (snd (request_loop doit (Some f) n (Suc 0) e (w1\<lparr>n_slept := z\<rparr>)))" for e z
    using sends_trans [OF _ request_retry_sends [OF assms(1)], of 1 w "w1\<lparr>n_slept := z\<rparr>" n "Some f" 0 e] 1 Suc
    by (simp add: sends_at_most_def)
  moreover have "sends_at_most (k + j) w w1" "sends_at_most (k + j) w w2" using 1 2 Suc by (simp_all add: sends_at_most_def)
  ultimately show ?thesis by (simp add: Suc d f split: sum.split option.split)
qed simp

lemma do_request_sends: "sends_at_most 1 w (snd (do_request env m p b w))"
  by (simp add: sends_at_most_def)

lemma client_request_sends:
  "(\<And>w. sends_at_most j w (snd (f w))) \<Longrightarrow> sends_at_most (he_retries env + j) w (snd (client_request env (Some f) m p b w))"
  unfolding client_request_def by (rule request_loop_sends [OF do_request_sends])

lemma bind_run_cases:
  obtains (never) "bind_run x f = (None, snd x)" | (failed) e where "bind_run x f = throws e (snd x)"
  | (ran) a where "fst x = Some (Inr a)" "bind_run x f = f a (snd x)"
proof (cases "fst x")
  case None
  then show ?thesis using never by (simp add: bind_run_def)
next
  case (Some r)
  then show ?thesis using failed ran by (cases r) (simp_all add: bind_run_def)
qed

lemma bind_run_sends:
  "sends_at_most j w (snd x) \<Longrightarrow> (\<And>a. sends_at_most k (snd x) (snd (f a (snd x)))) \<Longrightarrow> sends_at_most (j + k) w (snd (bind_run x f))"
proof (rule bind_run_cases [of x f])
  fix a
  assume j: "sends_at_most j w (snd x)" and k: "\<And>a. sends_at_most k (snd x) (snd (f a (snd x)))" and r: "bind_run x f = f a (snd x)"
  show ?thesis unfolding r by (rule sends_trans [OF j k])
qed (simp_all add: sends_at_most_def)

lemma setSessionToken_frame [simp]: "n_sent (snd (setSessionToken t w)) = n_sent w" "n_signed (snd (setSessionToken t w)) = n_signed w"
  by (simp_all add: setSessionToken_def)

lemma take_session_frame [simp]: "n_sent (snd (take_session env a w)) = n_sent w" "n_signed (snd (take_session env a w)) = n_signed w"
  by (auto simp: take_session_def split: fetch_answer.split option.split)

lemma sign_with_frame [simp]: "n_sent (snd (sign_with env m w)) = n_sent w" "n_token (snd (sign_with env m w)) = n_token w"
  "n_signed (snd (sign_with env m w)) = n_signed w @ [m]"
  by (simp_all add: sign_with_def Let_def split: sum.split)

lemma challenge_sends: "sends_at_most (he_retries env) w (snd (getConsentChallenge env (Some login_in_flight) w))"
proof -
  have "sends_at_most (he_retries env + 0) w (snd (client_request env (Some login_in_flight) ''GET'' CHALLENGE_PATH JUndef w))"
    by (rule client_request_sends) (simp add: login_in_flight_def)
  then have "sends_at_most (he_retries env + 0 + 0) w (snd (getConsentChallenge env (Some login_in_flight) w))"
    unfolding getConsentChallenge_def by (rule bind_run_sends) simp
  then show ?thesis by simp
qed

lemma answer_sends: "sends_at_most 1 w (snd (answer_challenge env c ch w))"
proof -
  have "sends_at_most (0 + 1) w (snd (answer_challenge env c ch w))"
    unfolding answer_challenge_def by (rule bind_run_sends) (simp_all add: sends_at_most_def send_def)
  then show ?thesis by simp
qed

lemma login_sends: "sends_at_most (he_retries env + 1) w (snd (login env c w))"
proof -
  have e: "sends_at_most 1 w1 (snd (case check_challenge env ch of Some e \<Rightarrow> throws e w1 | None \<Rightarrow> answer_challenge env c ch w1))" for ch w1
    using answer_sends [of w1 env c ch] by (simp add: sends_at_most_def split: option.split)
  have "sends_at_most (he_retries env + 1) w (snd (bind_run (getConsentChallenge env (Some login_in_flight) w)
      (\<lambda>ch w1. case check_challenge env ch of Some e \<Rightarrow> throws e w1 | None \<Rightarrow> answer_challenge env c ch w1)))"
    by (rule bind_run_sends [OF challenge_sends]) (rule e)
  then show ?thesis by (simp add: login_def sends_at_most_def)
qed

text \<open>A request of the agent sends at most as many as two rounds of retries and one answer to a challenge.\<close>

lemma agent_request_sends: "sends_at_most (2 * he_retries env + 1) w (snd (agent_request env c m p b w))"
  using client_request_sends [OF login_sends [of env _ c], of env w m p b] by (simp add: agent_request_def mult_2)

section \<open>What a server cannot make the agent do\<close>

definition safe_net :: "net \<Rightarrow> bool" where
  "safe_net w = ((\<forall>t. n_token w = Some t \<longrightarrow> token_clean t) \<and> (\<forall>m \<in> set (n_signed w). length m = 64 \<and> list_all is_hex m)
     \<and> (\<forall>l \<in> set (n_sent w). \<forall>t. rl_cookie l = Some t \<longrightarrow> token_clean t))"

lemma safe_net_frame [simp]: "safe_net (w\<lparr>n_slept := x\<rparr>) = safe_net w" "safe_net w \<Longrightarrow> safe_net (w\<lparr>n_token := None\<rparr>)"
  by (simp_all add: safe_net_def)

lemma safe_send: "safe_net w \<Longrightarrow> (\<And>t. rl_cookie l = Some t \<Longrightarrow> token_clean t) \<Longrightarrow> safe_net (snd (send l w))"
  by (auto simp: safe_net_def send_def)

lemma safe_do_request:
  assumes "safe_net w"
  shows "safe_net (snd (do_request env m p b w))"
proof -
  have "safe_net (snd (send \<lparr>rl_method = m, rl_path = p, rl_cookie = truthy_token (n_token w), rl_body = (if jtruthy b then Some b else None)\<rparr> w))"
    using assms by (intro safe_send) (auto simp: safe_net_def truthy_token_def split: if_splits)
  then show ?thesis by (auto simp: do_request_def Let_def split: prod.split fetch_answer.split sum.split)
qed

lemma safe_request_loop:
  assumes "\<And>w. safe_net w \<Longrightarrow> safe_net (snd (doit w))" "\<And>w g. f = Some g \<Longrightarrow> safe_net w \<Longrightarrow> safe_net (snd (g w))"
  shows "safe_net w \<Longrightarrow> safe_net (snd (request_loop doit f k a prev w))"
proof (induction k arbitrary: a prev w)
  case (Suc k)
  obtain x w1 where d: "doit w = (x, w1)" by (cases "doit w")
  have 1: "safe_net w1" using assms(1) [OF Suc.prems] d by simp
  have 2: "safe_net w2" if "f = Some g" "g w1 = (y, w2)" for g y w2 using assms(2) [OF that(1) 1] that(2) by simp
  show ?case using 1 2 Suc.IH by (auto simp: d split: sum.split option.split prod.split)
qed simp

lemma safe_bind: "safe_net (snd x) \<Longrightarrow> (\<And>a. fst x = Some (Inr a) \<Longrightarrow> safe_net (snd (f a (snd x)))) \<Longrightarrow> safe_net (snd (bind_run x f))"
  by (rule bind_run_cases [of x f]) auto

lemma safe_client_request:
  "(\<And>w. safe_net w \<Longrightarrow> safe_net (snd (f w))) \<Longrightarrow> safe_net w \<Longrightarrow> safe_net (snd (client_request env (Some f) m p b w))"
  unfolding client_request_def by (rule safe_request_loop) (auto simp: safe_do_request)

lemma safe_challenge: "safe_net w \<Longrightarrow> safe_net (snd (getConsentChallenge env (Some login_in_flight) w))"
  unfolding getConsentChallenge_def by (rule safe_bind) (auto simp: login_in_flight_def intro!: safe_client_request)

lemma safe_take_session: "safe_net w \<Longrightarrow> safe_net (snd (take_session env a w))"
  by (auto simp: take_session_def setSessionToken_def safe_net_def split: fetch_answer.split option.split)

lemma check_challenge_hash: "check_challenge env ch = None \<Longrightarrow> length (str_of (jget ch ''challengeHash'')) = 64 \<and> list_all is_hex (str_of (jget ch ''challengeHash''))"
  by (auto simp: check_challenge_def check_hash_def assertConsentChallengeHash_def Let_def split: if_splits sum.splits)

lemma safe_answer:
  assumes "safe_net w" "check_challenge env ch = None"
  shows "safe_net (snd (answer_challenge env c ch w))"
proof -
  let ?h = "str_of (jget ch ''challengeHash'')"
  have "safe_net (snd (sign_with env ?h w))"
    using assms(1) check_challenge_hash [OF assms(2)] by (auto simp: safe_net_def)
  then show ?thesis
    by (auto simp: answer_challenge_def split_beta verify_line_def intro!: safe_bind safe_take_session safe_send)
qed

lemma safe_login: "safe_net w \<Longrightarrow> safe_net (snd (login env c w))"
  by (auto simp: login_def safe_challenge safe_answer split: option.split intro!: safe_bind)

lemma safe_agent_request: "safe_net w \<Longrightarrow> safe_net (snd (agent_request env c m p b w))"
  unfolding agent_request_def by (rule safe_client_request) (rule safe_login)

definition request_step :: "http_env \<Rightarrow> login_cfg \<Rightarrow> net \<Rightarrow> string \<times> string \<times> jv \<Rightarrow> net" where
  "request_step env c w x = snd (agent_request env c (fst x) (fst (snd x)) (snd (snd x)) w)"

interpretation session: invariant_machine "request_step env c" safe_net for env c
  by unfold_locales (simp add: request_step_def safe_agent_request)

text \<open>
  C16. Over any requests, whatever is answered: everything the agent signs to log in is a string of 64 hexadecimal digits,
  and no session token with a control character is ever kept or sent in a header.
\<close>

theorem server_cannot_misuse:
  assumes "n_token w = None" "n_signed w = []" "n_sent w = []" and "w' = foldl (request_step env c) w xs"
  shows "(\<forall>m \<in> set (n_signed w'). length m = 64 \<and> list_all is_hex m)
    \<and> (\<forall>l \<in> set (n_sent w'). \<forall>t. rl_cookie l = Some t \<longrightarrow> token_clean t) \<and> (\<forall>t. n_token w' = Some t \<longrightarrow> token_clean t)"
  using session.run_inv [of w env c xs] assms by (simp add: safe_net_def)

text \<open>A server: the challenge, then a session cookie, then data.\<close>

definition demo_reply :: "nat \<Rightarrow> string \<Rightarrow> string option \<Rightarrow> fetch_answer" where
  "demo_reply st body cookie = Answer \<lparr>rs_status = st, rs_text = [], rs_length = NaN, rs_body = Some ([body], False), rs_cookie = cookie\<rparr>"

definition demo_http :: http_env where
  "demo_http = \<lparr>he_decode = concat, he_parse = (\<lambda>t. if t = ''challenge''
       then Some (JObj [(''data'', JObj [(''challengeId'', JStr ''c''), (''challengeHash'', JStr (replicate 64 CHR ''a''))])])
       else Some (JObj [(''data'', JStr t)])), he_max = num_int 1000, he_now = 0, he_date = (\<lambda>_. NaN), he_nfkc = (\<lambda>u. u),
     he_sign = (\<lambda>m. Inr ''sig''), he_retries = 3\<rparr>"

definition demo_login :: login_cfg where
  "demo_login = \<lparr>lc_wif = Some ''w'', lc_signer = False, lc_name = Some ''a@''\<rparr>"

definition demo_net :: net where
  "demo_net = \<lparr>n_token = None, n_answers = (\<lambda>k. if k = 0 then demo_reply 401 [] None else if k = 1 then demo_reply 200 ''challenge'' None
      else if k = 2 then demo_reply 200 [] (Some ''verus_session=abc; Path=/'') else demo_reply 200 ''x'' None),
    n_sent = [], n_slept = [], n_signed = []\<rparr>"

lemma server_cannot_misuse_witness:
  "list_all (\<lambda>m. length m = 64 \<and> list_all is_hex m) (n_signed (foldl (request_step demo_http demo_login) demo_net [(''GET'', ''/v1/me'', JUndef)]))"
  using server_cannot_misuse [of demo_net _ demo_http demo_login "[(''GET'', ''/v1/me'', JUndef)]"]
  unfolding list_all_iff by (simp add: demo_net_def)

section \<open>The keys of an identity\<close>

record keys_env =
  ke_base :: string
  ke_network :: "string option"
  ke_pin :: "string option"
  ke_encode :: "string \<Rightarrow> string"
  ke_canonicalize :: "jv \<Rightarrow> string"
  ke_verify :: "string \<Rightarrow> string \<Rightarrow> string \<Rightarrow> (string, bool) result"

text \<open>\<open>/^https:\/\/(api\.)?junction41\.(io|com|net)/i\<close>, or the environment says so.\<close>

definition looksLikeMainnet :: "keys_env \<Rightarrow> bool" where
  "looksLikeMainnet k =
     ((\<exists>h \<in> set [''https://'', ''https://api.'']. \<exists>t \<in> set [''io'', ''com'', ''net'']. starts_with (to_lower (ke_base k)) (h @ ''junction41.'' @ t))
      \<or> ke_network k = Some ''verus'')"

definition without :: "string \<Rightarrow> jv \<Rightarrow> jv" where
  "without f d = JObj (filter (\<lambda>p. fst p \<noteq> f) (props_of d))"

definition check_pinned :: "keys_env \<Rightarrow> string \<Rightarrow> jv \<Rightarrow> api_error option" where
  "check_pinned k pin d =
     (let sg = jget d ''platformSignature'' in
      if nullish d then Some TypeFault
      else if \<not> is_string sg \<or> str_of sg = [] then Some KeysUnsigned
      else case ke_verify k (ke_canonicalize k (without ''platformSignature'' d)) pin (str_of sg) of
        Inl e \<Rightarrow> Some (VerifyFault e) | Inr ok \<Rightarrow> if ok then None else Some KeysBadSignature)"

definition getIdentityKeys :: "keys_env \<Rightarrow> http_env \<Rightarrow> (net \<Rightarrow> unit run) option \<Rightarrow> string \<Rightarrow> net \<Rightarrow> jv run" where
  "getIdentityKeys k env reauth i w =
     (let pin = truthy_token (ke_pin k) in
      if looksLikeMainnet k \<and> pin = None then throws SignerRequired w
      else bind_run (client_request env reauth ''GET'' (''/v1/identity/'' @ ke_encode k i @ ''/keys'') JUndef w) (\<lambda>res w1.
        if nullish res then throws TypeFault w1
        else let d = jget res ''data'' in
        case pin of
          None \<Rightarrow> returns d w1
        | Some p \<Rightarrow> (case check_pinned k p d of Some e \<Rightarrow> throws e w1 | None \<Rightarrow> returns d w1)))"

lemma check_pinned_None:
  "check_pinned k p d = None \<Longrightarrow> \<exists>sg. jget d ''platformSignature'' = JStr sg \<and> sg \<noteq> []
     \<and> ke_verify k (ke_canonicalize k (without ''platformSignature'' d)) p sg = Inr True"
  by (auto simp: check_pinned_def Let_def is_string_iff split: if_splits sum.splits)

text \<open>
  With a pinned platform signer, the keys that are returned carry its signature over everything else that is returned;
  on mainnet nothing is returned, and nothing is even requested, unless a signer is pinned.
\<close>

theorem keys_pinned:
  assumes "fst (getIdentityKeys k env reauth i w) = Some (Inr d)"
  shows "(\<forall>p. ke_pin k = Some p \<and> p \<noteq> [] \<longrightarrow> (\<exists>sg. jget d ''platformSignature'' = JStr sg \<and> sg \<noteq> []
            \<and> ke_verify k (ke_canonicalize k (without ''platformSignature'' d)) p sg = Inr True))
    \<and> (looksLikeMainnet k \<longrightarrow> (\<exists>p. ke_pin k = Some p \<and> p \<noteq> []))
    \<and> (looksLikeMainnet k \<longrightarrow> n_sent (snd (getIdentityKeys (k\<lparr>ke_pin := None\<rparr>) env reauth i w)) = n_sent w)"
proof (intro conjI allI impI)
  fix p assume p: "ke_pin k = Some p \<and> p \<noteq> []"
  let ?r = "client_request env reauth ''GET'' (''/v1/identity/'' @ ke_encode k i @ ''/keys'') JUndef w"
  show "\<exists>sg. jget d ''platformSignature'' = JStr sg \<and> sg \<noteq> [] \<and> ke_verify k (ke_canonicalize k (without ''platformSignature'' d)) p sg = Inr True"
    using assms p
    by (cases rule: bind_run_cases [of ?r])
      (auto simp: getIdentityKeys_def truthy_token_def bind_run_def Let_def dest!: check_pinned_None split: option.splits sum.splits if_splits)
next
  assume m: "looksLikeMainnet k"
  then show "\<exists>p. ke_pin k = Some p \<and> p \<noteq> []"
    using assms by (auto simp: getIdentityKeys_def truthy_token_def Let_def split: if_splits)
  show "n_sent (snd (getIdentityKeys (k\<lparr>ke_pin := None\<rparr>) env reauth i w)) = n_sent w"
    using m by (simp add: getIdentityKeys_def truthy_token_def looksLikeMainnet_def)
qed

definition demo_keys :: keys_env where
  "demo_keys = \<lparr>ke_base = ''https://api.junction41.io'', ke_network = None, ke_pin = Some ''Rplatform'', ke_encode = (\<lambda>s. s),
     ke_canonicalize = (\<lambda>v. str_of (jget v ''name'')), ke_verify = (\<lambda>m a sg. Inr (m = ''a@'' \<and> a = ''Rplatform'' \<and> sg = ''s''))\<rparr>"

definition demo_keys_data :: jv where
  "demo_keys_data = JObj [(''name'', JStr ''a@''), (''platformSignature'', JStr ''s'')]"

definition demo_keys_http :: http_env where
  "demo_keys_http = demo_http\<lparr>he_parse := (\<lambda>t. Some (JObj [(''data'', demo_keys_data)]))\<rparr>"

lemma keys_pinned_witness:
  "fst (getIdentityKeys demo_keys demo_keys_http None ''a@'' (demo_net\<lparr>n_answers := (\<lambda>_. demo_reply 200 ''k'' None)\<rparr>)) = Some (Inr demo_keys_data)
    \<and> (\<exists>sg. jget demo_keys_data ''platformSignature'' = JStr sg \<and> sg \<noteq> []
        \<and> ke_verify demo_keys (ke_canonicalize demo_keys (without ''platformSignature'' demo_keys_data)) ''Rplatform'' sg = Inr True)"
proof -
  have a: "fst (getIdentityKeys demo_keys demo_keys_http None ''a@'' (demo_net\<lparr>n_answers := (\<lambda>_. demo_reply 200 ''k'' None)\<rparr>)) = Some (Inr demo_keys_data)"
    by code_simp
  then show ?thesis using keys_pinned [OF a] by (simp add: demo_keys_def)
qed

section \<open>Login and onboarding without an agent\<close>

definition take_auth :: "http_env \<Rightarrow> fetch_answer \<Rightarrow> net \<Rightarrow> string run" where
  "take_auth env a w = (case a of
       Aborted \<Rightarrow> throws AuthTimeout w
     | NetworkError \<Rightarrow> throws Network w
     | Answer r \<Rightarrow>
         if \<not> is_okay r then throws (AuthFailed (error_text env r) (rs_status r)) w
         else (case Option.bind (rs_cookie r) cookie_match of
             None \<Rightarrow> throws NoSession w
           | Some t \<Rightarrow> bind_run (setSessionToken t w) (\<lambda>_. returns t)))"

definition authenticateWithWIF :: "http_env \<Rightarrow> (net \<Rightarrow> unit run) option \<Rightarrow> string \<Rightarrow> net \<Rightarrow> string run" where
  "authenticateWithWIF env reauth verusId w = bind_run (getConsentChallenge env reauth w) (\<lambda>ch w1.
     case check_hash env ch of
       Some e \<Rightarrow> throws e w1
     | None \<Rightarrow> bind_run (sign_with env (str_of (jget ch ''challengeHash'')) w1) (\<lambda>sg w2.
         let (a, w3) = send (verify_line \<lparr>lc_wif = None, lc_signer = False, lc_name = Some verusId\<rparr> ch sg) w2 in take_auth env a w3))"

text \<open>\<open>pollOnboardStatus\<close>: \<open>poll_onboard get ms k i\<close> has \<open>k\<close> attempts left and made \<open>i\<close>.\<close>

fun poll_onboard :: "(net \<Rightarrow> jv run) \<Rightarrow> nat \<Rightarrow> nat \<Rightarrow> nat \<Rightarrow> net \<Rightarrow> jv run" where
  "poll_onboard get ms 0 i w = throws OnboardTimeout w"
| "poll_onboard get ms (Suc k) i w =
     bind_run (get (if i > 0 then w\<lparr>n_slept := n_slept w @ [ms]\<rparr> else w)) (\<lambda>st w1.
       if nullish st then throws TypeFault w1
       else if jget st ''status'' = JStr ''registered'' then returns st w1
       else if jget st ''status'' = JStr ''failed'' then throws (OnboardFailed (or_else (jget st ''error'') (JStr ''Registration failed''))) w1
       else poll_onboard get ms k (Suc i) w1)"

record keypair =
  kp_address :: string
  kp_pubkey :: string

definition onboard_body :: "string \<Rightarrow> keypair \<Rightarrow> string \<Rightarrow> (jv \<times> jv \<times> string) option \<Rightarrow> jv" where
  "onboard_body name kp kind signed = JObj ([(''name'', JStr name), (''address'', JStr (kp_address kp)), (''pubkey'', JStr (kp_pubkey kp))]
     @ (case signed of None \<Rightarrow> [] | Some (ch, token, sg) \<Rightarrow> [(''challenge'', ch), (''token'', token), (''signature'', JStr sg)])
     @ [(''kind'', JStr kind)])"

definition check_onboard_challenge :: "http_env \<Rightarrow> jv \<Rightarrow> api_error option" where
  "check_onboard_challenge env v =
     (if \<not> is_string v then Some TypeFault
      else case assertNotProtocolMessage (he_nfkc env) (units_of (str_of v)) of Inl e \<Rightarrow> Some (Refused e) | Inr _ \<Rightarrow> None)"

definition onboardStatus :: "http_env \<Rightarrow> (net \<Rightarrow> unit run) option \<Rightarrow> (jv \<Rightarrow> string) \<Rightarrow> jv \<Rightarrow> net \<Rightarrow> jv run" where
  "onboardStatus env reauth encode i w = client_request env reauth ''GET'' (''/v1/onboard/status/'' @ encode i) JUndef w"

definition registerIdentity ::
  "http_env \<Rightarrow> (net \<Rightarrow> unit run) option \<Rightarrow> (jv \<Rightarrow> string) \<Rightarrow> string \<Rightarrow> keypair \<Rightarrow> string \<Rightarrow> net \<Rightarrow> jv run" where
  "registerIdentity env reauth encode name kp identityAddress w =
     (if kp_address kp \<noteq> identityAddress then throws (AddressMismatch (kp_address kp)) w
      else bind_run (client_request env reauth ''POST'' ''/v1/onboard'' (onboard_body name kp ''agent'' None) w) (\<lambda>ch w1.
        if nullish ch then throws TypeFault w1
        else if \<not> jtruthy (jget ch ''challenge'') \<or> \<not> jtruthy (jget ch ''token'') then throws BadChallenge w1
        else case check_onboard_challenge env (jget ch ''challenge'') of
          Some e \<Rightarrow> throws e w1
        | None \<Rightarrow> bind_run (sign_with env (str_of (jget ch ''challenge'')) w1) (\<lambda>sg w2.
            bind_run (client_request env reauth ''POST'' ''/v1/onboard''
                (onboard_body name kp ''agent'' (Some (jget ch ''challenge'', jget ch ''token'', sg))) w2) (\<lambda>r w3.
              if nullish r then throws TypeFault w3
              else if \<not> jtruthy (jget r ''onboardId'') then throws NoOnboardId w3
              else poll_onboard (onboardStatus env reauth encode (jget r ''onboardId'')) 10000 30 0 w3))))"

lemma poll_onboard_registered: "fst (poll_onboard get ms k i w) = Some (Inr st) \<Longrightarrow> jget st ''status'' = JStr ''registered''"
proof (induction get ms k i w rule: poll_onboard.induct)
  case (2 get ms k i w)
  then show ?case
    by (cases rule: bind_run_cases [of "get (if i > 0 then w\<lparr>n_slept := n_slept w @ [ms]\<rparr> else w)"])
      (auto simp: bind_run_def split: option.splits sum.splits if_splits)
qed simp

text \<open>An identity that is returned is registered, and it was asked for by its own address: an i-address is always refused.\<close>

lemma registerIdentity_registered:
  assumes "fst (registerIdentity env reauth encode name kp identityAddress w) = Some (Inr st)"
  shows "jget st ''status'' = JStr ''registered'' \<and> identityAddress = kp_address kp"
  using assms
  by (auto simp: registerIdentity_def bind_run_def split: option.splits sum.splits if_splits dest!: poll_onboard_registered)

end
