(* ===== verification/Urls.thy ===== *)
theory Urls
  imports JsText
begin

text \<open>
  The library functions a request's address is made with, \<open>encodeURIComponent\<close> and \<open>URLSearchParams\<close>, and the reading of the
  address: \<open>fetch\<close> removes dot segments, the server decodes what is between the separators. Strings are of code units below
  256, so no surrogate makes \<open>encodeURIComponent\<close> throw.
\<close>

section \<open>Percent encoding\<close>

definition hex_digit :: "nat \<Rightarrow> char" where
  "hex_digit d = char_of (if d < 10 then 48 + d else 55 + d)"

definition hex_val :: "char \<Rightarrow> nat" where
  "hex_val c = (let u = of_char c in if u < 58 then u - 48 else if u < 71 then u - 55 else u - 87)"

definition pct :: "nat \<Rightarrow> string" where
  "pct n = [CHR ''%'', hex_digit (n div 16), hex_digit (n mod 16)]"

definition utf8 :: "char \<Rightarrow> nat list" where
  "utf8 c = (let u = of_char c in if u < 128 then [u] else [192 + u div 64, 128 + u mod 64])"

definition uri_plain :: "char \<Rightarrow> bool" where
  "uri_plain c = (is_digit c \<or> is_lower c \<or> is_upper c \<or> c \<in> set ''-_.!~*()'' \<or> (of_char c :: nat) = 39)"

definition form_plain :: "char \<Rightarrow> bool" where
  "form_plain c = (is_digit c \<or> is_lower c \<or> is_upper c \<or> c \<in> set ''*-._'')"

definition enc_char :: "(char \<Rightarrow> bool) \<Rightarrow> char \<Rightarrow> string" where
  "enc_char plain c = (if plain c then [c] else concat (map pct (utf8 c)))"

definition encodeURIComponent :: "string \<Rightarrow> string" where
  "encodeURIComponent s = concat (map (enc_char uri_plain) s)"

definition form_char :: "char \<Rightarrow> string" where
  "form_char c = (if c = CHR '' '' then ''+'' else enc_char form_plain c)"

definition form_encode :: "string \<Rightarrow> string" where
  "form_encode s = concat (map form_char s)"

section \<open>Decoding\<close>

fun pdecode :: "string \<Rightarrow> nat list" where
  "pdecode (a # b # c # s) =
     (if a = CHR ''%'' \<and> is_hex b \<and> is_hex c then (16 * hex_val b + hex_val c) # pdecode s else of_char a # pdecode (b # c # s))"
| "pdecode s = map of_char s"

fun from_utf8 :: "nat list \<Rightarrow> string" where
  "from_utf8 (b # c # s) =
     (if 192 \<le> b \<and> b < 224 then char_of ((b - 192) * 64 + (c - 128)) # from_utf8 s else char_of b # from_utf8 (c # s))"
| "from_utf8 s = map char_of s"

definition decodeURIComponent :: "string \<Rightarrow> string" where
  "decodeURIComponent s = from_utf8 (pdecode s)"

definition unplus :: "string \<Rightarrow> string" where
  "unplus s = map (\<lambda>c. if c = CHR ''+'' then CHR '' '' else c) s"

definition form_decode :: "string \<Rightarrow> string" where
  "form_decode s = decodeURIComponent (unplus s)"

lemma of_char_bound [simp]: "(of_char c :: nat) < 256"
  by simp

lemma hex_digit_val: "d < 16 \<Longrightarrow> hex_val (hex_digit d) = d \<and> is_hex (hex_digit d)"
  by (auto simp: hex_val_def hex_digit_def is_hex_def is_digit_def Let_def)

lemma pdecode_plain: "c \<noteq> CHR ''%'' \<Longrightarrow> pdecode (c # t) = of_char c # pdecode t"
  by (cases t; cases "tl t") auto

lemma pdecode_pct: "n < 256 \<Longrightarrow> pdecode (pct n @ t) = n # pdecode t"
  using hex_digit_val [of "n div 16"] hex_digit_val [of "n mod 16"] by (simp add: pct_def)

lemma utf8_bytes: "b \<in> set (utf8 c) \<Longrightarrow> b < 256"
proof -
  have "(of_char c :: nat) div 64 < 4" using of_char_bound [of c] by linarith
  then show "b \<in> set (utf8 c) \<Longrightarrow> b < 256" by (auto simp: utf8_def Let_def split: if_splits)
qed

lemma pdecode_pcts: "\<forall>b \<in> set bs. b < 256 \<Longrightarrow> pdecode (concat (map pct bs) @ t) = bs @ pdecode t"
  by (induction bs) (auto simp: pdecode_pct)

text \<open>A class of characters that are left alone: ASCII, and not the percent sign.\<close>

definition plain_class :: "(char \<Rightarrow> bool) \<Rightarrow> bool" where
  "plain_class P = (\<forall>c. P c \<longrightarrow> (of_char c :: nat) < 128 \<and> c \<noteq> CHR ''%'')"

lemma plain_classes: "plain_class uri_plain" "plain_class form_plain"
  by (auto simp: plain_class_def uri_plain_def form_plain_def is_digit_def is_lower_def is_upper_def)

lemma pdecode_enc_char: "plain_class P \<Longrightarrow> pdecode (enc_char P c @ t) = utf8 c @ pdecode t"
  using pdecode_pcts [of "utf8 c" t] utf8_bytes [of _ c]
  by (auto simp: enc_char_def plain_class_def pdecode_plain utf8_def Let_def)

lemma from_utf8_utf8: "from_utf8 (utf8 c @ t) = c # from_utf8 t"
proof (cases "(of_char c :: nat) < 128")
  case True
  then show ?thesis by (cases t) (simp_all add: utf8_def)
next
  case False
  have "(of_char c :: nat) div 64 * 64 + of_char c mod 64 = of_char c" by (rule div_mult_mod_eq)
  moreover have "(of_char c :: nat) div 64 < 32" using of_char_bound [of c] by linarith
  ultimately show ?thesis using False by (simp add: utf8_def Let_def)
qed

lemma decode_encode_append:
  "plain_class P \<Longrightarrow> from_utf8 (pdecode (concat (map (enc_char P) s) @ t)) = s @ from_utf8 (pdecode t)"
  by (induction s) (simp_all add: pdecode_enc_char from_utf8_utf8)

lemma decode_encode [simp]: "decodeURIComponent (encodeURIComponent s) = s"
  using decode_encode_append [OF plain_classes(1), of s "[]"] by (simp add: decodeURIComponent_def encodeURIComponent_def)

lemma hex_digit_chars: "d < 16 \<Longrightarrow> is_digit (hex_digit d) \<or> is_upper (hex_digit d)"
  by (auto simp: hex_digit_def is_digit_def is_upper_def)

lemma pct_chars: "n < 256 \<Longrightarrow> x \<in> set (pct n) \<Longrightarrow> x = CHR ''%'' \<or> is_digit x \<or> is_upper x"
  using hex_digit_chars [of "n div 16"] hex_digit_chars [of "n mod 16"] by (auto simp: pct_def)

lemma enc_char_chars: "x \<in> set (enc_char P c) \<Longrightarrow> (P c \<and> x = c) \<or> x = CHR ''%'' \<or> is_digit x \<or> is_upper x"
  using pct_chars utf8_bytes [of _ c] by (auto simp: enc_char_def split: if_splits)

lemma encode_chars: "x \<in> set (encodeURIComponent s) \<Longrightarrow> uri_plain x \<or> x = CHR ''%''"
  using enc_char_chars [of x uri_plain] by (fastforce simp: encodeURIComponent_def uri_plain_def)

lemma unplus_append: "unplus (s @ t) = unplus s @ unplus t"
  by (simp add: unplus_def)

lemma unplus_id: "CHR ''+'' \<notin> set s \<Longrightarrow> unplus s = s"
  by (auto simp: unplus_def intro: map_idI)

lemma enc_form_no_plus: "CHR ''+'' \<notin> set (enc_char form_plain c)"
  using enc_char_chars [of "CHR ''+''" form_plain c] by (auto simp: form_plain_def is_digit_def is_upper_def is_lower_def)

lemma form_decode_char: "from_utf8 (pdecode (unplus (form_char c @ t))) = c # from_utf8 (pdecode (unplus t))"
proof (cases "c = CHR '' ''")
  case True
  then show ?thesis
    using from_utf8_utf8 [of "CHR '' ''"] by (simp add: form_char_def unplus_append) (simp add: unplus_def pdecode_plain utf8_def)
next
  case False
  then show ?thesis
    by (simp add: form_char_def unplus_append unplus_id enc_form_no_plus pdecode_enc_char plain_classes from_utf8_utf8)
qed

lemma form_roundtrip [simp]: "form_decode (form_encode s) = s"
proof -
  have "from_utf8 (pdecode (unplus (concat (map form_char s) @ t))) = s @ from_utf8 (pdecode (unplus t))" for t
    by (induction s) (simp_all add: form_decode_char)
  from this [of "[]"] show ?thesis by (simp add: form_decode_def form_encode_def decodeURIComponent_def unplus_def)
qed

lemma form_chars: "x \<in> set (form_encode s) \<Longrightarrow> form_plain x \<or> x = CHR ''%'' \<or> x = CHR ''+''"
  using enc_char_chars [of x form_plain] by (fastforce simp: form_encode_def form_char_def form_plain_def split: if_splits)

section \<open>Addresses\<close>

text \<open>A segment of a path is a literal, an encoded argument, or an argument put in as it is.\<close>

datatype seg = S string | A string | R string

fun seg_value :: "seg \<Rightarrow> string" where
  "seg_value (S s) = s"
| "seg_value (A s) = s"
| "seg_value (R s) = s"

fun seg_text :: "seg \<Rightarrow> string" where
  "seg_text (A s) = encodeURIComponent s"
| "seg_text x = seg_value x"

text \<open>A query made with \<open>URLSearchParams\<close>, or one \<open>key=value\<close> written into the template.\<close>

datatype query = Params "(string \<times> string) list" | Inline string string

definition pair_text :: "string \<times> string \<Rightarrow> string" where
  "pair_text p = form_encode (fst p) @ CHR ''='' # form_encode (snd p)"

fun query_text :: "query \<Rightarrow> string" where
  "query_text (Params ps) = (if ps = [] then [] else CHR ''?'' # join_with CHR ''&'' (map pair_text ps))"
| "query_text (Inline k v) = CHR ''?'' # k @ CHR ''='' # v"

fun query_value :: "query \<Rightarrow> (string \<times> string) list" where
  "query_value (Params ps) = ps"
| "query_value (Inline k v) = [(k, v)]"

definition path_text :: "seg list \<Rightarrow> string" where
  "path_text path = concat (map (\<lambda>x. CHR ''/'' # seg_text x) path)"

definition url_text :: "seg list \<Rightarrow> query \<Rightarrow> string" where
  "url_text path q = path_text path @ query_text q"

section \<open>How an address is read\<close>

definition cut :: "char \<Rightarrow> string \<Rightarrow> string \<times> string" where
  "cut c s = (takeWhile (\<lambda>x. x \<noteq> c) s, drop 1 (dropWhile (\<lambda>x. x \<noteq> c) s))"

definition is_single_dot :: "string \<Rightarrow> bool" where
  "is_single_dot s = (to_lower s \<in> {''.'', ''%2e''})"

definition is_double_dot :: "string \<Rightarrow> bool" where
  "is_double_dot s = (to_lower s \<in> {''..'', ''.%2e'', ''%2e.'', ''%2e%2e''})"

fun remove_dots :: "string list \<Rightarrow> string list \<Rightarrow> string list" where
  "remove_dots acc [] = rev acc"
| "remove_dots acc (x # xs) =
     (if is_double_dot x then remove_dots (if xs = [] then [] # drop 1 acc else drop 1 acc) xs
      else if is_single_dot x then remove_dots (if xs = [] then [] # acc else acc) xs
      else remove_dots (x # acc) xs)"

definition read_pair :: "string \<Rightarrow> string \<times> string" where
  "read_pair s = (case cut CHR ''='' s of (k, v) \<Rightarrow> (form_decode k, form_decode v))"

definition read_url :: "string \<Rightarrow> string list \<times> (string \<times> string) list" where
  "read_url u = (case cut CHR ''?'' (fst (cut CHR ''#'' u)) of (p, q) \<Rightarrow>
     (map decodeURIComponent (remove_dots [] (drop 1 (split_on CHR ''/'' p))),
      if q = [] then [] else map read_pair (split_on CHR ''&'' q)))"

lemma cut_at: "c \<notin> set a \<Longrightarrow> cut c (a @ c # b) = (a, b)" "c \<notin> set a \<Longrightarrow> cut c a = (a, [])"
proof -
  show "cut c (a @ c # b) = (a, b)" if "c \<notin> set a"
    using that by (induction a) (auto simp: cut_def)
  show "cut c a = (a, [])" if "c \<notin> set a"
    using that by (induction a) (auto simp: cut_def)
qed

text \<open>What a literal segment and a value in the template may hold.\<close>

definition lit_ok :: "string \<Rightarrow> bool" where
  "lit_ok s = (s \<noteq> [] \<and> list_all (\<lambda>c. is_lower c \<or> is_digit c \<or> c = CHR ''-'') s)"

fun seg_ok :: "seg \<Rightarrow> bool" where
  "seg_ok (S s) = lit_ok s"
| "seg_ok (A s) = (s \<noteq> ''.'' \<and> s \<noteq> ''..'')"
| "seg_ok (R s) = False"

fun query_ok :: "query \<Rightarrow> bool" where
  "query_ok (Params ps) = True"
| "query_ok (Inline k v) = (list_all form_plain k \<and> list_all form_plain v)"

lemma plain_separators:
  "uri_plain c \<Longrightarrow> c \<notin> {CHR ''/'', CHR ''?'', CHR ''#'', CHR ''%'', CHR ''&'', CHR ''=''}"
  "form_plain c \<Longrightarrow> c \<notin> {CHR ''/'', CHR ''?'', CHR ''#'', CHR ''%'', CHR ''&'', CHR ''='', CHR ''+''}"
  by (auto simp: uri_plain_def form_plain_def is_digit_def is_lower_def is_upper_def)

lemma decode_id: "CHR ''%'' \<notin> set s \<Longrightarrow> \<forall>c \<in> set s. (of_char c :: nat) < 128 \<Longrightarrow> decodeURIComponent s = s"
proof (induction s)
  case (Cons c s)
  then have "from_utf8 (of_char c # pdecode s) = c # from_utf8 (pdecode s)"
    using from_utf8_utf8 [of c "pdecode s"] by (simp add: utf8_def)
  moreover have "c \<noteq> CHR ''%''" using Cons.prems by auto
  ultimately show ?case using Cons by (simp add: decodeURIComponent_def pdecode_plain)
qed (simp add: decodeURIComponent_def)

lemma char_eq_nat: "c = d \<longleftrightarrow> (of_char c :: nat) = of_char d"
  by simp

lemma lower_nat: "(of_char (to_lower_char c) :: nat) = (if is_upper c then of_char c + 32 else of_char c)"
  by (auto simp: to_lower_char_def is_upper_def)

lemma lower_dot: "to_lower_char c = CHR ''.'' \<longleftrightarrow> c = CHR ''.''" "to_lower_char c = CHR ''%'' \<longleftrightarrow> c = CHR ''%''"
  "to_lower_char c = CHR ''2'' \<longleftrightarrow> c = CHR ''2''" "to_lower_char c = CHR ''e'' \<longleftrightarrow> c = CHR ''e'' \<or> c = CHR ''E''"
  unfolding char_eq_nat [of "to_lower_char c"] char_eq_nat [of c] lower_nat by (auto simp: is_upper_def)

lemma dot_char: "char_of (46 :: nat) = CHR ''.''"
  by code_simp

lemma dot_decodes:
  "is_double_dot t \<Longrightarrow> decodeURIComponent t = ''..''" "is_single_dot t \<Longrightarrow> decodeURIComponent t = ''.''"
  unfolding is_double_dot_def is_single_dot_def to_lower_def
  by (auto simp: map_eq_Cons_conv lower_dot decodeURIComponent_def is_hex_def is_digit_def hex_val_def dot_char)

lemma lit_ok_plain: "lit_ok s \<Longrightarrow> list_all uri_plain s \<and> (\<forall>c \<in> set s. (of_char c :: nat) < 128 \<and> c \<noteq> CHR ''.'' \<and> c \<noteq> CHR ''%'')"
  by (auto simp: lit_ok_def list_all_iff uri_plain_def is_lower_def is_digit_def)

lemma seg_decode: "seg_ok x \<Longrightarrow> decodeURIComponent (seg_text x) = seg_value x"
proof (cases x)
  case (S s)
  assume "seg_ok x"
  then show ?thesis using S lit_ok_plain [of s] decode_id [of s] by auto
qed auto

lemma seg_not_dot: "seg_ok x \<Longrightarrow> \<not> is_double_dot (seg_text x) \<and> \<not> is_single_dot (seg_text x)"
proof (cases x)
  case (S s)
  assume "seg_ok x"
  then have "decodeURIComponent (seg_text x) = s" "CHR ''.'' \<notin> set s" using S seg_decode [of x] lit_ok_plain [of s] by auto
  then show ?thesis using dot_decodes [of "seg_text x"] by auto
qed (use dot_decodes [of "seg_text x"] in auto)

lemma seg_separators: "seg_ok x \<Longrightarrow> c \<in> set (seg_text x) \<Longrightarrow> c \<notin> {CHR ''/'', CHR ''?'', CHR ''#''}"
proof (cases x)
  case (S s)
  assume "seg_ok x" "c \<in> set (seg_text x)"
  then show ?thesis using S lit_ok_plain [of s] plain_separators(1) [of c] by (auto simp: list_all_iff)
next
  case (A s)
  assume "c \<in> set (seg_text x)"
  then show ?thesis using A encode_chars [of c s] plain_separators(1) [of c] by auto
qed simp

lemma remove_no_dots: "list_all seg_ok path \<Longrightarrow> remove_dots acc (map seg_text path) = rev acc @ map seg_text path"
  by (induction path arbitrary: acc) (auto simp: seg_not_dot)

lemma split_path: "path \<noteq> [] \<Longrightarrow> list_all seg_ok path \<Longrightarrow> split_on CHR ''/'' (path_text path) = [] # map seg_text path"
proof -
  have "list_all seg_ok path \<Longrightarrow> split_on CHR ''/'' (a @ path_text path) = a # map seg_text path" if "CHR ''/'' \<notin> set a" for a
    using that
  proof (induction path arbitrary: a)
    case Nil
    then show ?case by (simp add: path_text_def split_single)
  next
    case (Cons x path)
    then have "CHR ''/'' \<notin> set (seg_text x)" using seg_separators [of x] by auto
    then show ?case using Cons by (simp add: path_text_def split_sep)
  qed
  from this [of "[]"] show "path \<noteq> [] \<Longrightarrow> list_all seg_ok path \<Longrightarrow> split_on CHR ''/'' (path_text path) = [] # map seg_text path"
    by simp
qed

lemma path_separators: "list_all seg_ok path \<Longrightarrow> CHR ''?'' \<notin> set (path_text path) \<and> CHR ''#'' \<notin> set (path_text path)"
proof (induction path)
  case (Cons x path)
  then show ?case using seg_separators [of x] by (auto simp: path_text_def)
qed (simp add: path_text_def)

lemma form_no_sep: "CHR ''='' \<notin> set (form_encode s)" "CHR ''&'' \<notin> set (form_encode s)" "CHR ''#'' \<notin> set (form_encode s)"
  using form_chars [of _ s] plain_separators(2) by auto

lemma read_pair_text: "read_pair (pair_text p) = p"
  by (simp add: read_pair_def pair_text_def cut_at form_no_sep)

lemma join_sep: "x \<in> set (join_with c ps) \<Longrightarrow> x = c \<or> (\<exists>p \<in> set ps. x \<in> set p)"
  by (induction c ps rule: join_with.induct) auto

lemma form_plain_decode: "list_all form_plain s \<Longrightarrow> form_decode s = s"
proof -
  assume p: "list_all form_plain s"
  then have "CHR ''+'' \<notin> set s" "CHR ''%'' \<notin> set s" "\<forall>c \<in> set s. (of_char c :: nat) < 128"
    using plain_separators(2) plain_classes(2) by (auto simp: list_all_iff plain_class_def)
  then show "form_decode s = s" by (simp add: form_decode_def unplus_id decode_id)
qed

text \<open>What is read of a query: no fragment is cut off and the pairs come back.\<close>

lemma query_read:
  assumes "query_ok q"
  shows "CHR ''#'' \<notin> set (query_text q)"
    and "query_text q = [] \<and> query_value q = []
      \<or> (\<exists>t. query_text q = CHR ''?'' # t \<and> t \<noteq> [] \<and> map read_pair (split_on CHR ''&'' t) = query_value q)"
proof -
  have pair: "CHR ''#'' \<notin> set (pair_text p)" "CHR ''&'' \<notin> set (pair_text p)" "pair_text p \<noteq> []" for p
    using form_no_sep by (auto simp: pair_text_def)
  show "CHR ''#'' \<notin> set (query_text q)"
  proof (cases q)
    case (Params ps)
    have "CHR ''#'' \<notin> set (join_with CHR ''&'' (map pair_text ps))"
      using pair(1) join_sep [of "CHR ''#''" "CHR ''&''" "map pair_text ps"] by auto
    then show ?thesis using Params by simp
  next
    case (Inline k v)
    then show ?thesis using assms plain_separators(2) [of "CHR ''#''"] by (auto simp: list_all_iff)
  qed
  show "query_text q = [] \<and> query_value q = []
      \<or> (\<exists>t. query_text q = CHR ''?'' # t \<and> t \<noteq> [] \<and> map read_pair (split_on CHR ''&'' t) = query_value q)"
  proof (cases q)
    case (Params ps)
    show ?thesis
    proof (cases "ps = []")
      case False
      then have "split_on CHR ''&'' (join_with CHR ''&'' (map pair_text ps)) = map pair_text ps"
        using pair by (intro split_join) auto
      moreover have "join_with CHR ''&'' (map pair_text ps) \<noteq> []"
        using False pair by (cases ps; cases "tl ps") auto
      ultimately show ?thesis using False Params by (simp add: read_pair_text comp_def)
    qed (simp add: Params)
  next
    case (Inline k v)
    then have s: "CHR ''='' \<notin> set k" "CHR ''&'' \<notin> set (k @ CHR ''='' # v)"
      using assms plain_separators(2) by (auto simp: list_all_iff)
    then show ?thesis
      using assms Inline cut_at(1) [OF s(1), of v] by (simp add: split_single read_pair_def form_plain_decode)
  qed
qed

text \<open>
  An address is read as it was meant: each argument is one segment of the path or one value of the query, decoded to what
  it was, and the other segments are the template's.
\<close>

lemma read_url_text:
  assumes "path \<noteq> []" "list_all seg_ok path" "query_ok q"
  shows "read_url (url_text path q) = (map seg_value path, query_value q)"
proof -
  note q = query_read [OF assms(3)] and p = path_separators [OF assms(2)]
  have c: "cut CHR ''#'' (url_text path q) = (url_text path q, [])"
    using q(1) p by (intro cut_at(2)) (simp add: url_text_def)
  have path: "map decodeURIComponent (remove_dots [] (drop 1 (split_on CHR ''/'' (path_text path)))) = map seg_value path"
    using assms(2) by (auto simp: split_path [OF assms(1,2)] remove_no_dots list_all_iff seg_decode)
  from q(2) show ?thesis
  proof (elim disjE exE conjE)
    assume "query_text q = []" "query_value q = []"
    then show ?thesis using c path p cut_at(2) [of "CHR ''?''" "path_text path"] by (simp add: read_url_def url_text_def)
  next
    fix t assume t: "query_text q = CHR ''?'' # t" "t \<noteq> []" "map read_pair (split_on CHR ''&'' t) = query_value q"
    then show ?thesis using c path p cut_at(1) [of "CHR ''?''" "path_text path" t] by (simp add: read_url_def url_text_def)
  qed
qed

end
