(* ===== verification/JsParse.thy ===== *)
theory JsParse
  imports JsNum JsText
begin

text \<open>
  \<open>Number.parseFloat\<close>: leading white space, an optional sign, then the longest decimal literal
  (or \<open>Infinity\<close>), rounded to binary64; NaN when there is none.
\<close>

definition parse_exponent :: "string \<Rightarrow> int" where
  "parse_exponent r = (case r of
     [] \<Rightarrow> 0
   | e # s \<Rightarrow>
       if e \<noteq> CHR ''e'' \<and> e \<noteq> CHR ''E'' then 0
       else let neg = (case s of [] \<Rightarrow> False | x # _ \<Rightarrow> x = CHR ''-'');
                t = (case s of [] \<Rightarrow> [] | x # xs \<Rightarrow> if x = CHR ''-'' \<or> x = CHR ''+'' then xs else s);
                ds = takeWhile is_digit t in
            if neg then - int (read_nat ds) else int (read_nat ds))"

definition parse_unsigned :: "string \<Rightarrow> jsnum" where
  "parse_unsigned t =
     (if starts_with t ''Infinity'' then PInf
      else let i = takeWhile is_digit t; r = dropWhile is_digit t;
               point = (r \<noteq> [] \<and> hd r = CHR ''.'');
               f = (if point then takeWhile is_digit (tl r) else []);
               r' = (if point then dropWhile is_digit (tl r) else r) in
           if i = [] \<and> f = [] then NaN
           else fl (of_nat (read_nat (i @ f)) * 10 powi (parse_exponent r' - int (length f))))"

definition parse_float :: "string \<Rightarrow> jsnum" where
  "parse_float s = (case dropWhile is_space s of
     [] \<Rightarrow> NaN
   | x # t \<Rightarrow> if x = CHR ''-'' then js_neg (parse_unsigned t)
              else if x = CHR ''+'' then parse_unsigned t
              else parse_unsigned (x # t))"

text \<open>A printed non-negative integer up to \<open>2 ^ 53\<close> is read back exactly.\<close>

lemma takeWhile_digits: "takeWhile is_digit (show_nat n) = show_nat n" "dropWhile is_digit (show_nat n) = []"
  using show_nat_digits by (auto simp: takeWhile_eq_all_conv dropWhile_eq_Nil_conv)

lemma parse_float_show_nat:
  assumes "n \<le> 2 ^ 53"
  shows "parse_float (show_nat n) = num_int (int n)"
proof -
  obtain x s where xs: "show_nat n = x # s" by (cases "show_nat n") auto
  then have x: "is_digit x" using show_nat_digits [of x n] by simp
  then have "\<not> is_space x" "x \<noteq> CHR ''-''" "x \<noteq> CHR ''+''" "x \<noteq> CHR ''I''"
    by (auto simp: is_digit_def is_space_def)
  then have "parse_float (show_nat n) = parse_unsigned (show_nat n)"
    by (simp add: parse_float_def xs)
  also have "\<not> starts_with (show_nat n) ''Infinity''"
    using \<open>x \<noteq> CHR ''I''\<close> by (simp add: xs starts_with_def)
  then have "parse_unsigned (show_nat n) = fl (of_nat n)"
    by (simp add: parse_unsigned_def takeWhile_digits parse_exponent_def Let_def)
  also have "\<dots> = num_int (int n)"
  proof -
    have "int n \<le> 2 ^ 53" using assms by (metis of_nat_le_iff of_nat_numeral of_nat_power)
    then show ?thesis using fl_of_int [of "int n"] by simp
  qed
  finally show ?thesis .
qed

end
