(* ===== verification/Endpoints.thy ===== *)
theory Endpoints
  imports Session Urls JsParse
begin

text \<open>
  The operations of the REST client, \<open>src/client/index.ts\<close>: for each, the method, the path with its arguments, the query, the
  body and what is taken from the answer. \<open>call_endpoint\<close> runs one with the requests of \<open>Session\<close>. \<open>ns\<close> is \<open>String\<close> on a
  value, which the numbers and strings of a query go through. A property that is \<open>JUndef\<close> in a body is one that
  \<open>JSON.stringify\<close> leaves out.
\<close>

section \<open>Operations\<close>

datatype take = Whole | Nothing | Field string | FieldOr string

datatype endpoint = Endpoint (ep_method: string) (ep_path: "seg list") (ep_query: query) (ep_body: jv) (ep_take: take)

text \<open>\<open>query.set\<close>: always, under \<open>if (x)\<close> and under \<open>if (x != null)\<close>.\<close>

definition always :: "(jv \<Rightarrow> string) \<Rightarrow> string \<Rightarrow> jv \<Rightarrow> (string \<times> string) list" where
  "always ns k v = [(k, ns v)]"

definition truthy :: "(jv \<Rightarrow> string) \<Rightarrow> string \<Rightarrow> jv \<Rightarrow> (string \<times> string) list" where
  "truthy ns k v = (if jtruthy v then [(k, ns v)] else [])"

definition given :: "(jv \<Rightarrow> string) \<Rightarrow> string \<Rightarrow> jv \<Rightarrow> (string \<times> string) list" where
  "given ns k v = (if nullish v then [] else [(k, ns v)])"

definition registerAgent :: "jv \<Rightarrow> endpoint" where
  "registerAgent data = Endpoint ''POST'' [S ''v1'', S ''agents'', S ''register''] (Params []) data (Field ''data'')"

definition registerService :: "jv \<Rightarrow> endpoint" where
  "registerService data = Endpoint ''POST'' [S ''v1'', S ''me'', S ''services''] (Params []) data (Field ''data'')"

definition getMyJobs :: "(jv \<Rightarrow> string) \<Rightarrow> jv \<Rightarrow> endpoint" where
  "getMyJobs ns params =
     Endpoint ''GET'' [S ''v1'', S ''me'', S ''jobs''] (Params (truthy ns ''status'' (jget params ''status'') @
       truthy ns ''role'' (jget params ''role''))) JUndef Whole"

definition acceptJob :: "string \<Rightarrow> jv \<Rightarrow> jv \<Rightarrow> jv \<Rightarrow> endpoint" where
  "acceptJob jobId signature timestamp paymentAddress =
     Endpoint ''POST'' [S ''v1'', S ''jobs'', A jobId, S ''accept''] (Params []) (JObj ([(''signature'', signature),
       (''timestamp'', timestamp)] @ opt_field (jtruthy paymentAddress) ''paymentAddress'' paymentAddress)) (Field
       ''data'')"

definition deliverJob :: "string \<Rightarrow> jv \<Rightarrow> jv \<Rightarrow> jv \<Rightarrow> jv \<Rightarrow> endpoint" where
  "deliverJob jobId deliveryHash signature timestamp deliveryMessage =
     Endpoint ''POST'' [S ''v1'', S ''jobs'', A jobId, S ''deliver''] (Params []) (JObj [(''deliveryHash'',
       deliveryHash), (''deliveryMessage'', deliveryMessage), (''timestamp'', timestamp), (''signature'', signature)])
       (Field ''data'')"

definition confirmWorkerAttached :: "string \<Rightarrow> endpoint" where
  "confirmWorkerAttached jobId =
     Endpoint ''POST'' [S ''v1'', S ''jobs'', A jobId, S ''worker-attached''] (Params []) (JObj []) (Field ''data'')"

definition reportWorkerAttachFailed :: "string \<Rightarrow> jv \<Rightarrow> endpoint" where
  "reportWorkerAttachFailed jobId reason =
     Endpoint ''POST'' [S ''v1'', S ''jobs'', A jobId, S ''worker-attach-failed''] (Params []) (JObj [(''reason'',
       reason)]) (Field ''data'')"

definition completeJob :: "string \<Rightarrow> jv \<Rightarrow> jv \<Rightarrow> endpoint" where
  "completeJob jobId signature timestamp =
     Endpoint ''POST'' [S ''v1'', S ''jobs'', A jobId, S ''complete''] (Params []) (JObj [(''timestamp'', timestamp),
       (''signature'', signature)]) (Field ''data'')"

definition getJob :: "string \<Rightarrow> endpoint" where
  "getJob jobId = Endpoint ''GET'' [S ''v1'', S ''jobs'', A jobId] (Params []) JUndef (Field ''data'')"

definition postRentalSecret :: "string \<Rightarrow> jv \<Rightarrow> endpoint" where
  "postRentalSecret jobId body =
     Endpoint ''POST'' [S ''v1'', S ''jobs'', A jobId, S ''rental-secret''] (Params []) body Whole"

definition getRentalAccess :: "string \<Rightarrow> endpoint" where
  "getRentalAccess jobId =
     Endpoint ''GET'' [S ''v1'', S ''jobs'', A jobId, S ''rental-access''] (Params []) JUndef (Field ''data'')"

definition getJobWitness :: "string \<Rightarrow> endpoint" where
  "getJobWitness jobId =
     Endpoint ''GET'' [S ''v1'', S ''jobs'', A jobId, S ''witness''] (Params []) JUndef (Field ''data'')"

definition pauseJob :: "string \<Rightarrow> endpoint" where
  "pauseJob jobId = Endpoint ''POST'' [S ''v1'', S ''jobs'', A jobId, S ''pause''] (Params []) JUndef Nothing"

definition registerCanary :: "jv \<Rightarrow> endpoint" where
  "registerCanary canary = Endpoint ''POST'' [S ''v1'', S ''me'', S ''canary''] (Params []) canary (Field ''data'')"

definition setCommunicationPolicy :: "jv \<Rightarrow> jv \<Rightarrow> endpoint" where
  "setCommunicationPolicy policy externalChannels =
     Endpoint ''POST'' [S ''v1'', S ''me'', S ''communication-policy''] (Params []) (JObj [(''policy'', policy),
       (''externalChannels'', externalChannels)]) (Field ''data'')"

definition getChatMessages :: "(jv \<Rightarrow> string) \<Rightarrow> string \<Rightarrow> jv \<Rightarrow> endpoint" where
  "getChatMessages ns jobId params =
     Endpoint ''GET'' [S ''v1'', S ''jobs'', A jobId, S ''messages''] (Params (given ns ''limit'' (jget params
       ''limit'') @ given ns ''offset'' (jget params ''offset'') @ truthy ns ''since'' (jget params ''since''))) JUndef
       Whole"

definition sendChatMessage :: "string \<Rightarrow> jv \<Rightarrow> jv \<Rightarrow> endpoint" where
  "sendChatMessage jobId content signature =
     Endpoint ''POST'' [S ''v1'', S ''jobs'', A jobId, S ''messages''] (Params []) (JObj [(''content'', content),
       (''signature'', signature)]) (Field ''data'')"

definition requestEndSession :: "string \<Rightarrow> jv \<Rightarrow> endpoint" where
  "requestEndSession jobId reason =
     Endpoint ''POST'' [S ''v1'', S ''jobs'', A jobId, S ''end-session''] (Params []) (JObj [(''reason'', reason)])
       (Field ''data'')"

definition recordPayment :: "string \<Rightarrow> jv \<Rightarrow> endpoint" where
  "recordPayment jobId txid =
     Endpoint ''POST'' [S ''v1'', S ''jobs'', A jobId, S ''payment''] (Params []) (JObj [(''txid'', txid)]) Whole"

definition recordPlatformFee :: "string \<Rightarrow> jv \<Rightarrow> endpoint" where
  "recordPlatformFee jobId txid =
     Endpoint ''POST'' [S ''v1'', S ''jobs'', A jobId, S ''platform-fee''] (Params []) (JObj [(''txid'', txid)])
       Whole"

definition cancelJob :: "string \<Rightarrow> endpoint" where
  "cancelJob jobId =
     Endpoint ''POST'' [S ''v1'', S ''jobs'', A jobId, S ''cancel''] (Params []) (JObj []) (Field ''data'')"

definition disputeJob :: "string \<Rightarrow> jv \<Rightarrow> jv \<Rightarrow> jv \<Rightarrow> endpoint" where
  "disputeJob jobId reason signature timestamp =
     Endpoint ''POST'' [S ''v1'', S ''jobs'', A jobId, S ''dispute''] (Params []) (JObj [(''reason'', reason),
       (''timestamp'', timestamp), (''signature'', signature)]) (Field ''data'')"

definition respondToDispute :: "string \<Rightarrow> jv \<Rightarrow> endpoint" where
  "respondToDispute jobId options =
     Endpoint ''POST'' [S ''v1'', S ''jobs'', A jobId, S ''dispute'', S ''respond''] (Params []) options Whole"

definition acceptRework :: "string \<Rightarrow> jv \<Rightarrow> endpoint" where
  "acceptRework jobId options =
     Endpoint ''POST'' [S ''v1'', S ''jobs'', A jobId, S ''dispute'', S ''rework-accept''] (Params []) options Whole"

definition getJobByHash :: "string \<Rightarrow> endpoint" where
  "getJobByHash hash = Endpoint ''GET'' [S ''v1'', S ''jobs'', S ''hash'', A hash] (Params []) JUndef (Field ''data'')"

definition getUnreadJobs :: "endpoint" where
  "getUnreadJobs = Endpoint ''GET'' [S ''v1'', S ''me'', S ''unread-jobs''] (Params []) JUndef (Field ''data'')"

definition getInboxItem :: "string \<Rightarrow> endpoint" where
  "getInboxItem i = Endpoint ''GET'' [S ''v1'', S ''me'', S ''inbox'', A i] (Params []) JUndef Whole"

definition acceptInboxItem :: "string \<Rightarrow> jv \<Rightarrow> endpoint" where
  "acceptInboxItem i txid =
     Endpoint ''POST'' [S ''v1'', S ''me'', S ''inbox'', A i, S ''accept''] (Params []) (JObj [(''txid'', txid)])
       Whole"

definition getIdentityRaw :: "endpoint" where
  "getIdentityRaw = Endpoint ''GET'' [S ''v1'', S ''me'', S ''identity'', S ''raw''] (Params []) JUndef Whole"

definition updateAgentProfile :: "jv \<Rightarrow> endpoint" where
  "updateAgentProfile data = Endpoint ''PATCH'' [S ''v1'', S ''me'', S ''agent''] (Params []) data (Field ''data'')"

definition requestExtension :: "string \<Rightarrow> jv \<Rightarrow> jv \<Rightarrow> jv \<Rightarrow> endpoint" where
  "requestExtension jobId amount reason estimatedTokens =
     Endpoint ''POST'' [S ''v1'', S ''jobs'', A jobId, S ''extensions''] (Params []) (JObj ([(''amount'', amount),
       (''reason'', reason)] @ opt_field (\<not> nullish estimatedTokens) ''estimatedTokens'' estimatedTokens)) (Field
       ''data'')"

definition getExtensions :: "string \<Rightarrow> endpoint" where
  "getExtensions jobId =
     Endpoint ''GET'' [S ''v1'', S ''jobs'', A jobId, S ''extensions''] (Params []) JUndef (Field ''data'')"

definition approveExtension :: "string \<Rightarrow> string \<Rightarrow> endpoint" where
  "approveExtension jobId extensionId =
     Endpoint ''POST'' [S ''v1'', S ''jobs'', A jobId, S ''extensions'', A extensionId, S ''approve''] (Params [])
       (JObj []) (Field ''data'')"

definition rejectExtension :: "string \<Rightarrow> string \<Rightarrow> endpoint" where
  "rejectExtension jobId extensionId =
     Endpoint ''POST'' [S ''v1'', S ''jobs'', A jobId, S ''extensions'', A extensionId, S ''reject''] (Params [])
       (JObj []) (Field ''data'')"

definition requestBudget :: "string \<Rightarrow> jv \<Rightarrow> endpoint" where
  "requestBudget jobId params =
     Endpoint ''POST'' [S ''v1'', S ''jobs'', A jobId, S ''budget-request''] (Params []) params (Field ''data'')"

definition payExtension :: "string \<Rightarrow> string \<Rightarrow> jv \<Rightarrow> jv \<Rightarrow> endpoint" where
  "payExtension jobId extensionId agentTxid feeTxid =
     Endpoint ''POST'' [S ''v1'', S ''jobs'', A jobId, S ''extensions'', A extensionId, S ''payment''] (Params [])
       (JObj [(''agentTxid'', agentTxid), (''feeTxid'', feeTxid)]) (Field ''data'')"

definition submitAttestation :: "jv \<Rightarrow> endpoint" where
  "submitAttestation attestation =
     Endpoint ''POST'' [S ''v1'', S ''me'', S ''attestations''] (Params []) attestation (Field ''data'')"

definition getAttestations :: "string \<Rightarrow> endpoint" where
  "getAttestations agentId =
     Endpoint ''GET'' [S ''v1'', S ''agents'', A agentId, S ''attestations''] (Params []) JUndef (Field ''data'')"

definition queryPricingOracle :: "(jv \<Rightarrow> string) \<Rightarrow> jv \<Rightarrow> endpoint" where
  "queryPricingOracle ns params =
     Endpoint ''GET'' [S ''v1'', S ''pricing'', S ''recommend''] (Params (truthy ns ''model'' (jget params ''model'')
       @ truthy ns ''category'' (jget params ''category'') @ given ns ''inputTokens'' (jget params ''inputTokens'') @
       given ns ''outputTokens'' (jget params ''outputTokens'') @ truthy ns ''privacyTier'' (jget params
       ''privacyTier'') @ given ns ''vrscUsdRate'' (jget params ''vrscUsdRate''))) JUndef (Field ''data'')"

definition getPricingModels :: "endpoint" where
  "getPricingModels = Endpoint ''GET'' [S ''v1'', S ''pricing'', S ''models''] (Params []) JUndef (Field ''data'')"

definition getVrscUsdRate :: "endpoint" where
  "getVrscUsdRate = Endpoint ''GET'' [S ''v1'', S ''pricing'', S ''vrsc-rate''] (Params []) JUndef (Field ''data'')"

definition getJobRequestMessage :: "(jv \<Rightarrow> string) \<Rightarrow> jv \<Rightarrow> endpoint" where
  "getJobRequestMessage ns params =
     Endpoint ''GET'' [S ''v1'', S ''jobs'', S ''message'', S ''request''] (Params (always ns ''sellerVerusId'' (jget
       params ''sellerVerusId'') @ always ns ''description'' (jget params ''description'') @ always ns ''amount'' (jget
       params ''amount'') @ truthy ns ''currency'' (jget params ''currency'') @ truthy ns ''deadline'' (jget params
       ''deadline'') @ given ns ''timestamp'' (jget params ''timestamp'') @ (if (jget params ''sovguardEnabled'') =
       JBool False then [(''sovguardEnabled'', ''false'')] else []))) JUndef (Field ''data'')"

definition createJob :: "jv \<Rightarrow> endpoint" where
  "createJob data = Endpoint ''POST'' [S ''v1'', S ''jobs''] (Params []) data (Field ''data'')"

definition getServices :: "(jv \<Rightarrow> string) \<Rightarrow> jv \<Rightarrow> endpoint" where
  "getServices ns params =
     Endpoint ''GET'' [S ''v1'', S ''services''] (Params (truthy ns ''agentId'' (jget params ''agentId'') @ truthy ns
       ''verusId'' (jget params ''verusId'') @ truthy ns ''category'' (jget params ''category'') @ truthy ns ''status''
       (jget params ''status'') @ given ns ''minPrice'' (jget params ''minPrice'') @ given ns ''maxPrice'' (jget params
       ''maxPrice'') @ truthy ns ''q'' (jget params ''q'') @ given ns ''limit'' (jget params ''limit'') @ given ns
       ''offset'' (jget params ''offset'') @ truthy ns ''sort'' (jget params ''sort'') @ truthy ns ''order'' (jget
       params ''order''))) JUndef Whole"

definition getServiceCategories :: "endpoint" where
  "getServiceCategories =
     Endpoint ''GET'' [S ''v1'', S ''services'', S ''categories''] (Params []) JUndef (Field ''data'')"

definition getService :: "string \<Rightarrow> endpoint" where
  "getService serviceId = Endpoint ''GET'' [S ''v1'', S ''services'', A serviceId] (Params []) JUndef (Field ''data'')"

definition getAgentServices :: "string \<Rightarrow> endpoint" where
  "getAgentServices verusId =
     Endpoint ''GET'' [S ''v1'', S ''services'', S ''agent'', A verusId] (Params []) JUndef Whole"

definition getMyServices :: "endpoint" where
  "getMyServices = Endpoint ''GET'' [S ''v1'', S ''me'', S ''services''] (Params []) JUndef Whole"

definition updateService :: "string \<Rightarrow> jv \<Rightarrow> endpoint" where
  "updateService serviceId data =
     Endpoint ''PUT'' [S ''v1'', S ''me'', S ''services'', A serviceId] (Params []) data (Field ''data'')"

definition deleteService :: "string \<Rightarrow> endpoint" where
  "deleteService serviceId =
     Endpoint ''DELETE'' [S ''v1'', S ''me'', S ''services'', A serviceId] (Params []) JUndef (Field ''data'')"

definition listApiProviders :: "(jv \<Rightarrow> string) \<Rightarrow> jv \<Rightarrow> endpoint" where
  "listApiProviders ns params =
     Endpoint ''GET'' [S ''v1'', S ''services''] (Params (always ns ''serviceType'' (JStr ''api-endpoint'') @ truthy
       ns ''category'' (jget params ''category'') @ truthy ns ''limit'' (jget params ''limit'') @ truthy ns ''offset''
       (jget params ''offset''))) JUndef Whole"

definition getJobFiles :: "string \<Rightarrow> endpoint" where
  "getJobFiles jobId = Endpoint ''GET'' [S ''v1'', S ''jobs'', A jobId, S ''files''] (Params []) JUndef Whole"

definition deleteFile :: "string \<Rightarrow> string \<Rightarrow> endpoint" where
  "deleteFile jobId fileId =
     Endpoint ''DELETE'' [S ''v1'', S ''jobs'', A jobId, S ''files'', A fileId] (Params []) JUndef (Field ''data'')"

definition getAgents :: "(jv \<Rightarrow> string) \<Rightarrow> jv \<Rightarrow> endpoint" where
  "getAgents ns params =
     Endpoint ''GET'' [S ''v1'', S ''agents''] (Params (truthy ns ''status'' (jget params ''status'') @ truthy ns
       ''type'' (jget params ''type'') @ truthy ns ''capability'' (jget params ''capability'') @ truthy ns ''owner''
       (jget params ''owner'') @ given ns ''limit'' (jget params ''limit'') @ given ns ''offset'' (jget params
       ''offset'') @ truthy ns ''sort'' (jget params ''sort'') @ truthy ns ''order'' (jget params ''order''))) JUndef
       Whole"

definition getAgent :: "string \<Rightarrow> endpoint" where
  "getAgent verusId = Endpoint ''GET'' [S ''v1'', S ''agents'', A verusId] (Params []) JUndef (Field ''data'')"

definition getAgentCapabilities :: "string \<Rightarrow> endpoint" where
  "getAgentCapabilities verusId =
     Endpoint ''GET'' [S ''v1'', S ''agents'', A verusId, S ''capabilities''] (Params []) JUndef (Field ''data'')"

definition searchAgents :: "(jv \<Rightarrow> string) \<Rightarrow> jv \<Rightarrow> endpoint" where
  "searchAgents ns params =
     Endpoint ''GET'' [S ''v1'', S ''search''] (Params (always ns ''q'' (jget params ''q'') @ truthy ns ''type''
       (jget params ''type'') @ truthy ns ''status'' (jget params ''status'') @ given ns ''verified'' (jget params
       ''verified'') @ given ns ''limit'' (jget params ''limit'') @ given ns ''offset'' (jget params ''offset'')))
       JUndef Whole"

definition setAgentStatus :: "string \<Rightarrow> jv \<Rightarrow> jv \<Rightarrow> jv \<Rightarrow> jv \<Rightarrow> endpoint" where
  "setAgentStatus verusId status signature timestamp nonce =
     Endpoint ''POST'' [S ''v1'', S ''agents'', A verusId, S ''status''] (Params []) (JObj ([(''status'', status),
       (''signature'', signature), (''timestamp'', timestamp)] @ opt_field (jtruthy nonce) ''nonce'' nonce)) (Field
       ''data'')"

definition getAgentReviews :: "(jv \<Rightarrow> string) \<Rightarrow> string \<Rightarrow> jv \<Rightarrow> endpoint" where
  "getAgentReviews ns verusId params =
     Endpoint ''GET'' [S ''v1'', S ''reviews'', S ''agent'', A verusId] (Params (given ns ''limit'' (jget params
       ''limit'') @ given ns ''offset'' (jget params ''offset'') @ given ns ''verified'' (jget params ''verified'')))
       JUndef Whole"

definition getBuyerReviews :: "(jv \<Rightarrow> string) \<Rightarrow> string \<Rightarrow> jv \<Rightarrow> endpoint" where
  "getBuyerReviews ns verusId params =
     Endpoint ''GET'' [S ''v1'', S ''reviews'', S ''buyer'', A verusId] (Params (given ns ''limit'' (jget params
       ''limit'') @ given ns ''offset'' (jget params ''offset''))) JUndef Whole"

definition getJobReview :: "string \<Rightarrow> endpoint" where
  "getJobReview jobHash =
     Endpoint ''GET'' [S ''v1'', S ''reviews'', S ''job'', A jobHash] (Params []) JUndef (Field ''data'')"

definition getAgentDataPolicy :: "string \<Rightarrow> endpoint" where
  "getAgentDataPolicy verusId =
     Endpoint ''GET'' [S ''v1'', S ''agents'', A verusId, S ''data-policy''] (Params []) JUndef (Field ''data'')"

definition setDataPolicy :: "jv \<Rightarrow> endpoint" where
  "setDataPolicy policy = Endpoint ''PUT'' [S ''v1'', S ''me'', S ''data-policy''] (Params []) policy (Field ''data'')"

definition getJobDataTerms :: "string \<Rightarrow> endpoint" where
  "getJobDataTerms jobId =
     Endpoint ''GET'' [S ''v1'', S ''jobs'', A jobId, S ''data-terms''] (Params []) JUndef (Field ''data'')"

definition getPrivacyTier :: "endpoint" where
  "getPrivacyTier = Endpoint ''GET'' [S ''v1'', S ''me'', S ''privacy''] (Params []) JUndef (Field ''data'')"

definition setPrivacyTier :: "jv \<Rightarrow> endpoint" where
  "setPrivacyTier tier =
     Endpoint ''POST'' [S ''v1'', S ''me'', S ''privacy''] (Params []) (JObj [(''tier'', tier)]) (Field ''data'')"

definition submitDeletionAttestation :: "string \<Rightarrow> jv \<Rightarrow> jv \<Rightarrow> endpoint" where
  "submitDeletionAttestation jobId signature timestamp =
     Endpoint ''POST'' [S ''v1'', S ''jobs'', A jobId, S ''deletion-attestation''] (Params []) (JObj [(''signature'',
       signature), (''timestamp'', timestamp)]) (Field ''data'')"

definition getDeletionAttestation :: "string \<Rightarrow> endpoint" where
  "getDeletionAttestation jobId =
     Endpoint ''GET'' [S ''v1'', S ''jobs'', A jobId, S ''deletion-attestation''] (Params []) JUndef (Field
       ''data'')"

definition getHeldMessages :: "string \<Rightarrow> endpoint" where
  "getHeldMessages jobId =
     Endpoint ''GET'' [S ''v1'', S ''jobs'', A jobId, S ''held-messages''] (Params []) JUndef (Field ''data'')"

definition appealHeldMessage :: "string \<Rightarrow> string \<Rightarrow> jv \<Rightarrow> endpoint" where
  "appealHeldMessage jobId messageId reason =
     Endpoint ''POST'' [S ''v1'', S ''jobs'', A jobId, S ''held-messages'', A messageId, S ''appeal''] (Params [])
       (JObj [(''reason'', reason)]) (Field ''data'')"

definition releaseHeldMessage :: "string \<Rightarrow> string \<Rightarrow> endpoint" where
  "releaseHeldMessage jobId messageId =
     Endpoint ''POST'' [S ''v1'', S ''jobs'', A jobId, S ''held-messages'', A messageId, S ''release''] (Params [])
       (JObj []) (Field ''data'')"

definition rejectHeldMessage :: "string \<Rightarrow> string \<Rightarrow> endpoint" where
  "rejectHeldMessage jobId messageId =
     Endpoint ''POST'' [S ''v1'', S ''jobs'', A jobId, S ''held-messages'', A messageId, S ''reject''] (Params [])
       (JObj []) (Field ''data'')"

definition getHoldQueueStats :: "endpoint" where
  "getHoldQueueStats = Endpoint ''GET'' [S ''v1'', S ''hold-queue'', S ''stats''] (Params []) JUndef (Field ''data'')"

definition getCanaries :: "endpoint" where
  "getCanaries = Endpoint ''GET'' [S ''v1'', S ''me'', S ''canary''] (Params []) JUndef (Field ''canaries'')"

definition deleteCanary :: "string \<Rightarrow> endpoint" where
  "deleteCanary canaryId = Endpoint ''DELETE'' [S ''v1'', S ''me'', S ''canary'', A canaryId] (Params []) JUndef Whole"

definition getCommunicationPolicy :: "endpoint" where
  "getCommunicationPolicy = Endpoint ''GET'' [S ''v1'', S ''me'', S ''communication-policy''] (Params []) JUndef Whole"

definition rejectInboxItem :: "string \<Rightarrow> endpoint" where
  "rejectInboxItem i =
     Endpoint ''POST'' [S ''v1'', S ''me'', S ''inbox'', A i, S ''reject''] (Params []) (JObj []) Whole"

definition getInboxCount :: "endpoint" where
  "getInboxCount = Endpoint ''GET'' [S ''v1'', S ''me'', S ''inbox'', S ''count''] (Params []) JUndef (Field ''data'')"

definition getAlerts :: "endpoint" where
  "getAlerts = Endpoint ''GET'' [S ''v1'', S ''me'', S ''alerts''] (Params []) JUndef (Field ''data'')"

definition dismissAlert :: "string \<Rightarrow> endpoint" where
  "dismissAlert alertId =
     Endpoint ''POST'' [S ''v1'', S ''me'', S ''alerts'', A alertId, S ''dismiss''] (Params []) (JObj []) (Field
       ''data'')"

definition reportAlert :: "string \<Rightarrow> endpoint" where
  "reportAlert alertId =
     Endpoint ''POST'' [S ''v1'', S ''me'', S ''alerts'', A alertId, S ''report''] (Params []) (JObj []) (Field
       ''data'')"

definition registerWebhook :: "jv \<Rightarrow> jv \<Rightarrow> jv \<Rightarrow> endpoint" where
  "registerWebhook url events secret =
     Endpoint ''POST'' [S ''v1'', S ''me'', S ''webhooks''] (Params []) (JObj [(''url'', url), (''events'', events),
       (''secret'', secret)]) (Field ''data'')"

definition listWebhooks :: "endpoint" where
  "listWebhooks = Endpoint ''GET'' [S ''v1'', S ''me'', S ''webhooks''] (Params []) JUndef (Field ''data'')"

definition deleteWebhook :: "string \<Rightarrow> endpoint" where
  "deleteWebhook webhookId =
     Endpoint ''DELETE'' [S ''v1'', S ''me'', S ''webhooks'', A webhookId] (Params []) JUndef (Field ''data'')"

definition getSession :: "endpoint" where
  "getSession = Endpoint ''GET'' [S ''auth'', S ''session''] (Params []) JUndef (Field ''data'')"

definition logout :: "endpoint" where
  "logout = Endpoint ''POST'' [S ''auth'', S ''logout''] (Params []) (JObj []) Nothing"

definition getCapabilities :: "endpoint" where
  "getCapabilities = Endpoint ''GET'' [S ''v1'', S ''capabilities''] (Params []) JUndef (Field ''data'')"

definition health :: "endpoint" where
  "health = Endpoint ''GET'' [S ''v1'', S ''health''] (Params []) JUndef Whole"

definition getTrustScore :: "string \<Rightarrow> endpoint" where
  "getTrustScore verusId =
     Endpoint ''GET'' [S ''v1'', S ''agents'', A verusId, S ''trust''] (Params []) JUndef (Field ''data'')"

definition getMyTrust :: "endpoint" where
  "getMyTrust = Endpoint ''GET'' [S ''v1'', S ''me'', S ''trust''] (Params []) JUndef (Field ''data'')"

definition getMyTrustHistory :: "endpoint" where
  "getMyTrustHistory =
     Endpoint ''GET'' [S ''v1'', S ''me'', S ''trust'', S ''history''] (Params []) JUndef (Field ''data'')"

definition getWorkspaceStatus :: "string \<Rightarrow> endpoint" where
  "getWorkspaceStatus jobId = Endpoint ''GET'' [S ''v1'', S ''jailbox'', R jobId] (Params []) JUndef (Field ''data'')"

definition initBuyerWorkspace :: "string \<Rightarrow> endpoint" where
  "initBuyerWorkspace jobId =
     Endpoint ''POST'' [S ''v1'', S ''jailbox'', A jobId, S ''token''] (Params []) JUndef (Field ''data'')"

definition getBounties :: "(jv \<Rightarrow> string) \<Rightarrow> jv \<Rightarrow> endpoint" where
  "getBounties ns params =
     Endpoint ''GET'' [S ''v1'', S ''bounties''] (Params (truthy ns ''category'' (jget params ''category'') @ given
       ns ''minAmount'' (jget params ''minAmount'') @ given ns ''maxAmount'' (jget params ''maxAmount'') @ given ns
       ''limit'' (jget params ''limit'') @ given ns ''offset'' (jget params ''offset''))) JUndef Whole"

definition getBounty :: "string \<Rightarrow> endpoint" where
  "getBounty bountyId = Endpoint ''GET'' [S ''v1'', S ''bounties'', A bountyId] (Params []) JUndef (Field ''data'')"

definition postBounty :: "jv \<Rightarrow> endpoint" where
  "postBounty data = Endpoint ''POST'' [S ''v1'', S ''bounties''] (Params []) data (Field ''data'')"

definition applyToBounty :: "string \<Rightarrow> jv \<Rightarrow> endpoint" where
  "applyToBounty bountyId data =
     Endpoint ''POST'' [S ''v1'', S ''bounties'', A bountyId, S ''apply''] (Params []) data (Field ''data'')"

definition selectBountyClaimants :: "string \<Rightarrow> jv \<Rightarrow> endpoint" where
  "selectBountyClaimants bountyId data =
     Endpoint ''POST'' [S ''v1'', S ''bounties'', A bountyId, S ''select''] (Params []) data (Field ''data'')"

definition cancelBounty :: "string \<Rightarrow> endpoint" where
  "cancelBounty bountyId =
     Endpoint ''DELETE'' [S ''v1'', S ''bounties'', A bountyId] (Params []) JUndef (Field ''data'')"

definition getMyBounties :: "(jv \<Rightarrow> string) \<Rightarrow> jv \<Rightarrow> endpoint" where
  "getMyBounties ns params =
     Endpoint ''GET'' [S ''v1'', S ''me'', S ''bounties''] (Params (truthy ns ''role'' (jget params ''role'') @
       truthy ns ''status'' (jget params ''status'') @ given ns ''limit'' (jget params ''limit'') @ given ns ''offset''
       (jget params ''offset''))) JUndef Whole"

definition getNotifications :: "(jv \<Rightarrow> string) \<Rightarrow> jv \<Rightarrow> endpoint" where
  "getNotifications ns limit =
     Endpoint ''GET'' [S ''v1'', S ''me'', S ''notifications''] (Params (given ns ''limit'' limit)) JUndef Whole"

definition ackNotifications :: "jv \<Rightarrow> endpoint" where
  "ackNotifications ids =
     Endpoint ''POST'' [S ''v1'', S ''me'', S ''notifications'', S ''ack''] (Params []) (JObj [(''ids'', ids)])
       (Field ''data'')"

definition getDispute :: "string \<Rightarrow> endpoint" where
  "getDispute jobId =
     Endpoint ''GET'' [S ''v1'', S ''jobs'', A jobId, S ''dispute''] (Params []) JUndef (Field ''dispute'')"

definition submitRefundTxid :: "string \<Rightarrow> jv \<Rightarrow> endpoint" where
  "submitRefundTxid jobId txid =
     Endpoint ''POST'' [S ''v1'', S ''jobs'', A jobId, S ''dispute'', S ''refund-txid''] (Params []) (JObj
       [(''txid'', txid)]) Whole"

definition submitReview :: "jv \<Rightarrow> endpoint" where
  "submitReview data = Endpoint ''POST'' [S ''v1'', S ''reviews''] (Params []) data (Field ''data'')"

definition submitApiSessionReview :: "jv \<Rightarrow> endpoint" where
  "submitApiSessionReview data =
     Endpoint ''POST'' [S ''v1'', S ''reviews'', S ''api-session''] (Params []) data (Field ''data'')"

definition getReviewMessage :: "(jv \<Rightarrow> string) \<Rightarrow> jv \<Rightarrow> endpoint" where
  "getReviewMessage ns params =
     Endpoint ''GET'' [S ''v1'', S ''reviews'', S ''message''] (Params (always ns ''agentVerusId'' (jget params
       ''agentVerusId'') @ always ns ''jobHash'' (jget params ''jobHash'') @ truthy ns ''message'' (jget params
       ''message'') @ given ns ''rating'' (jget params ''rating'') @ given ns ''timestamp'' (jget params
       ''timestamp''))) JUndef (Field ''data'')"

definition updateWebhook :: "string \<Rightarrow> jv \<Rightarrow> endpoint" where
  "updateWebhook webhookId data =
     Endpoint ''PATCH'' [S ''v1'', S ''me'', S ''webhooks'', A webhookId] (Params []) data (Field ''data'')"

definition testWebhook :: "string \<Rightarrow> endpoint" where
  "testWebhook webhookId =
     Endpoint ''POST'' [S ''v1'', S ''me'', S ''webhooks'', A webhookId, S ''test''] (Params []) (JObj []) (Field
       ''data'')"

definition resolveNames :: "jv \<Rightarrow> endpoint" where
  "resolveNames iAddresses =
     Endpoint ''POST'' [S ''v1'', S ''resolve-names''] (Params []) (JObj [(''addresses'', iAddresses)]) (Field
       ''data'')"

definition refreshAgent :: "string \<Rightarrow> endpoint" where
  "refreshAgent verusId =
     Endpoint ''POST'' [S ''v1'', S ''agents'', A verusId, S ''refresh''] (Params []) JUndef (Field ''data'')"

definition getPublicStats :: "endpoint" where
  "getPublicStats = Endpoint ''GET'' [S ''v1'', S ''public-stats''] (Params []) JUndef (Field ''data'')"

definition getVerificationStatus :: "string \<Rightarrow> endpoint" where
  "getVerificationStatus agentId =
     Endpoint ''GET'' [S ''v1'', S ''agents'', A agentId, S ''verification''] (Params []) JUndef (Field ''data'')"

definition getTransparencyProfile :: "string \<Rightarrow> endpoint" where
  "getTransparencyProfile verusId =
     Endpoint ''GET'' [S ''v1'', S ''agents'', A verusId, S ''transparency''] (Params []) JUndef (Field ''data'')"

definition updateAgent :: "string \<Rightarrow> jv \<Rightarrow> endpoint" where
  "updateAgent agentId data =
     Endpoint ''POST'' [S ''v1'', S ''agents'', A agentId, S ''update''] (Params []) data (Field ''data'')"

definition getWebhookDeliveries :: "(jv \<Rightarrow> string) \<Rightarrow> string \<Rightarrow> jv \<Rightarrow> endpoint" where
  "getWebhookDeliveries ns webhookId limit =
     Endpoint ''GET'' [S ''v1'', S ''me'', S ''webhooks'', A webhookId, S ''deliveries''] (Params (given ns ''limit''
       limit)) JUndef (Field ''data'')"

definition rejectDelivery :: "string \<Rightarrow> jv \<Rightarrow> endpoint" where
  "rejectDelivery jobId reason =
     Endpoint ''POST'' [S ''v1'', S ''jobs'', A jobId, S ''reject-delivery''] (Params []) (JObj [(''reason'',
       reason)]) (Field ''data'')"

definition recordPaymentCombined :: "string \<Rightarrow> jv \<Rightarrow> endpoint" where
  "recordPaymentCombined jobId txid =
     Endpoint ''POST'' [S ''v1'', S ''jobs'', A jobId, S ''payment-combined''] (Params []) (JObj [(''txid'', txid)])
       Whole"

definition getFeaturedServices :: "endpoint" where
  "getFeaturedServices = Endpoint ''GET'' [S ''v1'', S ''services'', S ''featured''] (Params []) JUndef Whole"

definition getTrendingServices :: "endpoint" where
  "getTrendingServices = Endpoint ''GET'' [S ''v1'', S ''services'', S ''trending''] (Params []) JUndef Whole"

definition getMyIdentity :: "endpoint" where
  "getMyIdentity = Endpoint ''GET'' [S ''v1'', S ''me'', S ''identity''] (Params []) JUndef (Field ''data'')"

definition retryOnboard :: "string \<Rightarrow> endpoint" where
  "retryOnboard onboardId =
     Endpoint ''POST'' [S ''v1'', S ''onboard'', S ''retry'', A onboardId] (Params []) JUndef Whole"

definition getBalance :: "endpoint" where
  "getBalance = Endpoint ''GET'' [S ''v1'', S ''me'', S ''balance''] (Params []) JUndef (Field ''data'')"

definition getAgentPaymentAddress :: "string \<Rightarrow> endpoint" where
  "getAgentPaymentAddress verusId =
     Endpoint ''GET'' [S ''v1'', S ''agents'', A verusId, S ''payment-address''] (Params []) JUndef (Field ''data'')"

definition verifyPayment :: "(jv \<Rightarrow> string) \<Rightarrow> jv \<Rightarrow> endpoint" where
  "verifyPayment ns params =
     Endpoint ''GET'' [S ''v1'', S ''tx'', S ''verify-payment''] (Params (always ns ''txid'' (jget params ''txid'') @
       always ns ''expectedAddress'' (jget params ''expectedAddress'') @ always ns ''expectedAmount'' (jget params
       ''expectedAmount'') @ always ns ''currency'' (jget params ''currency'') @ truthy ns ''expectedSender'' (jget
       params ''expectedSender''))) JUndef (Field ''data'')"

definition getCurrencies :: "endpoint" where
  "getCurrencies = Endpoint ''GET'' [S ''v1'', S ''currencies''] (Params []) JUndef (Field ''data'')"

definition getMyEarnings :: "endpoint" where
  "getMyEarnings = Endpoint ''GET'' [S ''v1'', S ''me'', S ''earnings''] (Params []) JUndef (Field ''data'')"

definition checkAgentName :: "string \<Rightarrow> endpoint" where
  "checkAgentName name =
     Endpoint ''GET'' [S ''v1'', S ''agents'', S ''check-name'', A name] (Params []) JUndef (Field ''data'')"

text \<open>Those whose template is not of the common form.\<close>

definition onboardStatusOf :: "string \<Rightarrow> endpoint" where
  "onboardStatusOf i = Endpoint ''GET'' [S ''v1'', S ''onboard'', S ''status'', A i] (Params []) JUndef Whole"

definition reactivateJob :: "string \<Rightarrow> jv \<Rightarrow> endpoint" where
  "reactivateJob jobId txid = Endpoint ''POST'' [S ''v1'', S ''jobs'', A jobId, S ''reactivate''] (Params [])
     (JObj (opt_field (jtruthy txid) ''txid'' txid)) Nothing"

definition getExtensionInvoice :: "(jv \<Rightarrow> string) \<Rightarrow> string \<Rightarrow> jv \<Rightarrow> endpoint" where
  "getExtensionInvoice ns jobId amount = Endpoint ''GET'' [S ''v1'', S ''jobs'', A jobId, S ''extension-invoice'']
     (Inline ''amount'' (ns amount)) JUndef (Field ''data'')"

definition getPaymentQr :: "(jv \<Rightarrow> string) \<Rightarrow> string \<Rightarrow> jv \<Rightarrow> endpoint" where
  "getPaymentQr ns jobId ty = Endpoint ''GET'' [S ''v1'', S ''jobs'', A jobId, S ''payment-qr'']
     (Params (always ns ''type'' (if ty = JUndef then JStr ''agent'' else ty))) JUndef (Field ''data'')"

definition inbox_type :: "(jv \<Rightarrow> string) \<Rightarrow> jv \<Rightarrow> string" where
  "inbox_type ns ty = (case ty of JArr ts \<Rightarrow> join_with CHR '','' (map ns ts) | _ \<Rightarrow> ns ty)"

definition getInbox :: "(jv \<Rightarrow> string) \<Rightarrow> jv \<Rightarrow> jv \<Rightarrow> jv \<Rightarrow> endpoint" where
  "getInbox ns status limit ty = Endpoint ''GET'' [S ''v1'', S ''me'', S ''inbox'']
     (Params (always ns ''status'' (if status = JUndef then JStr ''pending'' else status)
       @ always ns ''limit'' (if limit = JUndef then JNum (num_int 20) else limit)
       @ (if jtruthy ty then [(''type'', inbox_type ns ty)] else []))) JUndef Whole"

definition requestApiAccess :: "string \<Rightarrow> jv \<Rightarrow> endpoint" where
  "requestApiAccess sellerVerusId accessRequest =
     Endpoint ''POST'' [S ''v1'', S ''proxy'', S ''access'', A sellerVerusId] (Params []) accessRequest (FieldOr ''data'')"

definition getReputation :: "string \<Rightarrow> jv \<Rightarrow> endpoint" where
  "getReputation verusId quick = Endpoint ''GET'' [S ''v1'', S ''reputation'', A verusId]
     (if jtruthy quick then Inline ''quick'' ''true'' else Params []) JUndef (Field ''data'')"

definition getTopAgents :: "(jv \<Rightarrow> string) \<Rightarrow> jv \<Rightarrow> endpoint" where
  "getTopAgents ns limit = Endpoint ''GET'' [S ''v1'', S ''reputation'', S ''top'']
     (Inline ''limit'' (ns (if limit = JUndef then JNum (num_int 10) else limit))) JUndef (Field ''data'')"

definition getDeletionAttestationMessage :: "(jv \<Rightarrow> string) \<Rightarrow> string \<Rightarrow> jv \<Rightarrow> endpoint" where
  "getDeletionAttestationMessage ns jobId timestamp = Endpoint ''GET'' [S ''v1'', S ''jobs'', A jobId, S ''deletion-attestation'', S ''message'']
     (if nullish timestamp then Params [] else Inline ''timestamp'' (ns timestamp)) JUndef (Field ''data'')"

definition disputeMetricsRequest :: "string \<Rightarrow> endpoint" where
  "disputeMetricsRequest verusId = Endpoint ''GET'' [S ''v1'', S ''agents'', A verusId, S ''transparency''] (Params []) JUndef Whole"

definition historyRequest :: "(jv \<Rightarrow> string) \<Rightarrow> jv \<Rightarrow> endpoint" where
  "historyRequest ns params = Endpoint ''GET''
     (if jtruthy (jget params ''identity'') then [S ''v1'', S ''identity'', A (ns (jget params ''identity'')), S ''history'']
      else [S ''v1'', S ''me'', S ''identity'', S ''history''])
     (Params (given ns ''heightStart'' (jget params ''heightStart'') @ given ns ''heightEnd'' (jget params ''heightEnd''))) JUndef Whole"

definition identityKeysRequest :: "string \<Rightarrow> endpoint" where
  "identityKeysRequest idOrName = Endpoint ''GET'' [S ''v1'', S ''identity'', A idOrName, S ''keys''] (Params []) JUndef (Field ''data'')"

section \<open>All of them\<close>

inductive client_call :: "(jv \<Rightarrow> string) \<Rightarrow> endpoint \<Rightarrow> bool" for ns :: "jv \<Rightarrow> string" where
  "client_call ns (registerAgent data)"
| "client_call ns (registerService data)"
| "client_call ns (getMyJobs ns params)"
| "client_call ns (acceptJob jobId signature timestamp paymentAddress)"
| "client_call ns (deliverJob jobId deliveryHash signature timestamp deliveryMessage)"
| "client_call ns (confirmWorkerAttached jobId)"
| "client_call ns (reportWorkerAttachFailed jobId reason)"
| "client_call ns (completeJob jobId signature timestamp)"
| "client_call ns (getJob jobId)"
| "client_call ns (postRentalSecret jobId body)"
| "client_call ns (getRentalAccess jobId)"
| "client_call ns (getJobWitness jobId)"
| "client_call ns (pauseJob jobId)"
| "client_call ns (registerCanary canary)"
| "client_call ns (setCommunicationPolicy policy externalChannels)"
| "client_call ns (getChatMessages ns jobId params)"
| "client_call ns (sendChatMessage jobId content signature)"
| "client_call ns (requestEndSession jobId reason)"
| "client_call ns (recordPayment jobId txid)"
| "client_call ns (recordPlatformFee jobId txid)"
| "client_call ns (cancelJob jobId)"
| "client_call ns (disputeJob jobId reason signature timestamp)"
| "client_call ns (respondToDispute jobId options)"
| "client_call ns (acceptRework jobId options)"
| "client_call ns (getJobByHash hash)"
| "client_call ns getUnreadJobs"
| "client_call ns (getInboxItem i)"
| "client_call ns (acceptInboxItem i txid)"
| "client_call ns getIdentityRaw"
| "client_call ns (updateAgentProfile data)"
| "client_call ns (requestExtension jobId amount reason estimatedTokens)"
| "client_call ns (getExtensions jobId)"
| "client_call ns (approveExtension jobId extensionId)"
| "client_call ns (rejectExtension jobId extensionId)"
| "client_call ns (requestBudget jobId params)"
| "client_call ns (payExtension jobId extensionId agentTxid feeTxid)"
| "client_call ns (submitAttestation attestation)"
| "client_call ns (getAttestations agentId)"
| "client_call ns (queryPricingOracle ns params)"
| "client_call ns getPricingModels"
| "client_call ns getVrscUsdRate"
| "client_call ns (getJobRequestMessage ns params)"
| "client_call ns (createJob data)"
| "client_call ns (getServices ns params)"
| "client_call ns getServiceCategories"
| "client_call ns (getService serviceId)"
| "client_call ns (getAgentServices verusId)"
| "client_call ns getMyServices"
| "client_call ns (updateService serviceId data)"
| "client_call ns (deleteService serviceId)"
| "client_call ns (listApiProviders ns params)"
| "client_call ns (getJobFiles jobId)"
| "client_call ns (deleteFile jobId fileId)"
| "client_call ns (getAgents ns params)"
| "client_call ns (getAgent verusId)"
| "client_call ns (getAgentCapabilities verusId)"
| "client_call ns (searchAgents ns params)"
| "client_call ns (setAgentStatus verusId status signature timestamp nonce)"
| "client_call ns (getAgentReviews ns verusId params)"
| "client_call ns (getBuyerReviews ns verusId params)"
| "client_call ns (getJobReview jobHash)"
| "client_call ns (getAgentDataPolicy verusId)"
| "client_call ns (setDataPolicy policy)"
| "client_call ns (getJobDataTerms jobId)"
| "client_call ns getPrivacyTier"
| "client_call ns (setPrivacyTier tier)"
| "client_call ns (submitDeletionAttestation jobId signature timestamp)"
| "client_call ns (getDeletionAttestation jobId)"
| "client_call ns (getHeldMessages jobId)"
| "client_call ns (appealHeldMessage jobId messageId reason)"
| "client_call ns (releaseHeldMessage jobId messageId)"
| "client_call ns (rejectHeldMessage jobId messageId)"
| "client_call ns getHoldQueueStats"
| "client_call ns getCanaries"
| "client_call ns (deleteCanary canaryId)"
| "client_call ns getCommunicationPolicy"
| "client_call ns (rejectInboxItem i)"
| "client_call ns getInboxCount"
| "client_call ns getAlerts"
| "client_call ns (dismissAlert alertId)"
| "client_call ns (reportAlert alertId)"
| "client_call ns (registerWebhook url events secret)"
| "client_call ns listWebhooks"
| "client_call ns (deleteWebhook webhookId)"
| "client_call ns getSession"
| "client_call ns logout"
| "client_call ns getCapabilities"
| "client_call ns health"
| "client_call ns (getTrustScore verusId)"
| "client_call ns getMyTrust"
| "client_call ns getMyTrustHistory"
| "client_call ns (getWorkspaceStatus jobId)"
| "client_call ns (initBuyerWorkspace jobId)"
| "client_call ns (getBounties ns params)"
| "client_call ns (getBounty bountyId)"
| "client_call ns (postBounty data)"
| "client_call ns (applyToBounty bountyId data)"
| "client_call ns (selectBountyClaimants bountyId data)"
| "client_call ns (cancelBounty bountyId)"
| "client_call ns (getMyBounties ns params)"
| "client_call ns (getNotifications ns limit)"
| "client_call ns (ackNotifications ids)"
| "client_call ns (getDispute jobId)"
| "client_call ns (submitRefundTxid jobId txid)"
| "client_call ns (submitReview data)"
| "client_call ns (submitApiSessionReview data)"
| "client_call ns (getReviewMessage ns params)"
| "client_call ns (updateWebhook webhookId data)"
| "client_call ns (testWebhook webhookId)"
| "client_call ns (resolveNames iAddresses)"
| "client_call ns (refreshAgent verusId)"
| "client_call ns getPublicStats"
| "client_call ns (getVerificationStatus agentId)"
| "client_call ns (getTransparencyProfile verusId)"
| "client_call ns (updateAgent agentId data)"
| "client_call ns (getWebhookDeliveries ns webhookId limit)"
| "client_call ns (rejectDelivery jobId reason)"
| "client_call ns (recordPaymentCombined jobId txid)"
| "client_call ns getFeaturedServices"
| "client_call ns getTrendingServices"
| "client_call ns getMyIdentity"
| "client_call ns (retryOnboard onboardId)"
| "client_call ns getBalance"
| "client_call ns (getAgentPaymentAddress verusId)"
| "client_call ns (verifyPayment ns params)"
| "client_call ns getCurrencies"
| "client_call ns getMyEarnings"
| "client_call ns (checkAgentName name)"
| "client_call ns (onboardStatusOf i)"
| "client_call ns (reactivateJob i a)"
| "client_call ns (getExtensionInvoice ns i a)"
| "client_call ns (getPaymentQr ns i a)"
| "client_call ns (getInbox ns a b c)"
| "client_call ns (requestApiAccess i a)"
| "client_call ns (getReputation i a)"
| "client_call ns (getTopAgents ns a)"
| "client_call ns (getDeletionAttestationMessage ns i a)"
| "client_call ns (disputeMetricsRequest i)"
| "client_call ns (historyRequest ns a)"
| "client_call ns (identityKeysRequest i)"

lemmas endpoint_defs = registerAgent_def registerService_def getMyJobs_def acceptJob_def deliverJob_def
  confirmWorkerAttached_def reportWorkerAttachFailed_def completeJob_def getJob_def postRentalSecret_def
  getRentalAccess_def getJobWitness_def pauseJob_def registerCanary_def setCommunicationPolicy_def getChatMessages_def
  sendChatMessage_def requestEndSession_def recordPayment_def recordPlatformFee_def cancelJob_def disputeJob_def
  respondToDispute_def acceptRework_def getJobByHash_def getUnreadJobs_def getInboxItem_def acceptInboxItem_def
  getIdentityRaw_def updateAgentProfile_def requestExtension_def getExtensions_def approveExtension_def
  rejectExtension_def requestBudget_def payExtension_def submitAttestation_def getAttestations_def
  queryPricingOracle_def getPricingModels_def getVrscUsdRate_def getJobRequestMessage_def createJob_def getServices_def
  getServiceCategories_def getService_def getAgentServices_def getMyServices_def updateService_def deleteService_def
  listApiProviders_def getJobFiles_def deleteFile_def getAgents_def getAgent_def getAgentCapabilities_def
  searchAgents_def setAgentStatus_def getAgentReviews_def getBuyerReviews_def getJobReview_def getAgentDataPolicy_def
  setDataPolicy_def getJobDataTerms_def getPrivacyTier_def setPrivacyTier_def submitDeletionAttestation_def
  getDeletionAttestation_def getHeldMessages_def appealHeldMessage_def releaseHeldMessage_def rejectHeldMessage_def
  getHoldQueueStats_def getCanaries_def deleteCanary_def getCommunicationPolicy_def rejectInboxItem_def
  getInboxCount_def getAlerts_def dismissAlert_def reportAlert_def registerWebhook_def listWebhooks_def
  deleteWebhook_def getSession_def logout_def getCapabilities_def health_def getTrustScore_def getMyTrust_def
  getMyTrustHistory_def getWorkspaceStatus_def initBuyerWorkspace_def getBounties_def getBounty_def postBounty_def
  applyToBounty_def selectBountyClaimants_def cancelBounty_def getMyBounties_def getNotifications_def
  ackNotifications_def getDispute_def submitRefundTxid_def submitReview_def submitApiSessionReview_def
  getReviewMessage_def updateWebhook_def testWebhook_def resolveNames_def refreshAgent_def getPublicStats_def
  getVerificationStatus_def getTransparencyProfile_def updateAgent_def getWebhookDeliveries_def rejectDelivery_def
  recordPaymentCombined_def getFeaturedServices_def getTrendingServices_def getMyIdentity_def retryOnboard_def
  getBalance_def getAgentPaymentAddress_def verifyPayment_def getCurrencies_def getMyEarnings_def checkAgentName_def
  onboardStatusOf_def reactivateJob_def getExtensionInvoice_def getPaymentQr_def getInbox_def requestApiAccess_def
  getReputation_def getTopAgents_def getDeletionAttestationMessage_def disputeMetricsRequest_def historyRequest_def
  identityKeysRequest_def


section \<open>Running one\<close>

definition endpoint_url :: "endpoint \<Rightarrow> string" where
  "endpoint_url e = url_text (ep_path e) (ep_query e)"

definition take_answer :: "take \<Rightarrow> jv \<Rightarrow> net \<Rightarrow> jv run" where
  "take_answer t res w = (case t of
       Whole \<Rightarrow> returns res w
     | Nothing \<Rightarrow> returns JUndef w
     | Field f \<Rightarrow> if nullish res then throws TypeFault w else returns (jget res f) w
     | FieldOr f \<Rightarrow> if nullish res then throws TypeFault w else returns (or_else (jget res f) res) w)"

definition call_endpoint :: "http_env \<Rightarrow> (net \<Rightarrow> unit run) option \<Rightarrow> endpoint \<Rightarrow> net \<Rightarrow> jv run" where
  "call_endpoint env reauth e w =
     bind_run (client_request env reauth (ep_method e) (endpoint_url e) (ep_body e) w) (take_answer (ep_take e))"

text \<open>The parked operations, behind the switch of the client.\<close>

definition call_jailbox :: "bool \<Rightarrow> http_env \<Rightarrow> (net \<Rightarrow> unit run) option \<Rightarrow> endpoint \<Rightarrow> net \<Rightarrow> jv run" where
  "call_jailbox jailboxEnabled env reauth e w = (if \<not> jailboxEnabled then throws JailboxParked w else call_endpoint env reauth e w)"

definition history_unavailable :: api_error where
  "history_unavailable = HttpError (JStr (''Identity history is unavailable: this platform does not expose getidentityhistory, ''
     @ ''or the identity is unknown. A 404 here does NOT mean the agent has no reviews.''))
     (JStr ''IDENTITY_HISTORY_UNAVAILABLE'') 404 None"

definition getIdentityHistory :: "http_env \<Rightarrow> (net \<Rightarrow> unit run) option \<Rightarrow> (jv \<Rightarrow> string) \<Rightarrow> jv \<Rightarrow> net \<Rightarrow> jv run" where
  "getIdentityHistory env reauth ns params w = (case call_endpoint env reauth (historyRequest ns params) w of
       (Some (Inl e), w1) \<Rightarrow> throws (if status_code e = Some 404 then history_unavailable else e) w1
     | r \<Rightarrow> r)"

definition dispute_metrics :: "jv \<Rightarrow> net \<Rightarrow> jv run" where
  "dispute_metrics res w =
     (if nullish res then throws TypeFault w
      else returns (or_else (jget (jget (jget res ''data'') ''computed'') ''disputes'') (JObj [])) w)"

definition getDisputeMetrics :: "http_env \<Rightarrow> (net \<Rightarrow> unit run) option \<Rightarrow> string \<Rightarrow> net \<Rightarrow> jv run" where
  "getDisputeMetrics env reauth verusId w = bind_run (call_endpoint env reauth (disputeMetricsRequest verusId) w) dispute_metrics"

definition api_services :: "jv \<Rightarrow> jv \<Rightarrow> net \<Rightarrow> jv run" where
  "api_services agent resp w =
     (if nullish resp then throws TypeFault w
      else case or_else (jget resp ''data'') (JArr []) of
        JArr ss \<Rightarrow> if \<exists>x \<in> set ss. nullish x then throws TypeFault w
          else returns (JObj [(''agent'', agent), (''apiServices'', JArr (filter (\<lambda>x. jget x ''serviceType'' = JStr ''api-endpoint'') ss))]) w
      | _ \<Rightarrow> throws TypeFault w)"

definition discoverApiProvider :: "http_env \<Rightarrow> (net \<Rightarrow> unit run) option \<Rightarrow> string \<Rightarrow> net \<Rightarrow> jv run" where
  "discoverApiProvider env reauth sellerVerusId w =
     bind_run (call_endpoint env reauth (getAgent sellerVerusId) w) (\<lambda>agent w1.
     bind_run (call_endpoint env reauth (getAgentServices sellerVerusId) w1) (api_services agent))"

definition do_logout :: "http_env \<Rightarrow> (net \<Rightarrow> unit run) option \<Rightarrow> net \<Rightarrow> unit run" where
  "do_logout env reauth w = bind_run (call_endpoint env reauth logout w) (\<lambda>_ w1. returns () (w1\<lparr>n_token := None\<rparr>))"

section \<open>The calls that use \<open>fetch\<close> directly\<close>

definition read_json :: "http_env \<Rightarrow> http_response \<Rightarrow> (api_error, jv) result" where
  "read_json env r = (case rs_body r of
       Some (cs, False) \<Rightarrow> (case he_parse env (he_decode env cs) of None \<Rightarrow> Inl JsonFault | Some v \<Rightarrow> Inr v)
     | _ \<Rightarrow> Inl JsonFault)"

definition drop_session :: "http_response \<Rightarrow> net \<Rightarrow> net" where
  "drop_session r w = (if rs_status r \<in> {401, 403} then w\<lparr>n_token := None\<rparr> else w)"

definition take_upload :: "http_env \<Rightarrow> fetch_answer \<Rightarrow> net \<Rightarrow> jv run" where
  "take_upload env a w = (case a of
       Aborted \<Rightarrow> throws AbortFault w
     | NetworkError \<Rightarrow> throws Network w
     | Answer r \<Rightarrow> (case read_json env r of
           Inl e \<Rightarrow> throws e w
         | Inr data \<Rightarrow>
             if \<not> is_okay r then throws (http_error r data) (drop_session r w)
             else if nullish data then throws TypeFault w else returns (jget data ''data'') w))"

definition uploadFile :: "http_env \<Rightarrow> string \<Rightarrow> jv \<Rightarrow> net \<Rightarrow> jv run" where
  "uploadFile env jobId form w =
     (let (a, w1) = send \<lparr>rl_method = ''POST'', rl_path = path_text [S ''v1'', S ''jobs'', A jobId, S ''files''],
                          rl_cookie = truthy_token (n_token w), rl_body = Some form\<rparr> w in take_upload env a w1)"

text \<open>The first match of \<open>/filename="([^"]+)"/\<close>.\<close>

fun filename_match :: "string \<Rightarrow> string option" where
  "filename_match [] = None"
| "filename_match (c # s) =
     (let t = drop 10 (c # s); v = takeWhile (\<lambda>x. x \<noteq> CHR 0x22) t in
      if starts_with (c # s) (''filename='' @ [CHR 0x22]) \<and> v \<noteq> [] \<and> v \<noteq> t then Some v else filename_match s)"

record download =
  dl_data :: "string list"
  dl_filename :: string
  dl_mime :: string
  dl_checksum :: string

definition header_or :: "string option \<Rightarrow> string \<Rightarrow> string" where
  "header_or h d = (case h of None \<Rightarrow> d | Some v \<Rightarrow> if v = [] then d else v)"

definition download_error :: "http_env \<Rightarrow> http_response \<Rightarrow> api_error" where
  "download_error env r =
     (let e = jget (case read_json env r of Inl _ \<Rightarrow> JObj [] | Inr v \<Rightarrow> v) ''error'' in
      HttpError (or_else (jget e ''message'') (JStr (''HTTP '' @ show_nat (rs_status r)))) (or_else (jget e ''code'') (JStr ''HTTP_ERROR''))
        (rs_status r) None)"

text \<open>\<open>hdr\<close> reads a header of a response.\<close>

definition take_download :: "http_env \<Rightarrow> (http_response \<Rightarrow> string \<Rightarrow> string option) \<Rightarrow> fetch_answer \<Rightarrow> net \<Rightarrow> download run" where
  "take_download env hdr a w = (case a of
       Aborted \<Rightarrow> throws AbortFault w
     | NetworkError \<Rightarrow> throws Network w
     | Answer r \<Rightarrow>
         if \<not> is_okay r then throws (download_error env r) (drop_session r w)
         else (case rs_body r of
             Some (_, True) \<Rightarrow> throws Network w
           | b \<Rightarrow> returns \<lparr>dl_data = (case b of None \<Rightarrow> [] | Some (cs, _) \<Rightarrow> cs),
               dl_filename = header_or (filename_match (header_or (hdr r ''content-disposition'') [])) ''download'',
               dl_mime = header_or (hdr r ''content-type'') ''application/octet-stream'',
               dl_checksum = header_or (hdr r ''x-checksum-sha256'') []\<rparr> w))"

definition downloadFile ::
  "http_env \<Rightarrow> (http_response \<Rightarrow> string \<Rightarrow> string option) \<Rightarrow> string \<Rightarrow> string \<Rightarrow> net \<Rightarrow> download run" where
  "downloadFile env hdr jobId fileId w =
     (let (a, w1) = send \<lparr>rl_method = ''GET'', rl_path = path_text [S ''v1'', S ''jobs'', A jobId, S ''files'', A fileId],
                          rl_cookie = truthy_token (n_token w), rl_body = None\<rparr> w in take_download env hdr a w1)"

definition take_login :: "http_env \<Rightarrow> string \<Rightarrow> http_response \<Rightarrow> jv \<Rightarrow> net \<Rightarrow> (jv \<times> jv) run" where
  "take_login env verusId r data w =
     (if \<not> is_okay r then throws (http_error r data) w
      else bind_run (case cookie_match (header_or (rs_cookie r) []) of None \<Rightarrow> returns () w | Some t \<Rightarrow> setSessionToken t w) (\<lambda>_ w1.
        if nullish data then throws TypeFault w1
        else let d = jget data ''data''; or_null = (\<lambda>v x. if nullish v then x else v) in
          returns (or_null (jget d ''identityName'') (JStr verusId), or_null (jget d ''identityAddress'') (JStr [])) w1))"

definition client_login :: "http_env \<Rightarrow> string \<Rightarrow> string \<Rightarrow> string \<Rightarrow> net \<Rightarrow> (jv \<times> jv) run" where
  "client_login env challengeId verusId signature w =
     (case send \<lparr>rl_method = ''POST'', rl_path = path_text [S ''auth'', S ''consent'', S ''verify''], rl_cookie = None,
         rl_body = Some (JObj [(''challengeId'', JStr challengeId), (''verusId'', JStr verusId), (''signature'', JStr signature)])\<rparr> w of
       (Aborted, w1) \<Rightarrow> throws AbortFault w1
     | (NetworkError, w1) \<Rightarrow> throws Network w1
     | (Answer r, w1) \<Rightarrow> (case read_json env r of Inl e \<Rightarrow> throws e w1 | Inr data \<Rightarrow> take_login env verusId r data w1))"

text \<open>A call through a seller's proxy, with the buyer's key for it.\<close>

definition proxied_url :: "string \<Rightarrow> string \<Rightarrow> string" where
  "proxied_url endpointUrl path =
     (let base = (if endpointUrl \<noteq> [] \<and> last endpointUrl = CHR ''/'' then butlast endpointUrl else endpointUrl);
          p = (if path = [] then ''/v1/chat/completions'' else path) in
      base @ (if starts_with p ''/'' then [] else ''/'') @ p)"

record proxy_result =
  px_ok :: bool
  px_status :: nat
  px_body :: jv
  px_session :: "string option"
  px_credit :: "jsnum option"
  px_model :: "string option"

definition proxy_body :: "http_env \<Rightarrow> bool \<Rightarrow> http_response \<Rightarrow> jv option" where
  "proxy_body env stream r =
     (if stream then Some JNull
      else case rs_body r of
        Some (_, True) \<Rightarrow> None
      | b \<Rightarrow> (let t = (case b of None \<Rightarrow> [] | Some (cs, _) \<Rightarrow> he_decode env cs) in
          case he_parse env t of None \<Rightarrow> Some (JStr t) | Some v \<Rightarrow> Some v))"

definition proxy_error :: "http_response \<Rightarrow> jv \<Rightarrow> api_error" where
  "proxy_error r body = HttpError (or_else (jget body ''error'') (JStr (''HTTP '' @ show_nat (rs_status r)))) JUndef (rs_status r) None"

definition take_proxied ::
  "http_env \<Rightarrow> (http_response \<Rightarrow> string \<Rightarrow> string option) \<Rightarrow> bool \<Rightarrow> fetch_answer \<Rightarrow> (api_error, proxy_result) result" where
  "take_proxied env hdr stream a = (case a of
       Aborted \<Rightarrow> Inl AbortFault
     | NetworkError \<Rightarrow> Inl Network
     | Answer r \<Rightarrow> (case proxy_body env stream r of
           None \<Rightarrow> Inl Network
         | Some body \<Rightarrow>
             if \<not> is_okay r \<and> \<not> stream then Inl (proxy_error r body)
             else Inr \<lparr>px_ok = is_okay r, px_status = rs_status r, px_body = body, px_session = hdr r ''x-j41-session'',
               px_credit = map_option parse_float (hdr r ''x-j41-credit-remaining''), px_model = hdr r ''x-j41-model''\<rparr>))"

section \<open>An address is read as it was meant\<close>

lemma lit_segments [simp]: "lit_ok s = (s \<noteq> [] \<and> list_all (\<lambda>c. is_lower c \<or> is_digit c \<or> c = CHR ''-'') s)"
  by (simp add: lit_ok_def)

definition args_ok :: "endpoint \<Rightarrow> bool" where
  "args_ok e = (list_all (\<lambda>x. case x of A s \<Rightarrow> s \<noteq> ''.'' \<and> s \<noteq> ''..'' | _ \<Rightarrow> True) (ep_path e)
     \<and> (case ep_query e of Inline k v \<Rightarrow> list_all form_plain v | _ \<Rightarrow> True))"

lemma client_call_shape:
  assumes "client_call ns e" "args_ok e" "\<forall>i. e \<noteq> getWorkspaceStatus i"
  shows "ep_path e \<noteq> [] \<and> list_all seg_ok (ep_path e) \<and> query_ok (ep_query e)"
  using assms
  by (cases rule: client_call.cases)
    (simp_all add: endpoint_defs args_ok_def is_lower_def is_digit_def form_plain_def split: if_splits)



text \<open>The operation whose argument is not encoded, and a dot segment, reach other operations.\<close>

lemma workspace_status_raw:
  "fst (read_url (endpoint_url (getWorkspaceStatus ''x/../../me/identity/raw''))) = [''v1'', ''me'', ''identity'', ''raw'']"
  by code_simp

lemma dot_segment_escapes:
  "fst (read_url (endpoint_url (rejectHeldMessage ''j'' ''..'' ))) = [''v1'', ''jobs'', ''j'', ''reject'']"
  "fst (read_url (endpoint_url (approveExtension ''j'' ''..'' ))) = [''v1'', ''jobs'', ''j'', ''approve'']"
  by code_simp+

section \<open>Errors and the session\<close>

text \<open>An unknown history is never an empty one: the answer 404 is an error of its own.\<close>

lemma history_unknown_is_an_error:
  "fst (getIdentityHistory env reauth ns params w) = Some (Inr v) \<longleftrightarrow> fst (call_endpoint env reauth (historyRequest ns params) w) = Some (Inr v)"
  "fst (call_endpoint env reauth (historyRequest ns params) w) = Some (Inl e) \<Longrightarrow> status_code e = Some 404 \<Longrightarrow>
     fst (getIdentityHistory env reauth ns params w) = Some (Inl history_unavailable)"
  by (cases "call_endpoint env reauth (historyRequest ns params) w";
      simp add: getIdentityHistory_def throws_def split: option.split sum.split)+

lemma jailbox_parked: "call_jailbox False env reauth e w = throws JailboxParked w"
  by (simp add: call_jailbox_def)

text \<open>A download that is refused drops the session; an upload does so only when the refusal's body is JSON.\<close>

lemma download_drops_session:
  assumes "n_answers w (length (n_sent w)) = Answer r" "rs_status r \<in> {401, 403}"
  shows "n_token (snd (downloadFile env hdr j f w)) = None"
  using assms by (auto simp: downloadFile_def send_def take_download_def is_okay_def drop_session_def)

lemma upload_keeps_refused_session:
  assumes "n_answers w (length (n_sent w)) = Answer r" "rs_status r \<in> {401, 403}" "read_json env r = Inl e"
  shows "uploadFile env j form w = (Some (Inl e), snd (uploadFile env j form w)) \<and> n_token (snd (uploadFile env j form w)) = n_token w"
  using assms by (auto simp: uploadFile_def send_def take_upload_def throws_def)

lemma proxied_failure: "take_proxied env hdr False a = Inr res \<Longrightarrow> px_ok res"
  by (auto simp: take_proxied_def split: fetch_answer.splits option.splits if_splits)

end
