(* ===== verification/AgentChat.thy ===== *)
theory AgentChat
  imports AgentLife Endpoints
begin

text \<open>
  How an agent opens its chat and hands files over, \<open>connectChat\<close>, \<open>uploadFile\<close>, \<open>uploadFileData\<close> and \<open>requestBudget\<close> of
  \<open>src/agent.ts\<close>: the previous client is closed, the new one opened with the session's token, the rooms of the seller's open jobs
  are joined, and the events of jobs lead to the hooks of \<open>AgentLife\<close>. The chat client itself is in \<open>Chat\<close>, the requests in
  \<open>Session\<close> and \<open>Endpoints\<close>.
\<close>

section \<open>Opening the chat\<close>

datatype chat_call = CloseChat | OpenChat string | JoinRoom jv

definition seller_jobs :: "http_env \<Rightarrow> login_cfg \<Rightarrow> (jv \<Rightarrow> string) \<Rightarrow> string \<Rightarrow> net \<Rightarrow> jv run" where
  "seller_jobs env c ns st =
     call_endpoint env (Some (login env c)) (getMyJobs ns (JObj [(''status'', JStr st), (''role'', JStr ''seller'')]))"

text \<open>\<open>...(answer.data || [])\<close>: a text is spread into its characters, what cannot be iterated is an error.\<close>

definition spread_data :: "jv \<Rightarrow> jv list option" where
  "spread_data a = (if nullish a then None
     else if \<not> jtruthy (jget a ''data'') then Some []
     else (case jget a ''data'' of JArr xs \<Rightarrow> Some xs | JStr s \<Rightarrow> Some (map (\<lambda>ch. JStr [ch]) s) | _ \<Rightarrow> None))"

definition active_jobs :: "http_env \<Rightarrow> login_cfg \<Rightarrow> (jv \<Rightarrow> string) \<Rightarrow> net \<Rightarrow> jv list run" where
  "active_jobs env c ns w =
     bind_run (seller_jobs env c ns ''accepted'' w) (\<lambda>a. \<lambda>w1.
       bind_run (seller_jobs env c ns ''in_progress'' w1) (\<lambda>b.
         (case (spread_data a, spread_data b) of (Some xs, Some ys) \<Rightarrow> returns (xs @ ys) | _ \<Rightarrow> throws TypeFault)))"

text \<open>The loop over the jobs ends at the first that has no properties.\<close>

definition rooms_of :: "jv list \<Rightarrow> chat_call list" where
  "rooms_of js = map (\<lambda>j. JoinRoom (jget j ''id'')) (takeWhile (\<lambda>j. \<not> nullish j) js)"

text \<open>\<open>refused\<close>: whether the connection fails; \<open>old\<close>: whether there is a client already.\<close>

definition connectChat ::
  "http_env \<Rightarrow> login_cfg \<Rightarrow> (jv \<Rightarrow> string) \<Rightarrow> api_error option \<Rightarrow> bool \<Rightarrow> net \<Rightarrow> unit run \<times> chat_call list" where
  "connectChat env c ns refused old w =
     (if \<not> truthy_str (n_token w) then (throws NoSession w, [])
      else let opened = (if old then [CloseChat] else []) @ [OpenChat (the (n_token w))] in
        (case refused of
           Some e \<Rightarrow> (throws e w, opened)
         | None \<Rightarrow> (case active_jobs env c ns w of
             (None, w1) \<Rightarrow> ((None, w1), opened)
           | (Some (Inl e), w1) \<Rightarrow> (returns () w1, opened)
           | (Some (Inr js), w1) \<Rightarrow> (returns () w1, opened @ rooms_of js))))"

section \<open>Events of jobs\<close>

text \<open>What an event leads to; an error is emitted and not thrown.\<close>

datatype reaction = Hook job_hook jv | EndingHook jv | Delivery string | NoReaction

definition job_of :: "http_env \<Rightarrow> login_cfg \<Rightarrow> string \<Rightarrow> net \<Rightarrow> jv run" where
  "job_of env c jobId = call_endpoint env (Some (login env c)) (getJob jobId)"

definition status_changed :: "http_env \<Rightarrow> login_cfg \<Rightarrow> job_hooks option \<Rightarrow> string \<Rightarrow> string \<Rightarrow> net \<Rightarrow> reaction run" where
  "status_changed env c h jobId st w = (case h of
       None \<Rightarrow> returns NoReaction w
     | Some h \<Rightarrow> bind_run (job_of env c jobId w) (\<lambda>job.
         returns (case status_hook h st of None \<Rightarrow> NoReaction | Some k \<Rightarrow> Hook k job)))"

definition session_ending :: "http_env \<Rightarrow> login_cfg \<Rightarrow> job_hooks option \<Rightarrow> string \<Rightarrow> net \<Rightarrow> reaction run" where
  "session_ending env c h jobId w = (case ending_action h of
       AutoDeliver \<Rightarrow> returns (Delivery jobId) w
     | CallHook \<Rightarrow> bind_run (job_of env c jobId w) (\<lambda>job. returns (EndingHook job)))"

section \<open>Files and budgets\<close>

text \<open>\<open>form bytes name mime\<close> is the form of an upload; \<open>None\<close>: the file cannot be read.\<close>

definition agent_upload ::
  "http_env \<Rightarrow> (nat list \<Rightarrow> string \<Rightarrow> string option \<Rightarrow> jv) \<Rightarrow> string list \<Rightarrow> node \<Rightarrow> string \<Rightarrow> string \<Rightarrow> net \<Rightarrow> jv run option" where
  "agent_upload env form cwd t jobId path w = (case tree_lookup t (path_resolve cwd path) of
       Some (FFile bytes) \<Rightarrow> Some (uploadFile env jobId (form bytes (basename path) None) w)
     | _ \<Rightarrow> None)"

definition uploadFileData ::
  "http_env \<Rightarrow> (nat list \<Rightarrow> string \<Rightarrow> string option \<Rightarrow> jv) \<Rightarrow> string \<Rightarrow> nat list \<Rightarrow> string \<Rightarrow> string option \<Rightarrow> net \<Rightarrow> jv run" where
  "uploadFileData env form jobId bytes filename mimeType = uploadFile env jobId (form bytes filename mimeType)"

definition agent_budget :: "http_env \<Rightarrow> login_cfg \<Rightarrow> string \<Rightarrow> jv \<Rightarrow> net \<Rightarrow> jv run" where
  "agent_budget env c jobId params = call_endpoint env (Some (login env c)) (requestBudget jobId params)"

section \<open>What opening a chat does\<close>

text \<open>Once the chat is open, a failure to find the rooms never fails the call.\<close>

lemma open_chat_never_fails:
  "truthy_str (n_token w) \<Longrightarrow> fst (fst (connectChat env c ns None old w)) \<noteq> Some (Inl e)"
  by (auto simp: connectChat_def returns_def Let_def split: prod.splits option.splits sum.splits)

text \<open>There is one open client afterwards: an old one is closed before the new one is opened, and rooms are joined after that.\<close>

lemma chat_calls:
  assumes "truthy_str (n_token w)"
  shows "\<exists>rooms. snd (connectChat env c ns refused old w) = (if old then [CloseChat] else []) @ OpenChat (the (n_token w)) # rooms
    \<and> (\<forall>r \<in> set rooms. \<exists>j. r = JoinRoom j)"
  using assms by (auto simp: connectChat_def rooms_of_def Let_def split: prod.splits option.splits sum.splits)

text \<open>Every job of two lists of objects gets its room; when the second list cannot be had, those of the first get none either.\<close>

lemma all_rooms_joined:
  assumes "truthy_str (n_token w)" "active_jobs env c ns w = (Some (Inr js), w1)" "list_all (\<lambda>j. \<not> nullish j) js"
  shows "snd (connectChat env c ns None old w)
    = (if old then [CloseChat] else []) @ OpenChat (the (n_token w)) # map (\<lambda>j. JoinRoom (jget j ''id'')) js"
proof -
  have "takeWhile (\<lambda>j. \<not> nullish j) js = js" using assms(3) by (simp add: list_all_iff takeWhile_eq_all_conv)
  then have "rooms_of js = map (\<lambda>j. JoinRoom (jget j ''id'')) js" by (simp only: rooms_of_def)
  then show ?thesis using assms(1,2) by (simp add: connectChat_def Let_def)
qed

lemma half_a_list_joins_none:
  assumes "truthy_str (n_token w)" "seller_jobs env c ns ''accepted'' w = (Some (Inr a), w1)"
    and "seller_jobs env c ns ''in_progress'' w1 = (Some (Inl e), w2)"
  shows "connectChat env c ns None False w = (returns () w2, [OpenChat (the (n_token w))])"
  using assms by (simp add: connectChat_def active_jobs_def bind_run_def throws_def)

text \<open>Without a handler nothing is asked of the platform when a job changes.\<close>

lemma no_handler_no_request: "status_changed env c None j st w = returns NoReaction w"
  by (simp add: status_changed_def)

end
