(* ===== verification/Vdxf.thy ===== *)
theory Vdxf
  imports JsValue
begin

text \<open>
  On-chain profile data, \<open>src/onboarding/vdxf.ts\<close>: the table of VDXF keys, sub-DataDescriptors,
  the size guard, resolving a field reference, building a flat contentmultimap, and decoding one
  that any identity may have published, in the flat or the legacy parent-keyed format. Values are
  JSON values; the text of JSON (\<open>JSON.parse\<close>, \<open>JSON.stringify\<close>), \<open>String\<close>, \<open>Number\<close> on a value
  and decoding hex to text are the functions of the record \<open>jslib\<close>. Property reads see own
  properties only.
\<close>

record jslib =
  json_parse :: "string \<Rightarrow> jv option"
  json_stringify :: "jv \<Rightarrow> string"
  to_string :: "jv \<Rightarrow> string"
  to_number :: "jv \<Rightarrow> jsnum"
  hex_text :: "string \<Rightarrow> string"
  text_hex :: "string \<Rightarrow> string"

section \<open>The key tables\<close>

definition DATA_DESCRIPTOR_KEY :: string where
  "DATA_DESCRIPTOR_KEY = ''i4GC1YGEVD21afWudGoFJVdnfjJ5XWnCQv''"

definition MULTIMAPREMOVE_KEY :: string where
  "MULTIMAPREMOVE_KEY = ''i5Zkx5Z7tEfh42xtKfwbJ5LgEWE9rEgpFY''"

definition PARENT_KEYS :: "(string, string) jsmap" where
  "PARENT_KEYS = [(''agent'', ''i8XMutgp1MRNoFoHQuzZ4ReowJd9NvCgDP''), (''service'', ''i8pfR86vr8qbTPHbhmNQFJo8MYSWKv2TZD''),
     (''review'', ''iMTQf3r1icnRfKLNtr5eByLKXZfsSzUt5f''), (''session'', ''iGxK7ke8RptD2mkhmUgjMASFysopezAT4n''),
     (''platform'', ''iMc951yUdCup5rFgZb8nwDFhkdd8Fktg2a''), (''bounty'', ''i5L3iHEG4sFm4Lp5HSN1NLLxKQUfFaoU8S''),
     (''workspace'', ''iEibMMaoeMGjoSLSY61wSPB8Qy5rXnXjAk''), (''job'', ''iC6GEa5mq15EBatbHiwVtd53QHb8HiEDnT'')]"

definition keys_agent :: "(string, string) jsmap" where
  "keys_agent = [(''displayName'', ''iKkdwxhdupLgf7v2qn4JGBQHntsBb17kjW''),
     (''type'', ''iNxeLSDFARVQezfEt4i8CBZjTSRpFTPAyP''),
     (''description'', ''iQr3yKEn2DXaG4GQGVAVYivC3jwcvScfzk''),
     (''status'', ''iLy373iaKafmRCY43ahty4m8aLQx32y8Fh''),
     (''payAddress'', ''iRxxUvbDXJT5wVpnx7oc9nkYALCoDh6aTD''),
     (''services'', ''i8Wk7fcbsBWtcf965Z3WvDUjahF1aTH1tu''),
     (''models'', ''iQJUQmdFSmM49cvLJfKLZnuRYsjXSmTTHY''),
     (''markup'', ''iBLx3rga8DewiN6gyQyC5avFin8fnnojnS''),
     (''networkCapabilities'', ''iF7174LxgcAnu3qZ7iJzSyJYthDJXBzQNw''),
     (''networkEndpoints'', ''i5VzGsiFmJYuRr7b8aUyHzAS8vd9DC4puS''),
     (''networkProtocols'', ''iSAVTXMb9TyWWuDDnWopFhgZpjm21WPigv''),
     (''profileTags'', ''iKM57qfzmgM1sxBgR3XBQa2XCRURZ2YVo2''),
     (''profileWebsite'', ''i7HY93tqfqCkpyKYiNtcDbioAgF8gRL9TQ''),
     (''profileAvatar'', ''iALo91Z75iXZxMvymvQMRwo7GAeHv5veKc''),
     (''profileCategory'', ''iD3quozCGbzJyZ29uvRCeecr12np2dMsvN''),
     (''disputePolicy'', ''iFxerhcrMr2e5eWyvHiXuWHXj2dnhEZF8p'')]"

definition keys_service :: "(string, string) jsmap" where
  "keys_service = [(''schema'', ''i4D2ifpAG7BYnfJZGVT1Tph7BMkp9qZPyS'')]"

definition keys_review :: "(string, string) jsmap" where
  "keys_review = [(''record'', ''iLbUN8TFvMZR9uaZYY1qBmL99bJE2uYdad''),
     (''attestation'', ''i76fJX1DreN81CoRVJHSkrcqHq9nsLomYv'')]"

definition keys_bounty :: "(string, string) jsmap" where
  "keys_bounty = [(''record'', ''i6PC1B9vgVf8bLtHcdsNunLtr6ibtnL7ZC''),
     (''application'', ''iE8Z7gZmAs4NU8AqEJzV9MWHUCoUBQqfum'')]"

definition keys_platform :: "(string, string) jsmap" where
  "keys_platform = [(''config'', ''iMs3n1aCWQh5rmkXCNLRi8WqbzZrq3F7Ye'')]"

definition keys_session :: "(string, string) jsmap" where
  "keys_session = [(''params'', ''iHjLTt9P8Jb1uCYSpVpwXFbwzbPYWW4n8p'')]"

definition keys_workspace :: "(string, string) jsmap" where
  "keys_workspace = [(''attestation'', ''i8xp9AgvueoAHyYXbxNACMgRQfEXF82V5D''),
     (''capability'', ''iMxAXRfTWUkKBmLGEZtEJbKj58kDi1GjZ9'')]"

definition keys_job :: "(string, string) jsmap" where
  "keys_job = [(''record'', ''iPsXc7vcBzAxyjFYfPAs9PUtMLh1EJPHSn'')]"

definition VDXF_KEYS :: "(string, (string, string) jsmap) jsmap" where
  "VDXF_KEYS = [(''agent'', keys_agent), (''service'', keys_service), (''review'', keys_review), (''bounty'', keys_bounty), (''platform'', keys_platform), (''session'', keys_session), (''workspace'', keys_workspace), (''job'', keys_job)]"

definition LEGACY_AGENT_KEYS :: "(string, string) jsmap" where
  "LEGACY_AGENT_KEYS = [(''iEEqjQsh5YDrwMyxyTrHFrMHTqrsPziCqu'', ''owner''),
     (''iJ15GBkMfyMxvEf7wivLKbXRjpqS119QrM'', ''network''), (''iAFyowB5a3W5BLEv6tE7EPHAmGhaYcGJCt'', ''profile'')]"

definition swap_pairs :: "(string, string) jsmap \<Rightarrow> (string, string) jsmap" where
  "swap_pairs m = map (\<lambda>p. (snd p, fst p)) m"

definition getReverseLookup :: "string \<Rightarrow> (string, string) jsmap" where
  "getReverseLookup g = (case map_get VDXF_KEYS g of None \<Rightarrow> [] | Some m \<Rightarrow> swap_pairs m)"

definition LEGACY_AGENT_REVERSE :: "(string, string) jsmap" where
  "LEGACY_AGENT_REVERSE = getReverseLookup ''agent'' @ LEGACY_AGENT_KEYS"

text \<open>The i-address of a field of a group, \<open>VDXF_KEYS.group.field\<close>.\<close>

definition key_of :: "string \<Rightarrow> string \<Rightarrow> string" where
  "key_of g f = (case map_get VDXF_KEYS g of None \<Rightarrow> [] | Some m \<Rightarrow> (case map_get m f of None \<Rightarrow> [] | Some k \<Rightarrow> k))"

definition parent_key :: "string \<Rightarrow> string" where
  "parent_key g = (case map_get PARENT_KEYS g of None \<Rightarrow> [] | Some k \<Rightarrow> k)"

definition all_keys :: "string list" where
  "all_keys = concat (map (\<lambda>g. map snd (snd g)) VDXF_KEYS)"

definition getCanonicalVdxfDefinitionCount :: nat where
  "getCanonicalVdxfDefinitionCount = foldl (\<lambda>n g. n + length (snd g)) 0 VDXF_KEYS"

section \<open>DataDescriptors\<close>

definition makeSubDD :: "string \<Rightarrow> jv \<Rightarrow> jv" where
  "makeSubDD label v = JObj [(DATA_DESCRIPTOR_KEY, JObj [(''version'', JNum (num_int 1)), (''flags'', JNum (num_int 96)),
     (''mimetype'', JStr ''text/plain''), (''objectdata'', JObj [(''message'', v)]), (''label'', JStr label)])]"

definition parseSubDD :: "jslib \<Rightarrow> jv \<Rightarrow> (jv \<times> jv) option" where
  "parseSubDD js entry =
     (let dd = jget entry DATA_DESCRIPTOR_KEY in
      if \<not> (is_object entry \<or> is_array entry) \<or> \<not> jtruthy dd then None
      else let label = (if jtruthy (jget dd ''label'') then jget dd ''label'' else JStr []);
               od = jget dd ''objectdata'' in
      if od = JNull then None
      else if is_object od \<and> has_key od ''message'' then Some (label, jget od ''message'')
      else if is_string od
      then (case json_parse js (hex_text js (str_of od)) of Some v \<Rightarrow> Some (label, v) | None \<Rightarrow> Some (label, od))
      else Some (label, od))"

fun outer_loop :: "jslib \<Rightarrow> (string, string) jsmap \<Rightarrow> jv list \<Rightarrow> (string, jv) jsmap \<Rightarrow> (string, jv) jsmap" where
  "outer_loop js rl [] r = r"
| "outer_loop js rl (e # es) r =
     (case parseSubDD js e of
        None \<Rightarrow> outer_loop js rl es r
      | Some (label, v) \<Rightarrow>
          if \<not> jtruthy label then outer_loop js rl es r
          else let l = to_string js label;
                   name = (case map_get rl l of Some n \<Rightarrow> if n = [] then l else n | None \<Rightarrow> l) in
               outer_loop js rl es (map_set r name v))"

definition parseOuterDD :: "jslib \<Rightarrow> jv \<Rightarrow> (string, string) jsmap \<Rightarrow> (string, jv) jsmap option" where
  "parseOuterDD js entry rl =
     (let dd = jget entry DATA_DESCRIPTOR_KEY in
      if \<not> (is_object entry \<or> is_array entry) \<or> \<not> jtruthy dd then None
      else if \<not> is_array (jget dd ''objectdata'') then None
      else Some (outer_loop js rl (arr_of (jget dd ''objectdata'')) []))"

section \<open>The size guard\<close>

definition MAX_CONTENTMULTIMAP_VALUE_BYTES :: nat where "MAX_CONTENTMULTIMAP_VALUE_BYTES = 5000"

definition byte_length :: "string \<Rightarrow> nat" where
  "byte_length s = sum_list (map (\<lambda>c. if (of_char c :: nat) < 128 then 1 else 2) s)"

definition contentmultimapValueByteSize :: "jslib \<Rightarrow> jv \<Rightarrow> nat" where
  "contentmultimapValueByteSize js v =
     (if is_object v \<or> is_array v
      then let dd = jget v DATA_DESCRIPTOR_KEY; od = jget dd ''objectdata'' in
           if jtruthy dd \<and> \<not> nullish od \<and> is_object od \<and> is_string (jget od ''message'')
           then byte_length (str_of (jget od ''message''))
           else if jtruthy dd \<and> \<not> nullish od \<and> is_string od then (length (str_of od) + 1) div 2
           else byte_length (json_stringify js v)
      else if is_string v
      then let s = str_of v in
           if s \<noteq> [] \<and> list_all is_hex s \<and> even (length s) then length s div 2 else byte_length s
      else byte_length (json_stringify js (if nullish v then JStr [] else v)))"

datatype vdxf_error =
    ValueTooLarge string nat nat
  | UnknownIAddress string
  | UnknownPath string
  | AmbiguousField string "string list"
  | UnknownField string
  | SyntaxError
  | TypeError
  | MissingName
  | MissingParent
  | PrimaryAddressesRequired

text \<open>\<open>Array.isArray(values) ? values : [values]\<close>\<close>

definition as_array :: "jv \<Rightarrow> jv list" where
  "as_array v = (if is_array v then arr_of v else [v])"

definition check_sizes :: "jslib \<Rightarrow> string \<Rightarrow> jv \<Rightarrow> (vdxf_error, unit) result" where
  "check_sizes js k v = each_i 0 (\<lambda>i x. guard_r (contentmultimapValueByteSize js x \<le> MAX_CONTENTMULTIMAP_VALUE_BYTES)
     (ValueTooLarge k i (contentmultimapValueByteSize js x))) (as_array v)"

type_synonym cmm = "(string, jv) jsmap"

definition assertContentmultimapValueSizes :: "jslib \<Rightarrow> cmm \<Rightarrow> (vdxf_error, unit) result" where
  "assertContentmultimapValueSizes js m = each_r (\<lambda>p. check_sizes js (fst p) (snd p)) m"

section \<open>Field references\<close>

definition is_b58 :: "char \<Rightarrow> bool" where
  "is_b58 c = ((is_digit c \<and> c \<noteq> CHR ''0'') \<or> (is_upper c \<and> c \<noteq> CHR ''I'' \<and> c \<noteq> CHR ''O'')
     \<or> (is_lower c \<and> c \<noteq> CHR ''l''))"

definition i_addr_re :: "string \<Rightarrow> bool" where
  "i_addr_re s = (length s = 34 \<and> hd s = CHR ''i'' \<and> list_all is_b58 (tl s))"

definition leaf_matches :: "string \<Rightarrow> (string \<times> string) list" where
  "leaf_matches ref = concat (map (\<lambda>g. case map_get (snd g) ref of
     Some k \<Rightarrow> if k = [] then [] else [(fst g @ ''.'' @ ref, k)] | None \<Rightarrow> []) VDXF_KEYS)"

definition resolveVdxfFieldRef :: "string \<Rightarrow> (vdxf_error, string) result" where
  "resolveVdxfFieldRef ref =
     (if i_addr_re ref
      then if \<exists>g \<in> set VDXF_KEYS. ref \<in> set (map snd (snd g)) then Inr ref else Inl (UnknownIAddress ref)
      else if CHR ''.'' \<in> set ref
      then let k = key_of (takeWhile (\<lambda>c. c \<noteq> CHR ''.'') ref) (tl (dropWhile (\<lambda>c. c \<noteq> CHR ''.'') ref)) in
           if k = [] then Inl (UnknownPath ref) else Inr k
      else case leaf_matches ref of
             [m] \<Rightarrow> Inr (snd m)
           | [] \<Rightarrow> Inl (UnknownField ref)
           | ms \<Rightarrow> Inl (AmbiguousField ref (map fst ms)))"

definition encodeVdxfValue :: "jslib \<Rightarrow> jv \<Rightarrow> string" where
  "encodeVdxfValue js v = text_hex js (json_stringify js v)"

definition decodeVdxfValue :: "jslib \<Rightarrow> string \<Rightarrow> jv" where
  "decodeVdxfValue js hex = (case json_parse js (hex_text js hex) of Some v \<Rightarrow> v | None \<Rightarrow> JStr (hex_text js hex))"

section \<open>Building a flat contentmultimap\<close>

definition or_else :: "jv \<Rightarrow> jv \<Rightarrow> jv" where
  "or_else a b = (if jtruthy a then a else b)"

text \<open>\<open>xs?.length\<close> as a condition, for an array.\<close>

definition nonempty_array :: "jv \<Rightarrow> bool" where
  "nonempty_array v = (is_array v \<and> arr_of v \<noteq> [])"

definition price_entry :: "jslib \<Rightarrow> jv \<Rightarrow> jv \<Rightarrow> jv" where
  "price_entry js currency price = JObj [(''currency'', currency), (''amount'', JStr (to_string js price))]"

definition service_pricing :: "jslib \<Rightarrow> jv \<Rightarrow> jv list" where
  "service_pricing js svc =
     (if \<not> nullish (jget svc ''price'') \<and> jtruthy (jget svc ''currency'')
      then [price_entry js (jget svc ''currency'') (jget svc ''price'')] else [])
   @ (if nonempty_array (jget svc ''acceptedCurrencies'')
      then map (\<lambda>ac. price_entry js (jget ac ''currency'') (jget ac ''price'')) (arr_of (jget svc ''acceptedCurrencies'')) else [])"

definition serializeService :: "jslib \<Rightarrow> jv \<Rightarrow> jv" where
  "serializeService js svc =
     (let f = jget svc; pricing = service_pricing js svc; truthy = (\<lambda>k. opt_field (jtruthy (f k)) k (f k));
          given = (\<lambda>k. opt_field (\<not> nullish (f k)) k (f k)) in
      JObj ([(''name'', f ''name''), (''status'', or_else (f ''status'') (JStr ''active''))]
        @ truthy ''description'' @ truthy ''category''
        @ opt_field (pricing \<noteq> []) ''pricing'' (JArr pricing)
        @ truthy ''turnaround'' @ truthy ''paymentTerms''
        @ given ''privateMode'' @ given ''sovguard'' @ given ''resolutionWindow''
        @ truthy ''refundPolicy'' @ truthy ''costBreakdown''))"

definition serializeServiceArray :: "jslib \<Rightarrow> jv list \<Rightarrow> jv" where
  "serializeServiceArray js services = JArr (map (serializeService js) services)"

text \<open>One entry of the flat map: the key's own sub-DataDescriptor, alone in its list.\<close>

definition flat_entry :: "string \<Rightarrow> jv \<Rightarrow> string \<times> jv" where
  "flat_entry k v = (k, JArr [makeSubDD k v])"

definition entry_if :: "bool \<Rightarrow> string \<Rightarrow> jv \<Rightarrow> cmm" where
  "entry_if c k v = (if c then [flat_entry k v] else [])"

definition K :: "string \<Rightarrow> string" where
  "K f = key_of ''agent'' f"

definition network_entries :: "jslib \<Rightarrow> jv \<Rightarrow> cmm" where
  "network_entries js net =
     (let j = (\<lambda>v. JStr (json_stringify js v)) in
      if \<not> jtruthy net then [] else
        entry_if (nonempty_array (jget net ''capabilities'')) (K ''networkCapabilities'') (j (jget net ''capabilities''))
      @ entry_if (nonempty_array (jget net ''endpoints'')) (K ''networkEndpoints'') (j (jget net ''endpoints''))
      @ entry_if (nonempty_array (jget net ''protocols'')) (K ''networkProtocols'') (j (jget net ''protocols'')))"

definition blob_entries :: "jslib \<Rightarrow> jv \<Rightarrow> cmm" where
  "blob_entries js pb =
     (if \<not> jtruthy pb then [] else
        entry_if (nonempty_array (jget pb ''tags'')) (K ''profileTags'') (JStr (json_stringify js (jget pb ''tags'')))
      @ entry_if (jtruthy (jget pb ''website'')) (K ''profileWebsite'') (jget pb ''website'')
      @ entry_if (jtruthy (jget pb ''avatar'')) (K ''profileAvatar'') (jget pb ''avatar'')
      @ entry_if (jtruthy (jget pb ''category'')) (K ''profileCategory'') (jget pb ''category''))"

definition markup_in_range :: "jv \<Rightarrow> bool" where
  "markup_in_range v = (\<not> nullish v \<and> js_le (num_int 1) (num_of v) \<and> js_le (num_of v) (num_int 50))"

definition nonempty_object :: "jv \<Rightarrow> bool" where
  "nonempty_object v = (jtruthy v \<and> jkeys v \<noteq> [])"

definition buildAgentContentMultimap :: "jslib \<Rightarrow> jv \<Rightarrow> jv list \<Rightarrow> jv \<Rightarrow> cmm" where
  "buildAgentContentMultimap js profile services disputePolicy =
     (let f = jget profile; j = (\<lambda>v. JStr (json_stringify js v));
          svc = entry_if (services \<noteq> []) (K ''services'') (j (serializeServiceArray js services)) in
      if jtruthy profile then
        [flat_entry (K ''displayName'') (f ''name''), flat_entry (K ''type'') (f ''type''),
         flat_entry (K ''description'') (f ''description''), flat_entry (K ''status'') (JStr ''active'')]
      @ entry_if (jtruthy (f ''payAddress'')) (K ''payAddress'') (f ''payAddress'')
      @ svc
      @ network_entries js (f ''network'')
      @ blob_entries js (f ''profile'')
      @ entry_if (nonempty_array (f ''models'')) (K ''models'') (j (f ''models''))
      @ entry_if (markup_in_range (f ''markup'')) (K ''markup'') (JStr (to_string js (f ''markup'')))
      @ entry_if (nonempty_object (f ''session'')) (key_of ''session'' ''params'') (j (f ''session''))
      @ entry_if (nonempty_object (f ''platformConfig'')) (key_of ''platform'' ''config'') (j (f ''platformConfig''))
      @ entry_if (jtruthy (f ''workspaceCapability'')) (key_of ''workspace'' ''capability'') (j (f ''workspaceCapability''))
      @ entry_if (jtruthy disputePolicy) (K ''disputePolicy'') (j disputePolicy)
      else svc)"

section \<open>Decoding\<close>

definition cget :: "cmm \<Rightarrow> string \<Rightarrow> jv" where
  "cget m k = (case map_get m k of Some v \<Rightarrow> v | None \<Rightarrow> JUndef)"

definition isLegacyFormat :: "cmm \<Rightarrow> bool" where
  "isLegacyFormat m = (if \<not> jtruthy (cget m (parent_key ''agent'')) then False
     else \<not> (\<exists>k \<in> set (map snd keys_agent). jtruthy (cget m k)))"

text \<open>The value of the last entry; \<open>null\<close> when there is none. A value that is no list has no entries.\<close>

definition parseFlatEntry :: "jslib \<Rightarrow> jv \<Rightarrow> jv" where
  "parseFlatEntry js entries =
     (if \<not> nonempty_array entries then JNull
      else case parseSubDD js (last (arr_of entries)) of
        None \<Rightarrow> JNull | Some (_, v) \<Rightarrow> if v = JUndef then JNull else v)"

definition tryParseJson :: "jslib \<Rightarrow> jv \<Rightarrow> jv" where
  "tryParseJson js v = (if is_string v then (case json_parse js (str_of v) of Some w \<Rightarrow> w | None \<Rightarrow> v) else v)"

definition VDXF_MAX_SERVICES :: nat where "VDXF_MAX_SERVICES = 100"

definition VDXF_MAX_PRICE :: jsnum where "VDXF_MAX_PRICE = num_int 1000000000"

definition VDXF_MAX_NUMBER :: jsnum where "VDXF_MAX_NUMBER = num_int 1000000000000"

definition safeNumber :: "jslib \<Rightarrow> jv \<Rightarrow> jsnum \<Rightarrow> jsnum \<Rightarrow> jsnum option" where
  "safeNumber js v lo hi =
     (let n = (if is_number v then num_of v else to_number js v) in
      if \<not> is_finite n \<or> js_lt n lo \<or> js_lt hi n then None else Some n)"

definition isVerusAddress :: "jv \<Rightarrow> bool" where
  "isVerusAddress v = (is_string v \<and> (case str_of v of [] \<Rightarrow> False
     | c # r \<Rightarrow> (c = CHR ''R'' \<or> c = CHR ''i'') \<and> 25 \<le> length r \<and> length r \<le> 40 \<and> list_all is_b58 r))"

text \<open>A property read throws on \<open>null\<close> and \<open>undefined\<close>; \<open>JSON.parse\<close> of a string may throw.\<close>

definition jfield :: "jv \<Rightarrow> string \<Rightarrow> (vdxf_error, jv) result" where
  "jfield v k = (if nullish v then Inl TypeError else Inr (jget v k))"

definition parse_if_string :: "jslib \<Rightarrow> jv \<Rightarrow> (vdxf_error, jv) result" where
  "parse_if_string js v = (if is_string v
     then (case json_parse js (str_of v) of Some w \<Rightarrow> Inr w | None \<Rightarrow> Inl SyntaxError) else Inr v)"

definition opt_num :: "jsnum option \<Rightarrow> jv" where
  "opt_num n = (case n of None \<Rightarrow> JUndef | Some x \<Rightarrow> JNum x)"

definition coalesce :: "jv \<Rightarrow> jv \<Rightarrow> jv" where
  "coalesce a b = (if nullish a then b else a)"

definition entry_price :: "jslib \<Rightarrow> jv \<Rightarrow> (vdxf_error, jsnum option) result" where
  "entry_price js p = bind_r (jfield p ''amount'') (\<lambda>a. bind_r (jfield p ''price'') (\<lambda>b.
     Inr (safeNumber js (coalesce a b) (num_int 0) VDXF_MAX_PRICE)))"

text \<open>The further prices of a service: unusable ones are dropped.\<close>

fun accepted_currencies :: "jslib \<Rightarrow> jv list \<Rightarrow> (vdxf_error, jv list) result" where
  "accepted_currencies js [] = Inr []"
| "accepted_currencies js (p # ps) =
     bind_r (entry_price js p) (\<lambda>price. bind_r (accepted_currencies js ps) (\<lambda>rest.
     Inr (case price of None \<Rightarrow> rest
          | Some n \<Rightarrow> JObj [(''currency'', jget p ''currency''), (''price'', JNum n)] # rest)))"

definition decode_pricing :: "jslib \<Rightarrow> jv \<Rightarrow> (vdxf_error, jv \<times> jv \<times> jv list option) result" where
  "decode_pricing js pricing =
     (if \<not> is_array pricing then Inr (JUndef, JUndef, None)
      else case take 50 (arr_of pricing) of
        [] \<Rightarrow> Inr (JUndef, JUndef, None)
      | p # ps \<Rightarrow> bind_r (entry_price js p) (\<lambda>price.
          if ps = [] then Inr (opt_num price, jget p ''currency'', None)
          else bind_r (accepted_currencies js ps) (\<lambda>acc. Inr (opt_num price, jget p ''currency'', Some acc))))"

definition decode_flag :: "jv \<Rightarrow> jv" where
  "decode_flag v = (if nullish v then JUndef else JBool (v = JBool True \<or> v = JStr ''true''))"

text \<open>\<open>if (svc.k) out.k = typeof svc.k === 'string' ? JSON.parse(svc.k) : svc.k\<close>\<close>

definition opt_json :: "jslib \<Rightarrow> jv \<Rightarrow> string \<Rightarrow> (vdxf_error, (string \<times> jv) list) result" where
  "opt_json js svc k = (if jtruthy (jget svc k)
     then bind_r (parse_if_string js (jget svc k)) (\<lambda>v. Inr [(k, v)]) else Inr [])"

definition decode_window :: "jslib \<Rightarrow> jv \<Rightarrow> jsnum option" where
  "decode_window js v = (if nullish v then None else safeNumber js v (num_int 0) VDXF_MAX_NUMBER)"

definition decode_service :: "jslib \<Rightarrow> jv \<Rightarrow> (vdxf_error, jv list) result" where
  "decode_service js svc =
     bind_r (jfield svc ''name'') (\<lambda>name.
     if \<not> jtruthy name then Inr []
     else bind_r (decode_pricing js (jget svc ''pricing'')) (\<lambda>(price, currency, accepted).
     bind_r (opt_json js svc ''refundPolicy'') (\<lambda>refund.
     bind_r (opt_json js svc ''costBreakdown'') (\<lambda>cost.
     Inr [JObj ([(''name'', name), (''description'', jget svc ''description''), (''category'', jget svc ''category''),
       (''price'', price), (''currency'', currency), (''turnaround'', jget svc ''turnaround''),
       (''paymentTerms'', jget svc ''paymentTerms''), (''privateMode'', decode_flag (jget svc ''privateMode'')),
       (''sovguard'', decode_flag (jget svc ''sovguard'')), (''status'', jget svc ''status'')]
       @ (case accepted of None \<Rightarrow> [] | Some acc \<Rightarrow> [(''acceptedCurrencies'', JArr acc)])
       @ (case decode_window js (jget svc ''resolutionWindow'') of None \<Rightarrow> [] | Some n \<Rightarrow> [(''resolutionWindow'', JNum n)])
       @ refund @ cost)]))))"

fun decode_services :: "jslib \<Rightarrow> jv list \<Rightarrow> (vdxf_error, jv list) result" where
  "decode_services js [] = Inr []"
| "decode_services js (v # vs) =
     bind_r (decode_service js v) (\<lambda>s. bind_r (decode_services js vs) (\<lambda>rest. Inr (s @ rest)))"

definition decodeServicesArray :: "jslib \<Rightarrow> jv \<Rightarrow> (vdxf_error, jv list) result" where
  "decodeServicesArray js raw =
     bind_r (parse_if_string js raw) (\<lambda>parsed.
     decode_services js (if is_array parsed then take VDXF_MAX_SERVICES (arr_of parsed) else []))"

record decoded =
  profile :: "(string, jv) jsmap"
  services :: "jv list"
  disputePolicy :: jv

definition parsed_object :: "jslib \<Rightarrow> string \<Rightarrow> jv \<Rightarrow> (string, jv) jsmap" where
  "parsed_object js name raw =
     (let p = tryParseJson js raw in opt_field (jtruthy raw \<and> (is_object p \<or> is_array p)) name p)"

text \<open>The entry of a key, kept when truthy: as it is, or read as JSON.\<close>

definition flat_value :: "jslib \<Rightarrow> cmm \<Rightarrow> string \<Rightarrow> jv" where
  "flat_value js m k = parseFlatEntry js (cget m k)"

definition flat_direct :: "jslib \<Rightarrow> cmm \<Rightarrow> string \<Rightarrow> string \<Rightarrow> (string, jv) jsmap" where
  "flat_direct js m k name = opt_field (jtruthy (flat_value js m k)) name (flat_value js m k)"

definition flat_parsed :: "jslib \<Rightarrow> cmm \<Rightarrow> string \<Rightarrow> string \<Rightarrow> (string, jv) jsmap" where
  "flat_parsed js m k name = opt_field (jtruthy (flat_value js m k)) name (tryParseJson js (flat_value js m k))"

definition flat_network :: "jslib \<Rightarrow> cmm \<Rightarrow> (string, jv) jsmap" where
  "flat_network js m = flat_parsed js m (K ''networkCapabilities'') ''capabilities''
     @ flat_parsed js m (K ''networkEndpoints'') ''endpoints'' @ flat_parsed js m (K ''networkProtocols'') ''protocols''"

definition flat_blob :: "jslib \<Rightarrow> cmm \<Rightarrow> (string, jv) jsmap" where
  "flat_blob js m = flat_parsed js m (K ''profileTags'') ''tags'' @ flat_direct js m (K ''profileWebsite'') ''website''
     @ flat_direct js m (K ''profileAvatar'') ''avatar'' @ flat_direct js m (K ''profileCategory'') ''category''"

definition flat_markup :: "jslib \<Rightarrow> cmm \<Rightarrow> jsnum option" where
  "flat_markup js m = (if nullish (flat_value js m (K ''markup'')) then None
     else safeNumber js (flat_value js m (K ''markup'')) (num_int 1) (num_int 50))"

definition flat_profile :: "jslib \<Rightarrow> cmm \<Rightarrow> (string, jv) jsmap" where
  "flat_profile js m =
     flat_direct js m (K ''displayName'') ''name'' @ flat_direct js m (K ''type'') ''type''
   @ flat_direct js m (K ''description'') ''description''
   @ opt_field (isVerusAddress (flat_value js m (K ''payAddress''))) ''payAddress'' (flat_value js m (K ''payAddress''))
   @ opt_field (flat_network js m \<noteq> []) ''network'' (JObj (flat_network js m))
   @ opt_field (flat_blob js m \<noteq> []) ''profile'' (JObj (flat_blob js m))
   @ opt_field (jtruthy (flat_value js m (K ''models'')) \<and> is_array (tryParseJson js (flat_value js m (K ''models''))))
       ''models'' (tryParseJson js (flat_value js m (K ''models'')))
   @ (case flat_markup js m of None \<Rightarrow> [] | Some n \<Rightarrow> [(''markup'', JNum n)])
   @ parsed_object js ''session'' (flat_value js m (key_of ''session'' ''params''))
   @ parsed_object js ''platformConfig'' (flat_value js m (key_of ''platform'' ''config''))
   @ parsed_object js ''workspaceCapability'' (flat_value js m (key_of ''workspace'' ''capability''))"

definition decodeFlatContentMultimap :: "jslib \<Rightarrow> cmm \<Rightarrow> (vdxf_error, decoded) result" where
  "decodeFlatContentMultimap js m =
     bind_r (if jtruthy (flat_value js m (K ''services'')) then decodeServicesArray js (flat_value js m (K ''services'')) else Inr [])
       (\<lambda>svcs. Inr \<lparr>profile = flat_profile js m, services = svcs,
          disputePolicy = (if jtruthy (flat_value js m (K ''disputePolicy''))
            then tryParseJson js (flat_value js m (K ''disputePolicy'')) else JUndef)\<rparr>)"

text \<open>The legacy format: nested records under the parent keys.\<close>

definition legacy_record :: "jslib \<Rightarrow> cmm \<Rightarrow> string \<Rightarrow> (string, string) jsmap \<Rightarrow> (string, jv) jsmap option" where
  "legacy_record js m parent rl =
     (let es = cget m (parent_key parent) in
      if nonempty_array es then parseOuterDD js (last (arr_of es)) rl else None)"

definition rget :: "(string, jv) jsmap \<Rightarrow> string \<Rightarrow> jv" where
  "rget r k = (case map_get r k of Some v \<Rightarrow> v | None \<Rightarrow> JUndef)"

text \<open>\<open>if (r.k) profile.name = typeof r.k === 'string' ? JSON.parse(r.k) : r.k\<close>\<close>

definition legacy_json :: "jslib \<Rightarrow> (string, jv) jsmap \<Rightarrow> string \<Rightarrow> string \<Rightarrow> (vdxf_error, (string, jv) jsmap) result" where
  "legacy_json js r k name = (if jtruthy (rget r k)
     then bind_r (parse_if_string js (rget r k)) (\<lambda>v. Inr [(name, v)]) else Inr [])"

definition legacy_agent :: "jslib \<Rightarrow> (string, jv) jsmap \<Rightarrow> (vdxf_error, (string, jv) jsmap \<times> jv list) result" where
  "legacy_agent js r =
     bind_r (legacy_json js r ''network'' ''network'') (\<lambda>net.
     bind_r (legacy_json js r ''profile'' ''profile'') (\<lambda>prof.
     bind_r (if jtruthy (rget r ''services'') then decodeServicesArray js (rget r ''services'') else Inr []) (\<lambda>svcs.
     bind_r (if jtruthy (rget r ''models'') then parse_if_string js (rget r ''models'') else Inr JUndef) (\<lambda>models.
     let markup = (if nullish (rget r ''markup'') then None else safeNumber js (rget r ''markup'') (num_int 1) (num_int 50)) in
     Inr (opt_field (jtruthy (rget r ''displayName'')) ''name'' (rget r ''displayName'')
        @ opt_field (jtruthy (rget r ''type'')) ''type'' (rget r ''type'')
        @ opt_field (jtruthy (rget r ''description'')) ''description'' (rget r ''description'')
        @ opt_field (isVerusAddress (rget r ''owner'')) ''payAddress'' (rget r ''owner'')
        @ net @ prof
        @ opt_field (is_array models) ''models'' models
        @ (case markup of None \<Rightarrow> [] | Some n \<Rightarrow> [(''markup'', JNum n)]), svcs)))))"

text \<open>\<open>Object.assign(target, v)\<close>: own properties of an object, indices of a list or string.\<close>

definition own_props :: "jv \<Rightarrow> (string, jv) jsmap" where
  "own_props v = (case v of JObj m \<Rightarrow> m
     | JArr xs \<Rightarrow> zip (map show_nat [0..<length xs]) xs
     | JStr t \<Rightarrow> zip (map show_nat [0..<length t]) (map (\<lambda>c. JStr [c]) t)
     | _ \<Rightarrow> [])"

definition assign_props :: "(string, jv) jsmap \<Rightarrow> jv \<Rightarrow> (string, jv) jsmap" where
  "assign_props t v = foldl (\<lambda>acc p. map_set acc (fst p) (snd p)) t (own_props v)"

definition set_num :: "jslib \<Rightarrow> (string, jv) jsmap \<Rightarrow> (string, jv) jsmap \<Rightarrow> string \<Rightarrow> (string, jv) jsmap" where
  "set_num js r t k = (case safeNumber js (rget r k) (num_int 0) VDXF_MAX_NUMBER of None \<Rightarrow> t | Some n \<Rightarrow> map_set t k (JNum n))"

definition legacy_session :: "jslib \<Rightarrow> (string, jv) jsmap \<Rightarrow> (vdxf_error, (string, jv) jsmap) result" where
  "legacy_session js r =
     bind_r (if jtruthy (rget r ''params'') then bind_r (parse_if_string js (rget r ''params'')) (\<lambda>v. Inr (assign_props [] v))
             else Inr []) (\<lambda>t.
     let t' = foldl (set_num js r) t [''duration'', ''tokenLimit'', ''imageLimit'', ''messageLimit'', ''maxFileSize''] in
     if jtruthy (rget r ''allowedFileTypes'')
     then bind_r (parse_if_string js (rget r ''allowedFileTypes'')) (\<lambda>v. Inr (map_set t' ''allowedFileTypes'' v))
     else Inr t')"

definition decodeLegacyContentMultimap :: "jslib \<Rightarrow> cmm \<Rightarrow> (vdxf_error, decoded) result" where
  "decodeLegacyContentMultimap js m =
     bind_r (case legacy_record js m ''agent'' LEGACY_AGENT_REVERSE of None \<Rightarrow> Inr ([], []) | Some r \<Rightarrow> legacy_agent js r) (\<lambda>(agent, svcs).
     bind_r (case legacy_record js m ''session'' (getReverseLookup ''session'') of None \<Rightarrow> Inr [] | Some r \<Rightarrow> legacy_session js r) (\<lambda>session.
     bind_r (case legacy_record js m ''platform'' (getReverseLookup ''platform'') of None \<Rightarrow> Inr []
             | Some r \<Rightarrow> legacy_json js r ''config'' ''platformConfig'') (\<lambda>plat.
     bind_r (case legacy_record js m ''workspace'' (getReverseLookup ''workspace'') of None \<Rightarrow> Inr []
             | Some r \<Rightarrow> legacy_json js r ''capability'' ''workspaceCapability'') (\<lambda>ws.
     Inr \<lparr>profile = agent @ plat @ ws @ opt_field (session \<noteq> []) ''session'' (JObj session),
          services = svcs, disputePolicy = JUndef\<rparr>))))"

definition decodeContentMultimap :: "jslib \<Rightarrow> cmm \<Rightarrow> (vdxf_error, decoded) result" where
  "decodeContentMultimap js m =
     (if isLegacyFormat m then decodeLegacyContentMultimap js m else decodeFlatContentMultimap js m)"

section \<open>Update helpers\<close>

definition strip_at :: "string \<Rightarrow> string" where
  "strip_at s = (if s \<noteq> [] \<and> last s = CHR ''@'' then butlast s else s)"

definition skip_field :: "jv \<Rightarrow> bool" where
  "skip_field v = (nullish v \<or> (is_string v \<and> trim (str_of v) = []) \<or> (is_array v \<and> arr_of v = []))"

definition canonical_field :: "jslib \<Rightarrow> cmm \<Rightarrow> string \<times> jv \<Rightarrow> cmm" where
  "canonical_field js m p =
     (let v = snd p; k = (case map_get keys_agent (fst p) of Some k \<Rightarrow> k | None \<Rightarrow> []) in
      if skip_field v \<or> k = [] then m
      else map_set m k (JArr [makeSubDD k (if is_string v then v else JStr (json_stringify js v))]))"

record canonical_update =
  u_name :: string
  u_parent :: string
  u_primary :: "string list"
  u_minsigs :: jsnum
  u_cmm :: cmm

definition infer_name :: "string \<Rightarrow> string" where
  "infer_name clean = (if clean \<noteq> [] then hd (split_on (CHR ''.'') clean) else [])"

definition infer_parent :: "string \<Rightarrow> string option \<Rightarrow> string option" where
  "infer_parent clean parent =
     (if CHR ''.'' \<in> set clean then Some (join_with (CHR ''.'') (tl (split_on (CHR ''.'') clean))) else parent)"

definition buildCanonicalAgentUpdate ::
  "jslib \<Rightarrow> string \<Rightarrow> string option \<Rightarrow> string list \<Rightarrow> jsnum \<Rightarrow> (string, jv) jsmap \<Rightarrow> (vdxf_error, canonical_update) result" where
  "buildCanonicalAgentUpdate js fullName parent primary minsigs flds =
     (let clean = strip_at fullName; name = infer_name clean; par = infer_parent clean parent in
      if name = [] then Inl MissingName
      else if par = None \<or> par = Some [] then Inl MissingParent
      else if primary = [] then Inl PrimaryAddressesRequired
      else Inr \<lparr>u_name = name, u_parent = the par, u_primary = primary, u_minsigs = minsigs,
                u_cmm = foldl (canonical_field js) [] flds\<rparr>)"

datatype publish_error = NameMismatch | ParentMismatch | MissingKey string

text \<open>\<open>!onchain[key] || onchain[key].length === 0\<close>\<close>

definition missing_on_chain :: "cmm \<Rightarrow> string \<Rightarrow> bool" where
  "missing_on_chain m k = (\<not> jtruthy (cget m k) \<or> (is_array (cget m k) \<and> arr_of (cget m k) = []))"

definition verifyPublishedIdentity :: "jv \<Rightarrow> jv \<Rightarrow> cmm \<Rightarrow> jv \<Rightarrow> jv \<Rightarrow> cmm \<Rightarrow> bool \<times> publish_error list" where
  "verifyPublishedIdentity name parent onchain name' parent' expected =
     (let errors = (if name \<noteq> name' then [NameMismatch] else []) @ (if parent \<noteq> parent' then [ParentMismatch] else [])
          @ map MissingKey (filter (missing_on_chain onchain) (map fst expected)) in
      (errors = [], errors))"

definition payload_name :: "string \<Rightarrow> string" where
  "payload_name identityName = (let clean = strip_at identityName; p = hd (split_on (CHR ''.'') clean) in
     if p \<noteq> [] then p else clean)"

definition payload_parent :: "string \<Rightarrow> string" where
  "payload_parent identityName = (let parts = split_on (CHR ''.'') (strip_at identityName) in
     if 1 < length parts then join_with (CHR ''.'') (tl parts) else ''agentplatform'')"

definition buildUpdateIdentityPayload :: "string \<Rightarrow> cmm \<Rightarrow> jv" where
  "buildUpdateIdentityPayload identityName m =
     JObj [(''name'', JStr (payload_name identityName)), (''parent'', JStr (payload_parent identityName)),
       (''contentmultimap'', JObj m)]"

definition buildUpdateIdentityCommand :: "jslib \<Rightarrow> jv \<Rightarrow> bool \<Rightarrow> string list" where
  "buildUpdateIdentityCommand js payload testnet =
     [''verus''] @ (if testnet then [''-chain=vrsctest''] else []) @ [''updateidentity'', json_stringify js payload]"

definition buildJobCompletionAdditions :: "jslib \<Rightarrow> jv \<Rightarrow> jv \<Rightarrow> jv \<Rightarrow> cmm" where
  "buildJobCompletionAdditions js jobRecord reviewRecord attestation =
     [flat_entry (key_of ''job'' ''record'') (JStr (json_stringify js jobRecord))]
   @ entry_if (jtruthy reviewRecord) (key_of ''review'' ''record'') (JStr (json_stringify js reviewRecord))
   @ entry_if (jtruthy attestation) (key_of ''workspace'' ''attestation'') (JStr (json_stringify js attestation))"

definition merge_entry :: "(string, jv list) jsmap \<Rightarrow> string \<times> jv \<Rightarrow> (string, jv list) jsmap" where
  "merge_entry m p = map_set m (fst p) ((case map_get m (fst p) of Some vs \<Rightarrow> vs | None \<Rightarrow> []) @ arr_of (snd p))"

definition mergeContentMultimap :: "cmm \<Rightarrow> cmm \<Rightarrow> (string, jv list) jsmap" where
  "mergeContentMultimap existing additions =
     foldl merge_entry (foldl (\<lambda>m p. map_set m (fst p) (as_array (snd p))) [] existing) additions"

definition buildContentMultimapRemove :: "string \<Rightarrow> string list \<Rightarrow> jv" where
  "buildContentMultimapRemove identityName ks =
     JObj [(''name'', JStr (payload_name identityName)), (''parent'', JStr (payload_parent identityName)),
       (''contentmultimap'', JObj [(MULTIMAPREMOVE_KEY, JArr (map (\<lambda>k. JObj [(MULTIMAPREMOVE_KEY,
          JObj [(''version'', JNum (num_int 1)), (''action'', JNum (num_int 3)), (''entrykey'', JStr k)])]) ks))])]"

text \<open>The fields an update writes, resolved before anything else: \<open>removeAndRewriteVdxfFields\<close>.\<close>

fun write_additions :: "(string \<times> string) list \<Rightarrow> cmm \<Rightarrow> (vdxf_error, cmm) result" where
  "write_additions [] m = Inr m"
| "write_additions ((f, v) # fs) m =
     bind_r (resolveVdxfFieldRef f) (\<lambda>k. write_additions fs (map_set m k (JArr [makeSubDD k (JStr v)])))"

section \<open>The table\<close>

lemma all_keys_distinct: "distinct all_keys"
  by code_simp

lemma all_keys_shape: "list_all i_addr_re all_keys"
  by code_simp

text \<open>
  The table is sound: 26 keys (the comment above it says 25), all of the i-address shape, no
  two alike across the groups, and none of them is a legacy parent key, the descriptor key or
  the removal key, so a flat key is never mistaken for another field.
\<close>

theorem vdxf_table_sound:
  "getCanonicalVdxfDefinitionCount = 26 \<and> length all_keys = 26 \<and> distinct all_keys \<and> list_all i_addr_re all_keys
   \<and> set all_keys \<inter> set (DATA_DESCRIPTOR_KEY # MULTIMAPREMOVE_KEY # map snd PARENT_KEYS) = {}"
proof -
  have "getCanonicalVdxfDefinitionCount = 26" "length all_keys = 26" by code_simp+
  moreover have "list_all (\<lambda>k. k \<notin> set (DATA_DESCRIPTOR_KEY # MULTIMAPREMOVE_KEY # map snd PARENT_KEYS)) all_keys"
    by code_simp
  ultimately show ?thesis
    using all_keys_distinct all_keys_shape by (auto simp: list_all_iff)
qed

lemma table_paths:
  "list_all (\<lambda>g. list_all (\<lambda>f. resolveVdxfFieldRef (fst g @ ''.'' @ fst f) = Inr (snd f) \<and> snd f \<in> set all_keys) (snd g)) VDXF_KEYS"
  by code_simp

lemma map_get_in: "map_get m k = Some v \<Longrightarrow> v \<in> snd ` set m"
  using map_get_Some_in [of m k v] by force

lemma in_table: "map_get VDXF_KEYS g = Some m \<Longrightarrow> map_get m f = Some k \<Longrightarrow> k \<in> set all_keys"
  using map_get_Some_in [of VDXF_KEYS g m] map_get_in [of m f k] by (force simp: all_keys_def)

lemma key_of_in: "key_of g f \<noteq> [] \<Longrightarrow> key_of g f \<in> set all_keys"
  using in_table by (auto simp: key_of_def split: option.splits)

lemma leaf_matches_in: "m \<in> set (leaf_matches ref) \<Longrightarrow> snd m \<in> set all_keys"
proof -
  assume "m \<in> set (leaf_matches ref)"
  then obtain g where g: "g \<in> set VDXF_KEYS"
    "m \<in> set (case map_get (snd g) ref of Some k \<Rightarrow> if k = [] then [] else [(fst g @ ''.'' @ ref, k)] | None \<Rightarrow> [])"
    by (auto simp: leaf_matches_def)
  then have "map_get (snd g) ref = Some (snd m)" by (auto split: option.splits if_splits)
  then show ?thesis using map_get_in [of "snd g" ref "snd m"] g by (auto simp: all_keys_def)
qed

text \<open>
  A field reference resolves to a known key or not at all; every \<open>group.field\<close> path and every
  known i-address resolves to itself; a bare name resolves only when one group has it, and the
  names several groups have (\<open>record\<close>, \<open>attestation\<close>) are refused as ambiguous.
\<close>

theorem resolveVdxfFieldRef_correct:
  "(\<forall>ref k. resolveVdxfFieldRef ref = Inr k \<longrightarrow> k \<in> set all_keys)
   \<and> (\<forall>g \<in> set VDXF_KEYS. \<forall>f \<in> set (snd g). resolveVdxfFieldRef (fst g @ ''.'' @ fst f) = Inr (snd f))
   \<and> (\<forall>k \<in> set all_keys. resolveVdxfFieldRef k = Inr k)
   \<and> (\<forall>ref k. \<not> i_addr_re ref \<and> CHR ''.'' \<notin> set ref \<and> resolveVdxfFieldRef ref = Inr k \<longrightarrow> length (leaf_matches ref) = 1)
   \<and> resolveVdxfFieldRef ''record'' = Inl (AmbiguousField ''record'' [''review.record'', ''bounty.record'', ''job.record''])
   \<and> resolveVdxfFieldRef ''attestation'' = Inl (AmbiguousField ''attestation'' [''review.attestation'', ''workspace.attestation''])"
proof (intro conjI allI impI ballI)
  fix ref k assume "resolveVdxfFieldRef ref = Inr k"
  then show "k \<in> set all_keys"
    using key_of_in leaf_matches_in [of "hd (leaf_matches ref)" ref]
    by (auto simp: resolveVdxfFieldRef_def all_keys_def Let_def split: if_splits list.splits)
next
  fix g f assume "g \<in> set VDXF_KEYS" "f \<in> set (snd g)"
  then show "resolveVdxfFieldRef (fst g @ ''.'' @ fst f) = Inr (snd f)"
    using table_paths by (auto simp: list_all_iff)
next
  fix k assume k: "k \<in> set all_keys"
  then have "i_addr_re k" using all_keys_shape by (simp add: list_all_iff)
  with k show "resolveVdxfFieldRef k = Inr k" by (auto simp: resolveVdxfFieldRef_def all_keys_def)
next
  fix ref k assume "\<not> i_addr_re ref \<and> CHR ''.'' \<notin> set ref \<and> resolveVdxfFieldRef ref = Inr k"
  then show "length (leaf_matches ref) = 1"
    by (auto simp: resolveVdxfFieldRef_def split: list.splits)
qed code_simp+

theorem resolveVdxfFieldRef_correct_witness:
  "''iHjLTt9P8Jb1uCYSpVpwXFbwzbPYWW4n8p'' \<in> set all_keys"
proof -
  have "resolveVdxfFieldRef ''session.params'' = Inr ''iHjLTt9P8Jb1uCYSpVpwXFbwzbPYWW4n8p''" by code_simp
  then show ?thesis using resolveVdxfFieldRef_correct by blast
qed

section \<open>What a decoder lets through\<close>

definition in_range :: "jsnum \<Rightarrow> jsnum \<Rightarrow> jv \<Rightarrow> bool" where
  "in_range lo hi v = (v = JUndef \<or> (\<exists>x. v = JNum (Fin x) \<and> js_le lo (Fin x) \<and> js_le (Fin x) hi))"

lemma safeNumber_range: "safeNumber js v (num_int a) (num_int b) = Some n \<Longrightarrow> in_range (num_int a) (num_int b) (JNum n)"
  by (cases n) (auto simp: safeNumber_def in_range_def Let_def not_less split: if_splits)

definition safe_service :: "jv \<Rightarrow> bool" where
  "safe_service s = (in_range (num_int 0) VDXF_MAX_PRICE (jget s ''price'')
     \<and> (\<forall>p \<in> set (arr_of (jget s ''acceptedCurrencies'')). in_range (num_int 0) VDXF_MAX_PRICE (jget p ''price''))
     \<and> in_range (num_int 0) VDXF_MAX_NUMBER (jget s ''resolutionWindow''))"

definition safe_decoded :: "decoded \<Rightarrow> bool" where
  "safe_decoded d = (length (services d) \<le> VDXF_MAX_SERVICES \<and> (\<forall>s \<in> set (services d). safe_service s)
     \<and> in_range (num_int 1) (num_int 50) (rget (profile d) ''markup'')
     \<and> (rget (profile d) ''payAddress'' = JUndef \<or> isVerusAddress (rget (profile d) ''payAddress'')))"

lemma opt_num_range: "entry_price js p = Inr n \<Longrightarrow> in_range (num_int 0) VDXF_MAX_PRICE (opt_num n)"
  using safeNumber_range [of js _ 0 1000000000]
  by (cases n) (auto simp: entry_price_def opt_num_def bind_r_eq_Inr in_range_def VDXF_MAX_PRICE_def)

lemma accepted_range:
  "accepted_currencies js ps = Inr acc \<Longrightarrow> p \<in> set acc \<Longrightarrow> in_range (num_int 0) VDXF_MAX_PRICE (jget p ''price'')"
proof (induction js ps arbitrary: acc rule: accepted_currencies.induct)
  case (2 js q ps)
  then obtain n rest where n: "entry_price js q = Inr n" "accepted_currencies js ps = Inr rest"
    "acc = (case n of None \<Rightarrow> rest | Some x \<Rightarrow> JObj [(''currency'', jget q ''currency''), (''price'', JNum x)] # rest)"
    by (auto simp: bind_r_eq_Inr)
  with opt_num_range [OF n(1)] 2 show ?case by (cases n) (auto simp: opt_num_def)
qed simp

lemma decode_pricing_range:
  assumes "decode_pricing js v = Inr (price, cur, acc)"
  shows "in_range (num_int 0) VDXF_MAX_PRICE price"
    and "acc = Some ps \<Longrightarrow> p \<in> set ps \<Longrightarrow> in_range (num_int 0) VDXF_MAX_PRICE (jget p ''price'')"
proof -
  show "in_range (num_int 0) VDXF_MAX_PRICE price"
    using assms opt_num_range
    by (auto simp: decode_pricing_def bind_r_eq_Inr split: if_splits list.splits) (auto simp: in_range_def)
  assume "acc = Some ps" "p \<in> set ps"
  with assms accepted_range show "in_range (num_int 0) VDXF_MAX_PRICE (jget p ''price'')"
    by (auto simp: decode_pricing_def bind_r_eq_Inr split: if_splits list.splits)
qed

lemma opt_json_keys: "opt_json js v k = Inr r \<Longrightarrow> k' \<noteq> k \<Longrightarrow> map_get r k' = None"
  by (auto simp: opt_json_def bind_r_eq_Inr split: if_splits)

lemma jget_append: "jget (JObj (m @ n)) k = (case map_get m k of None \<Rightarrow> jget (JObj n) k | Some v \<Rightarrow> v)"
  by (simp add: jget_def map_get_append split: option.splits)

lemma map_get_absent: "k \<notin> set (map fst m) \<Longrightarrow> map_get m k = None"
  by (simp add: map_get_None_iff)

lemma max_number_range: "safeNumber js x (num_int 0) VDXF_MAX_NUMBER = Some n \<Longrightarrow> in_range (num_int 0) VDXF_MAX_NUMBER (JNum n)"
  using safeNumber_range [of js x 0 1000000000000 n] by (simp add: VDXF_MAX_NUMBER_def)

lemma in_range_undef [simp]: "in_range lo hi JUndef"
  by (simp add: in_range_def)

lemma decode_window_range: "decode_window js v = Some n \<Longrightarrow> in_range (num_int 0) VDXF_MAX_NUMBER (JNum n)"
  using max_number_range by (auto simp: decode_window_def split: if_splits)

lemma decode_service_safe:
  assumes "decode_service js v = Inr ss"
  shows "length ss \<le> 1 \<and> (\<forall>s \<in> set ss. safe_service s)"
proof (cases "ss = []")
  case False
  let ?w = "decode_window js (jget v ''resolutionWindow'')"
  obtain name price cur acc refund cost where
    d: "decode_pricing js (jget v ''pricing'') = Inr (price, cur, acc)"
    and r: "opt_json js v ''refundPolicy'' = Inr refund" "opt_json js v ''costBreakdown'' = Inr cost"
    and s: "ss = [JObj ([(''name'', name), (''description'', jget v ''description''), (''category'', jget v ''category''),
       (''price'', price), (''currency'', cur), (''turnaround'', jget v ''turnaround''),
       (''paymentTerms'', jget v ''paymentTerms''), (''privateMode'', decode_flag (jget v ''privateMode'')),
       (''sovguard'', decode_flag (jget v ''sovguard'')), (''status'', jget v ''status'')]
       @ (case acc of None \<Rightarrow> [] | Some a \<Rightarrow> [(''acceptedCurrencies'', JArr a)])
       @ (case ?w of None \<Rightarrow> [] | Some n \<Rightarrow> [(''resolutionWindow'', JNum n)]) @ refund @ cost)]"
    using assms False by (auto simp: decode_service_def bind_r_eq_Inr split: if_splits)
  note nk = opt_json_keys [OF r(1)] opt_json_keys [OF r(2)]
  obtain out where o: "ss = [out]" "jget out ''price'' = price"
    "jget out ''acceptedCurrencies'' = (case acc of None \<Rightarrow> JUndef | Some a \<Rightarrow> JArr a)"
    "jget out ''resolutionWindow'' = (case ?w of None \<Rightarrow> JUndef | Some n \<Rightarrow> JNum n)"
    using s nk by (cases acc; cases ?w) (simp_all add: jget_append, simp_all add: jget_def)
  have "safe_service out"
    using o decode_pricing_range [OF d] decode_window_range [of js "jget v ''resolutionWindow''"]
    by (cases acc; cases ?w) (auto simp: safe_service_def arr_of_def)
  then show ?thesis by (simp add: o)
qed simp

lemma decode_services_safe:
  "decode_services js vs = Inr ss \<Longrightarrow> length ss \<le> length vs \<and> (\<forall>s \<in> set ss. safe_service s)"
proof (induction js vs arbitrary: ss rule: decode_services.induct)
  case (2 js v vs)
  then obtain a b where "decode_service js v = Inr a" "decode_services js vs = Inr b" "ss = a @ b"
    by (auto simp: bind_r_eq_Inr)
  with 2 decode_service_safe [of js v a] show ?case by fastforce
qed simp

lemma decodeServicesArray_safe:
  "decodeServicesArray js raw = Inr ss \<Longrightarrow> length ss \<le> VDXF_MAX_SERVICES \<and> (\<forall>s \<in> set ss. safe_service s)"
  using decode_services_safe by (fastforce simp: decodeServicesArray_def bind_r_eq_Inr split: if_splits)

lemma rget_append: "rget (m @ n) k = (case map_get m k of None \<Rightarrow> rget n k | Some v \<Rightarrow> v)"
  by (simp add: rget_def map_get_append split: option.splits)

lemma map_get_opt_field [simp]: "map_get (opt_field c k v) k' = (if c \<and> k = k' then Some v else None)"
  by (simp add: opt_field_def)

lemma map_get_parsed_object: "k \<noteq> name \<Longrightarrow> map_get (parsed_object js name raw) k = None"
  by (simp add: parsed_object_def Let_def)

lemma markup_range: "safeNumber js v (num_int 1) (num_int 50) = Some n \<Longrightarrow> in_range (num_int 1) (num_int 50) (JNum n)"
  using safeNumber_range [of js v 1 50 n] by simp

lemma flat_profile_get:
  "rget (flat_profile js m) ''payAddress'' =
     (if isVerusAddress (flat_value js m (K ''payAddress'')) then flat_value js m (K ''payAddress'') else JUndef)"
  "rget (flat_profile js m) ''markup'' = (case flat_markup js m of None \<Rightarrow> JUndef | Some x \<Rightarrow> JNum x)"
  by (cases "flat_markup js m"; simp add: flat_profile_def rget_def map_get_append flat_direct_def map_get_parsed_object)+

lemma decodeFlat_safe:
  assumes "decodeFlatContentMultimap js m = Inr d"
  shows "safe_decoded d"
proof -
  have "length (services d) \<le> VDXF_MAX_SERVICES \<and> (\<forall>s \<in> set (services d). safe_service s)"
    and "profile d = flat_profile js m"
    using assms decodeServicesArray_safe
    by (auto simp: decodeFlatContentMultimap_def bind_r_eq_Inr split: if_splits)
  then show ?thesis
    using flat_profile_get [of js m] markup_range [of js "flat_value js m (K ''markup'')"]
    by (auto simp: safe_decoded_def flat_markup_def split: option.splits if_splits)
qed

lemma legacy_json_keys: "legacy_json js r k name = Inr x \<Longrightarrow> k' \<noteq> name \<Longrightarrow> map_get x k' = None"
  by (auto simp: legacy_json_def bind_r_eq_Inr split: if_splits)

lemma legacy_agent_safe:
  assumes "legacy_agent js r = Inr (ag, svcs)"
  shows "length svcs \<le> VDXF_MAX_SERVICES \<and> (\<forall>s \<in> set svcs. safe_service s)"
    "map_get ag ''payAddress'' = None \<or> (\<exists>v. map_get ag ''payAddress'' = Some v \<and> isVerusAddress v)"
    "map_get ag ''markup'' = None \<or> (\<exists>v. map_get ag ''markup'' = Some v \<and> in_range (num_int 1) (num_int 50) v)"
    "map_get ag ''platformConfig'' = None"
proof -
  let ?n = "if nullish (rget r ''markup'') then None else safeNumber js (rget r ''markup'') (num_int 1) (num_int 50)"
  obtain net prof models where j: "legacy_json js r ''network'' ''network'' = Inr net"
      "legacy_json js r ''profile'' ''profile'' = Inr prof"
    and sv: "(if jtruthy (rget r ''services'') then decodeServicesArray js (rget r ''services'') else Inr []) = Inr svcs"
    and ag: "ag = opt_field (jtruthy (rget r ''displayName'')) ''name'' (rget r ''displayName'')
        @ opt_field (jtruthy (rget r ''type'')) ''type'' (rget r ''type'')
        @ opt_field (jtruthy (rget r ''description'')) ''description'' (rget r ''description'')
        @ opt_field (isVerusAddress (rget r ''owner'')) ''payAddress'' (rget r ''owner'')
        @ net @ prof @ opt_field (is_array models) ''models'' models
        @ (case ?n of None \<Rightarrow> [] | Some n \<Rightarrow> [(''markup'', JNum n)])"
    using assms by (auto simp: legacy_agent_def bind_r_eq_Inr Let_def)
  note k = legacy_json_keys [OF j(1)] legacy_json_keys [OF j(2)]
  show "length svcs \<le> VDXF_MAX_SERVICES \<and> (\<forall>s \<in> set svcs. safe_service s)"
    using sv decodeServicesArray_safe by (auto split: if_splits)
  show "map_get ag ''payAddress'' = None \<or> (\<exists>v. map_get ag ''payAddress'' = Some v \<and> isVerusAddress v)"
    using k by (cases ?n) (auto simp: ag map_get_append)
  show "map_get ag ''markup'' = None \<or> (\<exists>v. map_get ag ''markup'' = Some v \<and> in_range (num_int 1) (num_int 50) v)"
    using k markup_range [of js "rget r ''markup''"] by (cases ?n) (auto simp: ag map_get_append split: if_splits)
  show "map_get ag ''platformConfig'' = None"
    using k by (cases ?n) (auto simp: ag map_get_append)
qed

lemma decodeLegacy_safe:
  assumes "decodeLegacyContentMultimap js m = Inr d"
  shows "safe_decoded d"
proof -
  obtain ag svcs session plat ws where
    a: "(case legacy_record js m ''agent'' LEGACY_AGENT_REVERSE of None \<Rightarrow> Inr ([], []) | Some r \<Rightarrow> legacy_agent js r) = Inr (ag, svcs)"
    and p: "(case legacy_record js m ''platform'' (getReverseLookup ''platform'') of None \<Rightarrow> Inr []
             | Some r \<Rightarrow> legacy_json js r ''config'' ''platformConfig'') = Inr plat"
    and w: "(case legacy_record js m ''workspace'' (getReverseLookup ''workspace'') of None \<Rightarrow> Inr []
             | Some r \<Rightarrow> legacy_json js r ''capability'' ''workspaceCapability'') = Inr ws"
    and d: "d = \<lparr>profile = ag @ plat @ ws @ opt_field (session \<noteq> []) ''session'' (JObj session),
          services = svcs, disputePolicy = JUndef\<rparr>"
    using assms by (auto simp: decodeLegacyContentMultimap_def bind_r_eq_Inr)
  have k: "map_get plat x = None" "map_get ws x = None" if "x = ''payAddress'' \<or> x = ''markup''" for x
    using p w that by (auto split: option.splits elim!: legacy_json_keys)
  have A: "length svcs \<le> VDXF_MAX_SERVICES \<and> (\<forall>s \<in> set svcs. safe_service s)"
    "map_get ag ''payAddress'' = None \<or> (\<exists>v. map_get ag ''payAddress'' = Some v \<and> isVerusAddress v)"
    "map_get ag ''markup'' = None \<or> (\<exists>v. map_get ag ''markup'' = Some v \<and> in_range (num_int 1) (num_int 50) v)"
    using a legacy_agent_safe by (auto split: option.splits simp: VDXF_MAX_SERVICES_def)
  then show ?thesis
    using k by (auto simp: d safe_decoded_def rget_append rget_def [of "opt_field _ _ _"])
qed

text \<open>
  C32. Whatever an identity publishes, what decoding returns is safe to pay by: in both formats
  the pay address has the shape of a Verus address, the markup is within 1 to 50, there are at
  most 100 services, and every price and resolution window is a finite number in its range.
\<close>

theorem decodeContentMultimap_safe:
  assumes "decodeContentMultimap js m = Inr d"
  shows "safe_decoded d"
  using assms decodeFlat_safe [of js m d] decodeLegacy_safe [of js m d]
  unfolding decodeContentMultimap_def by (cases "isLegacyFormat m") (simp_all only: if_True if_False)


section \<open>Building and decoding again\<close>

text \<open>A profile as its fields; an empty list or string stands for one the caller left out.\<close>

record prof =
  pr_name :: string
  pr_type :: string
  pr_desc :: string
  pr_pay :: "string option"
  pr_caps :: "jv list"
  pr_eps :: "jv list"
  pr_protos :: "jv list"
  pr_tags :: "jv list"
  pr_website :: string
  pr_avatar :: string
  pr_category :: string
  pr_models :: "jv list"
  pr_markup :: "jsnum option"
  pr_session :: "(string, jv) jsmap"
  pr_platform :: "(string, jv) jsmap"

definition prof_input :: "prof \<Rightarrow> jv" where
  "prof_input r = JObj ([(''name'', JStr (pr_name r)), (''type'', JStr (pr_type r)), (''description'', JStr (pr_desc r)),
      (''network'', JObj [(''capabilities'', JArr (pr_caps r)), (''endpoints'', JArr (pr_eps r)), (''protocols'', JArr (pr_protos r))]),
      (''profile'', JObj [(''tags'', JArr (pr_tags r)), (''website'', JStr (pr_website r)), (''avatar'', JStr (pr_avatar r)),
         (''category'', JStr (pr_category r))]),
      (''models'', JArr (pr_models r)), (''session'', JObj (pr_session r)), (''platformConfig'', JObj (pr_platform r))]
    @ (case pr_pay r of None \<Rightarrow> [] | Some a \<Rightarrow> [(''payAddress'', JStr a)])
    @ (case pr_markup r of None \<Rightarrow> [] | Some n \<Rightarrow> [(''markup'', JNum n)]))"

definition prof_network :: "prof \<Rightarrow> (string, jv) jsmap" where
  "prof_network r = opt_field (pr_caps r \<noteq> []) ''capabilities'' (JArr (pr_caps r))
     @ opt_field (pr_eps r \<noteq> []) ''endpoints'' (JArr (pr_eps r)) @ opt_field (pr_protos r \<noteq> []) ''protocols'' (JArr (pr_protos r))"

definition prof_blob :: "prof \<Rightarrow> (string, jv) jsmap" where
  "prof_blob r = opt_field (pr_tags r \<noteq> []) ''tags'' (JArr (pr_tags r))
     @ opt_field (pr_website r \<noteq> []) ''website'' (JStr (pr_website r)) @ opt_field (pr_avatar r \<noteq> []) ''avatar'' (JStr (pr_avatar r))
     @ opt_field (pr_category r \<noteq> []) ''category'' (JStr (pr_category r))"

definition prof_decoded :: "prof \<Rightarrow> (string, jv) jsmap" where
  "prof_decoded r = [(''name'', JStr (pr_name r)), (''type'', JStr (pr_type r)), (''description'', JStr (pr_desc r))]
     @ (case pr_pay r of None \<Rightarrow> [] | Some a \<Rightarrow> [(''payAddress'', JStr a)])
     @ opt_field (prof_network r \<noteq> []) ''network'' (JObj (prof_network r))
     @ opt_field (prof_blob r \<noteq> []) ''profile'' (JObj (prof_blob r))
     @ opt_field (pr_models r \<noteq> []) ''models'' (JArr (pr_models r))
     @ (case pr_markup r of None \<Rightarrow> [] | Some n \<Rightarrow> [(''markup'', JNum n)])
     @ opt_field (pr_session r \<noteq> []) ''session'' (JObj (pr_session r))
     @ opt_field (pr_platform r \<noteq> []) ''platformConfig'' (JObj (pr_platform r))"

text \<open>What a profile must be, and what is used of JSON and of number printing.\<close>

definition prof_ok :: "prof \<Rightarrow> bool" where
  "prof_ok r = (pr_name r \<noteq> [] \<and> pr_type r \<noteq> [] \<and> pr_desc r \<noteq> []
     \<and> (case pr_pay r of None \<Rightarrow> True | Some a \<Rightarrow> isVerusAddress (JStr a))
     \<and> (case pr_markup r of None \<Rightarrow> True | Some n \<Rightarrow> markup_in_range (JNum n)))"

definition json_ok :: "jslib \<Rightarrow> jv \<Rightarrow> bool" where
  "json_ok js v = (json_stringify js v \<noteq> [] \<and> json_parse js (json_stringify js v) = Some v)"

definition lib_ok :: "jslib \<Rightarrow> prof \<Rightarrow> bool" where
  "lib_ok js r = ((\<forall>v \<in> {JArr (pr_caps r), JArr (pr_eps r), JArr (pr_protos r), JArr (pr_tags r), JArr (pr_models r),
       JObj (pr_session r), JObj (pr_platform r)}. json_ok js v)
     \<and> (\<forall>n. pr_markup r = Some n \<longrightarrow> to_number js (JStr (to_string js (JNum n))) = n))"

text \<open>The keys of the table are told apart by their names.\<close>

definition table_fields :: "(string \<times> string) list" where
  "table_fields = concat (map (\<lambda>g. map (\<lambda>f. (fst g, fst f)) (snd g)) VDXF_KEYS)"

definition in_table_of :: "string \<Rightarrow> string \<Rightarrow> bool" where
  "in_table_of g f = list_ex (\<lambda>p. p = (g, f)) table_fields"

lemma in_table_facts [simp]:
  "in_table_of ''agent'' ''displayName''"
  "in_table_of ''agent'' ''type''"
  "in_table_of ''agent'' ''description''"
  "in_table_of ''agent'' ''status''"
  "in_table_of ''agent'' ''payAddress''"
  "in_table_of ''agent'' ''services''"
  "in_table_of ''agent'' ''models''"
  "in_table_of ''agent'' ''markup''"
  "in_table_of ''agent'' ''networkCapabilities''"
  "in_table_of ''agent'' ''networkEndpoints''"
  "in_table_of ''agent'' ''networkProtocols''"
  "in_table_of ''agent'' ''profileTags''"
  "in_table_of ''agent'' ''profileWebsite''"
  "in_table_of ''agent'' ''profileAvatar''"
  "in_table_of ''agent'' ''profileCategory''"
  "in_table_of ''agent'' ''disputePolicy''"
  "in_table_of ''session'' ''params''" "in_table_of ''platform'' ''config''" "in_table_of ''workspace'' ''capability''"
  by code_simp+

lemma table_fields_keys: "map (\<lambda>p. key_of (fst p) (snd p)) table_fields = all_keys"
  by code_simp

lemma key_of_neq: "in_table_of g f \<Longrightarrow> in_table_of g' f' \<Longrightarrow> key_of g f = key_of g' f' \<longleftrightarrow> g = g' \<and> f = f'"
proof -
  assume "in_table_of g f" "in_table_of g' f'"
  then have m: "(g, f) \<in> set table_fields" "(g', f') \<in> set table_fields"
    by (auto simp: in_table_of_def list_ex_iff)
  have "inj_on (\<lambda>p. key_of (fst p) (snd p)) (set table_fields)"
    using all_keys_distinct table_fields_keys by (metis distinct_map)
  then show ?thesis using m by (force simp: inj_on_def)
qed

lemma key_of_table: "in_table_of g f \<Longrightarrow> key_of g f \<in> set all_keys"
  unfolding table_fields_keys [symmetric] in_table_of_def list_ex_iff by (force simp: image_iff)

lemma key_of_ne [simp]: "in_table_of g f \<Longrightarrow> key_of g f \<noteq> []"
  using key_of_table [of g f] all_keys_shape by (auto simp: list_all_iff i_addr_re_def)

lemma K_neq [simp]:
  "in_table_of ''agent'' f \<Longrightarrow> in_table_of ''agent'' f' \<Longrightarrow> K f = K f' \<longleftrightarrow> f = f'"
  "in_table_of ''agent'' f \<Longrightarrow> in_table_of g f' \<Longrightarrow> g \<noteq> ''agent'' \<Longrightarrow> K f \<noteq> key_of g f'"
  "in_table_of ''agent'' f \<Longrightarrow> in_table_of g f' \<Longrightarrow> g \<noteq> ''agent'' \<Longrightarrow> key_of g f' \<noteq> K f"
  "in_table_of g f \<Longrightarrow> in_table_of g' f' \<Longrightarrow> g \<noteq> g' \<Longrightarrow> key_of g f \<noteq> key_of g' f'"
  "in_table_of ''agent'' f \<Longrightarrow> K f \<noteq> []"
  by (auto simp: K_def key_of_neq)

lemma map_get_entry [simp]:
  "map_get (flat_entry k v # m) k' = (if k = k' then Some (JArr [makeSubDD k v]) else map_get m k')"
  "map_get (entry_if c k v @ m) k' = (if c \<and> k = k' then Some (JArr [makeSubDD k v]) else map_get m k')"
  "map_get (entry_if c k v) k' = (if c \<and> k = k' then Some (JArr [makeSubDD k v]) else None)"
  by (simp_all add: flat_entry_def entry_if_def)

lemma parse_makeSubDD [simp]:
  "k \<noteq> [] \<Longrightarrow> parseFlatEntry js (JArr [makeSubDD k v]) = (if v = JUndef then JNull else v)"
  by (simp add: parseFlatEntry_def nonempty_array_def parseSubDD_def makeSubDD_def Let_def has_key_def)

lemma parse_none [simp]: "parseFlatEntry js JUndef = JNull"
  by (simp add: parseFlatEntry_def nonempty_array_def)

lemma prof_input_get:
  "jget (prof_input r) ''name'' = JStr (pr_name r)" "jget (prof_input r) ''type'' = JStr (pr_type r)"
  "jget (prof_input r) ''description'' = JStr (pr_desc r)" "jget (prof_input r) ''models'' = JArr (pr_models r)"
  "jget (prof_input r) ''session'' = JObj (pr_session r)" "jget (prof_input r) ''platformConfig'' = JObj (pr_platform r)"
  "jget (prof_input r) ''workspaceCapability'' = JUndef"
  "jget (prof_input r) ''payAddress'' = (case pr_pay r of None \<Rightarrow> JUndef | Some a \<Rightarrow> JStr a)"
  "jget (prof_input r) ''markup'' = (case pr_markup r of None \<Rightarrow> JUndef | Some n \<Rightarrow> JNum n)"
  by (simp_all add: prof_input_def jget_append jget_def map_get_append split: option.splits)

lemma prof_input_sub:
  "jget (prof_input r) ''network'' = JObj [(''capabilities'', JArr (pr_caps r)), (''endpoints'', JArr (pr_eps r)), (''protocols'', JArr (pr_protos r))]"
  "jget (prof_input r) ''profile'' = JObj [(''tags'', JArr (pr_tags r)), (''website'', JStr (pr_website r)), (''avatar'', JStr (pr_avatar r)),
         (''category'', JStr (pr_category r))]"
  by (simp_all add: prof_input_def jget_def)

definition built :: "jslib \<Rightarrow> prof \<Rightarrow> cmm \<Rightarrow> cmm" where
  "built js r old = buildAgentContentMultimap js (prof_input r) [] JUndef @ old"

lemma built_eq: "built js r old =
    flat_entry (K ''displayName'') (JStr (pr_name r)) # flat_entry (K ''type'') (JStr (pr_type r)) #
    flat_entry (K ''description'') (JStr (pr_desc r)) # flat_entry (K ''status'') (JStr ''active'') #
    entry_if (pr_pay r \<noteq> None \<and> pr_pay r \<noteq> Some []) (K ''payAddress'') (JStr (the (pr_pay r))) @
    entry_if (pr_caps r \<noteq> []) (K ''networkCapabilities'') (JStr (json_stringify js (JArr (pr_caps r)))) @
    entry_if (pr_eps r \<noteq> []) (K ''networkEndpoints'') (JStr (json_stringify js (JArr (pr_eps r)))) @
    entry_if (pr_protos r \<noteq> []) (K ''networkProtocols'') (JStr (json_stringify js (JArr (pr_protos r)))) @
    entry_if (pr_tags r \<noteq> []) (K ''profileTags'') (JStr (json_stringify js (JArr (pr_tags r)))) @
    entry_if (pr_website r \<noteq> []) (K ''profileWebsite'') (JStr (pr_website r)) @
    entry_if (pr_avatar r \<noteq> []) (K ''profileAvatar'') (JStr (pr_avatar r)) @
    entry_if (pr_category r \<noteq> []) (K ''profileCategory'') (JStr (pr_category r)) @
    entry_if (pr_models r \<noteq> []) (K ''models'') (JStr (json_stringify js (JArr (pr_models r)))) @
    entry_if (pr_markup r \<noteq> None \<and> markup_in_range (JNum (the (pr_markup r)))) (K ''markup'')
      (JStr (to_string js (JNum (the (pr_markup r))))) @
    entry_if (pr_session r \<noteq> []) (key_of ''session'' ''params'') (JStr (json_stringify js (JObj (pr_session r)))) @
    entry_if (pr_platform r \<noteq> []) (key_of ''platform'' ''config'') (JStr (json_stringify js (JObj (pr_platform r)))) @ old"
proof -
  have t: "jtruthy (prof_input r)" by (simp add: prof_input_def)
  have pay: "entry_if (jtruthy (jget (prof_input r) ''payAddress'')) (K ''payAddress'') (jget (prof_input r) ''payAddress'')
      = entry_if (pr_pay r \<noteq> None \<and> pr_pay r \<noteq> Some []) (K ''payAddress'') (JStr (the (pr_pay r)))"
    by (cases "pr_pay r") (auto simp: prof_input_get entry_if_def)
  have mk: "entry_if (markup_in_range (jget (prof_input r) ''markup'')) (K ''markup'') (JStr (to_string js (jget (prof_input r) ''markup'')))
      = entry_if (pr_markup r \<noteq> None \<and> markup_in_range (JNum (the (pr_markup r)))) (K ''markup'') (JStr (to_string js (JNum (the (pr_markup r)))))"
    by (cases "pr_markup r") (auto simp: prof_input_get entry_if_def markup_in_range_def nullish_def)
  have off: "entry_if False k v = []" for k v by (simp add: entry_if_def)
  show ?thesis
    unfolding built_def buildAgentContentMultimap_def Let_def pay mk
    by (simp add: t prof_input_get prof_input_sub network_entries_def blob_entries_def Let_def nonempty_array_def
        nonempty_object_def off)
qed


text \<open>Other keys an identity may carry: nothing under a flat key.\<close>

definition no_flat_keys :: "cmm \<Rightarrow> bool" where
  "no_flat_keys old = (\<forall>k \<in> set all_keys. map_get old k = None)"

lemma no_flat_old:
  assumes "no_flat_keys old"
  shows "in_table_of ''agent'' f \<Longrightarrow> map_get old (K f) = None" "in_table_of g f \<Longrightarrow> map_get old (key_of g f) = None"
  using assms by (auto simp: no_flat_keys_def K_def key_of_table)

lemmas built_value = flat_value_def cget_def built_eq

lemma built_values:
  assumes "no_flat_keys old"
  shows "flat_value js (built js r old) (K ''displayName'') = JStr (pr_name r)"
    "flat_value js (built js r old) (K ''type'') = JStr (pr_type r)"
    "flat_value js (built js r old) (K ''description'') = JStr (pr_desc r)"
    "flat_value js (built js r old) (K ''payAddress'') = (case pr_pay r of None \<Rightarrow> JNull | Some a \<Rightarrow> if a = [] then JNull else JStr a)"
    "flat_value js (built js r old) (K ''services'') = JNull"
    "flat_value js (built js r old) (K ''networkCapabilities'') = (if pr_caps r = [] then JNull else JStr (json_stringify js (JArr (pr_caps r))))"
    "flat_value js (built js r old) (K ''networkEndpoints'') = (if pr_eps r = [] then JNull else JStr (json_stringify js (JArr (pr_eps r))))"
    "flat_value js (built js r old) (K ''networkProtocols'') = (if pr_protos r = [] then JNull else JStr (json_stringify js (JArr (pr_protos r))))"
    "flat_value js (built js r old) (K ''profileTags'') = (if pr_tags r = [] then JNull else JStr (json_stringify js (JArr (pr_tags r))))"
    "flat_value js (built js r old) (K ''profileWebsite'') = (if pr_website r = [] then JNull else JStr (pr_website r))"
    "flat_value js (built js r old) (K ''profileAvatar'') = (if pr_avatar r = [] then JNull else JStr (pr_avatar r))"
    "flat_value js (built js r old) (K ''profileCategory'') = (if pr_category r = [] then JNull else JStr (pr_category r))"
    "flat_value js (built js r old) (K ''models'') = (if pr_models r = [] then JNull else JStr (json_stringify js (JArr (pr_models r))))"
    "flat_value js (built js r old) (K ''markup'') = (case pr_markup r of None \<Rightarrow> JNull
       | Some n \<Rightarrow> if markup_in_range (JNum n) then JStr (to_string js (JNum n)) else JNull)"
    "flat_value js (built js r old) (K ''disputePolicy'') = JNull"
    "flat_value js (built js r old) (key_of ''session'' ''params'') = (if pr_session r = [] then JNull else JStr (json_stringify js (JObj (pr_session r))))"
    "flat_value js (built js r old) (key_of ''platform'' ''config'') = (if pr_platform r = [] then JNull else JStr (json_stringify js (JObj (pr_platform r))))"
    "flat_value js (built js r old) (key_of ''workspace'' ''capability'') = JNull"
  by (simp_all add: built_value no_flat_old [OF assms] split: option.splits)

lemma flat_agent_key:
  "k \<in> set (map snd keys_agent) \<Longrightarrow> jtruthy (cget m k) \<Longrightarrow> \<not> isLegacyFormat m"
  unfolding isLegacyFormat_def by (metis (no_types, lifting))

lemma built_flat: "\<not> isLegacyFormat (built js r old)"
proof (rule flat_agent_key)
  show "jtruthy (cget (built js r old) (K ''displayName''))"
    by (simp add: cget_def built_eq)
  show "K ''displayName'' \<in> set (map snd keys_agent)" by code_simp
qed

lemma try_json [simp]: "json_ok js v \<Longrightarrow> tryParseJson js (JStr (json_stringify js v)) = v"
  by (simp add: json_ok_def tryParseJson_def)

lemma try_json_null [simp]: "tryParseJson js JNull = JNull"
  by (simp add: tryParseJson_def)

lemma json_ok_ne: "json_ok js v \<Longrightarrow> json_stringify js v \<noteq> []"
  by (simp add: json_ok_def)

lemma opt_field_simps [simp]: "opt_field True k v = [(k, v)]" "opt_field False k v = []"
  by (simp_all add: opt_field_def)

lemma built_profile:
  assumes "prof_ok r" "lib_ok js r" "no_flat_keys old"
  shows "flat_profile js (built js r old) = prof_decoded r"
proof -
  note V = built_values [OF assms(3), of js r]
  have j: "json_ok js (JArr (pr_caps r))" "json_ok js (JArr (pr_eps r))" "json_ok js (JArr (pr_protos r))"
    "json_ok js (JArr (pr_tags r))" "json_ok js (JArr (pr_models r))" "json_ok js (JObj (pr_session r))"
    "json_ok js (JObj (pr_platform r))"
    using assms(2) by (auto simp: lib_ok_def)
  note ne = j [THEN json_ok_ne]
  have net: "flat_network js (built js r old) = prof_network r"
    using ne by (simp add: flat_network_def flat_parsed_def prof_network_def V j)
  have blob: "flat_blob js (built js r old) = prof_blob r"
    using ne by (simp add: flat_blob_def flat_parsed_def flat_direct_def prof_blob_def V j)
  have mk: "flat_markup js (built js r old) = pr_markup r"
  proof (cases "pr_markup r")
    case (Some n)
    then have m: "markup_in_range (JNum n)" "to_number js (JStr (to_string js (JNum n))) = n"
      using assms by (auto simp: prof_ok_def lib_ok_def)
    then show ?thesis
      by (cases n) (auto simp: flat_markup_def V Some nullish_def safeNumber_def markup_in_range_def)
  qed (simp add: flat_markup_def V nullish_def)
  have pay: "opt_field (isVerusAddress (flat_value js (built js r old) (K ''payAddress''))) ''payAddress''
       (flat_value js (built js r old) (K ''payAddress'')) = (case pr_pay r of None \<Rightarrow> [] | Some a \<Rightarrow> [(''payAddress'', JStr a)])"
    using assms(1) by (auto simp: prof_ok_def V isVerusAddress_def split: option.splits)
  have objs: "parsed_object js ''session'' (flat_value js (built js r old) (key_of ''session'' ''params''))
      = opt_field (pr_session r \<noteq> []) ''session'' (JObj (pr_session r))"
    "parsed_object js ''platformConfig'' (flat_value js (built js r old) (key_of ''platform'' ''config''))
      = opt_field (pr_platform r \<noteq> []) ''platformConfig'' (JObj (pr_platform r))"
    "parsed_object js ''workspaceCapability'' (flat_value js (built js r old) (key_of ''workspace'' ''capability'')) = []"
    using ne by (auto simp: parsed_object_def V j Let_def)
  have direct: "flat_direct js (built js r old) (K ''displayName'') ''name'' = [(''name'', JStr (pr_name r))]"
    "flat_direct js (built js r old) (K ''type'') ''type'' = [(''type'', JStr (pr_type r))]"
    "flat_direct js (built js r old) (K ''description'') ''description'' = [(''description'', JStr (pr_desc r))]"
    using assms(1) by (simp_all add: flat_direct_def V prof_ok_def)
  have models: "opt_field (jtruthy (flat_value js (built js r old) (K ''models''))
       \<and> is_array (tryParseJson js (flat_value js (built js r old) (K ''models''))))
       ''models'' (tryParseJson js (flat_value js (built js r old) (K ''models'')))
     = opt_field (pr_models r \<noteq> []) ''models'' (JArr (pr_models r))"
    using ne by (simp add: V j)
  show ?thesis
    unfolding flat_profile_def net blob mk pay objs direct models prof_decoded_def by simp
qed


text \<open>An instance: JSON text for the two values that occur, everything else is not parsed.\<close>

definition demo_prof :: prof where
  "demo_prof = \<lparr>pr_name = ''alice'', pr_type = ''autonomous'', pr_desc = ''helps'', pr_pay = None, pr_caps = [JStr ''a''],
     pr_eps = [], pr_protos = [], pr_tags = [], pr_website = ''w'', pr_avatar = [], pr_category = [], pr_models = [],
     pr_markup = Some (num_int 5), pr_session = [], pr_platform = []\<rparr>"

definition demo_jslib :: jslib where
  "demo_jslib = \<lparr>json_parse = (\<lambda>s. if s = ''[\"a\"]'' then Some (JArr [JStr ''a'']) else if s = ''[]'' then Some (JArr [])
       else if s = ''{}'' then Some (JObj []) else None),
     json_stringify = (\<lambda>v. if v = JArr [JStr ''a''] then ''[\"a\"]'' else if v = JArr [] then ''[]'' else ''{}''),
     to_string = (\<lambda>v. ''5''), to_number = (\<lambda>v. num_int 5), hex_text = id, text_hex = id\<rparr>"


section \<open>Merging and the size guard\<close>

lemma merge_base: "map_get (foldl (\<lambda>m p. map_set m (fst p) (as_array (snd p))) acc e) k
    = (case map_get (rev e) k of Some v \<Rightarrow> Some (as_array v) | None \<Rightarrow> map_get acc k)"
  by (induction e arbitrary: acc) (auto simp: map_get_append split: option.splits)

lemma map_get_rev: "wf_map m \<Longrightarrow> map_get (rev m) k = map_get m k"
proof (induction m)
  case (Cons p m)
  then have "map_get (rev m) k = map_get m k" "map_get m (fst p) = None"
    by (auto simp: wf_map_def map_get_None_iff)
  then show ?case
    by (cases p) (auto simp: map_get_append split: option.splits)
qed simp

lemma merge_adds:
  "wf_map ad \<Longrightarrow> map_get (foldl merge_entry m ad) k =
     (case map_get ad k of None \<Rightarrow> map_get m k
      | Some v \<Rightarrow> Some ((case map_get m k of Some vs \<Rightarrow> vs | None \<Rightarrow> []) @ arr_of v))"
proof (induction ad arbitrary: m)
  case (Cons p ad)
  then have "wf_map ad" "map_get ad (fst p) = None" by (auto simp: wf_map_def map_get_None_iff)
  with Cons.IH show ?case by (cases p) (auto simp: merge_entry_def split: option.splits)
qed simp

text \<open>
  The read-merge-write of a job completion loses nothing: for every key, the values the
  identity had come first, in order, and the added ones after them.
\<close>

theorem mergeContentMultimap_keeps:
  assumes "wf_map existing" and "wf_map additions"
  shows "map_get (mergeContentMultimap existing additions) k =
    (case (map_get existing k, map_get additions k) of
       (None, None) \<Rightarrow> None
     | (Some v, None) \<Rightarrow> Some (as_array v)
     | (None, Some w) \<Rightarrow> Some (arr_of w)
     | (Some v, Some w) \<Rightarrow> Some (as_array v @ arr_of w))"
  using assms by (auto simp: mergeContentMultimap_def merge_adds merge_base map_get_rev split: option.splits)

theorem mergeContentMultimap_keeps_witness:
  "map_get (mergeContentMultimap [(''k'', JArr [JNull])] [(''k'', JArr [JStr ''x''])]) ''k'' = Some [JNull, JStr ''x'']"
  using mergeContentMultimap_keeps [of "[(''k'', JArr [JNull])]" "[(''k'', JArr [JStr ''x''])]" "''k''"]
  by (simp add: wf_map_def as_array_def)

lemma sizes_ok: "assertContentmultimapValueSizes js m = Inr u \<longleftrightarrow>
    (\<forall>p \<in> set m. \<forall>x \<in> set (as_array (snd p)). contentmultimapValueByteSize js x \<le> MAX_CONTENTMULTIMAP_VALUE_BYTES)"
  by (simp add: assertContentmultimapValueSizes_def each_r_ok check_sizes_def each_i_ok all_set_conv_all_nth)

theorem decodeContentMultimap_safe_witness:
  "safe_decoded \<lparr>profile = prof_decoded demo_prof, services = [], disputePolicy = JUndef\<rparr>"
proof (rule decodeContentMultimap_safe)
  have "prof_ok demo_prof" "lib_ok demo_jslib demo_prof" "no_flat_keys []"
    by (simp_all add: prof_ok_def demo_prof_def markup_in_range_def nullish_def lib_ok_def json_ok_def demo_jslib_def
        no_flat_keys_def)
  then show "decodeContentMultimap demo_jslib (built demo_jslib demo_prof [])
      = Inr \<lparr>profile = prof_decoded demo_prof, services = [], disputePolicy = JUndef\<rparr>"
    using built_profile [of demo_prof demo_jslib "[]"] built_flat [of demo_jslib demo_prof "[]"]
      built_values [of "[]" demo_jslib demo_prof]
    by (simp add: decodeContentMultimap_def decodeFlatContentMultimap_def)
qed

end
