(* ===== verification/InboxGate.thy ===== *)
theory InboxGate
  imports Vdxf
begin

text \<open>
  The gate every inbox accept goes through, \<open>src/inbox/vdxf-gate.ts\<close>: the keys each kind of inbox
  item may write to the agent's identity, building the additions of one item, and the two tests
  that a record is on-chain already. An inbox item and an on-chain map are JSON values of unknown
  shape; a thrown value is one too.
\<close>

definition MAX_BATCH_ADDITION_BYTES :: nat where "MAX_BATCH_ADDITION_BYTES = 15000"

definition ALLOWLISTS :: "(string, string list) jsmap" where
  "ALLOWLISTS = [(''review'', [key_of ''review'' ''record'']), (''attestation'', [key_of ''review'' ''attestation'']),
     (''job_record'', map snd keys_job)]"

datatype gate_error =
    UnsupportedType string
  | NoKeyLeft string
  | NothingToWrite string
  | TooLarge vdxf_error

definition inboxAllowlistForType :: "string \<Rightarrow> (gate_error, string list) result" where
  "inboxAllowlistForType t = (case map_get ALLOWLISTS t of Some ks \<Rightarrow> Inr ks | None \<Rightarrow> Inl (UnsupportedType t))"

type_synonym additions = "(string, jv list) jsmap"

text \<open>The loop over \<open>Object.entries(inboxItem.vdxfData)\<close>.\<close>

definition gate_entry :: "string list \<Rightarrow> additions \<Rightarrow> string \<times> jv \<Rightarrow> additions" where
  "gate_entry allow acc p =
     (if nullish (snd p) then acc
      else if fst p \<notin> set allow then acc
      else map_set acc (fst p) (as_array (snd p)))"

definition gate_entries :: "string list \<Rightarrow> jv \<Rightarrow> additions" where
  "gate_entries allow data = foldl (gate_entry allow) [] (own_props data)"

definition job_record :: "int \<Rightarrow> jv \<Rightarrow> jv" where
  "job_record now item = JObj
     ([(''timestamp'', JNum (num_int (now div 1000)))]
      @ opt_field (jtruthy (jget item ''senderVerusId'')) ''buyer'' (jget item ''senderVerusId'')
      @ opt_field (jtruthy (jget item ''jobHash'')) ''jobHash'' (jget item ''jobHash'')
      @ opt_field (\<not> nullish (jget item ''amount'')) ''amount'' (jget item ''amount'')
      @ opt_field (jtruthy (jget item ''currency'')) ''currency'' (jget item ''currency'')
      @ opt_field (jtruthy (jget item ''completedAt'')) ''completedAt'' (jget item ''completedAt''))"

definition buildInboxVdxfAdditions :: "jslib \<Rightarrow> int \<Rightarrow> string \<Rightarrow> jv \<Rightarrow> (gate_error, additions) result" where
  "buildInboxVdxfAdditions js now t item =
     bind_r (inboxAllowlistForType t) (\<lambda>allow.
     if jtruthy (jget item ''vdxfData'') \<and> own_props (jget item ''vdxfData'') \<noteq> []
     then let ad = gate_entries allow (jget item ''vdxfData'') in
          if ad = [] then Inl (NoKeyLeft t) else Inr ad
     else if t = ''job_record''
     then Inr [(key_of ''job'' ''record'',
                [makeSubDD (key_of ''job'' ''record'') (JStr (json_stringify js (job_record now item)))])]
     else Inl (NothingToWrite t))"

definition additionsByteSize :: "jslib \<Rightarrow> additions \<Rightarrow> nat" where
  "additionsByteSize js ad = sum_list (map (contentmultimapValueByteSize js) (concat (map snd ad)))"

text \<open>\<open>existing === undefined || existing === null\<close>, else a list.\<close>

definition on_chain_values :: "jv \<Rightarrow> string \<Rightarrow> jv list option" where
  "on_chain_values onChain key = (if nullish (jget onChain key) then None else Some (as_array (jget onChain key)))"

definition unwrap_dd :: "jv \<Rightarrow> jv" where
  "unwrap_dd v =
     (let dd = jget v DATA_DESCRIPTOR_KEY; od = jget dd ''objectdata'' in
      if (is_object v \<or> is_array v) \<and> jtruthy dd
      then if (is_object od \<or> is_array od) \<and> is_string (jget od ''message'') then jget od ''message'' else od
      else v)"

definition string_field :: "jv \<Rightarrow> string \<Rightarrow> string option" where
  "string_field v k = (if (is_object v \<or> is_array v) \<and> is_string (jget v k) then Some (str_of (jget v k)) else None)"

definition extractJobHash :: "jslib \<Rightarrow> jv \<Rightarrow> string option" where
  "extractJobHash js value =
     (let v = unwrap_dd value in
      if is_string v
      then let s = str_of v;
               json = (if s \<noteq> [] \<and> list_all is_hex s \<and> even (length s) then hex_text js s else s) in
           (case json_parse js json of None \<Rightarrow> None | Some parsed \<Rightarrow> string_field parsed ''jobHash'')
      else string_field v ''jobHash'')"

definition jobHashAlreadyOnChain :: "jslib \<Rightarrow> jv \<Rightarrow> string \<Rightarrow> string option \<Rightarrow> bool" where
  "jobHashAlreadyOnChain js onChain key jh =
     (if jh = None \<or> jh = Some [] then False
      else case on_chain_values onChain key of None \<Rightarrow> False
        | Some vs \<Rightarrow> \<exists>v \<in> set vs. extractJobHash js v = jh)"

definition valueAlreadyOnChain :: "jslib \<Rightarrow> jv \<Rightarrow> string \<Rightarrow> jv list \<Rightarrow> bool" where
  "valueAlreadyOnChain js onChain key values =
     (case on_chain_values onChain key of None \<Rightarrow> False
        | Some vs \<Rightarrow> length vs = length values \<and> json_stringify js (JArr vs) = json_stringify js (JArr values))"

definition errMsg :: "jslib \<Rightarrow> jv \<Rightarrow> string" where
  "errMsg js e = (let m = (if (is_object e \<or> is_array e) \<and> has_key e ''message'' then to_string js (jget e ''message'')
                           else to_string js e) in
                  if m = [] then to_string js e else m)"

definition isAlreadyProcessed :: "jv \<Rightarrow> bool" where
  "isAlreadyProcessed e = ((is_object e \<or> is_array e) \<and> jget e ''code'' = JStr ''ALREADY_PROCESSED'')"

section \<open>What the gate lets through\<close>

lemma gate_entry_get:
  "map_get (foldl (gate_entry allow) acc m) k = (case map_get (rev (filter (\<lambda>p. \<not> nullish (snd p)) m)) k of
     Some v \<Rightarrow> if k \<in> set allow then Some (as_array v) else map_get acc k | None \<Rightarrow> map_get acc k)"
  by (induction m arbitrary: acc) (auto simp: gate_entry_def map_get_append split: option.splits)

lemma gate_entries_wf: "wf_map acc \<Longrightarrow> wf_map (foldl (gate_entry allow) acc m)"
  by (induction m arbitrary: acc) (auto simp: gate_entry_def)

lemma map_get_filter_val: "wf_map m \<Longrightarrow> map_get (filter (\<lambda>p. P (snd p)) m) k
    = (case map_get m k of Some v \<Rightarrow> if P v then Some v else None | None \<Rightarrow> None)"
proof (induction m)
  case (Cons p m)
  then have "wf_map m" "map_get m (fst p) = None" by (auto simp: wf_map_def map_get_None_iff)
  with Cons.IH show ?case by (cases p) (auto split: option.splits)
qed simp

lemma gate_entries_get:
  assumes "wf_map (own_props data)"
  shows "map_get (gate_entries allow data) k = (case map_get (own_props data) k of None \<Rightarrow> None
     | Some v \<Rightarrow> if k \<in> set allow \<and> \<not> nullish v then Some (as_array v) else None)"
proof -
  have "wf_map (filter (\<lambda>p. \<not> nullish (snd p)) (own_props data))" using assms by simp
  then show ?thesis
    using assms map_get_filter_val [OF assms, of "\<lambda>v. \<not> nullish v" k]
    by (auto simp: gate_entries_def gate_entry_get map_get_rev split: option.splits)
qed

lemma allowlist_cases:
  "inboxAllowlistForType t = Inr ks \<longleftrightarrow>
     (t = ''review'' \<and> ks = [key_of ''review'' ''record''])
   \<or> (t = ''attestation'' \<and> ks = [key_of ''review'' ''attestation''])
   \<or> (t = ''job_record'' \<and> ks = map snd keys_job)"
  by (auto simp: inboxAllowlistForType_def ALLOWLISTS_def split: option.splits)

lemma keys_job_eq: "map snd keys_job = [key_of ''job'' ''record'']"
  by code_simp

text \<open>The one key an item of each kind may write.\<close>

definition own_key :: "string \<Rightarrow> string" where
  "own_key t = (if t = ''review'' then key_of ''review'' ''record''
     else if t = ''attestation'' then key_of ''review'' ''attestation'' else key_of ''job'' ''record'')"

lemma gate_result:
  assumes "buildInboxVdxfAdditions js now t item = Inr ad" and "wf_map (own_props (jget item ''vdxfData''))"
  shows "t \<in> {''review'', ''attestation'', ''job_record''} \<and> map fst ad = [own_key t]
    \<and> (if jtruthy (jget item ''vdxfData'') \<and> own_props (jget item ''vdxfData'') \<noteq> []
       then \<exists>v. map_get (own_props (jget item ''vdxfData'')) (own_key t) = Some v \<and> \<not> nullish v \<and> map snd ad = [as_array v]
       else t = ''job_record'')"
proof -
  obtain allow where al: "inboxAllowlistForType t = Inr allow"
    using assms(1) by (auto simp: buildInboxVdxfAdditions_def bind_r_eq_Inr)
  then have t: "t \<in> {''review'', ''attestation'', ''job_record''}" and k: "allow = [own_key t]"
    by (auto simp: allowlist_cases own_key_def keys_job_eq)
  show ?thesis
  proof (cases "jtruthy (jget item ''vdxfData'') \<and> own_props (jget item ''vdxfData'') \<noteq> []")
    case True
    then have ad: "ad = gate_entries [own_key t] (jget item ''vdxfData'')" "ad \<noteq> []"
      using assms(1) al k by (auto simp: buildInboxVdxfAdditions_def Let_def split: if_splits)
    have w: "distinct (map fst ad)"
      using gate_entries_wf [of "[]"] by (simp add: ad gate_entries_def wf_map_def)
    note g = gate_entries_get [OF assms(2), of "[own_key t]", folded ad(1)]
    have keys: "fst p = own_key t" if "p \<in> set ad" for p
      using map_get_in_wf [of ad "fst p" "snd p"] that w g [of "fst p"]
      by (auto simp: wf_map_def split: option.splits if_splits)
    obtain p where p: "p \<in> set ad" using ad(2) by (meson list.set_sel(1))
    have "ad = [p]"
      using w keys ad(2) by (cases ad; cases "tl ad") (use p in auto)
    moreover have "map_get ad (own_key t) = Some (snd p)"
      using calculation keys [OF p] by (cases p) simp
    ultimately show ?thesis
      using t True keys [OF p] g [of "own_key t"] by (auto split: option.splits if_splits)
  next
    case False
    then show ?thesis
      using assms(1) al t by (auto simp: buildInboxVdxfAdditions_def own_key_def split: if_splits)
  qed
qed

text \<open>
  C10. An accepted inbox item writes exactly one key, the one of its own kind, whatever other keys
  the platform sent; the values are the ones it sent, unchanged, and only a job record is ever
  made up locally: a review or an attestation without its signed payload is refused.
\<close>

theorem inbox_gate:
  assumes "buildInboxVdxfAdditions js now t item = Inr ad" and "wf_map (own_props (jget item ''vdxfData''))"
  shows "t \<in> {''review'', ''attestation'', ''job_record''} \<and> map fst ad = [own_key t]
    \<and> (if jtruthy (jget item ''vdxfData'') \<and> own_props (jget item ''vdxfData'') \<noteq> []
       then \<exists>v. map_get (own_props (jget item ''vdxfData'')) (own_key t) = Some v \<and> \<not> nullish v \<and> map snd ad = [as_array v]
       else t = ''job_record'')"
  using assms by (rule gate_result)

lemma in_table_of_record: "in_table_of ''review'' ''record''"
  by code_simp

lemma pay_key_neq: "key_of ''agent'' ''payAddress'' \<noteq> key_of ''review'' ''record''"
  by (simp add: in_table_of_record)

theorem inbox_gate_witness:
  "\<exists>ad. buildInboxVdxfAdditions demo_jslib 0 ''review'' (JObj [(''vdxfData'',
       JObj [(key_of ''agent'' ''payAddress'', JStr ''evil''), (key_of ''review'' ''record'', JArr [JStr ''ab''])])]) = Inr ad
     \<and> map fst ad = [key_of ''review'' ''record''] \<and> map snd ad = [[JStr ''ab'']]"
proof -
  let ?item = "JObj [(''vdxfData'', JObj [(key_of ''agent'' ''payAddress'', JStr ''evil''), (key_of ''review'' ''record'', JArr [JStr ''ab''])])]"
  obtain ad where ad: "buildInboxVdxfAdditions demo_jslib 0 ''review'' ?item = Inr ad"
    by (simp add: buildInboxVdxfAdditions_def own_key_def bind_r_def inboxAllowlistForType_def ALLOWLISTS_def
        own_props_def gate_entries_def gate_entry_def as_array_def nullish_def pay_key_neq Let_def)
  moreover have "wf_map (own_props (jget ?item ''vdxfData''))"
    by (simp add: own_props_def wf_map_def pay_key_neq)
  ultimately show ?thesis
    using inbox_gate [OF ad] by (auto simp: own_key_def own_props_def as_array_def pay_key_neq split: if_splits)
qed

end
