(* ===== verification/IdentityUpdate.thy ===== *)
theory IdentityUpdate
  imports Payment Vdxf "HOL-Library.Char_ord" "HOL-Library.List_Lexorder"
begin

text \<open>
  The identity update transaction, \<open>src/identity/update.ts\<close>: the new contentmultimap (kept keys,
  additions, no removal key, in hash160 order), the identity JSON, the guards against a doctored
  answer of the platform, coin selection for the fee and the transaction. Serialising the identity
  (\<open>verus-typescript-primitives\<close>), the WIF key and the builder (\<open>@bitgo/utxo-lib\<close>) and the base58
  codec are not in the repository: they are the functions of the record \<open>idlib\<close>.
\<close>

record idlib =
  identity_script :: "jv \<Rightarrow> (string, nat list) result"
  wif_key :: "string \<Rightarrow> network \<Rightarrow> (string, string) result"
  address_script :: "string \<Rightarrow> network \<Rightarrow> (string, nat list) result"
  key_hash160 :: "string \<Rightarrow> string option"

definition IDENTITY_EXPIRY_DELTA :: nat where "IDENTITY_EXPIRY_DELTA = 200"

record prev_output =
  po_txid :: string
  po_vout :: nat
  po_script :: string
  po_value :: jsnum

record raw_identity =
  ri_identity :: jv
  ri_height :: jsnum
  ri_prev :: "prev_output option"

record update_params =
  u_wif :: string
  u_data :: raw_identity
  u_utxos :: "utxo list"
  u_additions :: "(string, jv list) jsmap"
  u_network :: network
  u_fee :: jsnum
  u_revocation :: "string option"
  u_recovery :: "string option"
  u_clear :: bool
  u_expiry :: "jsnum option"

record id_tx =
  it_version :: nat
  it_group :: nat
  it_expiry :: jsnum
  it_ins :: "tx_in list"
  it_outs :: "(nat list \<times> jsnum) list"
  it_signed :: "(nat \<times> jsnum) list"

datatype update_error =
    NoPrevOutput
  | NoIdentity
  | NoUtxo
  | Oversized vdxf_error
  | BadKey
  | NotPrimary
  | ImplausibleMinSigs
  | NoSpendable string
  | NoFunds jsnum jsnum
  | Lib string

definition lib_r :: "(string, 'a) result \<Rightarrow> (update_error, 'a) result" where
  "lib_r r = (case r of Inl e \<Rightarrow> Inl (Lib e) | Inr a \<Rightarrow> Inr a)"

lemma lib_r_Inr [simp]: "lib_r r = Inr a \<longleftrightarrow> r = Inr a" "lib_r (Inr b) = Inr b" "lib_r (Inl e) = Inl (Lib e)"
  by (auto simp: lib_r_def split: sum.splits)

section \<open>Coin selection for the fee\<close>

definition select_fee_utxos :: "utxo list \<Rightarrow> jsnum \<Rightarrow> (update_error, utxo list \<times> jsnum) result" where
  "select_fee_utxos utxos target =
     (let (selected, tot) = select_loop target (sort_key (\<lambda>u. - satoshis u) utxos) [] (num_int 0) in
      if js_lt tot target then Inl (NoFunds target tot) else Inr (selected, tot))"

section \<open>The new contentmultimap\<close>

definition kept_entries :: "bool \<Rightarrow> jv \<Rightarrow> (string, jv list) jsmap" where
  "kept_entries clear old =
     (if \<not> clear \<and> jtruthy old
      then map (\<lambda>p. (fst p, as_array (snd p))) (filter (\<lambda>p. fst p \<noteq> MULTIMAPREMOVE_KEY) (own_props old)) else [])"

definition apply_additions :: "(string, jv list) jsmap \<Rightarrow> (string, jv list) jsmap \<Rightarrow> (string, jv list) jsmap" where
  "apply_additions m ad = foldl (\<lambda>acc p. map_set acc (fst p) (snd p)) m ad"

definition additions_cmm :: "(string, jv list) jsmap \<Rightarrow> cmm" where
  "additions_cmm ad = map (\<lambda>p. (fst p, JArr (snd p))) ad"

text \<open>
  The comparator decodes both keys of each comparison, so a map of two keys or more with a key
  that is no base58check throws; a map with a single key is never compared.
\<close>

definition sort_cmm :: "idlib \<Rightarrow> (string, jv list) jsmap \<Rightarrow> (update_error, (string, jv list) jsmap) result" where
  "sort_cmm lib m =
     (if length m \<le> 1 then Inr m
      else if \<exists>p \<in> set m. key_hash160 lib (fst p) = None then Inl BadKey
      else Inr (sort_key (\<lambda>p. the (key_hash160 lib (fst p))) m))"

definition new_cmm :: "jslib \<Rightarrow> idlib \<Rightarrow> bool \<Rightarrow> jv \<Rightarrow> (string, jv list) jsmap \<Rightarrow> (update_error, (string, jv list) jsmap) result" where
  "new_cmm js lib clear old ad =
     (case assertContentmultimapValueSizes js (additions_cmm ad) of
        Inl e \<Rightarrow> Inl (Oversized e)
      | Inr _ \<Rightarrow> sort_cmm lib (apply_additions (kept_entries clear old) ad))"

section \<open>The identity and the transaction\<close>

definition str_or :: "string option \<Rightarrow> jv \<Rightarrow> jv" where
  "str_or s v = (if truthy_str s then JStr (the s) else v)"

definition identity_json :: "jv \<Rightarrow> (string, jv list) jsmap \<Rightarrow> string option \<Rightarrow> string option \<Rightarrow> jv" where
  "identity_json i cmm revoc recov = JObj
     [(''version'', if nullish (jget i ''version'') then JNum (num_int 3) else jget i ''version''),
      (''flags'', if nullish (jget i ''flags'') then JNum (num_int 0) else jget i ''flags''),
      (''minimumsignatures'', jget i ''minimumsignatures''),
      (''primaryaddresses'', jget i ''primaryaddresses''),
      (''parent'', jget i ''parent''),
      (''name'', jget i ''name''),
      (''contentmap'', or_else (jget i ''contentmap'') (JObj [])),
      (''contentmultimap'', JObj (map (\<lambda>p. (fst p, JArr (snd p))) cmm)),
      (''revocationauthority'', str_or revoc (jget i ''revocationauthority'')),
      (''recoveryauthority'', str_or recov (jget i ''recoveryauthority'')),
      (''systemid'', or_else (jget i ''systemid'') (jget i ''parent'')),
      (''timelock'', JNum (num_int 0))]"

definition is_primary :: "string \<Rightarrow> jv \<Rightarrow> bool" where
  "is_primary a i = (is_array (jget i ''primaryaddresses'') \<and> JStr a \<in> set (arr_of (jget i ''primaryaddresses'')))"

definition implausible_minsigs :: "jv \<Rightarrow> bool" where
  "implausible_minsigs i = (let m = jget i ''minimumsignatures'' in
     is_number m \<and> (js_lt (num_of m) (num_int 1)
       \<or> js_lt (num_int (int (length (arr_of (jget i ''primaryaddresses''))))) (num_of m)))"

definition spendable_for :: "string \<Rightarrow> utxo list \<Rightarrow> utxo list" where
  "spendable_for a us = filter (\<lambda>u. satoshis u > 0 \<and> (\<not> truthy_str (addr u) \<or> addr u = Some a)) us"

definition update_expiry :: "update_params \<Rightarrow> jsnum" where
  "update_expiry p = (case expiry_field (u_expiry p) of Some h \<Rightarrow> h | None \<Rightarrow> js_add (ri_height (u_data p)) (num_int (int IDENTITY_EXPIRY_DELTA)))"

definition id_change_outs :: "nat list \<Rightarrow> jsnum \<Rightarrow> (nat list \<times> jsnum) list" where
  "id_change_outs s change = (if js_lt (num_int 0) change then [(s, change)] else [])"

definition id_inputs :: "nat list \<Rightarrow> utxo list \<Rightarrow> prev_output \<Rightarrow> tx_in list" where
  "id_inputs s sel po = map (\<lambda>u. \<lparr>in_txid = txid u, in_vout = vout u, in_script = Some (to_hex s)\<rparr>) sel
     @ [\<lparr>in_txid = po_txid po, in_vout = po_vout po, in_script = Some (po_script po)\<rparr>]"

definition id_signatures :: "utxo list \<Rightarrow> prev_output \<Rightarrow> (nat \<times> jsnum) list" where
  "id_signatures sel po = zip [0..<length sel] (map (\<lambda>u. num_int (satoshis u)) sel)
     @ [(length sel, math_round (js_mul (po_value po) SATS_PER_COIN))]"

definition make_id_tx :: "update_params \<Rightarrow> nat list \<Rightarrow> nat list \<Rightarrow> utxo list \<Rightarrow> jsnum \<Rightarrow> prev_output \<Rightarrow> id_tx" where
  "make_id_tx p idScript s sel tot po = \<lparr>it_version = 4, it_group = 0x892f2085, it_expiry = update_expiry p,
     it_ins = id_inputs s sel po, it_outs = (idScript, num_int 0) # id_change_outs s (js_sub tot (u_fee p)),
     it_signed = id_signatures sel po\<rparr>"

definition buildIdentityUpdateTx :: "jslib \<Rightarrow> idlib \<Rightarrow> update_params \<Rightarrow> (update_error, id_tx) result" where
  "buildIdentityUpdateTx js lib p =
     (case ri_prev (u_data p) of
        None \<Rightarrow> Inl NoPrevOutput
      | Some po \<Rightarrow> let i = ri_identity (u_data p) in
      if \<not> jtruthy i then Inl NoIdentity
      else if u_utxos p = [] then Inl NoUtxo
      else
      bind_r (new_cmm js lib (u_clear p) (jget i ''contentmultimap'') (u_additions p)) (\<lambda>cmm.
      bind_r (lib_r (identity_script lib (identity_json i cmm (u_revocation p) (u_recovery p)))) (\<lambda>idScript.
      bind_r (lib_r (wif_key lib (u_wif p) (u_network p))) (\<lambda>a.
      bind_r (lib_r (address_script lib a (u_network p))) (\<lambda>s.
      if \<not> is_primary a i then Inl NotPrimary
      else if implausible_minsigs i then Inl ImplausibleMinSigs
      else let mine = spendable_for a (u_utxos p) in
      if mine = [] then Inl (NoSpendable a)
      else bind_r (select_fee_utxos mine (u_fee p)) (\<lambda>(sel, tot).
      Inr (make_id_tx p idScript s sel tot po)))))))"

section \<open>The fee selector meets the selection contract\<close>

lemma select_fee_loop:
  assumes "select_loop t (sort_key (\<lambda>u. - satoshis u) us) [] (num_int 0) = (sel, x)"
  shows "mset sel \<subseteq># mset us" "x = total_of sel" "js_le t x \<or> mset sel = mset us"
    "\<And>k. 0 < k \<Longrightarrow> k < length sel \<Longrightarrow> \<not> js_le t (total_of (take k sel))"
proof -
  obtain pre post where p: "sort_key (\<lambda>u. - satoshis u) us = pre @ post" "sel = pre" "x = total_of sel"
      "js_le t x \<or> post = []" "\<forall>k < length pre. 0 < k \<longrightarrow> \<not> js_le t (total_of (take k pre))"
    using select_loop_spec [OF assms] by auto
  have m: "mset us = mset (pre @ post)" using p(1) by (metis mset_sort)
  show "mset sel \<subseteq># mset us" "x = total_of sel" "js_le t x \<or> mset sel = mset us"
    "\<And>k. 0 < k \<Longrightarrow> k < length sel \<Longrightarrow> \<not> js_le t (total_of (take k sel))"
    using p m by auto
qed

lemma select_fee_spec:
  assumes "select_fee_utxos us t = Inr (sel, x)"
  shows "mset sel \<subseteq># mset us" "x = total_of sel" "\<not> js_lt x t"
    "\<And>k. 0 < k \<Longrightarrow> k < length sel \<Longrightarrow> \<not> js_le t (total_of (take k sel))"
proof -
  have l: "select_loop t (sort_key (\<lambda>u. - satoshis u) us) [] (num_int 0) = (sel, x)" "\<not> js_lt x t"
    using assms by (auto simp: select_fee_utxos_def split: prod.splits if_splits)
  then show "mset sel \<subseteq># mset us" "x = total_of sel" "\<not> js_lt x t"
    "\<And>k. 0 < k \<Longrightarrow> k < length sel \<Longrightarrow> \<not> js_le t (total_of (take k sel))"
    using select_fee_loop [OF l(1)] by auto
qed

lemma select_fee_fails: "select_fee_utxos us t = Inl e \<Longrightarrow> \<exists>vs. mset vs = mset us \<and> js_lt (total_of vs) t"
proof -
  assume "select_fee_utxos us t = Inl e"
  then obtain sel x where l: "select_loop t (sort_key (\<lambda>u. - satoshis u) us) [] (num_int 0) = (sel, x)" "js_lt x t"
    by (auto simp: select_fee_utxos_def split: prod.splits if_splits)
  have "\<not> js_le t x" using l(2) by (cases x; cases t) auto
  then show ?thesis using select_fee_loop [OF l(1)] l(2) by auto
qed

interpretation fee_coins: coin_selection select_fee_utxos "\<lambda>t. t"
  by unfold_locales (use select_fee_spec select_fee_fails in auto)

section \<open>What an update writes\<close>

lemma apply_additions_get: "map_get (apply_additions m ad) k = (case map_get (rev ad) k of Some v \<Rightarrow> Some v | None \<Rightarrow> map_get m k)"
  unfolding apply_additions_def
  by (induction ad arbitrary: m) (auto simp: map_get_append split: option.splits)

lemma map_get_kept_where:
  "map_get (map (\<lambda>p. (fst p, f (snd p))) (filter (\<lambda>p. fst p \<noteq> a) m)) k
     = (if k = a then None else map_option f (map_get m k))"
  by (induction m) auto

lemma wf_kept_where: "wf_map m \<Longrightarrow> wf_map (map (\<lambda>p. (fst p, f (snd p))) (filter (\<lambda>p. fst p \<noteq> a) m))"
  by (induction m) (auto simp: wf_map_def)

lemma kept_get:
  "map_get (kept_entries clear old) k =
    (if clear \<or> \<not> jtruthy old \<or> k = MULTIMAPREMOVE_KEY then None else map_option as_array (map_get (own_props old) k))"
  by (auto simp: kept_entries_def map_get_kept_where)

lemma wf_apply_additions: "wf_map m \<Longrightarrow> wf_map (apply_additions m ad)"
  unfolding apply_additions_def by (induction ad arbitrary: m) auto

lemma wf_kept: "wf_map (own_props old) \<Longrightarrow> wf_map (kept_entries clear old)"
  by (auto simp: kept_entries_def wf_kept_where)

lemma map_get_perm: "wf_map m \<Longrightarrow> mset n = mset m \<Longrightarrow> map_get n k = map_get m k"
proof -
  assume w: "wf_map m" and e: "mset n = mset m"
  have "mset (map fst n) = mset (map fst m)" using e by simp
  then have w': "wf_map n" using w unfolding wf_map_def by (metis mset_eq_imp_distinct_iff)
  have s: "set n = set m" using e by (rule mset_eq_setD)
  show ?thesis
  proof (cases "map_get m k")
    case None
    with s have "map_get n k = None" by (metis map_get_None_iff)
    with None show ?thesis by simp
  next
    case (Some v)
    then have "(k, v) \<in> set n" using s map_get_Some_in by metis
    with w' Some show ?thesis by (simp add: map_get_in_wf)
  qed
qed

lemma sort_cmm_ok:
  assumes "sort_cmm lib m = Inr n"
  shows "mset n = mset m" "sorted (map (\<lambda>p. the (key_hash160 lib (fst p))) n)"
proof -
  consider "length m \<le> 1" "n = m" | "n = sort_key (\<lambda>p. the (key_hash160 lib (fst p))) m"
    using assms by (auto simp: sort_cmm_def split: if_splits)
  then have "mset n = mset m \<and> sorted (map (\<lambda>p. the (key_hash160 lib (fst p))) n)"
  proof cases
    case 1
    then show ?thesis by (cases m) auto
  qed simp
  then show "mset n = mset m" "sorted (map (\<lambda>p. the (key_hash160 lib (fst p))) n)" by auto
qed

text \<open>
  The contentmultimap an update writes: an added key has exactly the added values, every
  other key keeps what the identity had (unless the caller clears it), a removal instruction is
  never carried forward, no key is written twice, the keys are in the hash160 order the daemon
  requires, and no added value is larger than the chain stores.
\<close>

theorem new_cmm_correct:
  assumes "new_cmm js lib clear old ad = Inr cmm" and "wf_map (own_props old)" and "wf_map ad"
  shows "map_get cmm k = (case map_get ad k of Some vs \<Rightarrow> Some vs
       | None \<Rightarrow> if clear \<or> \<not> jtruthy old \<or> k = MULTIMAPREMOVE_KEY then None
                else map_option as_array (map_get (own_props old) k))
    \<and> wf_map cmm \<and> sorted (map (\<lambda>p. the (key_hash160 lib (fst p))) cmm)
    \<and> (\<forall>p \<in> set ad. \<forall>x \<in> set (snd p). contentmultimapValueByteSize js x \<le> 5000)"
proof -
  let ?m = "apply_additions (kept_entries clear old) ad"
  have s: "sort_cmm lib ?m = Inr cmm" and z: "assertContentmultimapValueSizes js (additions_cmm ad) = Inr ()"
    using assms(1) by (auto simp: new_cmm_def split: sum.splits)
  have w: "wf_map ?m" using assms(2) by (intro wf_apply_additions wf_kept)
  have e: "mset cmm = mset ?m" and o: "sorted (map (\<lambda>p. the (key_hash160 lib (fst p))) cmm)"
    using sort_cmm_ok [OF s] by auto
  have "mset (map fst cmm) = mset (map fst ?m)" using e by simp
  then have "wf_map cmm" using w unfolding wf_map_def by (metis mset_eq_imp_distinct_iff)
  moreover have "map_get cmm k = (case map_get ad k of Some vs \<Rightarrow> Some vs | None \<Rightarrow> map_get (kept_entries clear old) k)"
    using map_get_perm [OF w e] assms(3) by (simp add: apply_additions_get map_get_rev)
  moreover have "\<forall>p \<in> set ad. \<forall>x \<in> set (snd p). contentmultimapValueByteSize js x \<le> 5000"
    using z by (simp add: sizes_ok additions_cmm_def as_array_def MAX_CONTENTMULTIMAP_VALUE_BYTES_def)
  ultimately show ?thesis using o unfolding kept_get by blast
qed

theorem new_cmm_correct_witness:
  "map_get [(''kb'', [JStr ''new'']), (''ka'', [JNull])] ''kb'' = Some [JStr ''new'']"
proof -
  define lib where "lib = \<lparr>identity_script = (\<lambda>v. Inr []), wif_key = (\<lambda>w n. Inr ''R''), address_script = (\<lambda>a n. Inr []),
    key_hash160 = (\<lambda>k. Some (if k = ''kb'' then ''00'' else ''ff''))\<rparr>"
  have "new_cmm demo_jslib lib False (JObj [(''ka'', JArr [JNull]), (MULTIMAPREMOVE_KEY, JNull)]) [(''kb'', [JStr ''new''])]
      = Inr [(''kb'', [JStr ''new'']), (''ka'', [JNull])]"
    by (simp add: new_cmm_def lib_def assertContentmultimapValueSizes_def additions_cmm_def check_sizes_def as_array_def
        contentmultimapValueByteSize_def Let_def is_hex_def is_digit_def byte_length_def MAX_CONTENTMULTIMAP_VALUE_BYTES_def
        sort_cmm_def apply_additions_def kept_entries_def own_props_def MULTIMAPREMOVE_KEY_def guard_r_def)
  from new_cmm_correct [OF this, of "''kb''"] show ?thesis
    by (simp add: own_props_def wf_map_def MULTIMAPREMOVE_KEY_def)
qed

section \<open>What an update may sign\<close>

lemma sats_sum_filter: "\<forall>u \<in> set us. 0 \<le> satoshis u \<Longrightarrow> sats_sum (filter P us) \<le> sats_sum us"
  by (induction us) auto

lemma spendable_exact:
  "\<forall>u \<in> set us. 0 \<le> satoshis u \<Longrightarrow> sats_sum us \<le> 2 ^ 53 \<Longrightarrow> exact_wallet (spendable_for a us)"
  using sats_sum_filter [of us "\<lambda>u. satoshis u > 0 \<and> (\<not> truthy_str (addr u) \<or> addr u = Some a)"]
  by (auto simp: exact_wallet_def spendable_for_def)

lemma fee_change_exact:
  assumes "exact_wallet us" "select_fee_utxos us (num_int f) = Inr (sel, x)" "0 \<le> f"
  shows "f \<le> sats_sum sel" "js_sub x (num_int f) = num_int (sats_sum sel - f)"
proof -
  have x: "x = num_int (sats_sum sel)" using assms fee_coins.sel_total by blast
  show f: "f \<le> sats_sum sel" using fee_coins.sel_covers [OF assms(1,2) refl] .
  have "sats_sum sel \<le> 2 ^ 53" using fee_coins.sel_exact [OF assms(1,2)] by (simp add: exact_wallet_def)
  with f assms(3) show "js_sub x (num_int f) = num_int (sats_sum sel - f)"
    unfolding x by (simp add: js_sub_int del: of_int_diff)
qed

lemma build_cases:
  assumes "buildIdentityUpdateTx js lib p = Inr t"
  obtains po cmm ids a s sel tot where
    "ri_prev (u_data p) = Some po"
    "new_cmm js lib (u_clear p) (jget (ri_identity (u_data p)) ''contentmultimap'') (u_additions p) = Inr cmm"
    "identity_script lib (identity_json (ri_identity (u_data p)) cmm (u_revocation p) (u_recovery p)) = Inr ids"
    "wif_key lib (u_wif p) (u_network p) = Inr a" "address_script lib a (u_network p) = Inr s"
    "is_primary a (ri_identity (u_data p))" "\<not> implausible_minsigs (ri_identity (u_data p))"
    "select_fee_utxos (spendable_for a (u_utxos p)) (u_fee p) = Inr (sel, tot)"
    "t = make_id_tx p ids s sel tot po"
  using assms
  by (auto simp: buildIdentityUpdateTx_def Let_def bind_r_eq_Inr split: option.splits if_splits)


definition demo_idlib :: idlib where
  "demo_idlib = \<lparr>identity_script = (\<lambda>v. Inr [1]), wif_key = (\<lambda>w n. Inr ''Rme''), address_script = (\<lambda>a n. Inr [2]),
     key_hash160 = (\<lambda>k. Some k)\<rparr>"

definition demo_update :: update_params where
  "demo_update = \<lparr>u_wif = ''w'', u_data = \<lparr>ri_identity = JObj [(''primaryaddresses'', JArr [JStr ''Rme'']), (''minimumsignatures'', JNum (num_int 1))],
       ri_height = num_int 10, ri_prev = Some \<lparr>po_txid = ''p'', po_vout = 1, po_script = ''ab'', po_value = num_int 0\<rparr>\<rparr>,
     u_utxos = [\<lparr>txid = ''a'', vout = 0, addr = Some ''iX'', satoshis = 90000, script = None\<rparr>, \<lparr>txid = ''b'', vout = 0, addr = None, satoshis = 10000, script = None\<rparr>],
     u_additions = [], u_network = Verus, u_fee = num_int 10000, u_revocation = None, u_recovery = None, u_clear = False, u_expiry = None\<rparr>"

lemma demo_update_runs: "\<exists>t. buildIdentityUpdateTx demo_jslib demo_idlib demo_update = Inr t \<and> length (it_outs t) = 1"
proof -
  have "js_add (num_int 0) (num_int 10000) = num_int 10000" using js_add_int [of 0 10000] by simp
  then show ?thesis
    by (simp add: buildIdentityUpdateTx_def demo_update_def demo_idlib_def new_cmm_def additions_cmm_def
      assertContentmultimapValueSizes_def apply_additions_def kept_entries_def sort_cmm_def is_primary_def implausible_minsigs_def
      spendable_for_def truthy_str_def select_fee_utxos_def Let_def make_id_tx_def id_change_outs_def js_sub_def)
qed


end
