(* ===== verification/InboxBatch.thy ===== *)
theory InboxBatch
  imports InboxGate IdentityUpdate Wallet
begin

text \<open>
  Accepting a batch of inbox items in one identity transaction, \<open>acceptInboxBatch\<close> of
  \<open>src/agent.ts\<close>: fetch and gate each item, read the identity once, merge one item per key within
  a byte budget, build (and find the culprit when the build fails), broadcast, acknowledge. The
  platform is the record \<open>inbox_env\<close>: a call that may be repeated gets the index of the call, so
  that it may answer each time differently; a thrown value is a JSON value. The signed transaction
  stands for its hex encoding. The events emitted on an acknowledgement are the list \<open>acked\<close>.
\<close>

record inbox_ref =
  ref_id :: string
  ref_type :: string

record inbox_env =
  env_item :: "nat \<Rightarrow> string \<Rightarrow> (jv, jv) result"
  env_reads :: "(jv, raw_identity \<times> utxo list option) result"
  env_tip :: "(jv, jsnum option) result"
  env_broadcast :: "id_tx \<Rightarrow> (jv, string) result"
  env_ack :: "nat \<Rightarrow> string \<Rightarrow> string option \<Rightarrow> (jv, unit) result"
  env_now :: "nat \<Rightarrow> int"

record agent_ctx =
  ctx_wif :: "string option"
  ctx_iaddr :: "string option"
  ctx_network :: network

datatype reject_reason = TypeMismatch string jv | GateFailed gate_error | BuildBlamed update_error

datatype defer_reason = FetchFailed jv | KeyCollision | SizeBudget | RebuildFailed update_error

record batch_result =
  br_txid :: "string option"
  br_expiry :: "jsnum option"
  br_written :: "inbox_ref list"
  br_acked :: "string list"
  br_ackFailed :: "(string \<times> jv) list"
  br_rejected :: "(inbox_ref \<times> reject_reason) list"
  br_deferred :: "(inbox_ref \<times> defer_reason) list"
  br_done :: "string list"

datatype batch_error = KeysRequired | Thrown jv | NoPrevious | NoFeeUtxos | BuildFailed update_error

definition empty_result :: batch_result where
  "empty_result = \<lparr>br_txid = None, br_expiry = None, br_written = [], br_acked = [], br_ackFailed = [],
     br_rejected = [], br_deferred = [], br_done = []\<rparr>"

type_synonym candidate = "inbox_ref \<times> additions"

section \<open>Phase 1: fetch and gate\<close>

definition gate_item :: "jslib \<Rightarrow> int \<Rightarrow> string \<Rightarrow> jv \<Rightarrow> (gate_error, additions) result" where
  "gate_item js now t detail =
     bind_r (buildInboxVdxfAdditions js now t detail) (\<lambda>ad.
     case assertContentmultimapValueSizes js (additions_cmm ad) of
       Inl e \<Rightarrow> Inl (TooLarge e) | Inr _ \<Rightarrow> Inr ad)"

definition fetch_step :: "jslib \<Rightarrow> inbox_env \<Rightarrow> nat \<Rightarrow> inbox_ref \<Rightarrow> candidate list \<times> batch_result \<Rightarrow> candidate list \<times> batch_result" where
  "fetch_step js env i ref s = (case s of (cs, r) \<Rightarrow>
     case env_item env i (ref_id ref) of
       Inl e \<Rightarrow> (cs, r\<lparr>br_deferred := br_deferred r @ [(ref, FetchFailed e)]\<rparr>)
     | Inr detail \<Rightarrow>
         if jget detail ''status'' \<noteq> JStr ''pending'' then (cs, r\<lparr>br_done := br_done r @ [ref_id ref]\<rparr>)
         else if jtruthy (jget detail ''type'') \<and> jget detail ''type'' \<noteq> JStr (ref_type ref)
         then (cs, r\<lparr>br_rejected := br_rejected r @ [(ref, TypeMismatch (ref_type ref) (jget detail ''type''))]\<rparr>)
         else (case gate_item js (env_now env i) (ref_type ref) detail of
                 Inl e \<Rightarrow> (cs, r\<lparr>br_rejected := br_rejected r @ [(ref, GateFailed e)]\<rparr>)
               | Inr ad \<Rightarrow> (cs @ [(ref, ad)], r)))"

fun fetch_loop :: "jslib \<Rightarrow> inbox_env \<Rightarrow> nat \<Rightarrow> inbox_ref list \<Rightarrow> candidate list \<times> batch_result \<Rightarrow> candidate list \<times> batch_result" where
  "fetch_loop js env i [] s = s"
| "fetch_loop js env i (ref # refs) s = fetch_loop js env (Suc i) refs (fetch_step js env i ref s)"

section \<open>Phase 3: merge\<close>

record merge_state =
  mg_map :: additions
  mg_refs :: "inbox_ref list"
  mg_bytes :: nat

definition key_present :: "jslib \<Rightarrow> jv \<Rightarrow> string \<times> jv list \<Rightarrow> bool" where
  "key_present js onChain p =
     (if valueAlreadyOnChain js onChain (fst p) (snd p) then True
      else if fst p \<noteq> key_of ''review'' ''record'' then False
      else jobHashAlreadyOnChain js onChain (fst p)
             (extractJobHash js (if snd p = [] then JUndef else hd (snd p))))"

definition set_all :: "additions \<Rightarrow> additions \<Rightarrow> additions" where
  "set_all m ad = foldl (\<lambda>acc p. map_set acc (fst p) (snd p)) m ad"

definition merge_step :: "jslib \<Rightarrow> nat \<Rightarrow> jv \<Rightarrow> merge_state \<times> batch_result \<Rightarrow> candidate \<Rightarrow> merge_state \<times> batch_result" where
  "merge_step js maxBytes onChain s c = (case (s, c) of ((m, r), (ref, ad)) \<Rightarrow>
     if list_all (key_present js onChain) ad then (m, r\<lparr>br_written := br_written r @ [ref]\<rparr>)
     else if \<exists>p \<in> set ad. map_get (mg_map m) (fst p) \<noteq> None
     then (m, r\<lparr>br_deferred := br_deferred r @ [(ref, KeyCollision)]\<rparr>)
     else if mg_bytes m + additionsByteSize js ad > maxBytes
     then (m, r\<lparr>br_deferred := br_deferred r @ [(ref, SizeBudget)]\<rparr>)
     else (\<lparr>mg_map = set_all (mg_map m) ad, mg_refs = mg_refs m @ [ref],
            mg_bytes = mg_bytes m + additionsByteSize js ad\<rparr>, r))"

definition merge_all :: "jslib \<Rightarrow> nat \<Rightarrow> jv \<Rightarrow> candidate list \<Rightarrow> batch_result \<Rightarrow> merge_state \<times> batch_result" where
  "merge_all js maxBytes onChain cs r =
     foldl (merge_step js maxBytes onChain) (\<lparr>mg_map = [], mg_refs = [], mg_bytes = 0\<rparr>, r) cs"

section \<open>Phase 4: build, bisect, broadcast\<close>

text \<open>\<open>buildIdentityUpdateTx({ ...buildArgs, vdxfAdditions })\<close>.\<close>

definition batch_build :: "jslib \<Rightarrow> idlib \<Rightarrow> update_params \<Rightarrow> additions \<Rightarrow> (update_error, id_tx) result" where
  "batch_build js lib args ad = buildIdentityUpdateTx js lib (args\<lparr>u_additions := ad\<rparr>)"

record bisect_state =
  bi_map :: additions
  bi_survivors :: "inbox_ref list"
  bi_blamed :: nat

definition bisect_step ::
  "(additions \<Rightarrow> (update_error, id_tx) result) \<Rightarrow> inbox_ref list \<Rightarrow> bisect_state \<times> batch_result \<Rightarrow> candidate \<Rightarrow> bisect_state \<times> batch_result" where
  "bisect_step build merged s c = (case (s, c) of ((b, r), (ref, ad)) \<Rightarrow>
     if \<not> (\<exists>x \<in> set merged. ref_id x = ref_id ref) then (b, r)
     else case build ad of
       Inr _ \<Rightarrow> (b\<lparr>bi_map := set_all (bi_map b) ad, bi_survivors := bi_survivors b @ [ref]\<rparr>, r)
     | Inl e \<Rightarrow> (b\<lparr>bi_blamed := bi_blamed b + 1\<rparr>, r\<lparr>br_rejected := br_rejected r @ [(ref, BuildBlamed e)]\<rparr>))"

definition bisect ::
  "(additions \<Rightarrow> (update_error, id_tx) result) \<Rightarrow> candidate list \<Rightarrow> inbox_ref list \<Rightarrow> batch_result \<Rightarrow> bisect_state \<times> batch_result" where
  "bisect build cs merged r =
     foldl (bisect_step build merged) (\<lparr>bi_map = [], bi_survivors = [], bi_blamed = 0\<rparr>, r) cs"

text \<open>The transaction to broadcast, if any, the items it writes, and the buckets filled on the way.\<close>

definition build_phase ::
  "(additions \<Rightarrow> (update_error, id_tx) result) \<Rightarrow> candidate list \<Rightarrow> merge_state \<Rightarrow> batch_result
    \<Rightarrow> (batch_error, id_tx option \<times> inbox_ref list \<times> batch_result) result" where
  "build_phase build cs m r =
     (case build (mg_map m) of
        Inr t \<Rightarrow> Inr (Some t, mg_refs m, r)
      | Inl e \<Rightarrow>
          (case build [] of
             Inl _ \<Rightarrow> Inl (BuildFailed e)
           | Inr _ \<Rightarrow>
               (let (b, r') = bisect build cs (mg_refs m) r in
                if bi_blamed b = 0 then Inl (BuildFailed e)
                else if bi_survivors b = [] then Inr (None, [], r')
                else case build (bi_map b) of
                  Inr t \<Rightarrow> Inr (Some t, bi_survivors b, r')
                | Inl e' \<Rightarrow> Inr (None, [], r'\<lparr>br_deferred := br_deferred r' @
                    map (\<lambda>ref. (ref, RebuildFailed e')) (bi_survivors b)\<rparr>))))"

definition broadcast_phase ::
  "inbox_env \<Rightarrow> jsnum option \<Rightarrow> id_tx option \<times> inbox_ref list \<times> batch_result \<Rightarrow> (batch_error, batch_result) result" where
  "broadcast_phase env expiry s = (case s of (t, refs, r) \<Rightarrow>
     case t of
       Some tx \<Rightarrow> if refs = [] then Inr r else
         (case env_broadcast env tx of
            Inl e \<Rightarrow> Inl (Thrown e)
          | Inr tid \<Rightarrow> Inr (r\<lparr>br_txid := Some tid, br_expiry := expiry, br_written := br_written r @ refs\<rparr>))
     | None \<Rightarrow> Inr r)"

section \<open>Phase 5: acknowledge\<close>

fun ack_loop :: "inbox_env \<Rightarrow> nat \<Rightarrow> inbox_ref list \<Rightarrow> batch_result \<Rightarrow> batch_result" where
  "ack_loop env i [] r = r"
| "ack_loop env i (ref # refs) r = ack_loop env (Suc i) refs
     (case env_ack env i (ref_id ref) (br_txid r) of
        Inr _ \<Rightarrow> r\<lparr>br_acked := br_acked r @ [ref_id ref]\<rparr>
      | Inl e \<Rightarrow> if isAlreadyProcessed e then r\<lparr>br_acked := br_acked r @ [ref_id ref]\<rparr>
                 else r\<lparr>br_ackFailed := br_ackFailed r @ [(ref_id ref, e)]\<rparr>)"

section \<open>The whole accept\<close>

definition build_args :: "agent_ctx \<Rightarrow> raw_identity \<Rightarrow> utxo list \<Rightarrow> jsnum option \<Rightarrow> update_params" where
  "build_args ctx idata us expiry = \<lparr>u_wif = the (ctx_wif ctx), u_data = idata, u_utxos = us, u_additions = [],
     u_network = ctx_network ctx, u_fee = DEFAULT_FEE, u_revocation = None, u_recovery = None, u_clear = False,
     u_expiry = expiry\<rparr>"

definition write_phase ::
  "jslib \<Rightarrow> idlib \<Rightarrow> inbox_env \<Rightarrow> agent_ctx \<Rightarrow> raw_identity \<Rightarrow> utxo list option \<Rightarrow> candidate list
    \<Rightarrow> merge_state \<times> batch_result \<Rightarrow> (batch_error, batch_result) result" where
  "write_phase js lib env ctx idata us cs s = (case s of (m, r) \<Rightarrow>
     if mg_refs m = [] then Inr r
     else if us = None \<or> us = Some [] then Inl NoFeeUtxos
     else case env_tip env of
       Inl e \<Rightarrow> Inl (Thrown e)
     | Inr tip \<Rightarrow>
         let expiry = computeExpiryHeight tip IDENTITY_EXPIRY_DELTA in
         bind_r (build_phase (batch_build js lib (build_args ctx idata (the us) expiry)) cs m r)
           (broadcast_phase env expiry))"

definition acceptInboxBatch ::
  "jslib \<Rightarrow> idlib \<Rightarrow> inbox_env \<Rightarrow> agent_ctx \<Rightarrow> inbox_ref list \<Rightarrow> nat option \<Rightarrow> (batch_error, batch_result) result" where
  "acceptInboxBatch js lib env ctx items limit =
     (let maxBytes = (case limit of Some n \<Rightarrow> n | None \<Rightarrow> MAX_BATCH_ADDITION_BYTES) in
      if items = [] then Inr empty_result
      else if \<not> truthy_str (ctx_wif ctx) \<or> \<not> truthy_str (ctx_iaddr ctx) then Inl KeysRequired
      else let (cs, r) = fetch_loop js env 0 items ([], empty_result) in
      if cs = [] then Inr r
      else case env_reads env of
        Inl e \<Rightarrow> Inl (Thrown e)
      | Inr (idata, us) \<Rightarrow>
          if ri_prev idata = None then Inl NoPrevious
          else bind_r (write_phase js lib env ctx idata us cs
                 (merge_all js maxBytes (jget (ri_identity idata) ''contentmultimap'') cs r))
               (\<lambda>r'. Inr (ack_loop env 0 (br_written r') r')))"

section \<open>Every item lands in exactly one bucket\<close>

abbreviation ids :: "inbox_ref list \<Rightarrow> string multiset" where
  "ids refs \<equiv> mset (map ref_id refs)"

abbreviation cand_ids :: "candidate list \<Rightarrow> string multiset" where
  "cand_ids cs \<equiv> mset (map (\<lambda>c. ref_id (fst c)) cs)"

definition settled :: "batch_result \<Rightarrow> string multiset" where
  "settled r = ids (br_written r) + mset (map (\<lambda>p. ref_id (fst p)) (br_rejected r))
     + mset (map (\<lambda>p. ref_id (fst p)) (br_deferred r)) + mset (br_done r)"

lemma settled_empty [simp]: "settled empty_result = {#}"
  by (simp add: settled_def empty_result_def)

lemma fetch_step_settled:
  "fetch_step js env i ref s = (cs', r') \<Longrightarrow>
     cand_ids cs' + settled r' = cand_ids (fst s) + settled (snd s) + {#ref_id ref#}"
  by (cases s) (auto simp: fetch_step_def settled_def split: sum.splits if_splits)

lemma fetch_loop_settled:
  "fetch_loop js env i refs s = (cs', r') \<Longrightarrow>
     cand_ids cs' + settled r' = cand_ids (fst s) + settled (snd s) + ids refs"
proof (induction js env i refs s rule: fetch_loop.induct)
  case (2 js env i ref refs s)
  obtain cs r where f: "fetch_step js env i ref s = (cs, r)" by fastforce
  with 2 show ?case using fetch_step_settled [OF f] by simp
qed simp

lemma merge_step_settled:
  "merge_step js mb oc s c = (m', r') \<Longrightarrow>
     ids (mg_refs m') + settled r' = ids (mg_refs (fst s)) + settled (snd s) + {#ref_id (fst c)#}"
  by (cases s; cases c) (auto simp: merge_step_def settled_def split: if_splits)

lemma merge_fold_settled:
  "foldl (merge_step js mb oc) s cs = (m', r') \<Longrightarrow>
     ids (mg_refs m') + settled r' = ids (mg_refs (fst s)) + settled (snd s) + cand_ids cs"
proof (induction cs arbitrary: s)
  case (Cons c cs)
  obtain m r where f: "merge_step js mb oc s c = (m, r)" by fastforce
  with Cons show ?case using merge_step_settled [OF f] by simp
qed simp

lemma merged_id: "(\<exists>x \<in> set merged. ref_id x = i) \<longleftrightarrow> i \<in> ref_id ` set merged"
  by auto

lemma bisect_fold_settled:
  "foldl (bisect_step build merged) s cs = (b', r') \<Longrightarrow>
     ids (bi_survivors b') + settled r'
     = ids (bi_survivors (fst s)) + settled (snd s) + cand_ids (filter (\<lambda>c. ref_id (fst c) \<in> ref_id ` set merged) cs)"
proof (induction cs arbitrary: s)
  case (Cons c cs)
  obtain b r where f: "bisect_step build merged s c = (b, r)" by fastforce
  have "ids (bi_survivors b) + settled r = ids (bi_survivors (fst s)) + settled (snd s)
      + cand_ids (filter (\<lambda>c. ref_id (fst c) \<in> ref_id ` set merged) [c])"
    using f by (cases s; cases c) (auto simp: bisect_step_def merged_id settled_def split: if_splits sum.splits)
  with f Cons show ?case by simp
qed simp

lemma filter_ids:
  assumes "distinct (map f cs)" "set ks \<subseteq> set (map f cs)" "distinct ks"
  shows "mset (map f (filter (\<lambda>c. f c \<in> set ks) cs)) = mset ks"
proof -
  have "distinct (map f (filter (\<lambda>c. f c \<in> set ks) cs))" using assms(1) by (rule distinct_map_filter)
  moreover have "set (map f (filter (\<lambda>c. f c \<in> set ks) cs)) = set ks" using assms(2) by auto
  ultimately show ?thesis using assms(3) by (metis set_eq_iff_mset_eq_distinct)
qed

lemma build_phase_settled:
  assumes "build_phase build cs m r = Inr (t, refs, r')" and "distinct (map (\<lambda>c. ref_id (fst c)) cs)"
    and "ids (mg_refs m) \<subseteq># cand_ids cs"
  shows "ids refs + settled r' = ids (mg_refs m) + settled r" and "t = None \<Longrightarrow> refs = []"
proof -
  obtain b rb where b: "bisect build cs (mg_refs m) r = (b, rb)" by fastforce
  have d: "distinct (map ref_id (mg_refs m))" using assms(2,3) by (rule distinct_submset)
  have sub: "set (map ref_id (mg_refs m)) \<subseteq> set (map (\<lambda>c. ref_id (fst c)) cs)"
    using assms(3) by (metis set_mset_mono set_mset_mset)
  have "ids (bi_survivors b) + settled rb = settled r
      + cand_ids (filter (\<lambda>c. ref_id (fst c) \<in> set (map ref_id (mg_refs m))) cs)"
    using bisect_fold_settled [OF b [unfolded bisect_def]] by simp
  then have bs: "ids (bi_survivors b) + settled rb = settled r + ids (mg_refs m)"
    using filter_ids [OF assms(2) sub d] by simp
  show "ids refs + settled r' = ids (mg_refs m) + settled r" and "t = None \<Longrightarrow> refs = []"
    using assms(1) bs b
    by (auto simp: build_phase_def settled_def multiset.map_comp comp_def ac_simps split: sum.splits if_splits prod.splits)
qed

lemma broadcast_phase_settled:
  "broadcast_phase env h (t, refs, r) = Inr r' \<Longrightarrow> (t = None \<Longrightarrow> refs = []) \<Longrightarrow> settled r' = ids refs + settled r"
  by (cases t) (auto simp: broadcast_phase_def settled_def split: sum.splits if_splits)

lemma write_phase_settled:
  assumes "write_phase js lib env ctx idata us cs (m, r) = Inr r'" and "distinct (map (\<lambda>c. ref_id (fst c)) cs)"
    and "ids (mg_refs m) \<subseteq># cand_ids cs"
  shows "settled r' = ids (mg_refs m) + settled r"
proof (cases "mg_refs m = []")
  case False
  then obtain tip t refs rb where "build_phase (batch_build js lib (build_args ctx idata (the us)
        (computeExpiryHeight tip IDENTITY_EXPIRY_DELTA))) cs m r = Inr (t, refs, rb)"
      "broadcast_phase env (computeExpiryHeight tip IDENTITY_EXPIRY_DELTA) (t, refs, rb) = Inr r'"
    using assms(1) by (auto simp: write_phase_def Let_def bind_r_eq_Inr split: if_splits sum.splits)
  then show ?thesis
    using build_phase_settled [OF _ assms(2,3)] broadcast_phase_settled by metis
qed (use assms in \<open>simp add: write_phase_def\<close>)

lemma ack_loop_settled:
  "ack_loop env i refs r = r' \<Longrightarrow> settled r' = settled r \<and> br_written r' = br_written r
     \<and> mset (br_acked r') + mset (map fst (br_ackFailed r')) = mset (br_acked r) + mset (map fst (br_ackFailed r)) + ids refs"
proof (induction env i refs r rule: ack_loop.induct)
  case (2 env i ref refs r)
  then show ?case by (auto simp: settled_def split: sum.splits if_splits)
qed simp

text \<open>What no phase before the last one touches.\<close>

lemma fetch_step_keeps:
  "fetch_step js env i ref s = (cs', r') \<Longrightarrow> br_written r' = br_written (snd s) \<and> br_acked r' = br_acked (snd s)
     \<and> br_ackFailed r' = br_ackFailed (snd s) \<and> br_txid r' = br_txid (snd s)"
  by (cases s) (auto simp: fetch_step_def split: sum.splits if_splits)

lemma fetch_keeps:
  "fetch_loop js env i refs s = (cs', r') \<Longrightarrow> br_written r' = br_written (snd s) \<and> br_acked r' = br_acked (snd s)
     \<and> br_ackFailed r' = br_ackFailed (snd s) \<and> br_txid r' = br_txid (snd s)"
proof (induction js env i refs s rule: fetch_loop.induct)
  case (2 js env i ref refs s)
  obtain cs r where f: "fetch_step js env i ref s = (cs, r)" by fastforce
  with 2 show ?case using fetch_step_keeps [OF f] by simp
qed simp

lemma merge_fold_keeps:
  "foldl (merge_step js mb oc) s cs = (m', r') \<Longrightarrow> br_acked r' = br_acked (snd s)
     \<and> br_ackFailed r' = br_ackFailed (snd s) \<and> br_txid r' = br_txid (snd s)
     \<and> ids (mg_refs m') \<subseteq># ids (mg_refs (fst s)) + cand_ids cs"
proof (induction cs arbitrary: s)
  case (Cons c cs)
  obtain m r where f: "merge_step js mb oc s c = (m, r)" by fastforce
  have k: "br_acked r = br_acked (snd s) \<and> br_ackFailed r = br_ackFailed (snd s) \<and> br_txid r = br_txid (snd s)"
    and g: "ids (mg_refs m) \<subseteq># ids (mg_refs (fst s)) + {#ref_id (fst c)#}"
    using f by (cases s; cases c; auto simp: merge_step_def split: if_splits)+
  have ih: "br_acked r' = br_acked r \<and> br_ackFailed r' = br_ackFailed r \<and> br_txid r' = br_txid r"
    and i: "ids (mg_refs m') \<subseteq># ids (mg_refs m) + cand_ids cs"
    using f Cons by auto
  have "ids (mg_refs m') \<subseteq># ids (mg_refs (fst s)) + {#ref_id (fst c)#} + cand_ids cs"
    using i subset_mset.add_right_mono [OF g] by (rule subset_mset.order_trans)
  with k ih show ?case by simp
qed simp

lemma merge_keeps:
  "merge_all js mb oc cs r = (m', r') \<Longrightarrow> br_acked r' = br_acked r \<and> br_ackFailed r' = br_ackFailed r \<and> br_txid r' = br_txid r"
  using merge_fold_keeps unfolding merge_all_def by fastforce

lemma merge_refs_sub: "merge_all js mb oc cs r = (m', r') \<Longrightarrow> ids (mg_refs m') \<subseteq># cand_ids cs"
  using merge_fold_keeps unfolding merge_all_def by fastforce

lemma bisect_keeps:
  "foldl (bisect_step build merged) s cs = (b', r') \<Longrightarrow> br_acked r' = br_acked (snd s) \<and> br_ackFailed r' = br_ackFailed (snd s)
     \<and> br_written r' = br_written (snd s) \<and> br_txid r' = br_txid (snd s)"
proof (induction cs arbitrary: s)
  case (Cons c cs)
  obtain b r where f: "bisect_step build merged s c = (b, r)" by fastforce
  have "br_acked r = br_acked (snd s) \<and> br_ackFailed r = br_ackFailed (snd s) \<and> br_written r = br_written (snd s)
      \<and> br_txid r = br_txid (snd s)"
    using f by (cases s; cases c) (auto simp: bisect_step_def split: sum.splits if_splits)
  with f Cons show ?case by simp
qed simp

lemma build_phase_keeps:
  "build_phase build cs m r = Inr (t, refs, r') \<Longrightarrow> br_acked r' = br_acked r \<and> br_ackFailed r' = br_ackFailed r
     \<and> br_written r' = br_written r \<and> br_txid r' = br_txid r"
  using bisect_keeps [of build "mg_refs m" "(\<lparr>bi_map = [], bi_survivors = [], bi_blamed = 0\<rparr>, r)" cs]
  by (auto simp: build_phase_def bisect_def split: sum.splits if_splits prod.splits)

lemma write_keeps:
  assumes "write_phase js lib env ctx idata us cs (m, r) = Inr r'"
  shows "br_acked r' = br_acked r \<and> br_ackFailed r' = br_ackFailed r"
proof (cases "mg_refs m = []")
  case False
  then obtain b t refs rb h where "build_phase b cs m r = Inr (t, refs, rb)" "broadcast_phase env h (t, refs, rb) = Inr r'"
    using assms by (auto simp: write_phase_def Let_def bind_r_eq_Inr split: if_splits sum.splits)
  then show ?thesis
    using build_phase_keeps by (fastforce simp: broadcast_phase_def split: option.splits sum.splits if_splits)
qed (use assms in \<open>simp add: write_phase_def\<close>)

text \<open>The parts of a call that came back.\<close>

lemma batch_cases:
  assumes "acceptInboxBatch js lib env ctx items limit = Inr r"
  obtains "items = []" "r = empty_result"
  | "items \<noteq> []" "fetch_loop js env 0 items ([], empty_result) = ([], r)"
  | cs r0 idata us m r1 r2 where "fetch_loop js env 0 items ([], empty_result) = (cs, r0)" "cs \<noteq> []"
      "env_reads env = Inr (idata, us)" "ri_prev idata \<noteq> None"
      "merge_all js (case limit of Some n \<Rightarrow> n | None \<Rightarrow> MAX_BATCH_ADDITION_BYTES)
         (jget (ri_identity idata) ''contentmultimap'') cs r0 = (m, r1)"
      "write_phase js lib env ctx idata us cs (m, r1) = Inr r2" "r = ack_loop env 0 (br_written r2) r2"
proof -
  obtain cs r0 where f: "fetch_loop js env 0 items ([], empty_result) = (cs, r0)" by fastforce
  consider "items = []" | "items \<noteq> []" "cs = []" | "items \<noteq> []" "cs \<noteq> []" by blast
  then show thesis
  proof cases
    case 3
    then obtain idata us r2 where "env_reads env = Inr (idata, us)" "ri_prev idata \<noteq> None"
        "write_phase js lib env ctx idata us cs (merge_all js (case limit of Some n \<Rightarrow> n | None \<Rightarrow> MAX_BATCH_ADDITION_BYTES)
           (jget (ri_identity idata) ''contentmultimap'') cs r0) = Inr r2" "r = ack_loop env 0 (br_written r2) r2"
      using assms f by (auto simp: acceptInboxBatch_def Let_def bind_r_eq_Inr split: if_splits sum.splits)
    then show ?thesis using that(3) [OF f 3(2)] by (metis prod.exhaust)
  qed (use assms f that in \<open>auto simp: acceptInboxBatch_def split: if_splits\<close>)
qed

text \<open>
  C6. Every item of a batch lands in exactly one bucket, so that each gets its own retry rule:
  written, rejected, deferred or already done; and every written item is either acknowledged or
  reported as not acknowledged. No item is lost and none is counted twice, also when the build
  fails and the culprit is searched.
\<close>

theorem acceptInboxBatch_partition:
  assumes "acceptInboxBatch js lib env ctx items limit = Inr r" and "distinct (map ref_id items)"
  shows "settled r = mset (map ref_id items)
    \<and> mset (br_acked r) + mset (map fst (br_ackFailed r)) = mset (map ref_id (br_written r))"
  using assms(1)
proof (cases rule: batch_cases)
  case 2
  have "settled r = ids items" using fetch_loop_settled [OF 2(2)] by simp
  moreover have "br_written r = [] \<and> br_acked r = [] \<and> br_ackFailed r = []"
    using fetch_keeps [OF 2(2)] by (simp add: empty_result_def)
  ultimately show ?thesis by simp
next
  case (3 cs r0 idata us m r1 r2)
  have f: "cand_ids cs + settled r0 = ids items" using fetch_loop_settled [OF 3(1)] by simp
  have mg: "ids (mg_refs m) + settled r1 = settled r0 + cand_ids cs"
    using merge_fold_settled [OF 3(5) [unfolded merge_all_def]] by simp
  have "cand_ids cs \<subseteq># ids items" using f by (metis mset_subset_eq_add_left)
  with assms(2) have d: "distinct (map (\<lambda>c. ref_id (fst c)) cs)" by (rule distinct_submset)
  have "settled r2 = ids (mg_refs m) + settled r1"
    using 3(6) d merge_refs_sub [OF 3(5)] by (rule write_phase_settled)
  moreover have "br_acked r2 = [] \<and> br_ackFailed r2 = []"
    using fetch_keeps [OF 3(1)] merge_keeps [OF 3(5)] write_keeps [OF 3(6)] by (simp add: empty_result_def)
  ultimately show ?thesis
    using ack_loop_settled [OF 3(7) [symmetric]] mg f by (simp add: ac_simps)
qed (simp add: empty_result_def settled_def)

section \<open>Only gated data is signed\<close>

definition gated :: "jslib \<Rightarrow> inbox_env \<Rightarrow> candidate \<Rightarrow> bool" where
  "gated js env c = (\<exists>i d. env_item env i (ref_id (fst c)) = Inr d \<and> jget d ''status'' = JStr ''pending''
     \<and> gate_item js (env_now env i) (ref_type (fst c)) d = Inr (snd c))"

definition env_wf :: "inbox_env \<Rightarrow> bool" where
  "env_wf env = (\<forall>i q d. env_item env i q = Inr d \<longrightarrow> wf_map (own_props (jget d ''vdxfData'')))"

definition carried :: "additions \<Rightarrow> candidate \<Rightarrow> bool" where
  "carried m c = (\<forall>p \<in> set (snd c). map_get m (fst p) = Some (snd p))"

lemma fetch_gated: "fetch_loop js env i refs s = (cs', r') \<Longrightarrow> c \<in> set cs' \<Longrightarrow> c \<in> set (fst s) \<or> gated js env c"
proof (induction js env i refs s rule: fetch_loop.induct)
  case (2 js env i ref refs s)
  obtain cs r where f: "fetch_step js env i ref s = (cs, r)" by fastforce
  have "d \<in> set cs \<Longrightarrow> d \<in> set (fst s) \<or> gated js env d" for d
    using f by (cases s) (auto simp: fetch_step_def gated_def split: sum.splits if_splits)
  moreover have "c \<in> set cs \<or> gated js env c" using 2 f by auto
  ultimately show ?case by blast
qed simp

lemma gate_item_ok: "gate_item js now t d = Inr ad \<Longrightarrow> buildInboxVdxfAdditions js now t d = Inr ad"
proof -
  assume "gate_item js now t d = Inr ad"
  then obtain a where a: "buildInboxVdxfAdditions js now t d = Inr a"
      "(case assertContentmultimapValueSizes js (additions_cmm a) of Inl e \<Rightarrow> Inl (TooLarge e) | Inr _ \<Rightarrow> Inr a) = Inr ad"
    by (auto simp: gate_item_def bind_r_eq_Inr)
  then show ?thesis by (cases "assertContentmultimapValueSizes js (additions_cmm a)") auto
qed

lemma gated_single: "gated js env (ref, ad) \<Longrightarrow> env_wf env \<Longrightarrow> \<exists>v. ad = [(own_key (ref_type ref), v)]"
proof -
  assume "gated js env (ref, ad)" "env_wf env"
  then obtain i d where "buildInboxVdxfAdditions js (env_now env i) (ref_type ref) d = Inr ad"
      "wf_map (own_props (jget d ''vdxfData''))"
    by (auto simp: gated_def env_wf_def dest: gate_item_ok)
  then have "map fst ad = [own_key (ref_type ref)]" using gate_result by blast
  then show ?thesis by auto
qed

lemma set_all_single [simp]: "set_all m [(k, v)] = map_set m k v"
  by (simp add: set_all_def)

text \<open>What merging keeps: each merged item is carried unchanged, and nothing else is in the map.\<close>

definition merge_inv :: "candidate set \<Rightarrow> jslib \<Rightarrow> jv \<Rightarrow> merge_state \<times> batch_result \<Rightarrow> bool" where
  "merge_inv C js oc s =
     ((\<forall>ref \<in> set (mg_refs (fst s)). \<exists>ad. (ref, ad) \<in> C \<and> carried (mg_map (fst s)) (ref, ad))
    \<and> (\<forall>k v. map_get (mg_map (fst s)) k = Some v \<longrightarrow> (\<exists>c \<in> C. fst c \<in> set (mg_refs (fst s)) \<and> (k, v) \<in> set (snd c)))
    \<and> (\<forall>ref \<in> set (br_written (snd s)). \<exists>ad. (ref, ad) \<in> C \<and> list_all (key_present js oc) ad))"

lemma merge_inv_step:
  assumes "merge_inv C js oc s" "(ref, [(k, v)]) \<in> C"
  shows "merge_inv C js oc (merge_step js mb oc s (ref, [(k, v)]))"
proof -
  obtain m r where s: "s = (m, r)" by fastforce
  consider "merge_step js mb oc s (ref, [(k, v)]) = (m, r\<lparr>br_written := br_written r @ [ref]\<rparr>)" "key_present js oc (k, v)"
    | x where "merge_step js mb oc s (ref, [(k, v)]) = (m, r\<lparr>br_deferred := x\<rparr>)"
    | n where "merge_step js mb oc s (ref, [(k, v)]) = (\<lparr>mg_map = map_set (mg_map m) k v, mg_refs = mg_refs m @ [ref], mg_bytes = n\<rparr>, r)"
        "map_get (mg_map m) k = None"
    by (cases "key_present js oc (k, v)"; cases "map_get (mg_map m) k";
        cases "mg_bytes m + additionsByteSize js [(k, v)] > mb") (auto simp: merge_step_def s)
  then show ?thesis
  proof cases
    case 3
    have "carried (map_set (mg_map m) k v) (rf, ad)" if "carried (mg_map m) (rf, ad)" for rf ad
      using that 3(2) by (auto simp: carried_def)
    moreover have "carried (map_set (mg_map m) k v) (ref, [(k, v)])" by (simp add: carried_def)
    ultimately have a: "\<forall>rf \<in> set (mg_refs m @ [ref]). \<exists>ad. (rf, ad) \<in> C \<and> carried (map_set (mg_map m) k v) (rf, ad)"
      using assms unfolding merge_inv_def s fst_conv by simp blast
    have b: "\<exists>c \<in> C. fst c \<in> set (mg_refs m @ [ref]) \<and> (k', v') \<in> set (snd c)"
      if "map_get (map_set (mg_map m) k v) k' = Some v'" for k' v'
    proof (cases "k' = k")
      case True
      then show ?thesis using that assms(2) by (intro bexI [of _ "(ref, [(k, v)])"]) auto
    next
      case False
      then have "map_get (mg_map m) k' = Some v'" using that by simp
      then obtain c where "c \<in> C" "fst c \<in> set (mg_refs m)" "(k', v') \<in> set (snd c)"
        using assms(1) unfolding merge_inv_def s fst_conv by blast
      then show ?thesis by auto
    qed
    show ?thesis
      using a b assms(1) unfolding merge_inv_def s 3(1) [unfolded s] by simp
  qed (use assms in \<open>auto simp: merge_inv_def s\<close>)
qed

lemma merge_inv_fold:
  assumes "merge_inv C js oc s" "set cs \<subseteq> C" "\<forall>c \<in> set cs. \<exists>k v. snd c = [(k, v)]"
  shows "merge_inv C js oc (foldl (merge_step js mb oc) s cs)"
  using assms
proof (induction cs arbitrary: s)
  case (Cons c cs)
  then obtain k v where "c = (fst c, [(k, v)])" by (metis list.set_intros(1) prod.collapse)
  with Cons show ?case using merge_inv_step [of C js oc s "fst c" k v mb] by auto
qed simp

text \<open>What the search for a culprit keeps, with the map of the failed build as the reference.\<close>

definition bisect_inv :: "candidate set \<Rightarrow> additions \<Rightarrow> inbox_ref list \<Rightarrow> bisect_state \<Rightarrow> bool" where
  "bisect_inv C mm refs b =
     ((\<forall>k v. map_get (bi_map b) k = Some v \<longrightarrow> map_get mm k = Some v
         \<and> (\<exists>c \<in> C. fst c \<in> set (bi_survivors b) \<and> (k, v) \<in> set (snd c)))
    \<and> (\<forall>ref \<in> set (bi_survivors b). \<exists>ad. (ref, ad) \<in> C \<and> carried (bi_map b) (ref, ad)))"

lemma bisect_inv_step:
  assumes "bisect_inv C mm refs b" "(ref, [(k, v)]) \<in> C" "map_get mm k = Some v"
  shows "bisect_inv C mm refs (b\<lparr>bi_map := map_set (bi_map b) k v, bi_survivors := bi_survivors b @ [ref]\<rparr>)"
proof -
  have keep: "carried (map_set (bi_map b) k v) (rf, ad)" if "carried (bi_map b) (rf, ad)" for rf ad
    using that assms(1,3) by (force simp: carried_def bisect_inv_def)
  moreover have "carried (map_set (bi_map b) k v) (ref, [(k, v)])" by (simp add: carried_def)
  ultimately have a: "\<forall>rf \<in> set (bi_survivors b @ [ref]). \<exists>ad. (rf, ad) \<in> C \<and> carried (map_set (bi_map b) k v) (rf, ad)"
    using assms unfolding bisect_inv_def by simp blast
  have "map_get mm k' = Some v' \<and> (\<exists>c \<in> C. fst c \<in> set (bi_survivors b @ [ref]) \<and> (k', v') \<in> set (snd c))"
    if "map_get (map_set (bi_map b) k v) k' = Some v'" for k' v'
  proof (cases "k' = k")
    case True
    then show ?thesis using that assms(2,3) by (intro conjI bexI [of _ "(ref, [(k, v)])"]) auto
  next
    case False
    then have "map_get (bi_map b) k' = Some v'" using that by simp
    then obtain c where "map_get mm k' = Some v'" "c \<in> C" "fst c \<in> set (bi_survivors b)" "(k', v') \<in> set (snd c)"
      using assms(1) unfolding bisect_inv_def by blast
    then show ?thesis by auto
  qed
  with a show ?thesis unfolding bisect_inv_def by simp
qed

lemma same_candidate:
  "distinct (map (\<lambda>c. ref_id (fst c)) cs) \<Longrightarrow> c \<in> set cs \<Longrightarrow> d \<in> set cs \<Longrightarrow> ref_id (fst c) = ref_id (fst d) \<Longrightarrow> c = d"
  by (simp add: distinct_map inj_on_def)

lemma bisect_inv_fold:
  assumes "bisect_inv C mm refs b" "set cs \<subseteq> C" "\<forall>c \<in> set cs. \<exists>k v. snd c = [(k, v)]"
    and "\<forall>c \<in> set cs. ref_id (fst c) \<in> ref_id ` set refs \<longrightarrow> carried mm c"
    and "foldl (bisect_step build refs) (b, r) cs = (b', r')"
  shows "bisect_inv C mm refs b'"
  using assms
proof (induction cs arbitrary: b r)
  case (Cons c cs)
  then obtain rf k v where c: "c = (rf, [(k, v)])" by (metis list.set_intros(1) prod.collapse)
  obtain b1 r1 where f: "bisect_step build refs (b, r) c = (b1, r1)" by fastforce
  have "bisect_inv C mm refs b1"
  proof (cases "ref_id (fst c) \<in> ref_id ` set refs")
    case True
    then have "carried mm c" using Cons.prems(4) by simp
    then have "map_get mm k = Some v" by (simp add: carried_def c)
    moreover have "(rf, [(k, v)]) \<in> C" using Cons.prems(2) c by auto
    ultimately have "bisect_inv C mm refs (b\<lparr>bi_map := map_set (bi_map b) k v, bi_survivors := bi_survivors b @ [rf]\<rparr>)"
      using Cons.prems(1) by (intro bisect_inv_step)
    moreover have "bisect_inv C mm refs (b\<lparr>bi_blamed := n\<rparr>)" for n
      using Cons.prems(1) by (simp add: bisect_inv_def)
    ultimately show ?thesis
      using f True by (cases "build [(k, v)]") (auto simp: c bisect_step_def merged_id)
  next
    case False
    then show ?thesis using f Cons.prems(1) by (auto simp: c bisect_step_def merged_id)
  qed
  then show ?case using Cons.IH [of b1 r1] Cons.prems f by auto
qed simp

text \<open>What the build phase hands to the broadcast.\<close>

lemma build_phase_inv:
  assumes m: "merge_inv (set cs) js oc (m, r)" and s: "\<forall>c \<in> set cs. \<exists>k v. snd c = [(k, v)]"
    and d: "distinct (map (\<lambda>c. ref_id (fst c)) cs)" and b: "build_phase build cs m r = Inr (Some tx, refs, r')"
  shows "\<exists>mm. build mm = Inr tx \<and> (\<forall>ref \<in> set refs. \<exists>ad. (ref, ad) \<in> set cs \<and> carried mm (ref, ad))
    \<and> (\<forall>k v. map_get mm k = Some v \<longrightarrow> (\<exists>c \<in> set cs. fst c \<in> set refs \<and> (k, v) \<in> set (snd c)))"
proof (cases "build (mg_map m)")
  case (Inr t)
  then show ?thesis using b m by (intro exI [of _ "mg_map m"]) (auto simp: build_phase_def merge_inv_def)
next
  case (Inl e)
  obtain bs rb where f: "bisect build cs (mg_refs m) r = (bs, rb)" by fastforce
  have "build (bi_map bs) = Inr tx" "refs = bi_survivors bs"
    using b Inl f by (auto simp: build_phase_def split: sum.splits if_splits)
  moreover have "bisect_inv (set cs) (mg_map m) (mg_refs m) bs"
  proof (rule bisect_inv_fold [OF _ subset_refl s _ f [unfolded bisect_def]])
    show "\<forall>c \<in> set cs. ref_id (fst c) \<in> ref_id ` set (mg_refs m) \<longrightarrow> carried (mg_map m) c"
    proof (intro ballI impI)
      fix c assume c: "c \<in> set cs" "ref_id (fst c) \<in> ref_id ` set (mg_refs m)"
      then obtain x where x: "x \<in> set (mg_refs m)" "ref_id (fst c) = ref_id x" by blast
      then obtain ad where a: "(x, ad) \<in> set cs" "carried (mg_map m) (x, ad)" using m by (auto simp: merge_inv_def)
      then show "carried (mg_map m) c" using same_candidate [OF d c(1) a(1)] x by simp
    qed
  qed (simp add: bisect_inv_def)
  ultimately show ?thesis by (auto simp: bisect_inv_def)
qed

lemma ack_loop_txid [simp]: "br_txid (ack_loop env i refs r) = br_txid r" "br_rejected (ack_loop env i refs r) = br_rejected r"
  by (induction env i refs r rule: ack_loop.induct) (auto split: sum.splits)

lemma ack_loop_written [simp]: "br_written (ack_loop env i refs r) = br_written r"
  using ack_loop_settled by blast

lemma merged_inv:
  assumes f: "fetch_loop js env 0 items ([], empty_result) = (cs, r0)" and w: "env_wf env"
    and m: "merge_all js mb oc cs r0 = (m, r1)"
  shows "merge_inv (set cs) js oc (m, r1)" "\<forall>c \<in> set cs. gated js env c" "\<forall>c \<in> set cs. \<exists>k v. snd c = [(k, v)]"
proof -
  show g: "\<forall>c \<in> set cs. gated js env c" using fetch_gated [OF f] by simp
  show s: "\<forall>c \<in> set cs. \<exists>k v. snd c = [(k, v)]"
  proof
    fix c assume "c \<in> set cs"
    then show "\<exists>k v. snd c = [(k, v)]" using g gated_single [of js env "fst c" "snd c"] w by auto
  qed
  have "br_written r0 = []" using fetch_keeps [OF f] by (simp add: empty_result_def)
  then have "merge_inv (set cs) js oc (\<lparr>mg_map = [], mg_refs = [], mg_bytes = 0\<rparr>, r0)" by (simp add: merge_inv_def)
  from merge_inv_fold [OF this subset_refl s, of mb] show "merge_inv (set cs) js oc (m, r1)"
    using m by (simp add: merge_all_def)
qed

lemma write_phase_txid:
  assumes "write_phase js lib env ctx idata us cs (m, r) = Inr r'" "br_txid r = None" "br_txid r' = Some t"
  obtains h refs tx rb where "build_phase (batch_build js lib (build_args ctx idata (the us) h)) cs m r = Inr (Some tx, refs, rb)"
    "env_broadcast env tx = Inr t" "br_written r' = br_written r @ refs"
proof -
  have "mg_refs m \<noteq> []" using assms by (auto simp: write_phase_def)
  then obtain tip s where b: "build_phase (batch_build js lib (build_args ctx idata (the us)
        (computeExpiryHeight tip IDENTITY_EXPIRY_DELTA))) cs m r = Inr s"
      "broadcast_phase env (computeExpiryHeight tip IDENTITY_EXPIRY_DELTA) s = Inr r'"
    using assms(1) by (auto simp: write_phase_def Let_def bind_r_eq_Inr split: if_splits sum.splits)
  obtain o' refs rb where s: "s = (o', refs, rb)" by (cases s)
  note k = build_phase_keeps [OF b(1) [unfolded s]]
  show thesis
    using b k assms(2,3) unfolding s
    by (cases o') (auto simp: broadcast_phase_def intro!: that split: if_splits sum.splits)
qed


lemma bisect_step_blame:
  "bisect_step build refs s c = (b, r) \<Longrightarrow> (ref, BuildBlamed e) \<in> set (br_rejected r) \<Longrightarrow>
      (ref, BuildBlamed e) \<in> set (br_rejected (snd s)) \<or> fst c = ref \<and> build (snd c) = Inl e"
  by (cases s; cases c) (auto simp: bisect_step_def split: sum.splits if_splits)

lemma bisect_blame:
  "foldl (bisect_step build refs) s cs = (b', r') \<Longrightarrow> (ref, BuildBlamed e) \<in> set (br_rejected r') \<Longrightarrow>
     (ref, BuildBlamed e) \<in> set (br_rejected (snd s)) \<or> (\<exists>c \<in> set cs. fst c = ref \<and> build (snd c) = Inl e)"
proof (induction cs arbitrary: s)
  case (Cons c cs)
  obtain b r where f: "bisect_step build refs s c = (b, r)" by fastforce
  then have "(ref, BuildBlamed e) \<in> set (br_rejected r) \<or> (\<exists>c \<in> set cs. fst c = ref \<and> build (snd c) = Inl e)"
    using Cons by auto
  then show ?case using bisect_step_blame [OF f] by auto
qed simp

lemma build_phase_blame:
  assumes "build_phase build cs m r = Inr (t, refs, r')" "(ref, BuildBlamed e) \<in> set (br_rejected r')"
  shows "(ref, BuildBlamed e) \<in> set (br_rejected r)
     \<or> (\<exists>c \<in> set cs. fst c = ref \<and> build (snd c) = Inl e \<and> is_ok (build []) \<and> \<not> is_ok (build (mg_map m)))"
proof -
  obtain b rb where f: "bisect build cs (mg_refs m) r = (b, rb)" by fastforce
  show ?thesis
    using assms f bisect_blame [OF f [unfolded bisect_def], of ref e]
    by (auto simp: build_phase_def split: sum.splits if_splits)
qed

lemma fetch_no_blame:
  "fetch_loop js env i refs s = (cs', r') \<Longrightarrow> (ref, BuildBlamed e) \<in> set (br_rejected r') \<Longrightarrow>
     (ref, BuildBlamed e) \<in> set (br_rejected (snd s))"
proof (induction js env i refs s rule: fetch_loop.induct)
  case (2 js env i rf refs s)
  obtain cs r where f: "fetch_step js env i rf s = (cs, r)" by fastforce
  then have "(ref, BuildBlamed e) \<in> set (br_rejected r) \<Longrightarrow> (ref, BuildBlamed e) \<in> set (br_rejected (snd s))"
    by (cases s) (auto simp: fetch_step_def split: sum.splits if_splits)
  with 2 f show ?case by simp
qed simp

lemma merge_rejected: "foldl (merge_step js mb oc) s cs = (m', r') \<Longrightarrow> br_rejected r' = br_rejected (snd s)"
proof (induction cs arbitrary: s)
  case (Cons c cs)
  obtain m r where f: "merge_step js mb oc s c = (m, r)" by fastforce
  then have "br_rejected r = br_rejected (snd s)" by (cases s; cases c) (auto simp: merge_step_def split: if_splits)
  with Cons f show ?case by simp
qed simp

text \<open>
  No item is blamed for a failure of its surroundings: an item is rejected for a failed build
  only when a build without any additions succeeds on the same identity and coins, and the build
  with this item alone fails. A wallet short of the fee, or a damaged identity, throws instead and
  rejects nothing.
\<close>

theorem batch_blames_only_culprits:
  assumes "acceptInboxBatch js lib env ctx items limit = Inr r" and "(ref, BuildBlamed e) \<in> set (br_rejected r)"
  shows "\<exists>idata us h ad. env_reads env = Inr (idata, us) \<and> gated js env (ref, ad)
    \<and> is_ok (batch_build js lib (build_args ctx idata (the us) h) [])
    \<and> batch_build js lib (build_args ctx idata (the us) h) ad = Inl e"
  using assms(1)
proof (cases rule: batch_cases)
  case 2
  then show ?thesis using fetch_no_blame [OF 2(2) assms(2)] by (simp add: empty_result_def)
next
  case (3 cs r0 idata us m r1 r2)
  have n: "(ref, BuildBlamed e) \<notin> set (br_rejected r1)"
    using fetch_no_blame [OF 3(1)] merge_rejected [OF 3(5) [unfolded merge_all_def]] by (auto simp: empty_result_def)
  have b: "(ref, BuildBlamed e) \<in> set (br_rejected r2)" using assms(2) 3(7) by simp
  then have "mg_refs m \<noteq> []" using 3(6) n by (auto simp: write_phase_def)
  then obtain h t refs rb where p: "build_phase (batch_build js lib (build_args ctx idata (the us) h)) cs m r1 = Inr (t, refs, rb)"
      "broadcast_phase env h (t, refs, rb) = Inr r2"
    using 3(6) by (auto simp: write_phase_def Let_def bind_r_eq_Inr split: if_splits sum.splits)
  have "br_rejected r2 = br_rejected rb"
    using p(2) by (auto simp: broadcast_phase_def split: option.splits sum.splits if_splits)
  then obtain c where "c \<in> set cs" "fst c = ref" "batch_build js lib (build_args ctx idata (the us) h) (snd c) = Inl e"
      "is_ok (batch_build js lib (build_args ctx idata (the us) h) [])"
    using build_phase_blame [OF p(1), of ref e] b n by auto
  moreover have "gated js env c" if "c \<in> set cs" for c using fetch_gated [OF 3(1) that] by simp
  ultimately show ?thesis using 3(3) by (metis prod.collapse)
qed (use assms(2) in \<open>simp add: empty_result_def\<close>)

text \<open>
  A batch of two items: a review, and a second review that collides with it and is deferred. The
  identity has no contentmultimap yet.
\<close>

definition demo_detail :: jv where
  "demo_detail = JObj [(''status'', JStr ''pending''), (''vdxfData'', JObj [(key_of ''review'' ''record'', JArr [JNull])])]"

definition demo_data :: raw_identity where
  "demo_data = \<lparr>ri_identity = JObj [(''primaryaddresses'', JArr [JStr ''Rme'']), (''minimumsignatures'', JNum (num_int 1))],
     ri_height = num_int 10, ri_prev = Some \<lparr>po_txid = ''p'', po_vout = 1, po_script = ''ab'', po_value = num_int 0\<rparr>\<rparr>"

definition demo_env :: "utxo list \<Rightarrow> inbox_env" where
  "demo_env us = \<lparr>env_item = (\<lambda>i q. Inr demo_detail), env_reads = Inr (demo_data, Some us), env_tip = Inr None,
     env_broadcast = (\<lambda>t. Inr ''tx1''), env_ack = (\<lambda>i q t. if q = ''a'' then Inr () else Inl JNull), env_now = (\<lambda>i. 0)\<rparr>"

definition demo_ctx :: agent_ctx where
  "demo_ctx = \<lparr>ctx_wif = Some ''w'', ctx_iaddr = Some ''iA'', ctx_network = Verus\<rparr>"

definition demo_items :: "inbox_ref list" where
  "demo_items = [\<lparr>ref_id = ''a'', ref_type = ''review''\<rparr>, \<lparr>ref_id = ''b'', ref_type = ''review''\<rparr>]"

definition demo_coin :: utxo where
  "demo_coin = \<lparr>txid = ''c'', vout = 0, addr = None, satoshis = 10000, script = None\<rparr>"

lemma demo_gate: "gate_item demo_jslib 0 ''review'' demo_detail = Inr [(key_of ''review'' ''record'', [JNull])]"
  by (simp add: gate_item_def demo_detail_def buildInboxVdxfAdditions_def bind_r_def inboxAllowlistForType_def ALLOWLISTS_def
      own_props_def gate_entries_def gate_entry_def as_array_def nullish_def Let_def assertContentmultimapValueSizes_def
      additions_cmm_def check_sizes_def contentmultimapValueByteSize_def demo_jslib_def byte_length_def
      MAX_CONTENTMULTIMAP_VALUE_BYTES_def)

lemma demo_size: "contentmultimapValueByteSize demo_jslib JNull = 2"
  by (simp add: contentmultimapValueByteSize_def nullish_def demo_jslib_def byte_length_def)

lemma demo_fetch:
  "fetch_loop demo_jslib (demo_env us) 0 demo_items ([], empty_result)
     = (map (\<lambda>ref. (ref, [(key_of ''review'' ''record'', [JNull])])) demo_items, empty_result)"
proof -
  have s: "fetch_step demo_jslib (demo_env us) i \<lparr>ref_id = q, ref_type = ''review''\<rparr> (cs, r)
      = (cs @ [(\<lparr>ref_id = q, ref_type = ''review''\<rparr>, [(key_of ''review'' ''record'', [JNull])])], r)" for i q cs r
    using demo_gate by (simp add: fetch_step_def demo_env_def demo_detail_def)
  show ?thesis by (simp add: demo_items_def s)
qed

lemma jget_JUndef [simp]: "jget JUndef k = JUndef"
  by (simp add: jget_def props_of_def)

lemma demo_merge:
  "merge_all demo_jslib MAX_BATCH_ADDITION_BYTES (jget (ri_identity demo_data) ''contentmultimap'')
     (map (\<lambda>ref. (ref, [(key_of ''review'' ''record'', [JNull])])) demo_items) empty_result
   = (\<lparr>mg_map = [(key_of ''review'' ''record'', [JNull])], mg_refs = [\<lparr>ref_id = ''a'', ref_type = ''review''\<rparr>], mg_bytes = 2\<rparr>,
      empty_result\<lparr>br_deferred := [(\<lparr>ref_id = ''b'', ref_type = ''review''\<rparr>, KeyCollision)]\<rparr>)"
  by (simp add: merge_all_def demo_items_def merge_step_def key_present_def valueAlreadyOnChain_def jobHashAlreadyOnChain_def
      on_chain_values_def demo_data_def nullish_def additionsByteSize_def demo_size MAX_BATCH_ADDITION_BYTES_def empty_result_def)

lemma demo_build: "\<exists>t. batch_build demo_jslib demo_idlib (build_args demo_ctx demo_data [demo_coin] None) [(key_of ''review'' ''record'', [JNull])] = Inr t"
proof -
  have "js_add (num_int 0) (num_int 10000) = num_int 10000" using js_add_int [of 0 10000] by simp
  then show ?thesis
    by (simp add: batch_build_def build_args_def buildIdentityUpdateTx_def demo_ctx_def demo_data_def demo_idlib_def new_cmm_def
      additions_cmm_def assertContentmultimapValueSizes_def check_sizes_def as_array_def demo_size MAX_CONTENTMULTIMAP_VALUE_BYTES_def
      apply_additions_def kept_entries_def sort_cmm_def is_primary_def implausible_minsigs_def demo_coin_def DEFAULT_FEE_def
      spendable_for_def truthy_str_def select_fee_utxos_def Let_def)
qed

lemma demo_env_simps [simp]:
  "env_reads (demo_env us) = Inr (demo_data, Some us)" "env_tip (demo_env us) = Inr None"
  "env_broadcast (demo_env us) t = Inr ''tx1''" "env_wf (demo_env us)"
  by (simp_all add: demo_env_def env_wf_def demo_detail_def own_props_def wf_map_def)

abbreviation demo_ref :: inbox_ref where
  "demo_ref \<equiv> \<lparr>ref_id = ''a'', ref_type = ''review''\<rparr>"

abbreviation demo_accept :: "idlib \<Rightarrow> (batch_error, batch_result) result" where
  "demo_accept lib \<equiv> acceptInboxBatch demo_jslib lib (demo_env [demo_coin]) demo_ctx demo_items None"

abbreviation demo_write :: "idlib \<Rightarrow> (batch_error, batch_result) result" where
  "demo_write lib \<equiv> write_phase demo_jslib lib (demo_env [demo_coin]) demo_ctx demo_data (Some [demo_coin])
     (map (\<lambda>ref. (ref, [(key_of ''review'' ''record'', [JNull])])) demo_items)
     (\<lparr>mg_map = [(key_of ''review'' ''record'', [JNull])], mg_refs = [demo_ref], mg_bytes = 2\<rparr>,
      empty_result\<lparr>br_deferred := [(\<lparr>ref_id = ''b'', ref_type = ''review''\<rparr>, KeyCollision)]\<rparr>)"

lemma demo_accept: "demo_write lib = Inr r \<Longrightarrow> demo_accept lib = Inr (ack_loop (demo_env [demo_coin]) 0 (br_written r) r)"
proof -
  assume w: "demo_write lib = Inr r"
  have ne: "demo_items \<noteq> []" and p: "ri_prev demo_data \<noteq> None"
    by (simp_all add: demo_items_def demo_data_def)
  have m: "truthy_str (ctx_wif demo_ctx)" "truthy_str (ctx_iaddr demo_ctx)" by (simp_all add: demo_ctx_def truthy_str_def)
  show ?thesis
    using w by (simp add: acceptInboxBatch_def ne m demo_fetch demo_merge p)
qed

lemma demo_batch: "\<exists>r. demo_accept demo_idlib = Inr r \<and> br_txid r = Some ''tx1'' \<and> br_written r = [demo_ref]"
proof -
  obtain t where t: "batch_build demo_jslib demo_idlib (build_args demo_ctx demo_data [demo_coin] None) [(key_of ''review'' ''record'', [JNull])] = Inr t"
    using demo_build by blast
  have "\<exists>r. demo_write demo_idlib = Inr r \<and> br_txid r = Some ''tx1'' \<and> br_written r = [demo_ref]"
    by (simp add: write_phase_def build_phase_def computeExpiryHeight_def t broadcast_phase_def empty_result_def)
  then obtain r where "demo_write demo_idlib = Inr r" "br_txid r = Some ''tx1''" "br_written r = [demo_ref]" by blast
  then show ?thesis using demo_accept [of demo_idlib r] by (simp del: ack_loop.simps)
qed

theorem acceptInboxBatch_partition_witness:
  "\<exists>r. demo_accept demo_idlib = Inr r \<and> settled r = {#''a'', ''b''#}"
proof -
  obtain r where r: "demo_accept demo_idlib = Inr r"
    using demo_batch by blast
  have "distinct (map ref_id demo_items)" "mset (map ref_id demo_items) = {#''a'', ''b''#}" by (simp_all add: demo_items_def)
  with acceptInboxBatch_partition [OF r] r show ?thesis by simp
qed


text \<open>The same batch when the identity serialiser refuses the review: it alone is blamed.\<close>

definition picky_idlib :: idlib where
  "picky_idlib = demo_idlib\<lparr>identity_script := (\<lambda>v. if jget v ''contentmultimap'' = JObj [] then Inr [1] else Inl ''bad'')\<rparr>"

lemma picky_build:
  "batch_build demo_jslib picky_idlib (build_args demo_ctx demo_data [demo_coin] None) [(key_of ''review'' ''record'', [JNull])] = Inl (Lib ''bad'')"
  "\<exists>t. batch_build demo_jslib picky_idlib (build_args demo_ctx demo_data [demo_coin] None) [] = Inr t"
proof -
  have "js_add (num_int 0) (num_int 10000) = num_int 10000" using js_add_int [of 0 10000] by simp
  then show "batch_build demo_jslib picky_idlib (build_args demo_ctx demo_data [demo_coin] None) [(key_of ''review'' ''record'', [JNull])] = Inl (Lib ''bad'')"
    "\<exists>t. batch_build demo_jslib picky_idlib (build_args demo_ctx demo_data [demo_coin] None) [] = Inr t"
    by (simp_all add: batch_build_def build_args_def buildIdentityUpdateTx_def demo_ctx_def demo_data_def picky_idlib_def demo_idlib_def new_cmm_def
      additions_cmm_def assertContentmultimapValueSizes_def check_sizes_def as_array_def demo_size MAX_CONTENTMULTIMAP_VALUE_BYTES_def
      apply_additions_def kept_entries_def sort_cmm_def is_primary_def implausible_minsigs_def demo_coin_def DEFAULT_FEE_def
      spendable_for_def truthy_str_def select_fee_utxos_def Let_def identity_json_def)
qed

lemma picky_batch: "\<exists>r. demo_accept picky_idlib = Inr r \<and> (demo_ref, BuildBlamed (Lib ''bad'')) \<in> set (br_rejected r)"
proof -
  have "\<exists>r. demo_write picky_idlib = Inr r \<and> (demo_ref, BuildBlamed (Lib ''bad'')) \<in> set (br_rejected r)"
    using picky_build by (auto simp: write_phase_def build_phase_def computeExpiryHeight_def broadcast_phase_def bisect_def
      bisect_step_def demo_items_def empty_result_def)
  then obtain r where "demo_write picky_idlib = Inr r" "(demo_ref, BuildBlamed (Lib ''bad'')) \<in> set (br_rejected r)" by blast
  then show ?thesis using demo_accept [of picky_idlib r] by (simp del: ack_loop.simps)
qed

theorem batch_blames_only_culprits_witness:
  "\<exists>r h. demo_accept picky_idlib = Inr r \<and> (demo_ref, BuildBlamed (Lib ''bad'')) \<in> set (br_rejected r)
     \<and> is_ok (batch_build demo_jslib picky_idlib (build_args demo_ctx demo_data [demo_coin] h) [])"
proof -
  obtain r where r: "demo_accept picky_idlib = Inr r" "(demo_ref, BuildBlamed (Lib ''bad'')) \<in> set (br_rejected r)"
    using picky_batch by blast
  from batch_blames_only_culprits [OF r] r show ?thesis by auto
qed

end
