(* ===== verification/AgentOps.thy ===== *)
theory AgentOps
  imports JsValue Messages
begin

text \<open>
  The agent's operations that sign a protocol message, \<open>src/agent.ts\<close>: delivery, disputes, rework, bounties, hiring,
  completion, reviews and the platform status. An operation is a function of the trace of what it did so far; it returns
  its outcome and the longer trace. The answers of the platform and of the signer are the record \<open>op_env\<close>.
\<close>

section \<open>Calls and answers\<close>

datatype broker_request = AcceptRequest string | DeliverRequest string string | DisputeRequest string dispute_action

record broker_response =
  br_signature :: string
  br_timestamp :: int
  br_message :: string

datatype op_call = Login | GetJob string | AskMessage string | SignText string | SignRequest broker_request
  | GetPayInfo string | Submit string "(string \<times> jv) list"

record op_env =
  oe_login :: "(string, unit) result"
  oe_job :: "string \<Rightarrow> (string, jv) result"
  oe_text :: "(string, jv) result"
  oe_payinfo :: "(string, jv) result"
  oe_submit :: "(string, jv) result"
  oe_sign :: "string \<Rightarrow> (string, string) result"
  oe_broker :: "broker_request \<Rightarrow> (string, broker_response) result"
  oe_now :: int
  oe_str :: "jv \<Rightarrow> string"
  oe_sha256 :: "string \<Rightarrow> string"

record op_agent =
  oa_wif :: "string option"
  oa_signer :: bool
  oa_name :: "string option"
  oa_iaddr :: "string option"
  oa_mainnet :: bool

datatype op_error = Failed string | NoSigner | NoIAddress | NoIdentity | NoJobHash | IncompleteJob | NotProtocol | Unbound | TypeFault

type_synonym 'a op = "op_call list \<Rightarrow> (op_error, 'a) result \<times> op_call list"

definition ok_op :: "'a \<Rightarrow> 'a op" where "ok_op a t = (Inr a, t)"
definition err_op :: "op_error \<Rightarrow> 'a op" where "err_op e t = (Inl e, t)"

definition bind_op :: "'a op \<Rightarrow> ('a \<Rightarrow> 'b op) \<Rightarrow> 'b op" where
  "bind_op m f t = (case m t of (Inl e, t') \<Rightarrow> (Inl e, t') | (Inr a, t') \<Rightarrow> f a t')"

text \<open>A call is made and answered.\<close>

definition call_op :: "op_call \<Rightarrow> (string, 'a) result \<Rightarrow> 'a op" where
  "call_op c r t = ((case r of Inl e \<Rightarrow> Inl (Failed e) | Inr a \<Rightarrow> Inr a), t @ [c])"

definition guard_op :: "bool \<Rightarrow> op_error \<Rightarrow> unit op" where
  "guard_op b e = (if b then ok_op () else err_op e)"

section \<open>Signing\<close>

definition can_sign :: "op_agent \<Rightarrow> bool" where
  "can_sign a = (oa_wif a \<noteq> None \<or> oa_signer a)"

definition signMessageBuilt :: "op_env \<Rightarrow> op_agent \<Rightarrow> string \<Rightarrow> string op" where
  "signMessageBuilt env a m = bind_op (guard_op (can_sign a) NoSigner) (\<lambda>_. call_op (SignText m) (oe_sign env m))"

definition defaultCurrency :: "op_agent \<Rightarrow> string" where
  "defaultCurrency a = (if oa_mainnet a then ''VRSC'' else ''VRSCTEST'')"

definition local_message :: "op_env \<Rightarrow> broker_request \<Rightarrow> jv \<Rightarrow> (op_error, string) result" where
  "local_message env req job =
     (let h = jget job ''jobHash'' in case req of
        AcceptRequest _ \<Rightarrow>
          if \<not> jtruthy h \<or> \<not> jtruthy (jget job ''buyerVerusId'') \<or> nullish (jget job ''amount'') \<or> \<not> jtruthy (jget job ''currency'')
          then Inl IncompleteJob
          else Inr (buildAcceptMessage (oe_str env h) (oe_str env (jget job ''buyerVerusId'')) (oe_str env (jget job ''amount''))
                 (oe_str env (jget job ''currency'')) (oe_now env))
      | DeliverRequest _ dh \<Rightarrow> if \<not> jtruthy h then Inl NoJobHash else Inr (buildDeliverMessage (oe_str env h) dh (oe_now env))
      | DisputeRequest _ act \<Rightarrow>
          if \<not> jtruthy h then Inl NoJobHash
          else if \<not> is_string h then Inl TypeFault
          else Inr (buildDisputeRespondMessage (str_of h) act (oe_now env)))"

definition signBrokeredLocally :: "op_env \<Rightarrow> broker_request \<Rightarrow> jv \<Rightarrow> broker_response op" where
  "signBrokeredLocally env req job = (case local_message env req job of
       Inl e \<Rightarrow> err_op e
     | Inr m \<Rightarrow> bind_op (call_op (SignText m) (oe_sign env m))
         (\<lambda>sg. ok_op \<lparr>br_signature = sg, br_timestamp = oe_now env, br_message = m\<rparr>))"

definition signBrokered :: "op_env \<Rightarrow> op_agent \<Rightarrow> broker_request \<Rightarrow> jv \<Rightarrow> broker_response op" where
  "signBrokered env a req job =
     (if oa_signer a then call_op (SignRequest req) (oe_broker env req)
      else if oa_wif a = None then err_op NoSigner
      else signBrokeredLocally env req job)"

text \<open>A request that carries a signature and the timestamp that is bound into it.\<close>

definition submit :: "op_env \<Rightarrow> string \<Rightarrow> (string \<times> jv) list \<Rightarrow> string \<Rightarrow> jv \<Rightarrow> jv op" where
  "submit env what body sg ts = call_op (Submit what (body @ [(''timestamp'', ts), (''signature'', JStr sg)])) (oe_submit env)"

definition num_ts :: "int \<Rightarrow> jv" where
  "num_ts ts = JNum (num_int ts)"

section \<open>The operations\<close>

text \<open>The text of an automatic delivery, in UTF-8.\<close>

definition AUTO_DELIVERY :: string where
  "AUTO_DELIVERY = ''Session ended '' @ map char_of [0xE2, 0x80, 0x94 :: nat] @ '' work delivered automatically.''"

definition autoDeliver :: "op_env \<Rightarrow> op_agent \<Rightarrow> string \<Rightarrow> unit op" where
  "autoDeliver env a j =
     (if oa_iaddr a = None \<or> \<not> can_sign a then ok_op ()
      else bind_op (call_op (GetJob j) (oe_job env j)) (\<lambda>job.
        if nullish job then err_op TypeFault
        else if jget job ''status'' \<noteq> JStr ''accepted'' \<and> jget job ''status'' \<noteq> JStr ''in_progress'' then ok_op ()
        else bind_op (signBrokered env a (DeliverRequest j (oe_sha256 env AUTO_DELIVERY)) (JObj [(''jobHash'', jget job ''jobHash'')])) (\<lambda>r.
          bind_op (submit env ''deliver'' [(''deliveryHash'', JStr (oe_sha256 env AUTO_DELIVERY)), (''message'', JStr AUTO_DELIVERY)]
            (br_signature r) (num_ts (br_timestamp r))) (\<lambda>_. ok_op ()))))"

definition respondToDispute :: "op_env \<Rightarrow> op_agent \<Rightarrow> string \<Rightarrow> dispute_action \<Rightarrow> (string \<times> jv) list \<Rightarrow> jv op" where
  "respondToDispute env a j act terms =
     bind_op (guard_op (can_sign a) NoSigner) (\<lambda>_.
     bind_op (guard_op (oa_iaddr a \<noteq> None) NoIAddress) (\<lambda>_.
     bind_op (call_op (GetJob j) (oe_job env j)) (\<lambda>job.
     bind_op (guard_op (\<not> nullish job) TypeFault) (\<lambda>_.
     bind_op (guard_op (jtruthy (jget job ''jobHash'')) NoJobHash) (\<lambda>_.
     bind_op (signBrokered env a (DisputeRequest j act) (JObj [(''jobHash'', jget job ''jobHash'')])) (\<lambda>r.
     submit env ''dispute'' ((''action'', JStr (dispute_action_name act)) # terms) (br_signature r) (num_ts (br_timestamp r))))))))"

definition acceptRework :: "op_env \<Rightarrow> op_agent \<Rightarrow> string \<Rightarrow> jv op" where
  "acceptRework env a j =
     bind_op (guard_op (can_sign a) NoSigner) (\<lambda>_.
     bind_op (call_op (GetJob j) (oe_job env j)) (\<lambda>job.
     bind_op (guard_op (\<not> nullish job) TypeFault) (\<lambda>_.
     bind_op (guard_op (jtruthy (jget job ''jobHash'')) NoJobHash) (\<lambda>_.
     bind_op (guard_op (is_string (jget job ''jobHash'')) TypeFault) (\<lambda>_.
     bind_op (signMessageBuilt env a (buildReworkAcceptMessage (str_of (jget job ''jobHash'')) (oe_now env))) (\<lambda>sg.
     submit env ''rework'' [] sg (num_ts (oe_now env))))))))"

definition pick_currency :: "op_agent \<Rightarrow> string option \<Rightarrow> string" where
  "pick_currency a c = (if c = None \<or> c = Some [] then defaultCurrency a else the c)"

definition postBounty :: "op_env \<Rightarrow> op_agent \<Rightarrow> string \<Rightarrow> jsnum \<Rightarrow> string option \<Rightarrow> jv op" where
  "postBounty env a title amount currency =
     bind_op (guard_op (can_sign a) NoSigner) (\<lambda>_.
     let c = pick_currency a currency in
     bind_op (signMessageBuilt env a (buildPostBountyMessage title (oe_str env (JNum amount)) c (oe_now env))) (\<lambda>sg.
     submit env ''bounty'' [(''title'', JStr title), (''amount'', JNum amount), (''currency'', JStr c)] sg (num_ts (oe_now env))))"

definition applyToBounty :: "op_env \<Rightarrow> op_agent \<Rightarrow> string \<Rightarrow> jv op" where
  "applyToBounty env a b =
     bind_op (guard_op (can_sign a) NoSigner) (\<lambda>_.
     bind_op (signMessageBuilt env a (buildApplyBountyMessage b (oe_now env))) (\<lambda>sg. submit env ''apply'' [] sg (num_ts (oe_now env))))"

definition completeJob :: "op_env \<Rightarrow> op_agent \<Rightarrow> string \<Rightarrow> jv op" where
  "completeJob env a j =
     bind_op (guard_op (can_sign a) NoSigner) (\<lambda>_.
     bind_op (call_op Login (oe_login env)) (\<lambda>_.
     bind_op (call_op (GetJob j) (oe_job env j)) (\<lambda>job.
     bind_op (guard_op (\<not> nullish job) TypeFault) (\<lambda>_.
     bind_op (signMessageBuilt env a (buildCompleteMessage (oe_str env (jget job ''jobHash'')) (oe_now env))) (\<lambda>sg.
     submit env ''complete'' [] sg (num_ts (oe_now env)))))))"

text \<open>Text the platform composed is signed when it starts with \<open>J41-\<close> and contains what the caller asked for.\<close>

definition check_text :: "jv \<Rightarrow> string list \<Rightarrow> (op_error, string) result" where
  "check_text m bound =
     (if \<not> is_string m \<or> \<not> starts_with (str_of m) ''J41-'' then Inl NotProtocol
      else if \<exists>b \<in> set bound. \<not> includes_sub (str_of m) b then Inl Unbound
      else Inr (str_of m))"

definition sign_supplied :: "op_env \<Rightarrow> op_agent \<Rightarrow> string \<Rightarrow> string list \<Rightarrow> (string \<times> jv) op" where
  "sign_supplied env a what bound =
     bind_op (call_op (AskMessage what) (oe_text env)) (\<lambda>r.
     if nullish r then err_op TypeFault
     else case check_text (jget r ''message'') bound of
       Inl e \<Rightarrow> err_op e
     | Inr m \<Rightarrow> bind_op (signMessageBuilt env a m) (\<lambda>sg. ok_op (sg, jget r ''timestamp'')))"

text \<open>The seller's address is looked up when the caller gives none; that may fail.\<close>

definition resolve_address :: "op_env \<Rightarrow> string \<Rightarrow> string option \<Rightarrow> jv op" where
  "resolve_address env seller address =
     (if address \<noteq> None \<and> address \<noteq> Some [] then ok_op (JStr (the address))
      else (\<lambda>t. (Inr (case oe_payinfo env of
              Inl _ \<Rightarrow> JUndef
            | Inr r \<Rightarrow> if jtruthy (jget r ''address'') then jget r ''address'' else JUndef), t @ [GetPayInfo seller])))"

definition createJob :: "op_env \<Rightarrow> op_agent \<Rightarrow> string \<Rightarrow> jsnum \<Rightarrow> string option \<Rightarrow> string option \<Rightarrow> jv op" where
  "createJob env a seller amount currency address =
     bind_op (guard_op (can_sign a) NoSigner) (\<lambda>_.
     bind_op (call_op Login (oe_login env)) (\<lambda>_.
     bind_op (resolve_address env seller address) (\<lambda>pay.
     bind_op (sign_supplied env a ''job-request'' [seller, oe_str env (JNum amount), show_int (oe_now env)]) (\<lambda>(sg, _).
     submit env ''job'' [(''sellerVerusId'', JStr seller), (''amount'', JNum amount), (''paymentAddress'', pay),
       (''currency'', JStr (pick_currency a currency))] sg (num_ts (oe_now env))))))"

definition reviewer :: "op_agent \<Rightarrow> string" where
  "reviewer a = (case oa_name a of
       Some n \<Rightarrow> if ends_with n ''@'' then n else n @ ''@''
     | None \<Rightarrow> (case oa_iaddr a of Some i \<Rightarrow> i | None \<Rightarrow> []))"

definition submitReview :: "op_env \<Rightarrow> op_agent \<Rightarrow> string \<Rightarrow> string \<Rightarrow> jsnum \<Rightarrow> jv op" where
  "submitReview env a agent jobHash rating =
     bind_op (guard_op (can_sign a) NoSigner) (\<lambda>_.
     bind_op (call_op Login (oe_login env)) (\<lambda>_.
     bind_op (sign_supplied env a ''review'' [jobHash, oe_str env (JNum rating)]) (\<lambda>(sg, ts).
     submit env ''review'' [(''agentVerusId'', JStr agent), (''buyerVerusId'', JStr (reviewer a)), (''jobHash'', JStr jobHash),
       (''rating'', JNum rating)] sg ts)))"

section \<open>What is signed\<close>

datatype agent_op = AutoDeliver string | Respond string dispute_action "(string \<times> jv) list" | Rework string
  | PostBounty string jsnum "string option" | Apply string | Complete string
  | Hire string jsnum "string option" "string option" | Review string string jsnum

definition drop_result :: "'a op \<Rightarrow> unit op" where
  "drop_result m = bind_op m (\<lambda>_. ok_op ())"

definition run_op :: "op_env \<Rightarrow> op_agent \<Rightarrow> agent_op \<Rightarrow> unit op" where
  "run_op env a x = (case x of
       AutoDeliver j \<Rightarrow> autoDeliver env a j
     | Respond j act terms \<Rightarrow> drop_result (respondToDispute env a j act terms)
     | Rework j \<Rightarrow> drop_result (acceptRework env a j)
     | PostBounty t n c \<Rightarrow> drop_result (postBounty env a t n c)
     | Apply b \<Rightarrow> drop_result (applyToBounty env a b)
     | Complete j \<Rightarrow> drop_result (completeJob env a j)
     | Hire seller n c p \<Rightarrow> drop_result (createJob env a seller n c p)
     | Review g h n \<Rightarrow> drop_result (submitReview env a g h n))"

text \<open>The texts an operation may sign; what it takes from the platform is existentially quantified.\<close>

definition may_sign :: "op_env \<Rightarrow> op_agent \<Rightarrow> agent_op \<Rightarrow> string \<Rightarrow> bool" where
  "may_sign env a x m = (case x of
       AutoDeliver j \<Rightarrow> \<exists>h. m = buildDeliverMessage h (oe_sha256 env AUTO_DELIVERY) (oe_now env)
     | Respond j act _ \<Rightarrow> \<exists>h. m = buildDisputeRespondMessage h act (oe_now env)
     | Rework j \<Rightarrow> \<exists>h. m = buildReworkAcceptMessage h (oe_now env)
     | PostBounty t n c \<Rightarrow> m = buildPostBountyMessage t (oe_str env (JNum n)) (pick_currency a c) (oe_now env)
     | Apply b \<Rightarrow> m = buildApplyBountyMessage b (oe_now env)
     | Complete j \<Rightarrow> \<exists>h. m = buildCompleteMessage h (oe_now env)
     | Hire seller n _ _ \<Rightarrow> starts_with m ''J41-'' \<and> includes_sub m seller \<and> includes_sub m (oe_str env (JNum n)) \<and> includes_sub m (show_int (oe_now env))
     | Review _ h n \<Rightarrow> starts_with m ''J41-'' \<and> includes_sub m h \<and> includes_sub m (oe_str env (JNum n)))"

definition is_signing :: "op_call \<Rightarrow> bool" where
  "is_signing c = (case c of SignText _ \<Rightarrow> True | SignRequest _ \<Rightarrow> True | _ \<Rightarrow> False)"

definition is_submit :: "op_call \<Rightarrow> bool" where
  "is_submit c = (case c of Submit _ _ \<Rightarrow> True | _ \<Rightarrow> False)"

text \<open>At most one signature, of a text the operation may sign; nothing is submitted before it, and one request at most after it.\<close>

definition proper :: "(string \<Rightarrow> bool) \<Rightarrow> op_call list \<Rightarrow> bool" where
  "proper P t = (\<exists>u v w. t = u @ v @ w \<and> (\<forall>c \<in> set u. \<not> is_signing c \<and> \<not> is_submit c) \<and> length v \<le> 1 \<and> length w \<le> length v
     \<and> (\<forall>c \<in> set v. is_signing c \<and> (\<forall>m. c = SignText m \<longrightarrow> P m)) \<and> (\<forall>c \<in> set w. is_submit c))"

definition quiet :: "op_call list \<Rightarrow> bool" where
  "quiet t = (\<forall>c \<in> set t. \<not> is_signing c \<and> \<not> is_submit c)"

definition signed_once :: "(string \<Rightarrow> bool) \<Rightarrow> op_call list \<Rightarrow> bool" where
  "signed_once P t = (\<exists>u c. t = u @ [c] \<and> quiet u \<and> is_signing c \<and> (\<forall>m. c = SignText m \<longrightarrow> P m))"

lemma quiet_proper: "quiet t \<Longrightarrow> proper P t"
  unfolding proper_def quiet_def by (rule exI [of _ t], rule exI [of _ "[]"], rule exI [of _ "[]"]) simp

lemma signed_proper: "signed_once P t \<Longrightarrow> proper P t"
  unfolding proper_def signed_once_def quiet_def
  by (elim exE conjE, rename_tac u c, rule_tac x = u in exI, rule_tac x = "[c]" in exI, rule_tac x = "[]" in exI) simp

lemma submitted_proper: "signed_once P t \<Longrightarrow> proper P (t @ [Submit w b])"
  unfolding proper_def signed_once_def quiet_def
  by (elim exE conjE, rename_tac u c, rule_tac x = u in exI, rule_tac x = "[c]" in exI, rule_tac x = "[Submit w b]" in exI)
    (simp add: is_submit_def)

text \<open>\<open>triple P pre m post\<close>: from a trace with \<open>pre\<close>, a result leaves a trace with \<open>post\<close>, an error a proper one.\<close>

definition triple :: "(string \<Rightarrow> bool) \<Rightarrow> (op_call list \<Rightarrow> bool) \<Rightarrow> 'a op \<Rightarrow> ('a \<Rightarrow> op_call list \<Rightarrow> bool) \<Rightarrow> bool" where
  "triple P pre m post = (\<forall>t. pre t \<longrightarrow> (case m t of (Inl e, t') \<Rightarrow> proper P t' | (Inr a, t') \<Rightarrow> post a t'))"

lemma triple_bind: "triple P pre m mid \<Longrightarrow> (\<And>a. triple P (mid a) (f a) post) \<Longrightarrow> triple P pre (bind_op m f) post"
  by (fastforce simp: triple_def bind_op_def split: prod.splits sum.splits)

lemma triple_ok: "(\<And>t. pre t \<Longrightarrow> post a t) \<Longrightarrow> triple P pre (ok_op a) post"
  by (simp add: triple_def ok_op_def)

lemma triple_err: "(\<And>t. pre t \<Longrightarrow> proper P t) \<Longrightarrow> triple P pre (err_op e) post"
  by (simp add: triple_def err_op_def)

lemma triple_guard: "(\<And>t. pre t \<Longrightarrow> proper P t) \<Longrightarrow> triple P pre (guard_op b e) (\<lambda>_. pre)"
  by (auto simp: guard_op_def intro: triple_ok triple_err)

lemma triple_read: "\<not> is_signing c \<Longrightarrow> \<not> is_submit c \<Longrightarrow> triple P quiet (call_op c r) (\<lambda>_. quiet)"
  by (auto simp: triple_def call_op_def intro!: quiet_proper split: sum.split) (auto simp: quiet_def)

lemma triple_sign: "is_signing c \<Longrightarrow> (\<And>m. c = SignText m \<Longrightarrow> P m) \<Longrightarrow> triple P quiet (call_op c r) (\<lambda>_. signed_once P)"
  by (auto simp: triple_def call_op_def signed_once_def intro!: signed_proper split: sum.split)

lemma triple_submit: "triple P (signed_once P) (submit env what body sg ts) (\<lambda>_. proper P)"
  by (auto simp: triple_def submit_def call_op_def intro: submitted_proper split: sum.split)

lemma reads [simp]: "\<not> is_signing Login" "\<not> is_signing (GetJob j)" "\<not> is_signing (AskMessage w)" "\<not> is_signing (GetPayInfo p)"
  "\<not> is_submit Login" "\<not> is_submit (GetJob j)" "\<not> is_submit (AskMessage w)" "\<not> is_submit (GetPayInfo p)"
  "is_signing (SignText m)" "is_signing (SignRequest r)"
  by (simp_all add: is_signing_def is_submit_def)

lemma triple_built: "P m \<Longrightarrow> triple P quiet (signMessageBuilt env a m) (\<lambda>_. signed_once P)"
  unfolding signMessageBuilt_def by (rule triple_bind [OF triple_guard [OF quiet_proper] triple_sign]) auto

lemma triple_brokered:
  "(\<And>m. local_message env req job = Inr m \<Longrightarrow> P m) \<Longrightarrow> triple P quiet (signBrokered env a req job) (\<lambda>_. signed_once P)"
  by (auto simp: signBrokered_def signBrokeredLocally_def intro!: triple_sign triple_err triple_bind quiet_proper triple_ok split: sum.split)

lemma triple_supplied:
  "(\<And>m. check_text (JStr m) bound = Inr m \<Longrightarrow> P m) \<Longrightarrow> triple P quiet (sign_supplied env a what bound) (\<lambda>_. signed_once P)"
  unfolding sign_supplied_def
  by (rule triple_bind [OF triple_read])
    (auto simp: check_text_def is_string_iff intro!: triple_err triple_bind triple_built triple_ok quiet_proper split: if_splits)

lemma triple_address: "triple P quiet (resolve_address env seller address) (\<lambda>_. quiet)"
  by (auto simp: resolve_address_def intro!: triple_ok) (auto simp: triple_def quiet_def)

lemma triple_weaken: "triple P pre m post \<Longrightarrow> (\<And>a t. post a t \<Longrightarrow> post' a t) \<Longrightarrow> triple P pre m post'"
  by (fastforce simp: triple_def split: prod.splits sum.splits)

lemma triple_drop: "triple P pre m (\<lambda>_. proper P) \<Longrightarrow> triple P pre (drop_result m) (\<lambda>_. proper P)"
  unfolding drop_result_def by (erule triple_bind) (rule triple_ok)

lemmas triple_rules = triple_drop triple_bind triple_guard triple_read triple_built triple_brokered triple_supplied triple_address
  triple_submit quiet_proper

lemma run_op_triple: "triple (may_sign env a x) quiet (run_op env a x) (\<lambda>_. proper (may_sign env a x))"
proof (cases x)
  case (AutoDeliver j)
  then show ?thesis
    by (auto simp: run_op_def autoDeliver_def local_message_def may_sign_def Let_def
        intro!: triple_ok triple_err triple_bind [OF triple_read] triple_bind [OF triple_brokered] triple_bind [OF triple_submit] quiet_proper
        split: if_splits) blast+
next
  case (Respond j act terms)
  then show ?thesis
    by (auto simp: run_op_def respondToDispute_def local_message_def may_sign_def Let_def intro!: triple_drop
        triple_bind [OF triple_guard] triple_bind [OF triple_read] triple_bind [OF triple_brokered] triple_submit quiet_proper split: if_splits)
next
  case (Rework j)
  then show ?thesis
    by (auto simp: run_op_def acceptRework_def may_sign_def intro!: triple_drop triple_bind [OF triple_guard] triple_bind [OF triple_read]
        triple_bind [OF triple_built] triple_submit quiet_proper)
next
  case (PostBounty t n c)
  then show ?thesis
    by (auto simp: run_op_def postBounty_def may_sign_def Let_def intro!: triple_drop triple_bind [OF triple_guard] triple_bind [OF triple_built]
        triple_submit quiet_proper)
next
  case (Apply b)
  then show ?thesis
    by (auto simp: run_op_def applyToBounty_def may_sign_def intro!: triple_drop triple_bind [OF triple_guard] triple_bind [OF triple_built]
        triple_submit quiet_proper)
next
  case (Complete j)
  then show ?thesis
    by (auto simp: run_op_def completeJob_def may_sign_def intro!: triple_drop triple_bind [OF triple_guard] triple_bind [OF triple_read]
        triple_bind [OF triple_built] triple_submit quiet_proper)
next
  case (Hire seller n c p)
  then show ?thesis
    by (auto simp: run_op_def createJob_def may_sign_def check_text_def intro!: triple_drop triple_bind [OF triple_guard] triple_bind [OF triple_read]
        triple_bind [OF triple_address] triple_bind [OF triple_supplied] triple_submit quiet_proper split: if_splits)
next
  case (Review g h n)
  then show ?thesis
    by (auto simp: run_op_def submitReview_def may_sign_def check_text_def intro!: triple_drop triple_bind [OF triple_guard] triple_bind [OF triple_read]
        triple_bind [OF triple_supplied] triple_submit quiet_proper split: if_splits)
qed


text \<open>An automatic delivery is made for a job that is accepted or in progress only, with the hash of the text it carries.\<close>

lemma autoDeliver_active:
  assumes "Submit w b \<in> set (snd (autoDeliver env a j []))"
  shows "w = ''deliver'' \<and> map_get b ''deliveryHash'' = Some (JStr (oe_sha256 env AUTO_DELIVERY)) \<and> map_get b ''message'' = Some (JStr AUTO_DELIVERY)
    \<and> (\<exists>job. oe_job env j = Inr job \<and> jget job ''status'' \<in> {JStr ''accepted'', JStr ''in_progress''} \<and> jtruthy (jget job ''jobHash'') \<or> oa_signer a)"
  using assms
  by (auto simp: autoDeliver_def bind_op_def call_op_def ok_op_def err_op_def signBrokered_def signBrokeredLocally_def submit_def local_message_def
      Let_def split: if_splits sum.splits)

section \<open>What the check of supplied text does not exclude\<close>

lemma includes_in: "s = u @ p @ v \<Longrightarrow> includes_sub s p"
  by (auto simp: includes_sub_iff)

lemma deposit_report_binds:
  "check_text (JStr (buildDepositReportMessage d)) [d_seller d, d_amount d, show_int (d_ts d)] = Inr (buildDepositReportMessage d)"
proof -
  let ?m = "buildDepositReportMessage d"
  have "includes_sub ?m (d_seller d)"
    by (rule includes_in [of _ "''J41-DEPOSIT-REPORT|Buyer:'' @ d_buyer d @ ''|Seller:''"]) (simp add: buildDepositReportMessage_def)
  moreover have "includes_sub ?m (d_amount d)"
    by (rule includes_in [of _ "''J41-DEPOSIT-REPORT|Buyer:'' @ d_buyer d @ ''|Seller:'' @ d_seller d @ ''|Txid:'' @ d_txid d @ ''|Amt:''"])
      (simp add: buildDepositReportMessage_def)
  moreover have "includes_sub ?m (show_int (d_ts d))"
    by (rule includes_in [of _ "''J41-DEPOSIT-REPORT|Buyer:'' @ d_buyer d @ ''|Seller:'' @ d_seller d @ ''|Txid:'' @ d_txid d @ ''|Amt:'' @ d_amount d @ ''|Nonce:'' @ d_nonce d @ ''|Ts:''"])
      (simp add: buildDepositReportMessage_def)
  moreover have "starts_with ?m ''J41-''" by (simp add: starts_with_def buildDepositReportMessage_def)
  ultimately show ?thesis by (simp add: check_text_def del: includes_sub.simps)
qed

text \<open>
  The check of hiring does not exclude another message of the protocol: a platform that answers the request for the
  text to sign with a report of a deposit, of any transaction to the seller over the same amount, gets it signed.
\<close>

theorem hiring_signs_deposit_report:
  assumes "can_sign a" and "oe_login env = Inr ()" and "oe_text env = Inr (JObj [(''message'', JStr (buildDepositReportMessage d))])"
    and "d_seller d = seller" and "d_amount d = oe_str env (JNum amount)" and "d_ts d = oe_now env"
  shows "SignText (buildDepositReportMessage d) \<in> set (snd (createJob env a seller amount currency address []))"
  using assms deposit_report_binds [of d]
  by (auto simp: createJob_def sign_supplied_def signMessageBuilt_def resolve_address_def bind_op_def call_op_def guard_op_def ok_op_def err_op_def submit_def
      nullish_def split: sum.split)

definition demo_op_env :: "jv \<Rightarrow> op_env" where
  "demo_op_env m = \<lparr>oe_login = Inr (), oe_job = (\<lambda>_. Inr (JObj [(''jobHash'', JStr ''abc''), (''status'', JStr ''accepted'')])),
     oe_text = Inr (JObj [(''message'', m)]), oe_payinfo = Inl ''down'', oe_submit = Inr (JObj []), oe_sign = (\<lambda>_. Inr ''sig''),
     oe_broker = (\<lambda>_. Inl ''none''), oe_now = 1754000000, oe_str = (\<lambda>v. case v of JStr s \<Rightarrow> s | _ \<Rightarrow> ''5''), oe_sha256 = (\<lambda>_. ''00'')\<rparr>"

definition demo_op_agent :: op_agent where
  "demo_op_agent = \<lparr>oa_wif = Some ''w'', oa_signer = False, oa_name = Some ''a@'', oa_iaddr = Some ''iA'', oa_mainnet = True\<rparr>"

definition demo_deposit :: deposit_params where
  "demo_deposit = \<lparr>d_buyer = ''a@'', d_seller = ''s@'', d_txid = ''t'', d_amount = ''5'', d_nonce = ''n'', d_ts = 1754000000\<rparr>"

lemma hiring_signs_deposit_report_witness:
  "SignText (buildDepositReportMessage demo_deposit)
     \<in> set (snd (createJob (demo_op_env (JStr (buildDepositReportMessage demo_deposit))) demo_op_agent ''s@'' (num_int 5) None None []))"
  by (rule hiring_signs_deposit_report) (simp_all add: demo_op_env_def demo_op_agent_def demo_deposit_def can_sign_def)

text \<open>Likewise a rating is contained in many a timestamp: a platform gets the completion of the job signed as its review.\<close>

lemma review_signs_completion:
  assumes "can_sign a" and "oe_login env = Inr ()" and "oe_text env = Inr (JObj [(''message'', JStr (buildCompleteMessage jobHash ts))])"
    and "includes_sub (show_int ts) (oe_str env (JNum rating))"
  shows "SignText (buildCompleteMessage jobHash ts) \<in> set (snd (submitReview env a g jobHash rating []))"
proof -
  let ?m = "buildCompleteMessage jobHash ts"
  have "includes_sub ?m jobHash"
    by (rule includes_in [of _ "''J41-COMPLETE|Job:''"]) (simp add: buildCompleteMessage_def)
  moreover obtain u v where "show_int ts = u @ oe_str env (JNum rating) @ v" using assms(4) by (auto simp: includes_sub_iff)
  then have "includes_sub ?m (oe_str env (JNum rating))"
    by (intro includes_in [of _ "''J41-COMPLETE|Job:'' @ jobHash @ ''|Ts:'' @ u"]) (simp add: buildCompleteMessage_def)
  moreover have "starts_with ?m ''J41-''" by (simp add: starts_with_def buildCompleteMessage_def)
  ultimately have "check_text (JStr ?m) [jobHash, oe_str env (JNum rating)] = Inr ?m"
    by (simp add: check_text_def del: includes_sub.simps)
  then show ?thesis using assms
    by (auto simp: submitReview_def sign_supplied_def signMessageBuilt_def bind_op_def call_op_def guard_op_def ok_op_def err_op_def submit_def nullish_def
        split: sum.split)
qed

end
