(* ===== verification/IdentityOps.thy ===== *)
theory IdentityOps
  imports InboxBatch AgentOps
begin

text \<open>
  The agent's other identity transactions, \<open>src/agent.ts\<close>: accepting one inbox item (\<open>acceptReview\<close>,
  \<open>acceptAttestationTuple\<close>, \<open>acceptJobRecord\<close>), the status key, the revocation and recovery authorities, and
  \<open>deactivate\<close> and \<open>activate\<close>, which also tell the platform. The platform is the record \<open>chain_env\<close>; what an
  operation does is the list of its calls. The signed transaction stands for its hex encoding.
\<close>

record chain_env =
  ce_login :: "(jv, unit) result"
  ce_item :: "string \<Rightarrow> (jv, jv) result"
  ce_raw :: "(jv, raw_identity) result"
  ce_utxos :: "(jv, utxo list option) result"
  ce_tip :: "(jv, jsnum option) result"
  ce_broadcast :: "id_tx \<Rightarrow> (jv, string) result"
  ce_ack :: "string \<Rightarrow> string \<Rightarrow> (jv, unit) result"
  ce_services :: "(jv, jv) result"
  ce_delete :: "jv \<Rightarrow> (jv, unit) result"
  ce_sign :: "string \<Rightarrow> (jv, string) result"
  ce_status :: "(jv, jv) result"
  ce_now :: int
  ce_secs :: int
  ce_nonce :: string

datatype chain_call = Broadcast id_tx | Ack string string | DeleteService jv | SignStatus string | SetStatus string string string int string

datatype chain_error = KeysRequired | Answered jv | NoPrevious | NoFeeUtxos | GateRefused gate_error | BuildRefused update_error
  | BadAuthority string | NamesRequired | CannotSign

section \<open>One inbox item\<close>

definition update_tx :: "jslib \<Rightarrow> idlib \<Rightarrow> chain_env \<Rightarrow> agent_ctx \<Rightarrow> raw_identity \<Rightarrow> utxo list \<Rightarrow> additions \<Rightarrow> (chain_error, id_tx) result" where
  "update_tx js lib env ctx idata us ad = (case ce_tip env of
       Inl e \<Rightarrow> Inl (Answered e)
     | Inr tip \<Rightarrow> (case batch_build js lib (build_args ctx idata us (computeExpiryHeight tip IDENTITY_EXPIRY_DELTA)) ad of
         Inl e \<Rightarrow> Inl (BuildRefused e) | Inr tx \<Rightarrow> Inr tx))"

definition reads :: "chain_env \<Rightarrow> (chain_error, raw_identity \<times> utxo list option) result" where
  "reads env = (case (ce_raw env, ce_utxos env) of
       (Inl e, _) \<Rightarrow> Inl (Answered e) | (_, Inl e) \<Rightarrow> Inl (Answered e) | (Inr i, Inr us) \<Rightarrow> Inr (i, us))"

definition item_tx :: "string \<Rightarrow> jslib \<Rightarrow> idlib \<Rightarrow> chain_env \<Rightarrow> agent_ctx \<Rightarrow> jv \<Rightarrow> (chain_error, id_tx) result" where
  "item_tx t js lib env ctx item = bind_r (reads env) (\<lambda>(idata, us).
     if ri_prev idata = None then Inl NoPrevious
     else if us = None \<or> us = Some [] then Inl NoFeeUtxos
     else case buildInboxVdxfAdditions js (ce_now env) t item of
       Inl e \<Rightarrow> Inl (GateRefused e)
     | Inr ad \<Rightarrow> update_tx js lib env ctx idata (the us) ad)"

definition accept_item ::
  "string \<Rightarrow> jslib \<Rightarrow> idlib \<Rightarrow> chain_env \<Rightarrow> agent_ctx \<Rightarrow> string \<Rightarrow> (chain_error, string option) result \<times> chain_call list" where
  "accept_item t js lib env ctx i =
     (if \<not> truthy_str (ctx_wif ctx) \<or> \<not> truthy_str (ctx_iaddr ctx) then (Inl KeysRequired, [])
      else case ce_item env i of
        Inl e \<Rightarrow> (Inl (Answered e), [])
      | Inr item \<Rightarrow>
          if jget item ''status'' \<noteq> JStr ''pending'' then (Inr None, [])
          else (case item_tx t js lib env ctx item of
            Inl e \<Rightarrow> (Inl e, [])
          | Inr tx \<Rightarrow> (case ce_broadcast env tx of
              Inl e \<Rightarrow> (Inl (Answered e), [Broadcast tx])
            | Inr tid \<Rightarrow> (case ce_ack env i tid of
                Inl e \<Rightarrow> (Inl (Answered e), [Broadcast tx, Ack i tid])
              | Inr _ \<Rightarrow> (Inr (Some tid), [Broadcast tx, Ack i tid])))))"

definition acceptReview where "acceptReview = accept_item ''review''"
definition acceptAttestationTuple where "acceptAttestationTuple = accept_item ''attestation''"
definition acceptJobRecord where "acceptJobRecord = accept_item ''job_record''"

lemmas accept_defs = acceptReview_def acceptAttestationTuple_def acceptJobRecord_def

section \<open>Status and authorities\<close>

definition status_additions :: "string \<Rightarrow> additions" where
  "status_additions st = [(key_of ''agent'' ''status'', [makeSubDD (key_of ''agent'' ''status'') (JStr st)])]"

definition setOnChainStatus ::
  "jslib \<Rightarrow> idlib \<Rightarrow> chain_env \<Rightarrow> agent_ctx \<Rightarrow> string \<Rightarrow> (chain_error, string) result \<times> chain_call list" where
  "setOnChainStatus js lib env ctx st =
     (if \<not> truthy_str (ctx_wif ctx) \<or> \<not> truthy_str (ctx_iaddr ctx) then (Inl KeysRequired, [])
      else case bind_r (case ce_login env of Inl e \<Rightarrow> Inl (Answered e) | Inr _ \<Rightarrow> Inr ()) (\<lambda>_.
          bind_r (reads env) (\<lambda>(idata, us).
          let mine = filter (\<lambda>u. satoshis u > 0) (case us of None \<Rightarrow> [] | Some us \<Rightarrow> us) in
          if ri_prev idata = None then Inl NoPrevious
          else if mine = [] then Inl NoFeeUtxos
          else update_tx js lib env ctx idata mine (status_additions st))) of
        Inl e \<Rightarrow> (Inl e, [])
      | Inr tx \<Rightarrow> (case ce_broadcast env tx of Inl e \<Rightarrow> (Inl (Answered e), [Broadcast tx]) | Inr tid \<Rightarrow> (Inr tid, [Broadcast tx])))"

text \<open>The same inside \<open>deactivate\<close> and \<open>activate\<close>, where every failure is \<open>null\<close>.\<close>

definition updateOnChainStatus ::
  "jslib \<Rightarrow> idlib \<Rightarrow> chain_env \<Rightarrow> agent_ctx \<Rightarrow> string \<Rightarrow> string option \<times> chain_call list" where
  "updateOnChainStatus js lib env ctx st =
     (if \<not> truthy_str (ctx_wif ctx) \<or> \<not> truthy_str (ctx_iaddr ctx) then (None, [])
      else case bind_r (case ce_login env of Inl e \<Rightarrow> Inl (Answered e) | Inr _ \<Rightarrow> Inr ()) (\<lambda>_.
          bind_r (reads env) (\<lambda>(idata, us).
          if us = None \<or> us = Some [] then Inl NoFeeUtxos
          else update_tx js lib env ctx idata (the us) (status_additions st))) of
        Inl e \<Rightarrow> (None, [])
      | Inr tx \<Rightarrow> (case ce_broadcast env tx of Inl e \<Rightarrow> (None, [Broadcast tx]) | Inr tid \<Rightarrow> (Some tid, [Broadcast tx])))"

definition valid_authority :: "string \<Rightarrow> bool" where
  "valid_authority a = (starts_with a ''i'' \<and> 30 \<le> length a)"

datatype authorities = AlreadySet | Updated string

definition setRevokeRecoverAuthorities ::
  "jslib \<Rightarrow> idlib \<Rightarrow> chain_env \<Rightarrow> agent_ctx \<Rightarrow> string \<Rightarrow> string \<Rightarrow> (chain_error, authorities) result \<times> chain_call list" where
  "setRevokeRecoverAuthorities js lib env ctx revoke recover =
     (if \<not> truthy_str (ctx_wif ctx) \<or> \<not> truthy_str (ctx_iaddr ctx) then (Inl KeysRequired, [])
      else if \<not> valid_authority revoke then (Inl (BadAuthority revoke), [])
      else if \<not> valid_authority recover then (Inl (BadAuthority recover), [])
      else case reads env of
        Inl e \<Rightarrow> (Inl e, [])
      | Inr (idata, us) \<Rightarrow>
          if ri_prev idata = None then (Inl NoPrevious, [])
          else if jget (ri_identity idata) ''revocationauthority'' = JStr revoke \<and> jget (ri_identity idata) ''recoveryauthority'' = JStr recover
          then (Inr AlreadySet, [])
          else (case ce_tip env of
            Inl e \<Rightarrow> (Inl (Answered e), [])
          | Inr tip \<Rightarrow> (case buildIdentityUpdateTx js lib ((build_args ctx idata (case us of None \<Rightarrow> [] | Some us \<Rightarrow> us)
                (computeExpiryHeight tip IDENTITY_EXPIRY_DELTA))\<lparr>u_revocation := Some revoke, u_recovery := Some recover\<rparr>) of
              Inl e \<Rightarrow> (Inl (BuildRefused e), [])
            | Inr tx \<Rightarrow> (case ce_broadcast env tx of
                Inl e \<Rightarrow> (Inl (Answered e), [Broadcast tx]) | Inr tid \<Rightarrow> (Inr (Updated tid), [Broadcast tx])))))"

record authority_check =
  ac_revocation :: jv
  ac_recovery :: jv
  ac_identity :: jv
  ac_selfRevoke :: bool
  ac_selfRecover :: bool

definition checkAuthorities :: "chain_env \<Rightarrow> (jv, authority_check) result" where
  "checkAuthorities env = bind_r (ce_raw env) (\<lambda>d. let i = ri_identity d; a = jget i ''identityaddress'' in
     Inr \<lparr>ac_revocation = jget i ''revocationauthority'', ac_recovery = jget i ''recoveryauthority'', ac_identity = a,
          ac_selfRevoke = (jget i ''revocationauthority'' = a), ac_selfRecover = (jget i ''recoveryauthority'' = a)\<rparr>)"

section \<open>Deactivating and activating\<close>

definition status_message :: "string \<Rightarrow> string \<Rightarrow> int \<Rightarrow> string \<Rightarrow> string" where
  "status_message agent st ts nonce = ''J41-STATUS|Agent:'' @ agent @ ''|Status:'' @ st @ ''|Ts:'' @ show_int ts @ ''|Nonce:'' @ nonce"

fun delete_loop :: "chain_env \<Rightarrow> jv list \<Rightarrow> nat \<times> chain_call list" where
  "delete_loop env [] = (0, [])"
| "delete_loop env (s # ss) = (case delete_loop env ss of (n, cs) \<Rightarrow>
     ((case ce_delete env (jget s ''id'') of Inr _ \<Rightarrow> Suc n | Inl _ \<Rightarrow> n), DeleteService (jget s ''id'') # cs))"

definition remove_services :: "chain_env \<Rightarrow> nat \<times> chain_call list" where
  "remove_services env = (case ce_services env of
       Inl _ \<Rightarrow> (0, [])
     | Inr r \<Rightarrow> delete_loop env (if jtruthy (jget r ''data'') then arr_of (jget r ''data'') else []))"

definition tell_platform ::
  "chain_env \<Rightarrow> string \<Rightarrow> string \<Rightarrow> (chain_error, jv) result \<times> chain_call list" where
  "tell_platform env agent st =
     (let m = status_message agent st (ce_secs env) (ce_nonce env) in
      case ce_sign env m of
        Inl e \<Rightarrow> (Inl (Answered e), [SignStatus m])
      | Inr sg \<Rightarrow> ((case ce_status env of Inl e \<Rightarrow> Inl (Answered e) | Inr r \<Rightarrow> Inr (jget r ''status'')),
                   [SignStatus m, SetStatus agent st sg (ce_secs env) (ce_nonce env)]))"

record deactivation =
  de_status :: jv
  de_removed :: nat
  de_txid :: "string option"

definition deactivate ::
  "jslib \<Rightarrow> idlib \<Rightarrow> chain_env \<Rightarrow> agent_ctx \<Rightarrow> bool \<Rightarrow> string option \<Rightarrow> bool \<Rightarrow> bool \<Rightarrow> (chain_error, deactivation) result \<times> chain_call list" where
  "deactivate js lib env ctx signer name removeServices onChain =
     (if \<not> truthy_str name \<or> \<not> truthy_str (ctx_iaddr ctx) then (Inl NamesRequired, [])
      else case ce_login env of
        Inl e \<Rightarrow> (Inl (Answered e), [])
      | Inr _ \<Rightarrow>
          (let (tid, cs1) = (if onChain then updateOnChainStatus js lib env ctx ''inactive'' else (None, []));
               (n, cs2) = (if removeServices then remove_services env else (0, [])) in
           if \<not> truthy_str (ctx_wif ctx) \<and> \<not> signer then (Inl CannotSign, cs1 @ cs2)
           else (case tell_platform env (the (ctx_iaddr ctx)) ''inactive'' of
             (Inl e, cs3) \<Rightarrow> (Inl e, cs1 @ cs2 @ cs3)
           | (Inr st, cs3) \<Rightarrow> (Inr \<lparr>de_status = st, de_removed = n, de_txid = tid\<rparr>, cs1 @ cs2 @ cs3))))"

definition activate ::
  "jslib \<Rightarrow> idlib \<Rightarrow> chain_env \<Rightarrow> agent_ctx \<Rightarrow> string option \<Rightarrow> bool \<Rightarrow> (chain_error, jv \<times> string option) result \<times> chain_call list" where
  "activate js lib env ctx name onChain =
     (if \<not> truthy_str name then (Inl NamesRequired, [])
      else case ce_login env of
        Inl e \<Rightarrow> (Inl (Answered e), [])
      | Inr _ \<Rightarrow>
          (let (tid, cs1) = (if onChain then updateOnChainStatus js lib env ctx ''active'' else (None, []));
               agent = (if truthy_str (ctx_iaddr ctx) then the (ctx_iaddr ctx) else the name) in
           case tell_platform env agent ''active'' of
             (Inl e, cs2) \<Rightarrow> (Inl e, cs1 @ cs2) | (Inr st, cs2) \<Rightarrow> (Inr (st, tid), cs1 @ cs2)))"

section \<open>What one item writes\<close>

lemma item_tx_cases:
  assumes "item_tx t js lib env ctx item = Inr tx"
  obtains idata us h ad where "ce_raw env = Inr idata" "ce_utxos env = Inr (Some us)" "ri_prev idata \<noteq> None"
    "buildInboxVdxfAdditions js (ce_now env) t item = Inr ad" "batch_build js lib (build_args ctx idata us h) ad = Inr tx"
  using assms
  by (auto simp: item_tx_def reads_def update_tx_def bind_r_eq_Inr split: sum.splits if_splits prod.splits)

lemma accept_item_cases:
  assumes "Broadcast tx \<in> set (snd (accept_item t js lib env ctx i))"
  obtains item where "ce_item env i = Inr item" "jget item ''status'' = JStr ''pending''" "item_tx t js lib env ctx item = Inr tx"
  using assms by (auto simp: accept_item_def split: sum.splits if_splits)

text \<open>
  Accepting one inbox item broadcasts at most one transaction, only for a pending item, and it adds exactly the key of the
  item's kind, whatever keys the platform sent; the item is acknowledged only with the id that its broadcast returned.
\<close>

theorem accept_item_one_key:
  assumes "snd (accept_item t js lib env ctx i) = c # cs"
    and "\<forall>item. ce_item env i = Inr item \<longrightarrow> wf_map (own_props (jget item ''vdxfData''))"
  shows "\<exists>tx item idata us h ad. c = Broadcast tx \<and> (cs = [] \<or> (\<exists>tid. ce_broadcast env tx = Inr tid \<and> cs = [Ack i tid]))
    \<and> ce_item env i = Inr item \<and> jget item ''status'' = JStr ''pending'' \<and> ce_raw env = Inr idata \<and> ce_utxos env = Inr (Some us)
    \<and> buildInboxVdxfAdditions js (ce_now env) t item = Inr ad \<and> map fst ad = [own_key t]
    \<and> batch_build js lib (build_args ctx idata us h) ad = Inr tx"
proof -
  obtain tx where tx: "c = Broadcast tx" "cs = [] \<or> (\<exists>tid. ce_broadcast env tx = Inr tid \<and> cs = [Ack i tid])"
    using assms(1) by (auto simp: accept_item_def split: sum.splits if_splits)
  then have "Broadcast tx \<in> set (snd (accept_item t js lib env ctx i))" using assms(1) by simp
  then obtain item where i: "ce_item env i = Inr item" "jget item ''status'' = JStr ''pending''" "item_tx t js lib env ctx item = Inr tx"
    by (rule accept_item_cases)
  from i(3) obtain idata us h ad where b: "ce_raw env = Inr idata" "ce_utxos env = Inr (Some us)"
    "buildInboxVdxfAdditions js (ce_now env) t item = Inr ad" "batch_build js lib (build_args ctx idata us h) ad = Inr tx"
    by (rule item_tx_cases)
  have k: "map fst ad = [own_key t]" using gate_result [OF b(3)] assms(2) i(1) by simp
  show ?thesis
    by (intro exI [of _ tx] exI [of _ item] exI [of _ idata] exI [of _ us] exI [of _ h] exI [of _ ad] conjI) (fact tx i b k)+
qed

section \<open>Deactivation is best effort\<close>

definition removed :: "chain_env \<Rightarrow> chain_call list \<Rightarrow> nat" where
  "removed env cs = length (filter (\<lambda>c. case c of DeleteService i \<Rightarrow> is_ok (ce_delete env i) | _ \<Rightarrow> False) cs)"

lemma delete_loop_counts: "delete_loop env ss = (n, cs) \<Longrightarrow> n = removed env cs"
  by (induction ss arbitrary: n cs) (auto simp: removed_def is_ok_def split: prod.splits sum.splits)

lemma remove_services_counts: "remove_services env = (n, cs) \<Longrightarrow> n = removed env cs"
  by (auto simp: remove_services_def removed_def split: sum.splits dest: delete_loop_counts)

lemma updateOnChainStatus_calls: "updateOnChainStatus js lib env ctx st = (x, cs) \<Longrightarrow> removed env cs = 0"
  by (auto simp: updateOnChainStatus_def removed_def split: if_splits sum.splits)

text \<open>
  Deactivation is best effort: whatever fails in writing the status on-chain or in removing services, the platform is told
  last, and when it accepts, the call returns; the services it reports as removed are those whose removal succeeded.
\<close>

theorem deactivate_best_effort:
  assumes "truthy_str name" "ctx_iaddr ctx = Some a" "a \<noteq> []" "truthy_str (ctx_wif ctx) \<or> signer" "ce_login env = Inr ()"
    and "ce_sign env (status_message a ''inactive'' (ce_secs env) (ce_nonce env)) = Inr sg" "ce_status env = Inr r"
  shows "\<exists>cs n tid. deactivate js lib env ctx signer name removeServices onChain
      = (Inr \<lparr>de_status = jget r ''status'', de_removed = n, de_txid = tid\<rparr>,
         cs @ [SignStatus (status_message a ''inactive'' (ce_secs env) (ce_nonce env)),
               SetStatus a ''inactive'' sg (ce_secs env) (ce_nonce env)])
    \<and> n = removed env cs"
proof -
  obtain tid cs1 where u: "(if onChain then updateOnChainStatus js lib env ctx ''inactive'' else (None, [])) = (tid, cs1)" by fastforce
  obtain n cs2 where s: "(if removeServices then remove_services env else (0, [])) = (n, cs2)" by fastforce
  have "removed env cs1 = 0" using u updateOnChainStatus_calls [of js lib env ctx "''inactive''" tid cs1] by (auto simp: removed_def split: if_splits)
  moreover have "n = removed env cs2" using s remove_services_counts [of env n cs2] by (auto simp: removed_def split: if_splits)
  ultimately have "n = removed env (cs1 @ cs2)" by (simp add: removed_def)
  then show ?thesis
    using assms u s by (intro exI [of _ "cs1 @ cs2"] exI [of _ n] exI [of _ tid]) (simp add: deactivate_def tell_platform_def Let_def truthy_str_def)
qed

section \<open>What the gate of an item does not bound\<close>

text \<open>
  The map that is written keeps what the platform says the identity holds: a key it makes up there is signed and
  broadcast with any accepted item.
\<close>

lemma platform_writes_any_key:
  assumes "item_tx t js lib env ctx item = Inr tx" "ce_raw env = Inr idata" "jget (ri_identity idata) ''contentmultimap'' = JObj m" "wf_map m"
    and "map_get m k = Some v" "k \<noteq> MULTIMAPREMOVE_KEY" "k \<noteq> own_key t" "wf_map (own_props (jget item ''vdxfData''))"
  shows "\<exists>ids cmm. map_get cmm k = Some (as_array v) \<and> fst (hd (it_outs tx)) = ids
    \<and> identity_script lib (identity_json (ri_identity idata) cmm None None) = Inr ids"
proof -
  from assms(1) obtain us h ad where ad: "buildInboxVdxfAdditions js (ce_now env) t item = Inr ad"
    and b: "batch_build js lib (build_args ctx idata us h) ad = Inr tx"
    using assms(2) by (elim item_tx_cases) auto
  have k: "map fst ad = [own_key t]" using gate_result [OF ad assms(8)] by simp
  show ?thesis using b unfolding batch_build_def
  proof (cases rule: build_cases)
    case (1 po cmm ids aa s sel tot)
    have s: "sort_cmm lib (apply_additions (kept_entries False (JObj m)) ad) = Inr cmm"
      using 1 assms(3) by (auto simp: new_cmm_def build_args_def split: sum.splits)
    have "wf_map (apply_additions (kept_entries False (JObj m)) ad)" using assms(4) by (intro wf_apply_additions wf_kept) (simp add: own_props_def)
    then have "map_get cmm k = map_get (apply_additions (kept_entries False (JObj m)) ad) k"
      using sort_cmm_ok(1) [OF s] by (rule map_get_perm)
    also have "\<dots> = Some (as_array v)"
      using k assms(5-7) by (cases ad) (auto simp: apply_additions_get kept_get own_props_def)
    finally show ?thesis using 1 by (auto simp: build_args_def make_id_tx_def)
  qed
qed


definition demo_chain :: chain_env where
  "demo_chain = \<lparr>ce_login = Inr (), ce_item = (\<lambda>_. Inr demo_detail), ce_raw = Inr demo_data, ce_utxos = Inr (Some [demo_coin]), ce_tip = Inr None,
     ce_broadcast = (\<lambda>_. Inr ''tx1''), ce_ack = (\<lambda>_ _. Inr ()), ce_services = Inr (JObj [(''data'', JArr [JObj [(''id'', JStr ''s1'')], JObj [(''id'', JStr ''s2'')]])]),
     ce_delete = (\<lambda>i. if i = JStr ''s1'' then Inl JNull else Inr ()), ce_sign = (\<lambda>_. Inr ''sig''), ce_status = Inr (JObj [(''status'', JStr ''inactive'')]),
     ce_now = 0, ce_secs = 0, ce_nonce = ''n''\<rparr>"

lemma demo_chain_item: "\<exists>tx. snd (acceptReview demo_jslib demo_idlib demo_chain demo_ctx ''q'') = [Broadcast tx, Ack ''q'' ''tx1'']"
proof -
  have g: "buildInboxVdxfAdditions demo_jslib 0 ''review'' demo_detail = Inr [(key_of ''review'' ''record'', [JNull])]"
    using demo_gate by (cases "buildInboxVdxfAdditions demo_jslib 0 ''review'' demo_detail") (auto simp: gate_item_def split: sum.splits)
  obtain tx where b: "batch_build demo_jslib demo_idlib (build_args demo_ctx demo_data [demo_coin] None) [(key_of ''review'' ''record'', [JNull])] = Inr tx"
    using demo_build by blast
  have "item_tx ''review'' demo_jslib demo_idlib demo_chain demo_ctx demo_detail = Inr tx"
    using g b by (simp add: item_tx_def reads_def update_tx_def demo_chain_def demo_data_def computeExpiryHeight_def del: demo_build)
  then show ?thesis
    by (simp add: acceptReview_def accept_item_def demo_ctx_def demo_chain_def demo_detail_def truthy_str_def)
qed

lemma accept_item_one_key_witness:
  "\<exists>ad h tx. map fst ad = [own_key ''review''] \<and> batch_build demo_jslib demo_idlib (build_args demo_ctx demo_data [demo_coin] h) ad = Inr tx"
proof -
  obtain tx where "snd (acceptReview demo_jslib demo_idlib demo_chain demo_ctx ''q'') = [Broadcast tx, Ack ''q'' ''tx1'']"
    using demo_chain_item by blast
  then have c: "snd (accept_item ''review'' demo_jslib demo_idlib demo_chain demo_ctx ''q'') = [Broadcast tx, Ack ''q'' ''tx1'']"
    by (simp add: acceptReview_def)
  have w: "\<forall>item. ce_item demo_chain ''q'' = Inr item \<longrightarrow> wf_map (own_props (jget item ''vdxfData''))"
    by (auto simp: demo_chain_def demo_detail_def own_props_def wf_map_def)
  from accept_item_one_key [OF c w] obtain idata us h ad tx' where "ce_raw demo_chain = Inr idata" "ce_utxos demo_chain = Inr (Some us)" "map fst ad = [own_key ''review'']"
    "batch_build demo_jslib demo_idlib (build_args demo_ctx idata us h) ad = Inr tx'"
    by (elim exE conjE) (rule that)
  then show ?thesis by (intro exI [of _ ad] exI [of _ h] exI [of _ tx']) (simp add: demo_chain_def)
qed

lemma deactivate_best_effort_witness:
  "\<exists>cs tid. deactivate demo_jslib demo_idlib demo_chain demo_ctx False (Some ''a@'') True True
     = (Inr \<lparr>de_status = JStr ''inactive'', de_removed = removed demo_chain cs, de_txid = tid\<rparr>,
        cs @ [SignStatus (status_message ''iA'' ''inactive'' 0 ''n''), SetStatus ''iA'' ''inactive'' ''sig'' 0 ''n''])"
  using deactivate_best_effort [of "Some ''a@''" demo_ctx "''iA''" False demo_chain "''sig''" "JObj [(''status'', JStr ''inactive'')]" demo_jslib demo_idlib True True]
  by (auto simp: demo_ctx_def demo_chain_def truthy_str_def)

end
