(* ===== verification/VdxfUpdate.thy ===== *)
theory VdxfUpdate
  imports IdentityOps
begin

text \<open>
  Updating profile fields on-chain in one transaction, \<open>removeAndRewriteVdxfFields\<close> of \<open>src/onboarding/vdxf.ts\<close>: the field names
  are resolved first (\<open>Vdxf\<close>), then the identity, the coins and the height are read, the transaction is built
  (\<open>IdentityUpdate\<close>) and broadcast, and the platform is asked to refresh. The platform is the record of \<open>IdentityOps\<close>.
\<close>

datatype field_error = BadField vdxf_error | ChainFault chain_error

datatype field_call = Sent id_tx | Refresh string

text \<open>The entries as the builder takes them.\<close>

definition as_additions :: "cmm \<Rightarrow> additions" where
  "as_additions m = map (\<lambda>p. (fst p, arr_of (snd p))) m"

definition field_expiry :: "jsnum option \<Rightarrow> jsnum" where
  "field_expiry tip = js_add (case tip of None \<Rightarrow> NaN | Some h \<Rightarrow> h) (num_int (int IDENTITY_EXPIRY_DELTA))"

definition field_params :: "string \<Rightarrow> network \<Rightarrow> raw_identity \<Rightarrow> utxo list \<Rightarrow> jsnum option \<Rightarrow> cmm \<Rightarrow> update_params" where
  "field_params wif chain idata us tip ad =
     (build_args \<lparr>ctx_wif = Some wif, ctx_iaddr = None, ctx_network = chain\<rparr> idata us (Some (field_expiry tip)))\<lparr>u_additions := as_additions ad\<rparr>"

definition field_tx :: "jslib \<Rightarrow> idlib \<Rightarrow> chain_env \<Rightarrow> string \<Rightarrow> network \<Rightarrow> cmm \<Rightarrow> (chain_error, id_tx) result" where
  "field_tx js lib env wif chain ad =
     (case ce_raw env of
        Inl e \<Rightarrow> Inl (Answered e)
      | Inr idata \<Rightarrow> (case ce_utxos env of
          Inl e \<Rightarrow> Inl (Answered e)
        | Inr us \<Rightarrow> (case ce_tip env of
            Inl e \<Rightarrow> Inl (Answered e)
          | Inr tip \<Rightarrow> (case buildIdentityUpdateTx js lib (field_params wif chain idata (case us of None \<Rightarrow> [] | Some us \<Rightarrow> us) tip ad) of
              Inl e \<Rightarrow> Inl (BuildRefused e)
            | Inr tx \<Rightarrow> Inr tx))))"

definition removeAndRewriteVdxfFields ::
  "jslib \<Rightarrow> idlib \<Rightarrow> chain_env \<Rightarrow> string \<Rightarrow> (string \<times> string) list \<Rightarrow> network \<Rightarrow> string
    \<Rightarrow> (field_error, string) result \<times> field_call list" where
  "removeAndRewriteVdxfFields js lib env identityName fieldsToUpdate chain wif =
     (case write_additions fieldsToUpdate [] of
        Inl e \<Rightarrow> (Inl (BadField e), [])
      | Inr ad \<Rightarrow> (case field_tx js lib env wif chain ad of
          Inl e \<Rightarrow> (Inl (ChainFault e), [])
        | Inr tx \<Rightarrow> (case ce_broadcast env tx of
            Inl e \<Rightarrow> (Inl (ChainFault (Answered e)), [Sent tx])
          | Inr tid \<Rightarrow> (Inr tid, [Sent tx, Refresh identityName]))))"

section \<open>What is written\<close>

text \<open>The value a list of fields gives to a key: that of the last field that names it.\<close>

definition written :: "(string \<times> string) list \<Rightarrow> string \<Rightarrow> string option" where
  "written fs k = map_get (rev (map (\<lambda>p. (resolveVdxfFieldRef (fst p), snd p)) fs)) (Inr k)"

lemma map_get_snoc: "map_get (m @ [(a, v)]) k = (case map_get m k of Some w \<Rightarrow> Some w | None \<Rightarrow> if a = k then Some v else None)"
  by (induction m) auto

lemma write_additions_get:
  "write_additions fs m = Inr ad \<Longrightarrow>
     map_get ad k = (case written fs k of Some v \<Rightarrow> Some (JArr [makeSubDD k (JStr v)]) | None \<Rightarrow> map_get m k)"
proof (induction fs m rule: write_additions.induct)
  case (2 f v fs m)
  then obtain i where i: "resolveVdxfFieldRef f = Inr i" "write_additions fs (map_set m i (JArr [makeSubDD i (JStr v)])) = Inr ad"
    by (auto simp: bind_r_eq_Inr)
  show ?case
    using "2.IH" [OF i(2)] i(1) by (auto simp: written_def map_get_snoc map_get_map_set split: option.splits)
qed (simp add: written_def)

lemma write_additions_wf: "write_additions fs m = Inr ad \<Longrightarrow> wf_map m \<Longrightarrow> wf_map ad"
  by (induction fs m rule: write_additions.induct) (auto simp: bind_r_eq_Inr)

lemma as_additions_get: "map_get (as_additions m) k = map_option arr_of (map_get m k)"
  by (induction m) (auto simp: as_additions_def)

lemma as_additions_wf: "wf_map m \<Longrightarrow> wf_map (as_additions m)"
  by (simp add: wf_map_def as_additions_def comp_def)

text \<open>
  C24. Updating fields writes exactly what was asked: at most one transaction is sent, and the identity it writes has the new
  value under each named key, of several fields naming one key the last, and under every other key what the identity had.
\<close>

theorem field_update_exact:
  assumes "Sent tx \<in> set (snd (removeAndRewriteVdxfFields js lib env name fs chain wif))"
    and "ce_raw env = Inr idata" and "wf_map (own_props (jget (ri_identity idata) ''contentmultimap''))"
  shows "\<exists>cmm ids. identity_script lib (identity_json (ri_identity idata) cmm None None) = Inr ids \<and> fst (hd (it_outs tx)) = ids
    \<and> map_get cmm k = (case written fs k of
         Some v \<Rightarrow> Some [makeSubDD k (JStr v)]
       | None \<Rightarrow> if \<not> jtruthy (jget (ri_identity idata) ''contentmultimap'') \<or> k = MULTIMAPREMOVE_KEY then None
           else map_option as_array (map_get (own_props (jget (ri_identity idata) ''contentmultimap'')) k))
    \<and> (\<exists>rest. snd (removeAndRewriteVdxfFields js lib env name fs chain wif) = Sent tx # rest \<and> (rest = [] \<or> rest = [Refresh name]))"
proof -
  let ?old = "jget (ri_identity idata) ''contentmultimap''"
  obtain ad where ad: "write_additions fs [] = Inr ad" and tx: "field_tx js lib env wif chain ad = Inr tx"
    using assms(1) by (auto simp: removeAndRewriteVdxfFields_def split: sum.splits)
  obtain us tip where b: "buildIdentityUpdateTx js lib (field_params wif chain idata us tip ad) = Inr tx"
    using tx assms(2) by (auto simp: field_tx_def split: sum.splits)
  from b obtain po cmm ids s sel tot where
      c: "new_cmm js lib False ?old (as_additions ad) = Inr cmm"
         "identity_script lib (identity_json (ri_identity idata) cmm None None) = Inr ids"
      and t: "tx = make_id_tx (field_params wif chain idata us tip ad) ids s sel tot po"
    by (elim build_cases) (auto simp: field_params_def build_args_def)
  have w: "wf_map (as_additions ad)" using write_additions_wf [OF ad] by (intro as_additions_wf) (simp add: wf_map_def)
  have g: "map_get (as_additions ad) k = map_option (\<lambda>v. [makeSubDD k (JStr v)]) (written fs k)"
    using write_additions_get [OF ad, of k] by (auto simp: as_additions_get split: option.splits)
  have "map_get cmm k = (case written fs k of
         Some v \<Rightarrow> Some [makeSubDD k (JStr v)]
       | None \<Rightarrow> if \<not> jtruthy ?old \<or> k = MULTIMAPREMOVE_KEY then None else map_option as_array (map_get (own_props ?old) k))"
    using conjunct1 [OF new_cmm_correct [OF c(1) assms(3) w, of k]]
    by (cases "written fs k") (simp_all only: g option.map option.case simp_thms)
  moreover have "fst (hd (it_outs tx)) = ids" by (simp add: t make_id_tx_def)
  moreover have "\<exists>rest. snd (removeAndRewriteVdxfFields js lib env name fs chain wif) = Sent tx # rest \<and> (rest = [] \<or> rest = [Refresh name])"
    using ad tx by (auto simp: removeAndRewriteVdxfFields_def split: sum.splits)
  ultimately show ?thesis using c(2) by blast
qed

lemma demo_field_update:
  "\<exists>tx. removeAndRewriteVdxfFields demo_jslib demo_idlib demo_chain ''a@'' [(''agent.status'', ''x'')] Verus ''w''
     = (Inr ''tx1'', [Sent tx, Refresh ''a@''])"
proof -
  have k: "resolveVdxfFieldRef ''agent.status'' = Inr (key_of ''agent'' ''status'')" by code_simp
  have z: "contentmultimapValueByteSize demo_jslib (makeSubDD (key_of ''agent'' ''status'') (JStr ''x'')) \<le> 5000"
    by (simp add: contentmultimapValueByteSize_def makeSubDD_def demo_jslib_def byte_length_def Let_def)
  have "js_add (num_int 0) (num_int 10000) = num_int 10000" using js_add_int [of 0 10000] by simp
  then have "\<exists>tx. buildIdentityUpdateTx demo_jslib demo_idlib (field_params ''w'' Verus demo_data [demo_coin] None
      [(key_of ''agent'' ''status'', JArr [makeSubDD (key_of ''agent'' ''status'') (JStr ''x'')])]) = Inr tx"
    using z by (simp add: field_params_def as_additions_def build_args_def buildIdentityUpdateTx_def demo_data_def demo_idlib_def new_cmm_def
      additions_cmm_def assertContentmultimapValueSizes_def check_sizes_def as_array_def MAX_CONTENTMULTIMAP_VALUE_BYTES_def
      apply_additions_def kept_entries_def sort_cmm_def is_primary_def implausible_minsigs_def demo_coin_def DEFAULT_FEE_def
      spendable_for_def truthy_str_def select_fee_utxos_def Let_def guard_r_def)
  then show ?thesis
    by (auto simp: removeAndRewriteVdxfFields_def k field_tx_def demo_chain_def)
qed

theorem field_update_exact_witness:
  "\<exists>cmm ids. identity_script demo_idlib (identity_json (ri_identity demo_data) cmm None None) = Inr ids
     \<and> map_get cmm (key_of ''agent'' ''status'') = Some [makeSubDD (key_of ''agent'' ''status'') (JStr ''x'')]"
proof -
  obtain tx where t: "removeAndRewriteVdxfFields demo_jslib demo_idlib demo_chain ''a@'' [(''agent.status'', ''x'')] Verus ''w''
      = (Inr ''tx1'', [Sent tx, Refresh ''a@''])"
    using demo_field_update by blast
  have s: "Sent tx \<in> set (snd (removeAndRewriteVdxfFields demo_jslib demo_idlib demo_chain ''a@'' [(''agent.status'', ''x'')] Verus ''w''))"
    by (simp add: t)
  have r: "ce_raw demo_chain = Inr demo_data" by (simp add: demo_chain_def)
  have w: "wf_map (own_props (jget (ri_identity demo_data) ''contentmultimap''))" by (simp add: demo_data_def own_props_def wf_map_def)
  have "resolveVdxfFieldRef ''agent.status'' = Inr (key_of ''agent'' ''status'')" by code_simp
  then have "written [(''agent.status'', ''x'')] (key_of ''agent'' ''status'') = Some ''x''" by (simp add: written_def)
  then show ?thesis using field_update_exact [OF s r w, of "key_of ''agent'' ''status''"] by auto
qed

text \<open>A name that is unknown or ambiguous stops everything before the first call.\<close>

lemma bad_field_calls_nothing:
  "write_additions fs [] = Inl e \<Longrightarrow> removeAndRewriteVdxfFields js lib env name fs chain wif = (Inl (BadField e), [])"
  by (simp add: removeAndRewriteVdxfFields_def)

text \<open>Two names of one field: only the last value is written, without a word.\<close>

lemma synonyms_collapse:
  "written [(''description'', a), (''agent.description'', b)] (key_of ''agent'' ''description'') = Some b"
proof -
  have "resolveVdxfFieldRef ''agent.description'' = Inr (key_of ''agent'' ''description'')" by code_simp
  then show ?thesis by (simp add: written_def)
qed

end
