(* ===== verification/Registration.thy ===== *)
theory Registration
  imports Session Chat AgentLife
begin

text \<open>
  Registration, \<open>register\<close> and \<open>registerWithJ41\<close> of \<open>src/agent.ts\<close>: the onboarding challenge, the waits for the block and
  for the i-address, the profile and the canary. It runs on the requests of \<open>Session\<close>; key generation and the parsing of a
  WIF are parameters. The log lines and the events emitted are left out.
\<close>

record reg_agent =
  ra_network :: network
  ra_keys :: "keypair option"
  ra_wif :: "string option"
  ra_name :: "jv"
  ra_iaddr :: "jv"
  ra_canary :: "canary_config option"

text \<open>\<open>gk\<close> makes a new key pair and its WIF, \<open>kw\<close> reads one from a WIF.\<close>

record key_lib =
  kl_generate :: "network \<Rightarrow> keypair \<times> string"
  kl_from_wif :: "string \<Rightarrow> network \<Rightarrow> (string, keypair) result"

definition kind_name :: "kind \<Rightarrow> string" where
  "kind_name k = (case k of Agent \<Rightarrow> ''agent'' | Compute \<Rightarrow> ''compute'' | Data \<Rightarrow> ''data'' | Model \<Rightarrow> ''model'')"

definition take_keys :: "key_lib \<Rightarrow> network \<Rightarrow> reg_agent \<Rightarrow> (api_error, reg_agent) result" where
  "take_keys lib net a =
     (case ra_keys a of
        Some _ \<Rightarrow> Inr a
      | None \<Rightarrow> (case ra_wif a of
          Some wif \<Rightarrow> (case kl_from_wif lib wif net of Inl e \<Rightarrow> Inl (KeyFault e) | Inr k \<Rightarrow> Inr (a\<lparr>ra_keys := Some k\<rparr>))
        | None \<Rightarrow> (case kl_generate lib net of (k, wif) \<Rightarrow> Inr (a\<lparr>ra_keys := Some k, ra_wif := Some wif\<rparr>))))"

section \<open>Waiting\<close>

definition settled_status :: "jv \<Rightarrow> bool" where
  "settled_status st = (jget st ''status'' = JStr ''registered'' \<or> jget st ''status'' = JStr ''failed'')"

definition pending_iaddr :: "jv \<Rightarrow> bool" where
  "pending_iaddr st = (\<not> jtruthy (jget st ''iAddress'') \<or> jget st ''iAddress'' = JStr ''pending-lookup'')"

text \<open>The loop of both waits: at most \<open>k\<close> more answers, ten seconds apart, until one is good.\<close>

fun wait_until :: "(jv \<Rightarrow> bool) \<Rightarrow> (net \<Rightarrow> jv run) \<Rightarrow> nat \<Rightarrow> jv \<Rightarrow> net \<Rightarrow> jv run" where
  "wait_until good get 0 st w = (if nullish st then throws TypeFault w else returns st w)"
| "wait_until good get (Suc k) st w =
     (if nullish st then throws TypeFault w
      else if good st then returns st w
      else bind_run (get (w\<lparr>n_slept := n_slept w @ [10000]\<rparr>)) (wait_until good get k))"

definition MAX_STATUS_ATTEMPTS :: nat where "MAX_STATUS_ATTEMPTS = 120"
definition MAX_IADDRESS_ATTEMPTS :: nat where "MAX_IADDRESS_ATTEMPTS = 30"

section \<open>Registering an identity\<close>

definition take_identity :: "jv \<Rightarrow> net \<Rightarrow> (jv \<times> jv) run" where
  "take_identity st w =
     (if pending_iaddr st then throws NoIAddressGiven w
      else if \<not> jtruthy (jget st ''identity'') then throws NoIdentityGiven w
      else returns (jget st ''identity'', jget st ''iAddress'') w)"

definition await_iaddress :: "(net \<Rightarrow> jv run) \<Rightarrow> jv \<Rightarrow> jv \<Rightarrow> jv \<Rightarrow> net \<Rightarrow> (jv \<times> jv) run" where
  "await_iaddress get onboardId known st w =
     (if jget st ''status'' = JStr ''failed'' then throws (RegistrationFailed (jget st ''error'')) w
      else if jget st ''status'' \<noteq> JStr ''registered'' then throws (RegistrationTimeout onboardId (jget st ''status'') known) w
      else bind_run (wait_until (\<lambda>st. \<not> pending_iaddr st) get MAX_IADDRESS_ATTEMPTS st w) take_identity)"

definition await_identity :: "(net \<Rightarrow> jv run) \<Rightarrow> jv \<Rightarrow> jv \<Rightarrow> net \<Rightarrow> (jv \<times> jv) run" where
  "await_identity get onboardId known w =
     bind_run (get w) (\<lambda>st0 w0.
     bind_run (wait_until settled_status get MAX_STATUS_ATTEMPTS st0 w0) (await_iaddress get onboardId known))"

definition first_truthy :: "jv list \<Rightarrow> jv" where
  "first_truthy vs = foldr or_else vs (last vs)"

definition submit_challenge ::
  "http_env \<Rightarrow> login_cfg \<Rightarrow> (jv \<Rightarrow> string) \<Rightarrow> string \<Rightarrow> keypair \<Rightarrow> kind \<Rightarrow> jv \<Rightarrow> string \<Rightarrow> net \<Rightarrow> (jv \<times> jv) run" where
  "submit_challenge env c encode name kp kd ch sg w =
     bind_run (client_request env (Some (login env c)) ''POST'' ''/v1/onboard''
         (onboard_body name kp (kind_name kd) (Some (jget ch ''challenge'', jget ch ''token'', sg))) w) (\<lambda>r w1.
       if nullish r then throws TypeFault w1
       else await_identity (onboardStatus env (Some (login env c)) encode (jget r ''onboardId'')) (jget r ''onboardId'')
         (first_truthy [jget ch ''identity'', jget r ''identity'', JStr (advertisedIdentity name)]) w1)"

definition sign_challenge ::
  "http_env \<Rightarrow> login_cfg \<Rightarrow> (jv \<Rightarrow> string) \<Rightarrow> string \<Rightarrow> keypair \<Rightarrow> kind \<Rightarrow> jv \<Rightarrow> net \<Rightarrow> (jv \<times> jv) run" where
  "sign_challenge env c encode name kp kd ch w =
     (if nullish ch then throws TypeFault w
      else if jget ch ''status'' \<noteq> JStr ''challenge'' then throws (UnexpectedAnswer ch) w
      else if \<not> jtruthy (jget ch ''challenge'') \<or> \<not> jtruthy (jget ch ''token'') then throws ChallengeMissing w
      else case check_onboard_challenge env (jget ch ''challenge'') of
        Some e \<Rightarrow> throws e w
      | None \<Rightarrow> bind_run (sign_with env (str_of (jget ch ''challenge'')) w) (submit_challenge env c encode name kp kd ch))"

definition onboarding ::
  "http_env \<Rightarrow> login_cfg \<Rightarrow> (jv \<Rightarrow> string) \<Rightarrow> string \<Rightarrow> keypair \<Rightarrow> kind \<Rightarrow> net \<Rightarrow> (jv \<times> jv) run" where
  "onboarding env c encode name kp kd w =
     bind_run (client_request env (Some (login env c)) ''POST'' ''/v1/onboard'' (onboard_body name kp (kind_name kd) None) w)
       (sign_challenge env c encode name kp kd)"

text \<open>The whole \<open>register\<close>: a failure restores the network.\<close>

definition register ::
  "key_lib \<Rightarrow> http_env \<Rightarrow> login_cfg \<Rightarrow> (jv \<Rightarrow> string) \<Rightarrow> string \<Rightarrow> network \<Rightarrow> jv \<Rightarrow> reg_agent \<Rightarrow> net \<Rightarrow> (jv \<times> jv) run \<times> reg_agent" where
  "register lib env c encode name net kd a w =
     (case take_keys lib net (a\<lparr>ra_network := net\<rparr>) of
        Inl e \<Rightarrow> (throws e w, a)
      | Inr a1 \<Rightarrow>
          (let r = onboarding env c encode name (the (ra_keys a1)) (case parseListingKind kd of None \<Rightarrow> Agent | Some k \<Rightarrow> k) w in
           case fst r of
             None \<Rightarrow> (r, a1)
           | Some (Inl e) \<Rightarrow> (r, a1\<lparr>ra_network := ra_network a\<rparr>)
           | Some (Inr (identity, iaddr)) \<Rightarrow> (r, a1\<lparr>ra_name := identity, ra_iaddr := iaddr\<rparr>)))"

section \<open>Registering with the platform\<close>

definition register_canary :: "http_env \<Rightarrow> login_cfg \<Rightarrow> canary_config \<Rightarrow> (canary_config \<Rightarrow> jv) \<Rightarrow> reg_agent \<Rightarrow> net \<Rightarrow> reg_agent \<times> net \<times> bool" where
  "register_canary env c k body a w =
     (case agent_request env c ''POST'' ''/v1/me/canary'' (body k) w of
        (None, w1) \<Rightarrow> (a, w1, False)
      | (Some (Inl _), w1) \<Rightarrow> (a, w1, True)
      | (Some (Inr res), w1) \<Rightarrow> (if nullish res then a else a\<lparr>ra_canary := Some k\<rparr>, w1, True))"

definition platform_payload :: "jv \<Rightarrow> int \<Rightarrow> string \<Rightarrow> jv \<Rightarrow> (string \<times> jv) list" where
  "platform_payload verusId ts nonce data =
     [(''verusId'', verusId), (''timestamp'', JNum (num_int ts)), (''nonce'', JStr nonce), (''action'', JStr ''register''), (''data'', data)]"

text \<open>What the platform answers to the profile: the new agent's id, or that it is there already.\<close>

definition profile_answer :: "(api_error, jv) result \<Rightarrow> (api_error, jv) result" where
  "profile_answer r = (case r of
       Inl e \<Rightarrow> if status_code e = Some 409 then Inr (JStr ''existing'') else Inl e
     | Inr res \<Rightarrow> if nullish res \<or> nullish (jget res ''data'') then Inl TypeFault else Inr (jget (jget res ''data'') ''agentId''))"

definition registerWithJ41 ::
  "http_env \<Rightarrow> login_cfg \<Rightarrow> (jv \<Rightarrow> string) \<Rightarrow> int \<Rightarrow> string \<Rightarrow> jv \<Rightarrow> bool \<Rightarrow> canary_config \<Rightarrow> (canary_config \<Rightarrow> jv)
    \<Rightarrow> reg_agent \<Rightarrow> net \<Rightarrow> jv run \<times> reg_agent" where
  "registerWithJ41 env c canonicalize ts nonce data canary k body a w =
     (if lc_wif c = None then (throws NoKey w, a)
      else if \<not> jtruthy (ra_name a) then (throws NoName w, a)
      else let p = platform_payload (ra_name a) ts nonce data in
      case bind_run (login env c w) (\<lambda>_. sign_with env (canonicalize (JObj p))) of
        (None, w1) \<Rightarrow> ((None, w1), a)
      | (Some (Inl e), w1) \<Rightarrow> (throws e w1, a)
      | (Some (Inr sg), w1) \<Rightarrow> (case agent_request env c ''POST'' ''/v1/agents/register'' (JObj (p @ [(''signature'', JStr sg)])) w1 of
            (None, w2) \<Rightarrow> ((None, w2), a)
          | (Some r, w2) \<Rightarrow> (case profile_answer r of
                Inl e \<Rightarrow> (throws e w2, a)
              | Inr agentId \<Rightarrow>
                  if \<not> canary then (returns agentId w2, a)
                  else (case register_canary env c k body a w2 of
                      (a', w3, True) \<Rightarrow> (returns agentId w3, a') | (a', w3, False) \<Rightarrow> ((None, w3), a')))))"

section \<open>The outcome of registering\<close>

lemma bind_run_Inr:
  "fst (bind_run x f) = Some (Inr b) \<longleftrightarrow> (\<exists>a. fst x = Some (Inr a) \<and> fst (f a (snd x)) = Some (Inr b))"
  by (simp add: bind_run_def split: option.split sum.split)

lemma await_identity_ok:
  assumes "fst (await_identity get onboardId known w) = Some (Inr (identity, iaddr))"
  shows "jtruthy identity \<and> jtruthy iaddr \<and> iaddr \<noteq> JStr ''pending-lookup''"
  using assms by (auto simp: await_identity_def await_iaddress_def take_identity_def bind_run_Inr pending_iaddr_def throws_def returns_def split: if_splits)

lemma onboarding_ok:
  assumes "fst (onboarding env c encode name kp kd w) = Some (Inr (identity, iaddr))"
  shows "jtruthy identity \<and> jtruthy iaddr \<and> iaddr \<noteq> JStr ''pending-lookup''"
  using assms
  by (auto simp: onboarding_def sign_challenge_def submit_challenge_def bind_run_Inr throws_def split: if_splits option.splits dest: await_identity_ok)

lemma take_keys_frame:
  "take_keys lib net a = Inr a' \<Longrightarrow> ra_network a' = ra_network a \<and> ra_name a' = ra_name a \<and> ra_iaddr a' = ra_iaddr a \<and> ra_canary a' = ra_canary a
    \<and> ra_keys a' \<noteq> None"
  by (auto simp: take_keys_def split: option.splits sum.splits prod.splits)


text \<open>A platform that gives the challenge, then the id of the request, then the registered identity.\<close>

definition demo_reg_answer :: "nat \<Rightarrow> jv" where
  "demo_reg_answer k = JObj (
     if k = 0 then [(''status'', JStr ''challenge''), (''challenge'', JStr ''c''), (''token'', JStr ''t'')]
     else if k = 1 then [(''onboardId'', JStr ''o'')]
     else [(''status'', JStr ''registered''), (''identity'', JStr ''a.j41@''), (''iAddress'', JStr ''iA'')])"

definition demo_reg_http :: http_env where
  "demo_reg_http = demo_http\<lparr>he_decode := (\<lambda>c. CHR ''.'' # concat c), he_parse := (\<lambda>t. Some (demo_reg_answer (length t - 1)))\<rparr>"

definition demo_reg_net :: net where
  "demo_reg_net = \<lparr>n_token = None, n_answers = (\<lambda>k. Answer \<lparr>rs_status = 200, rs_text = [], rs_length = NaN,
     rs_body = Some ([replicate k CHR ''x''], False), rs_cookie = None\<rparr>), n_sent = [], n_slept = [], n_signed = []\<rparr>"

definition demo_reg_lib :: key_lib where
  "demo_reg_lib = \<lparr>kl_generate = (\<lambda>_. (\<lparr>kp_address = ''R'', kp_pubkey = ''02''\<rparr>, ''w'')), kl_from_wif = (\<lambda>_ _. Inl ''no'')\<rparr>"

definition demo_reg_agent :: reg_agent where
  "demo_reg_agent = \<lparr>ra_network = Verustest, ra_keys = None, ra_wif = None, ra_name = JUndef, ra_iaddr = JUndef, ra_canary = None\<rparr>"

lemma demo_reg_request:
  assumes "n_answers w = n_answers demo_reg_net" "length (n_sent w) < 10"
  shows "client_request demo_reg_http f m p b w = returns (demo_reg_answer (length (n_sent w))) (w\<lparr>n_sent := n_sent w @
      [\<lparr>rl_method = m, rl_path = p, rl_cookie = truthy_token (n_token w), rl_body = (if jtruthy b then Some b else None)\<rparr>]\<rparr>)"
  using assms
  by (simp add: client_request_def do_request_def send_def demo_reg_http_def demo_http_def demo_reg_net_def numeral_3_eq_3
      read_response_def is_okay_def demo_reg_answer_def)

lemma demo_reg_challenge: "check_onboard_challenge demo_reg_http (JStr ''c'') = None"
  by (simp add: check_onboard_challenge_def units_of_def assertNotProtocolMessage_def is_format_unit_def demo_reg_http_def
      demo_http_def is_space_unit_def is_protocol_head_def fold_dash_def)

lemma demo_onboarding:
  "fst (onboarding demo_reg_http demo_login str_of ''a'' \<lparr>kp_address = ''R'', kp_pubkey = ''02''\<rparr> Agent demo_reg_net)
     = Some (Inr (JStr ''a.j41@'', JStr ''iA''))"
proof -
  have s: "sign_with demo_reg_http m w = returns ''sig'' (w\<lparr>n_signed := n_signed w @ [m]\<rparr>)" for m w
    by (simp add: sign_with_def demo_reg_http_def demo_http_def)
  have l: "n_sent demo_reg_net = []" by (simp add: demo_reg_net_def)
  show ?thesis
    by (simp add: onboarding_def sign_challenge_def submit_challenge_def onboardStatus_def await_identity_def await_iaddress_def
        take_identity_def demo_reg_request l s demo_reg_answer_def demo_reg_challenge MAX_STATUS_ATTEMPTS_def
        MAX_IADDRESS_ATTEMPTS_def settled_status_def pending_iaddr_def numeral_eq_Suc jget_def props_of_def nullish_def str_of_def split del: if_split)
qed


section \<open>Registering ends\<close>

lemma sends_bind:
  "sends_at_most j w (snd x) \<Longrightarrow> (\<And>a w1. sends_at_most k w1 (snd (f a w1))) \<Longrightarrow> n = j + k \<Longrightarrow> sends_at_most n w (snd (bind_run x f))"
  using bind_run_sends by blast

lemma sends_none [simp]: "sends_at_most k w (snd (throws e w))" "sends_at_most k w (snd (returns a w))"
  by (simp_all add: sends_at_most_def)

lemma wait_until_sends:
  assumes "\<And>w. sends_at_most j w (snd (get w))"
  shows "sends_at_most (k * j) w (snd (wait_until good get k st w))"
proof (induction k arbitrary: st w)
  case (Suc k)
  have "sends_at_most j w (snd (get (w\<lparr>n_slept := n_slept w @ [10000]\<rparr>)))"
    using assms [of "w\<lparr>n_slept := n_slept w @ [10000]\<rparr>"] by simp
  then have "sends_at_most (Suc k * j) w (snd (bind_run (get (w\<lparr>n_slept := n_slept w @ [10000]\<rparr>)) (wait_until good get k)))"
    by (rule sends_bind [OF _ Suc.IH]) simp
  then show ?case by simp
qed simp

definition per_request :: "http_env \<Rightarrow> nat" where
  "per_request env = 2 * he_retries env + 1"

lemma request_sends: "sends_at_most (per_request env) w (snd (client_request env (Some (login env c)) m p b w))"
  using agent_request_sends [of env w c m p b] by (simp add: agent_request_def per_request_def)

lemma take_identity_sends: "sends_at_most 0 w (snd (take_identity st w))"
  by (simp add: take_identity_def)

lemma await_iaddress_sends:
  assumes "\<And>w. sends_at_most j w (snd (get w))"
  shows "sends_at_most (30 * j) w (snd (await_iaddress get onboardId known st w))"
proof -
  have "sends_at_most (30 * j) w (snd (bind_run (wait_until (\<lambda>st. \<not> pending_iaddr st) get MAX_IADDRESS_ATTEMPTS st w) take_identity))"
    unfolding MAX_IADDRESS_ATTEMPTS_def by (rule sends_bind [OF wait_until_sends [OF assms] take_identity_sends]) simp
  then show ?thesis by (simp add: await_iaddress_def)
qed

lemma await_identity_sends:
  assumes "\<And>w. sends_at_most j w (snd (get w))"
  shows "sends_at_most (151 * j) w (snd (await_identity get onboardId known w))"
proof -
  have "sends_at_most (150 * j) w1 (snd (bind_run (wait_until settled_status get MAX_STATUS_ATTEMPTS st w1) (await_iaddress get onboardId known)))" for st w1
    unfolding MAX_STATUS_ATTEMPTS_def by (rule sends_bind [OF wait_until_sends [OF assms] await_iaddress_sends [OF assms]]) simp
  then show ?thesis unfolding await_identity_def by (rule sends_bind [OF assms]) simp
qed

lemma submit_challenge_sends: "sends_at_most (152 * per_request env) w (snd (submit_challenge env c encode name kp kd ch sg w))"
proof -
  have "sends_at_most (151 * per_request env) w (snd (await_identity (onboardStatus env (Some (login env c)) encode i) i k w))" for i k w
    by (rule await_identity_sends) (simp add: onboardStatus_def request_sends)
  then show ?thesis unfolding submit_challenge_def by (intro sends_bind [OF request_sends, where k = "151 * per_request env"]) auto
qed

lemma sign_challenge_sends: "sends_at_most (152 * per_request env) w (snd (sign_challenge env c encode name kp kd ch w))"
proof -
  have "sends_at_most 0 w (snd (sign_with env m w))" for m by (simp add: sends_at_most_def)
  then have "sends_at_most (152 * per_request env) w (snd (bind_run (sign_with env m w) (submit_challenge env c encode name kp kd ch)))" for m
    by (rule sends_bind [OF _ submit_challenge_sends]) simp
  then show ?thesis by (simp add: sign_challenge_def split: option.split)
qed

lemma onboarding_sends: "sends_at_most (153 * per_request env) w (snd (onboarding env c encode name kp kd w))"
  unfolding onboarding_def by (rule sends_bind [OF request_sends sign_challenge_sends]) simp

text \<open>
  Registering ends: whatever is answered, it sends at most 153 requests with their retries, each of them at most two
  sequences of attempts and a login.
\<close>

theorem register_ends:
  "length (n_sent (snd (fst (register lib env c encode name net kd a w)))) \<le> length (n_sent w) + 153 * (2 * he_retries env + 1)"
proof -
  have "length (n_sent (snd (onboarding env c encode name kp k w))) \<le> length (n_sent w) + 153 * (2 * he_retries env + 1)" for kp k
    using onboarding_sends [of env w c encode name kp k] by (simp add: sends_at_most_def per_request_def)
  then show ?thesis by (auto simp: register_def Let_def split: sum.split option.split prod.split)
qed

end
