(* ===== verification/Attestation.thy ===== *)
theory Attestation
  imports JsValue
begin

text \<open>
  Attestations that a job's data was deleted, \<open>src/privacy/attestation.ts\<close>: the payload with the token usage brought into a fixed
  shape, its signature, and the two checks of an attestation that is received. \<open>Number\<close>, JCS and the message signatures of
  \<open>identity/signer.ts\<close> are parameters.
\<close>

section \<open>The payload\<close>

record attestation_lib =
  al_number :: "jv \<Rightarrow> jsnum"
  al_jcs :: "jv \<Rightarrow> string"
  al_sign :: "string \<Rightarrow> (string, string) result"
  al_verify :: "string \<Rightarrow> string \<Rightarrow> jv \<Rightarrow> bool"

definition ATTESTATION_SCHEMA_VERSION :: jsnum where
  "ATTESTATION_SCHEMA_VERSION = num_int 2"

text \<open>\<open>normalizeTokenUsage\<close>: counts become whole and non-negative, or 0.\<close>

definition count_of :: "attestation_lib \<Rightarrow> jv \<Rightarrow> jsnum" where
  "count_of lib v = (let n = math_floor (al_number lib v) in if is_finite n \<and> js_le (num_int 0) n then n else num_int 0)"

definition extension_of :: "attestation_lib \<Rightarrow> jv \<Rightarrow> jv" where
  "extension_of lib e = JObj (
     [(''estimatedTokens'', JNum (count_of lib (jget e ''estimatedTokens''))),
      (''amountVrsc'', if is_number (jget e ''amountVrsc'') \<and> is_finite (num_of (jget e ''amountVrsc'')) then jget e ''amountVrsc'' else JNull),
      (''granted'', JBool (jtruthy (jget e ''granted'')))]
     @ opt_field (\<not> nullish (jget e ''grantedTokens'')) ''grantedTokens'' (JNum (count_of lib (jget e ''grantedTokens''))))"

definition USAGE_COUNTS :: "string list" where
  "USAGE_COUNTS = [''promptTokens'', ''completionTokens'', ''totalTokens'', ''llmCalls'']"

text \<open>Reading a field of an extension that is \<open>null\<close> throws: \<open>None\<close>.\<close>

definition normalizeTokenUsage :: "attestation_lib \<Rightarrow> jv \<Rightarrow> jv option" where
  "normalizeTokenUsage lib u =
     (let es = arr_of (jget u ''extensions'') in
      if list_ex nullish es then None
      else Some (JObj (map (\<lambda>k. (k, JNum (count_of lib (jget u k)))) USAGE_COUNTS
             @ [(''extensions'', JArr (map (extension_of lib) es))])))"

record attestation_params =
  ap_jobId :: string
  ap_containerId :: string
  ap_createdAt :: string
  ap_destroyedAt :: string
  ap_dataVolumes :: "string list option"
  ap_deletionMethod :: "string option"
  ap_attestedBy :: string
  ap_tokenUsage :: jv

definition base_payload :: "attestation_params \<Rightarrow> (string \<times> jv) list" where
  "base_payload p =
     [(''attestedBy'', JStr (ap_attestedBy p)), (''containerId'', JStr (ap_containerId p)), (''createdAt'', JStr (ap_createdAt p)),
      (''dataVolumes'', JArr (case ap_dataVolumes p of None \<Rightarrow> [] | Some vs \<Rightarrow> map JStr vs)),
      (''deletionMethod'', JStr (case ap_deletionMethod p of None \<Rightarrow> ''container-destroy+volume-rm'' | Some m \<Rightarrow> m)),
      (''destroyedAt'', JStr (ap_destroyedAt p)), (''jobId'', JStr (ap_jobId p))]"

definition generateAttestationPayload :: "attestation_lib \<Rightarrow> attestation_params \<Rightarrow> (string \<times> jv) list option" where
  "generateAttestationPayload lib p =
     (if \<not> jtruthy (ap_tokenUsage p) then Some (base_payload p)
      else case normalizeTokenUsage lib (ap_tokenUsage p) of
        None \<Rightarrow> None
      | Some u \<Rightarrow> Some (base_payload p @ [(''schemaVersion'', JNum ATTESTATION_SCHEMA_VERSION), (''tokenUsage'', u)]))"

section \<open>Signing\<close>

text \<open>\<open>signAttestationWith\<close>, and \<open>signAttestation\<close> with the signer of a key.\<close>

definition signAttestationWith :: "attestation_lib \<Rightarrow> (string \<times> jv) list \<Rightarrow> (string, jv) result" where
  "signAttestationWith lib payload =
     bind_r (al_sign lib (al_jcs lib (JObj payload))) (\<lambda>sg. Inr (JObj (map_set payload ''signature'' (JStr sg))))"

section \<open>Checking\<close>

datatype format_error = NotAnObject | BadField string | BadVolumes | BadVolume nat | BadUsage | BadCount string | BadExtensions
  | BadExtension nat | BadEstimate nat | BadGranted nat | BadAmount nat | BadSchema

definition REQUIRED_STRINGS :: "string list" where
  "REQUIRED_STRINGS = [''jobId'', ''containerId'', ''createdAt'', ''destroyedAt'', ''deletionMethod'', ''attestedBy'', ''signature'']"

definition is_count :: "jv \<Rightarrow> bool" where
  "is_count v = (is_number v \<and> is_integer (num_of v) \<and> \<not> js_lt (num_of v) (num_int 0))"

definition check_extension :: "nat \<Rightarrow> jv \<Rightarrow> (format_error, unit) result" where
  "check_extension i e =
     (if \<not> is_object e \<and> \<not> is_array e then Inl (BadExtension i)
      else if \<not> is_count (jget e ''estimatedTokens'') then Inl (BadEstimate i)
      else if (case jget e ''granted'' of JBool _ \<Rightarrow> False | _ \<Rightarrow> True) then Inl (BadGranted i)
      else if jget e ''amountVrsc'' \<noteq> JNull \<and> \<not> is_number (jget e ''amountVrsc'') then Inl (BadAmount i)
      else Inr ())"

definition check_usage :: "jv \<Rightarrow> (format_error, unit) result" where
  "check_usage u =
     (if \<not> is_object u then Inl BadUsage
      else bind_r (each_r (\<lambda>f. guard_r (is_count (jget u f)) (BadCount f)) USAGE_COUNTS) (\<lambda>_.
      if \<not> is_array (jget u ''extensions'') then Inl BadExtensions
      else each_i 0 check_extension (arr_of (jget u ''extensions''))))"

definition verifyAttestationFormat :: "jv \<Rightarrow> (format_error, unit) result" where
  "verifyAttestationFormat a =
     (if \<not> is_object a \<and> \<not> is_array a then Inl NotAnObject
      else bind_r (each_r (\<lambda>f. guard_r (is_string (jget a f) \<and> str_of (jget a f) \<noteq> []) (BadField f)) REQUIRED_STRINGS) (\<lambda>_.
      if \<not> is_array (jget a ''dataVolumes'') then Inl BadVolumes
      else bind_r (each_i 0 (\<lambda>i v. guard_r (is_string v) (BadVolume i)) (arr_of (jget a ''dataVolumes''))) (\<lambda>_.
      if jget a ''tokenUsage'' = JUndef then Inr ()
      else bind_r (check_usage (jget a ''tokenUsage'')) (\<lambda>_.
        guard_r (jget a ''schemaVersion'' = JUndef \<or> is_number (jget a ''schemaVersion'')) BadSchema))))"

text \<open>\<open>{signature, ...payload}\<close>; the rest is put into canonical form again.\<close>

definition verifyAttestationSignature :: "attestation_lib \<Rightarrow> jv \<Rightarrow> string \<Rightarrow> bool" where
  "verifyAttestationSignature lib a ad =
     (\<not> nullish a \<and> al_verify lib (al_jcs lib (JObj (map_delete (props_of a) ''signature''))) ad (jget a ''signature''))"

section \<open>What is generated is accepted\<close>

lemma count_of_int: "\<exists>n. count_of lib v = num_int n \<and> 0 \<le> n"
proof (cases "al_number lib v")
  case (Fin x)
  then show ?thesis by (auto simp: count_of_def Let_def intro: exI [of _ "\<lfloor>x\<rfloor>"] exI [of _ "0 :: int"])
qed (auto simp: count_of_def Let_def intro: exI [of _ "0 :: int"])

lemma count_of_is_count [simp]: "is_count (JNum (count_of lib v))"
proof -
  obtain n where "count_of lib v = num_int n" "0 \<le> n" using count_of_int by blast
  then show ?thesis by (simp add: is_count_def)
qed

lemma extension_of_checked: "check_extension i (extension_of lib e) = Inr ()"
  by (simp add: check_extension_def extension_of_def)

lemma normalized_checked: "normalizeTokenUsage lib u = Some n \<Longrightarrow> check_usage n = Inr () \<and> n \<noteq> JUndef"
  by (auto simp: normalizeTokenUsage_def check_usage_def USAGE_COUNTS_def Let_def each_i_ok extension_of_checked split: if_splits)

lemma base_payload_no_signature: "generateAttestationPayload lib p = Some payload \<Longrightarrow> ''signature'' \<notin> fst ` set payload"
  by (auto simp: generateAttestationPayload_def base_payload_def split: if_splits option.splits)

lemma delete_appended: "k \<notin> fst ` set m \<Longrightarrow> map_delete (m @ [(k, v)]) k = m"
  by (induction m) (auto simp: map_delete_def)

lemma get_appended: "k \<notin> fst ` set m \<Longrightarrow> jget (JObj (m @ [(k, v)])) k = v"
  by (simp add: jget_def map_get_append map_get_None_iff [THEN iffD2])

lemma base_fields:
  "jget (JObj (base_payload p @ m)) ''attestedBy'' = JStr (ap_attestedBy p)"
  "jget (JObj (base_payload p @ m)) ''containerId'' = JStr (ap_containerId p)"
  "jget (JObj (base_payload p @ m)) ''createdAt'' = JStr (ap_createdAt p)"
  "jget (JObj (base_payload p @ m)) ''destroyedAt'' = JStr (ap_destroyedAt p)"
  "jget (JObj (base_payload p @ m)) ''jobId'' = JStr (ap_jobId p)"
  "jget (JObj (base_payload p @ m)) ''dataVolumes'' = JArr (case ap_dataVolumes p of None \<Rightarrow> [] | Some vs \<Rightarrow> map JStr vs)"
  "jget (JObj (base_payload p @ m)) ''deletionMethod'' = JStr (case ap_deletionMethod p of None \<Rightarrow> ''container-destroy+volume-rm'' | Some d \<Rightarrow> d)"
  "jget (JObj (base_payload p @ m)) ''signature'' = jget (JObj m) ''signature''"
  "jget (JObj (base_payload p @ m)) ''tokenUsage'' = jget (JObj m) ''tokenUsage''"
  "jget (JObj (base_payload p @ m)) ''schemaVersion'' = jget (JObj m) ''schemaVersion''"
  by (simp_all add: base_payload_def)

lemma volumes_pass:
  "each_i 0 (\<lambda>i v. guard_r (is_string v) (BadVolume i)) (case ap_dataVolumes p of None \<Rightarrow> [] | Some vs \<Rightarrow> map JStr vs) = Inr ()"
  by (cases "ap_dataVolumes p") (simp_all add: each_i_ok)

lemma method_given: "ap_deletionMethod p \<noteq> Some [] \<Longrightarrow> (case ap_deletionMethod p of None \<Rightarrow> ''container-destroy+volume-rm'' | Some d \<Rightarrow> d) \<noteq> []"
  by (cases "ap_deletionMethod p") auto

text \<open>Every attestation with non-empty texts, whatever token usage the caller handed in.\<close>

definition texts_given :: "attestation_params \<Rightarrow> bool" where
  "texts_given p = (ap_jobId p \<noteq> [] \<and> ap_containerId p \<noteq> [] \<and> ap_createdAt p \<noteq> [] \<and> ap_destroyedAt p \<noteq> []
     \<and> ap_attestedBy p \<noteq> [] \<and> ap_deletionMethod p \<noteq> Some [])"

text \<open>
  What an agent generates and signs passes both checks of the one who receives it: for every token usage the caller hands
  in, of whatever shape, that does not make it throw, the attestation is well-formed, and its signature verifies over the same bytes.
\<close>

theorem attestation_accepted:
  assumes "generateAttestationPayload lib p = Some payload" and "signAttestationWith lib payload = Inr a" and "texts_given p"
    and "\<forall>m s. al_sign lib m = Inr s \<longrightarrow> s \<noteq> [] \<and> al_verify lib m ad (JStr s)"
  shows "verifyAttestationFormat a = Inr () \<and> verifyAttestationSignature lib a ad"
proof -
  obtain sg where sg: "al_sign lib (al_jcs lib (JObj payload)) = Inr sg" and a: "a = JObj (payload @ [(''signature'', JStr sg)])"
    using assms(2) map_set_append_new [OF base_payload_no_signature [OF assms(1)]]
    by (auto simp: signAttestationWith_def bind_r_eq_Inr)
  have ok: "sg \<noteq> []" "al_verify lib (al_jcs lib (JObj payload)) ad (JStr sg)" using assms(4) sg by auto
  have d: "map_delete (payload @ [(''signature'', JStr sg)]) ''signature'' = payload"
    using base_payload_no_signature [OF assms(1)] by (rule delete_appended)
  have "jget a ''signature'' = JStr sg"
    unfolding a using base_payload_no_signature [OF assms(1)] by (rule get_appended)
  then have "verifyAttestationSignature lib a ad" using d ok(2) by (simp add: verifyAttestationSignature_def nullish_def a)
  moreover have "verifyAttestationFormat a = Inr ()"
  proof (cases "jtruthy (ap_tokenUsage p)")
    case False
    then have "payload = base_payload p" using assms(1) by (simp add: generateAttestationPayload_def)
    then show ?thesis using assms(3) ok(1)
      by (simp add: a verifyAttestationFormat_def base_fields REQUIRED_STRINGS_def texts_given_def method_given volumes_pass)
  next
    case True
    then obtain u where u: "normalizeTokenUsage lib (ap_tokenUsage p) = Some u"
        "payload = base_payload p @ [(''schemaVersion'', JNum ATTESTATION_SCHEMA_VERSION), (''tokenUsage'', u)]"
      using assms(1) by (auto simp: generateAttestationPayload_def split: option.splits)
    then show ?thesis using assms(3) ok(1) normalized_checked [OF u(1)]
      by (simp add: a verifyAttestationFormat_def base_fields REQUIRED_STRINGS_def texts_given_def method_given volumes_pass)
  qed
  ultimately show ?thesis by simp
qed

definition demo_attestation_lib :: attestation_lib where
  "demo_attestation_lib = \<lparr>al_number = (\<lambda>v. case v of JNum n \<Rightarrow> n | _ \<Rightarrow> NaN), al_jcs = (\<lambda>_. ''{}''), al_sign = (\<lambda>m. Inr (''s'' @ m)),
     al_verify = (\<lambda>m ad v. v = JStr (''s'' @ m))\<rparr>"

definition demo_params :: attestation_params where
  "demo_params = \<lparr>ap_jobId = ''j'', ap_containerId = ''c'', ap_createdAt = ''t'', ap_destroyedAt = ''u'', ap_dataVolumes = None,
     ap_deletionMethod = None, ap_attestedBy = ''a@'',
     ap_tokenUsage = JObj [(''promptTokens'', JNum (Fin (7 / 2))), (''extensions'', JArr [JObj [(''granted'', JStr ''yes'')]])]\<rparr>"

theorem attestation_accepted_witness:
  "\<exists>payload a. generateAttestationPayload demo_attestation_lib demo_params = Some payload
     \<and> signAttestationWith demo_attestation_lib payload = Inr a \<and> verifyAttestationFormat a = Inr ()"
proof -
  obtain payload where p: "generateAttestationPayload demo_attestation_lib demo_params = Some payload"
    by (simp add: generateAttestationPayload_def demo_params_def normalizeTokenUsage_def Let_def nullish_def)
  obtain a where a: "signAttestationWith demo_attestation_lib payload = Inr a"
    by (simp add: signAttestationWith_def demo_attestation_lib_def)
  have "texts_given demo_params" "\<forall>m s. al_sign demo_attestation_lib m = Inr s \<longrightarrow> s \<noteq> [] \<and> al_verify demo_attestation_lib m ad (JStr s)" for ad
    by (auto simp: texts_given_def demo_params_def demo_attestation_lib_def)
  from attestation_accepted [OF p a this] p a show ?thesis by blast
qed

section \<open>What the format check leaves open\<close>

text \<open>
  A malformed usage is to be rejected; the number of tokens granted by an extension, which the signer writes, is not looked at, nor is
  the amount required to be finite.
\<close>

lemma granted_tokens_unchecked:
  "check_extension i (JObj [(''estimatedTokens'', JNum (num_int 1)), (''amountVrsc'', JNum PInf), (''granted'', JBool True), (''grantedTokens'', x)])
   = Inr ()"
  by (simp add: check_extension_def is_count_def)

text \<open>The usage is brought into the same shape however often: a normalized usage does not change, if \<open>Number\<close> leaves numbers alone.\<close>

lemma count_of_idem: "(\<And>n. al_number lib (JNum n) = n) \<Longrightarrow> count_of lib (JNum (count_of lib v)) = count_of lib v"
  using count_of_int [of lib v] by (auto simp: count_of_def [of lib "JNum (num_int _)"] Let_def)

lemma extension_fields:
  "jget (extension_of lib e) ''estimatedTokens'' = JNum (count_of lib (jget e ''estimatedTokens''))"
  "jget (extension_of lib e) ''amountVrsc'' = (if is_number (jget e ''amountVrsc'') \<and> is_finite (num_of (jget e ''amountVrsc''))
     then jget e ''amountVrsc'' else JNull)"
  "jget (extension_of lib e) ''granted'' = JBool (jtruthy (jget e ''granted''))"
  "jget (extension_of lib e) ''grantedTokens'' = (if nullish (jget e ''grantedTokens'') then JUndef
     else JNum (count_of lib (jget e ''grantedTokens'')))"
  by (simp_all add: extension_of_def opt_field_def)

lemma extension_of_idem:
  assumes "\<And>n. al_number lib (JNum n) = n"
  shows "extension_of lib (extension_of lib e) = extension_of lib e"
  unfolding extension_of_def [of lib "extension_of lib e"] extension_fields
  by (simp add: extension_of_def count_of_idem [OF assms] opt_field_def nullish_def)

lemma extension_not_nullish: "\<not> nullish (extension_of lib e)"
  by (simp add: extension_of_def nullish_def)

lemma normalizeTokenUsage_idem:
  assumes "\<And>n. al_number lib (JNum n) = n" and "normalizeTokenUsage lib u = Some v"
  shows "normalizeTokenUsage lib v = Some v"
proof -
  let ?es = "map (extension_of lib) (arr_of (jget u ''extensions''))"
  have v: "v = JObj (map (\<lambda>k. (k, JNum (count_of lib (jget u k)))) USAGE_COUNTS @ [(''extensions'', JArr ?es)])"
    using assms(2) by (simp add: normalizeTokenUsage_def Let_def split: if_splits)
  have e: "jget v ''extensions'' = JArr ?es" by (simp add: v USAGE_COUNTS_def)
  have c: "map (\<lambda>k. (k, JNum (count_of lib (jget v k)))) USAGE_COUNTS = map (\<lambda>k. (k, JNum (count_of lib (jget u k)))) USAGE_COUNTS"
    by (simp add: v USAGE_COUNTS_def count_of_idem [OF assms(1)])
  have "\<not> list_ex nullish ?es" by (simp add: list_ex_iff extension_not_nullish)
  moreover have "map (extension_of lib) ?es = ?es" by (simp add: extension_of_idem [OF assms(1)])
  ultimately show ?thesis by (simp add: normalizeTokenUsage_def Let_def e c) (simp add: v)
qed

end
