(* ===== verification/Pricing.thy ===== *)
theory Pricing
  imports JsNum
begin

text \<open>
  The price calculator, \<open>src/pricing/calculator.ts\<close>, with its tables, \<open>src/pricing/tables.ts\<close>. A decimal literal of the source is the binary64 number nearest to it.
\<close>

section \<open>Tables\<close>

text \<open>Model, dollars for a thousand tokens in and out, and for a typical job of two thousand in and one thousand out, as they are written.\<close>

definition LLM_TABLE :: "(string \<times> rat \<times> rat \<times> rat) list" where
  "LLM_TABLE =
     [(''claude-opus-4.6'', 1 / 200, 1 / 40, 7 / 200),
      (''claude-sonnet-4.6'', 3 / 1000, 3 / 200, 21 / 1000),
      (''claude-haiku-4.5'', 1 / 1000, 1 / 200, 7 / 1000),
      (''gpt-4.1'', 1 / 500, 1 / 125, 3 / 250),
      (''gpt-4.1-mini'', 1 / 2500, 1 / 625, 3 / 1250),
      (''o3'', 1 / 100, 1 / 25, 3 / 50),
      (''o4-mini'', 11 / 10000, 11 / 2500, 33 / 5000),
      (''grok-4.20'', 1 / 500, 3 / 500, 1 / 100),
      (''grok-4-1-fast'', 1 / 5000, 1 / 2000, 9 / 10000),
      (''gemini-2.5-pro'', 1 / 800, 1 / 100, 1 / 80),
      (''gemini-2.5-flash'', 3 / 20000, 3 / 5000, 9 / 10000),
      (''deepseek-v3'', 27 / 100000, 11 / 10000, 41 / 25000),
      (''deepseek-r1'', 11 / 20000, 219 / 100000, 329 / 100000),
      (''mistral-large-3'', 1 / 500, 3 / 500, 1 / 100),
      (''mistral-small-4'', 1 / 10000, 3 / 10000, 1 / 2000),
      (''codestral'', 3 / 10000, 9 / 10000, 3 / 2000),
      (''kimi-k2'', 1 / 5000, 1 / 1000, 7 / 5000),
      (''llama-4-scout'', 1 / 5000, 1 / 1250, 3 / 2500),
      (''self-hosted-7b'', 1 / 10000, 1 / 10000, 3 / 10000),
      (''self-hosted-70b'', 1 / 2000, 1 / 2000, 3 / 2000)]"

definition LLM_COSTS :: "(string \<times> jsnum \<times> jsnum) list" where
  "LLM_COSTS = map (\<lambda>(m, a, b, _). (m, fl a, fl b)) LLM_TABLE"

definition API_TABLE :: "(string \<times> rat) list" where
  "API_TABLE =
     [(''web-search'', 1 / 200),
      (''weather'', 1 / 1000),
      (''translation'', 1 / 100),
      (''code-execution'', 1 / 200),
      (''pdf-extraction'', 1 / 100),
      (''ocr'', 3 / 200),
      (''tts'', 1 / 50),
      (''stt'', 3 / 500)]"

definition API_COSTS :: "(string \<times> jsnum) list" where
  "API_COSTS = map (\<lambda>(a, c). (a, fl c)) API_TABLE"

text \<open>Dollars an hour, tokens a second, dollars for a thousand tokens, of the machines a self-hosted model runs on.\<close>

definition SELF_HOSTED_TABLE :: "(string \<times> rat \<times> rat \<times> rat) list" where
  "SELF_HOSTED_TABLE =
     [(''7b-quantized'', 2 / 5, 80, 7 / 5000), (''7b-quantized'', 3 / 2, 120, 7 / 2000),
      (''70b-quantized'', 2, 30, 37 / 2000), (''70b-quantized'', 4, 60, 37 / 2000)]"

datatype category = Trivial | Simple | Medium | Complex | Premium

fun CATEGORY_MARKUPS :: "category \<Rightarrow> int \<times> int" where
  "CATEGORY_MARKUPS Trivial = (2, 3)"
| "CATEGORY_MARKUPS Simple = (3, 5)"
| "CATEGORY_MARKUPS Medium = (5, 10)"
| "CATEGORY_MARKUPS Complex = (10, 20)"
| "CATEGORY_MARKUPS Premium = (20, 50)"

definition PLATFORM_FEE :: jsnum where
  "PLATFORM_FEE = fl (1 / 20)"

datatype tier = Standard | Private | Sovereign

fun PRIVACY_MULTIPLIERS :: "tier \<Rightarrow> jsnum" where
  "PRIVACY_MULTIPLIERS Standard = num_int 1"
| "PRIVACY_MULTIPLIERS Private = fl (133 / 100)"
| "PRIVACY_MULTIPLIERS Sovereign = fl (183 / 100)"

section \<open>Costs\<close>

datatype pricing_error = BadTokens jsnum | UnknownModel string | BadCount string jsnum | BadMarkup jsnum | BadBudget jsnum
  | ZeroCost string | BadRate jsnum | BadPlatformFee

definition round_to :: "jsnum \<Rightarrow> nat \<Rightarrow> jsnum" where
  "round_to n d = js_div (math_round (js_mul n (num_int (10 ^ d)))) (num_int (10 ^ d))"

definition privacyPremium :: "jsnum \<Rightarrow> tier \<Rightarrow> jsnum" where
  "privacyPremium base t = js_mul base (PRIVACY_MULTIPLIERS t)"

fun assoc :: "(string \<times> 'a) list \<Rightarrow> string \<Rightarrow> 'a option" where
  "assoc [] k = None"
| "assoc ((a, v) # xs) k = (if a = k then Some v else assoc xs k)"

definition bad_amount :: "jsnum \<Rightarrow> bool" where
  "bad_amount n = (\<not> is_finite n \<or> js_lt n (num_int 0))"

fun api_cost :: "jsnum \<Rightarrow> (string \<times> jsnum) list \<Rightarrow> (pricing_error, jsnum) result" where
  "api_cost cost [] = Inr cost"
| "api_cost cost ((api, n) # xs) =
     (if bad_amount n then Inl (BadCount api n)
      else api_cost (case assoc API_COSTS api of Some c \<Rightarrow> js_add cost (js_mul c n) | None \<Rightarrow> cost) xs)"

definition llm_cost :: "jsnum \<Rightarrow> jsnum \<Rightarrow> jsnum \<times> jsnum \<Rightarrow> jsnum" where
  "llm_cost inp outp c = js_add (js_mul (js_div inp (num_int 1000)) (fst c)) (js_mul (js_div outp (num_int 1000)) (snd c))"

definition estimateJobCost :: "string \<Rightarrow> jsnum \<Rightarrow> jsnum \<Rightarrow> (string \<times> jsnum) list \<Rightarrow> (pricing_error, jsnum) result" where
  "estimateJobCost model inp outp apis =
     (if bad_amount inp then Inl (BadTokens inp)
      else if bad_amount outp then Inl (BadTokens outp)
      else case assoc LLM_COSTS model of
        None \<Rightarrow> Inl (UnknownModel model)
      | Some c \<Rightarrow> bind_r (api_cost (num_int 0) apis) (\<lambda>a. Inr (js_add (llm_cost inp outp c) a)))"

text \<open>The raw cost and the listed price, both in millionths.\<close>

definition calculateListedPrice ::
  "string \<Rightarrow> jsnum \<Rightarrow> jsnum \<Rightarrow> jsnum \<Rightarrow> (string \<times> jsnum) list \<Rightarrow> (pricing_error, jsnum \<times> jsnum) result" where
  "calculateListedPrice model inp outp markup apis =
     (if \<not> is_finite markup \<or> js_lt markup (num_int 1) \<or> js_lt (num_int 50) markup then Inl (BadMarkup markup)
      else bind_r (estimateJobCost model inp outp apis) (\<lambda>raw.
        Inr (round_to raw 6, round_to (js_mul raw (js_add (num_int 1) (js_div markup (num_int 100)))) 6)))"

definition budgetToTokens :: "string \<Rightarrow> jsnum \<Rightarrow> (pricing_error, jsnum) result" where
  "budgetToTokens model budget =
     (if \<not> is_finite budget \<or> js_le budget (num_int 0) then Inl (BadBudget budget)
      else case assoc LLM_COSTS model of
        None \<Rightarrow> Inl (UnknownModel model)
      | Some c \<Rightarrow>
          (let blended = js_div (js_add (fst c) (snd c)) (num_int 2) in
           if js_le blended (num_int 0) then Inl (ZeroCost model)
           else Inr (math_floor (js_mul (js_div budget blended) (num_int 1000)))))"

section \<open>Recommended prices\<close>

record price_point =
  pp_usd :: jsnum
  pp_vrsc :: jsnum
  pp_margin :: jsnum

record recommendation =
  rc_raw :: jsnum
  rc_fee :: jsnum
  rc_multiplier :: jsnum
  rc_minimum :: price_point
  rc_recommended :: price_point
  rc_premium :: price_point
  rc_ceiling :: price_point

definition makePricePoint :: "jsnum \<Rightarrow> jsnum \<Rightarrow> jsnum \<Rightarrow> price_point" where
  "makePricePoint adjusted rate usd = \<lparr>pp_usd = round_to usd 6, pp_vrsc = round_to (js_div usd rate) 6,
     pp_margin = (if js_lt (num_int 0) adjusted then round_to (js_mul (js_div (js_sub usd adjusted) adjusted) (num_int 100)) 1 else num_int 0)\<rparr>"

definition recommendPrice ::
  "string \<Rightarrow> jsnum \<Rightarrow> jsnum \<Rightarrow> category \<Rightarrow> tier \<Rightarrow> jsnum \<Rightarrow> (string \<times> jsnum) list \<Rightarrow> (pricing_error, recommendation) result" where
  "recommendPrice model inp outp cat t rate apis =
     (if js_le rate (num_int 0) \<or> \<not> is_finite rate then Inl (BadRate rate)
      else bind_r (estimateJobCost model inp outp apis) (\<lambda>raw.
      let adjusted = privacyPremium raw t; (lo, hi) = CATEGORY_MARKUPS cat in
      if js_le (num_int 1) PLATFORM_FEE then Inl BadPlatformFee
      else let minUsd = js_div adjusted (js_sub (num_int 1) PLATFORM_FEE);
               recUsd = js_mul adjusted (js_div (js_add (num_int lo) (num_int hi)) (num_int 2));
               premUsd = js_mul adjusted (num_int hi);
               ceilUsd = js_mul premUsd (Fin (3 / 2)); point = makePricePoint adjusted rate in
           Inr \<lparr>rc_raw = round_to raw 6, rc_fee = round_to (js_mul adjusted PLATFORM_FEE) 6, rc_multiplier = PRIVACY_MULTIPLIERS t,
             rc_minimum = point minUsd, rc_recommended = point recUsd, rc_premium = point premUsd, rc_ceiling = point ceilUsd\<rparr>))"

section \<open>The tables are consistent\<close>

text \<open>The typical cost of each model is that of two thousand tokens in and one thousand out; the hourly costs give the costs per token.\<close>

lemma typical_costs: "list_all (\<lambda>(m, a, b, c). c = 2 * a + b \<and> 0 < a \<and> 0 < b) LLM_TABLE"
  by (simp add: LLM_TABLE_def)

lemma api_costs_positive: "list_all (\<lambda>(a, c). 0 < c) API_TABLE"
  by (simp add: API_TABLE_def)

lemma self_hosted_costs:
  "list_all (\<lambda>(m, hourly, speed, per1k). \<bar>hourly / 3600 / speed * 1000 - per1k\<bar> \<le> 1 / 20000) SELF_HOSTED_TABLE"
  by (simp add: SELF_HOSTED_TABLE_def)

text \<open>
  The table of models prices the self-hosted ones below those costs, although it calls them amortized and refers to them: every
  machine listed for the small model costs fourteen times as much as a token is priced at.
\<close>

lemma self_hosted_below_cost:
  "assoc LLM_TABLE ''self-hosted-7b'' = Some (1 / 10000, 1 / 10000, 3 / 10000)"
  "list_all (\<lambda>(m, hourly, speed, per1k). m = ''7b-quantized'' \<longrightarrow> 14 * (1 / 10000) \<le> per1k) SELF_HOSTED_TABLE"
  by (simp_all add: LLM_TABLE_def SELF_HOSTED_TABLE_def)

section \<open>Amounts\<close>

text \<open>What a sum of costs can be: a representable number that is not negative, or an overflow.\<close>

definition amount :: "jsnum \<Rightarrow> bool" where
  "amount a = (a = PInf \<or> (\<exists>q. a = Fin q \<and> 0 \<le> q \<and> rnd q = q))"

lemma amount_cases:
  assumes "amount a"
  obtains (inf) "a = PInf" | (fin) q where "a = Fin q" "0 \<le> q" "rnd q = q"
  using assms by (auto simp: amount_def)

lemma amount_fl: "0 \<le> q \<Longrightarrow> amount (fl q)"
  using rnd_nonneg [of q] by (auto simp: amount_def fl_def Let_def)

lemma amount_int [simp]: "0 \<le> n \<Longrightarrow> n \<le> 2 ^ 53 \<Longrightarrow> amount (num_int n)"
  using rnd_of_int [of n] by (simp add: amount_def)

lemma amount_add: "amount a \<Longrightarrow> amount b \<Longrightarrow> amount (js_add a b)"
  by (erule amount_cases; erule amount_cases) (auto intro: amount_fl, auto simp: amount_def)

lemma amount_mul: "amount a \<Longrightarrow> 0 < c \<Longrightarrow> amount (js_mul a (Fin c))"
  by (erule amount_cases) (auto intro: amount_fl simp: inf_of_sgn_def, auto simp: amount_def)

lemma amount_div: "amount a \<Longrightarrow> 0 < c \<Longrightarrow> amount (js_div a (Fin c))"
  by (erule amount_cases) (auto intro: amount_fl simp: inf_of_sgn_def, auto simp: amount_def)

lemma amount_not_NaN: "amount a \<Longrightarrow> a \<noteq> NaN"
  by (auto simp: amount_def)

lemma mul_mono:
  assumes "amount a" "amount b" "js_le a b" "0 < c" "c \<le> d"
  shows "js_le (js_mul a (Fin c)) (js_mul b (Fin d))"
  using assms(1)
proof (cases rule: amount_cases)
  case inf
  with assms(2,3) have "b = PInf" by (cases b) auto
  with inf assms(4,5) show ?thesis by (simp add: inf_of_sgn_def)
next
  case (fin p)
  from assms(2) show ?thesis
  proof (cases rule: amount_cases)
    case inf
    have "fl (p * c) \<noteq> NaN" by simp
    with inf fin assms(4,5) show ?thesis by (cases "fl (p * c)") (auto simp: inf_of_sgn_def)
  next
    case (fin q)
    with \<open>a = Fin p\<close> \<open>0 \<le> p\<close> assms(3-5) show ?thesis by (auto intro!: fl_mono mult_mono)
  qed
qed

lemma div_as_mul: "amount a \<Longrightarrow> 0 < c \<Longrightarrow> js_div a (Fin c) = js_mul a (Fin (1 / c))"
  by (erule amount_cases) (auto simp: inf_of_sgn_def)

lemma amount_le_mul: "amount a \<Longrightarrow> 1 \<le> c \<Longrightarrow> js_le a (js_mul a (Fin c))"
proof (erule amount_cases)
  fix q assume q: "a = Fin q" "0 \<le> q" "rnd q = q" "1 \<le> c"
  have "rnd q \<le> rnd (q * c)" using q(2,4) by (intro rnd_mono) (simp add: mult_le_cancel_left1)
  then show ?thesis using q rnd_nonneg [of "q * c"] by (auto simp: fl_def Let_def)
qed (simp add: inf_of_sgn_def)

lemma amount_le_refl: "amount a \<Longrightarrow> js_le a a"
  by (auto simp: amount_def)

lemma amount_round: "amount a \<Longrightarrow> js_le a b \<Longrightarrow> amount b \<Longrightarrow> js_le (round_to a d) (round_to b d)"
proof -
  assume a: "amount a" and b: "amount b" and le: "js_le a b"
  define f :: rat where "f = 10 ^ d"
  have f: "0 < f" "num_int (10 ^ d) = Fin f" by (simp_all add: f_def)
  have m: "js_le (js_mul a (Fin f)) (js_mul b (Fin f))" "amount (js_mul a (Fin f))" "amount (js_mul b (Fin f))"
    using mul_mono [OF a b le f(1)] amount_mul [OF a f(1)] amount_mul [OF b f(1)] by simp_all
  have r: "js_le (math_round x) (math_round y) \<and> (math_round x = PInf \<or> (\<exists>n. math_round x = num_int n \<and> 0 \<le> n))"
    if "amount x" "amount y" "js_le x y" for x y
    using that by (elim amount_cases) (auto intro!: floor_mono)
  have "js_le (js_div x (Fin f)) (js_div y (Fin f))"
    if "js_le x y" "x = PInf \<or> (\<exists>n. x = num_int n \<and> 0 \<le> n)" "y = PInf \<or> (\<exists>n. y = num_int n \<and> 0 \<le> n)" for x y
  proof -
    have "fl q \<noteq> NaN" for q by simp
    then have p: "js_le (fl q) PInf" for q by (cases "fl q") auto
    show ?thesis using that f(1) p by (auto simp: inf_of_sgn_def intro!: fl_mono divide_right_mono)
  qed
  from this [of "math_round (js_mul a (Fin f))" "math_round (js_mul b (Fin f))"] r [OF m(2,3,1)] r [OF m(3,3)] m
  show "js_le (round_to a d) (round_to b d)"
    unfolding round_to_def f(2) using amount_le_refl [OF m(3)] by blast
qed

section \<open>The costs are amounts\<close>

lemma assoc_in: "assoc xs k = Some v \<Longrightarrow> (k, v) \<in> set xs"
  by (induction xs k rule: assoc.induct) (auto split: if_splits)

lemma good_amount: "\<not> bad_amount n \<Longrightarrow> \<exists>q. n = Fin q \<and> 0 \<le> q"
  by (cases n) (auto simp: bad_amount_def)

lemma price_literal: "1 / 16384 \<le> q \<Longrightarrow> q \<le> 1 \<Longrightarrow> \<exists>c. fl q = Fin c \<and> 0 < c"
proof -
  assume q: "1 / 16384 \<le> q" "q \<le> 1"
  have "(2 :: rat) powi (- 14) \<le> rnd q" using q(1) by (intro rnd_ge_powi) (simp_all add: power_int_minus)
  then have "0 < rnd q" using powi_pos [of "- 14"] by linarith
  moreover have "rnd q \<le> rnd 1" using q by (intro rnd_mono)
  ultimately show ?thesis using rnd_of_int [of 1] by (simp add: fl_def Let_def)
qed

lemma mul_amount: "0 \<le> p \<Longrightarrow> 0 \<le> q \<Longrightarrow> amount (js_mul (Fin p) (Fin q))"
  by (simp add: amount_fl)

lemma api_cost_amount: "api_cost c xs = Inr r \<Longrightarrow> amount c \<Longrightarrow> amount r"
proof (induction c xs rule: api_cost.induct)
  case (2 c api n xs)
  then have n: "\<not> bad_amount n" by (auto split: if_splits)
  then obtain q where q: "n = Fin q" "0 \<le> q" using good_amount by blast
  have "amount (case assoc API_COSTS api of Some k \<Rightarrow> js_add c (js_mul k n) | None \<Rightarrow> c)"
  proof (cases "assoc API_COSTS api")
    case (Some k)
    then have "k \<in> snd ` set API_COSTS" using assoc_in by force
    then obtain x where x: "k = fl x" "1 / 16384 \<le> x" "x \<le> 1" by (auto simp: API_COSTS_def API_TABLE_def)
    then obtain y where "k = Fin y" "0 < y" using price_literal by blast
    then show ?thesis using 2(3) q Some by (simp add: amount_add amount_fl)
  qed (use 2(3) in simp)
  with 2 n show ?case by simp
qed simp

lemma llm_cost_amount:
  assumes "assoc LLM_COSTS m = Some c" "\<not> bad_amount i" "\<not> bad_amount j"
  shows "amount (llm_cost i j c)"
proof -
  have "c \<in> snd ` set LLM_COSTS" using assoc_in [OF assms(1)] by force
  then obtain x y where "c = (fl x, fl y)" "1 / 16384 \<le> x" "x \<le> 1" "1 / 16384 \<le> y" "y \<le> 1"
    by (auto simp: LLM_COSTS_def LLM_TABLE_def)
  then obtain p q where c: "c = (Fin p, Fin q)" "0 < p" "0 < q" using price_literal by metis
  obtain u v where n: "i = Fin u" "0 \<le> u" "j = Fin v" "0 \<le> v" using good_amount assms(2,3) by blast
  have "amount (js_mul (js_div (Fin w) (num_int 1000)) (Fin z))" if "0 \<le> w" "0 < z" for w z
    using that by (intro amount_mul) (simp_all add: amount_fl)
  then show ?thesis using c n by (simp add: llm_cost_def amount_add)
qed


lemma estimate_amount: "estimateJobCost m i j apis = Inr raw \<Longrightarrow> amount raw"
proof -
  assume a: "estimateJobCost m i j apis = Inr raw"
  then have g: "\<not> bad_amount i" "\<not> bad_amount j" by (auto simp: estimateJobCost_def split: if_splits)
  with a obtain c r where "assoc LLM_COSTS m = Some c" "api_cost (num_int 0) apis = Inr r" "raw = js_add (llm_cost i j c) r"
    by (auto simp: estimateJobCost_def bind_r_eq_Inr split: option.splits)
  then show "amount raw" using llm_cost_amount [OF _ g] api_cost_amount [of "num_int 0" apis r] amount_int [of 0] by (simp add: amount_add)
qed

lemma multiplier_at_least_1: "\<exists>m. PRIVACY_MULTIPLIERS t = Fin m \<and> 1 \<le> m"
proof -
  have "\<exists>m. fl q = Fin m \<and> 1 \<le> m" if "1 \<le> q" "q \<le> 2" for q
  proof -
    have "rnd 1 \<le> rnd q" "rnd q \<le> rnd 2" using that by (auto intro: rnd_mono)
    then show ?thesis using rnd_of_int [of 1] rnd_of_int [of 2] by (simp add: fl_def Let_def)
  qed
  then show ?thesis by (cases t) simp_all
qed

lemma fee_small: "PLATFORM_FEE = Fin (rnd (1 / 20)) \<and> 0 \<le> rnd (1 / 20) \<and> rnd (1 / 20) \<le> 1 / 16"
proof -
  have "0 \<le> rnd (1 / 20)" by (rule rnd_nonneg) simp
  moreover have "rnd (1 / 20) \<le> 2 powi (- 4)" by (rule rnd_le_powi) (simp_all add: power_int_minus)
  ultimately show ?thesis by (simp add: PLATFORM_FEE_def fl_def Let_def power_int_minus)
qed

lemma fee_left: "\<exists>d. js_sub (num_int 1) PLATFORM_FEE = Fin d \<and> 1 / 2 \<le> d \<and> d \<le> 1"
proof -
  note f = fee_small [THEN conjunct1] fee_small [THEN conjunct2, THEN conjunct1] fee_small [THEN conjunct2, THEN conjunct2]
  define x where "x = 1 - rnd (1 / 20)"
  have x: "1 / 2 \<le> x" "x \<le> 1" using f by (simp_all add: x_def)
  have "(2 :: rat) powi (- 1) \<le> rnd x" using x(1) by (intro rnd_ge_powi) (simp_all add: power_int_minus)
  moreover have "rnd x \<le> rnd 1" using x(2) by (rule rnd_mono)
  ultimately have "fl x = Fin (rnd x)" "1 / 2 \<le> rnd x" "rnd x \<le> 1"
    using rnd_of_int [of 1] by (simp_all add: fl_def Let_def power_int_minus)
  then show ?thesis by (simp add: js_sub_def f(1) x_def)
qed

lemma midpoint:
  assumes "0 \<le> lo" "lo \<le> hi" "hi \<le> 100"
  shows "\<exists>m. js_div (js_add (num_int lo) (num_int hi)) (num_int 2) = Fin m \<and> of_int lo \<le> m \<and> m \<le> of_int hi"
proof -
  have s: "js_add (num_int lo) (num_int hi) = num_int (lo + hi)" using assms by (intro js_add_int) simp
  define x :: rat where "x = of_int (lo + hi) / 2"
  have "rnd (of_int lo) \<le> rnd x" "rnd x \<le> rnd (of_int hi)" using assms by (intro rnd_mono; simp add: x_def)+
  moreover have "rnd (of_int lo) = of_int lo" "rnd (of_int hi) = of_int hi" using assms by (intro rnd_of_int; simp)+
  ultimately have "of_int lo \<le> rnd x" "rnd x \<le> of_int hi" by simp_all
  moreover have "(of_int hi :: rat) \<le> of_int 100" "(0 :: rat) \<le> of_int lo" using assms by (simp_all only: of_int_le_iff of_int_0_le_iff)
  ultimately have "fl x = Fin (rnd x)" by (simp add: fl_def Let_def)
  with \<open>of_int lo \<le> rnd x\<close> \<open>rnd x \<le> of_int hi\<close> show ?thesis by (simp add: s [simplified] x_def)
qed

definition prices :: "recommendation \<Rightarrow> price_point list" where
  "prices r = [rc_minimum r, rc_recommended r, rc_premium r, rc_ceiling r]"

lemma point_mono:
  assumes "amount x" "amount y" "js_le x y" "rate = Fin v" "0 < v"
  shows "js_le (pp_usd (makePricePoint a rate x)) (pp_usd (makePricePoint a rate y))
    \<and> js_le (pp_vrsc (makePricePoint a rate x)) (pp_vrsc (makePricePoint a rate y))"
proof -
  have "js_le (js_div x rate) (js_div y rate)"
    using mul_mono [OF assms(1-3), of "1 / v" "1 / v"] assms(4,5) div_as_mul [OF assms(1) assms(5)] div_as_mul [OF assms(2) assms(5)] by simp
  moreover have "amount (js_div x rate)" "amount (js_div y rate)" using amount_div assms by simp_all
  ultimately show ?thesis using assms(1-3) by (simp add: makePricePoint_def amount_round)
qed

text \<open>
  C27. Every recommendation is sound for every input that is accepted: no price is below the raw cost, and the four prices do not
  decrease from the minimum to the ceiling, in dollars and in VRSC alike, whatever the roundings and overflows of the arithmetic.
\<close>

theorem prices_ordered:
  assumes "recommendPrice model inp outp cat t rate apis = Inr r"
  shows "js_le (rc_raw r) (pp_usd (rc_minimum r))
    \<and> sorted_wrt (\<lambda>p q. js_le (pp_usd p) (pp_usd q) \<and> js_le (pp_vrsc p) (pp_vrsc q)) (prices r)"
proof -
  obtain raw where raw: "estimateJobCost model inp outp apis = Inr raw"
    using assms by (auto simp: recommendPrice_def bind_r_eq_Inr split: if_splits)
  obtain v where v: "rate = Fin v" "0 < v"
    using assms by (cases rate) (auto simp: recommendPrice_def split: if_splits)
  obtain lo hi where cat: "CATEGORY_MARKUPS cat = (lo, hi)" "2 \<le> lo" "lo \<le> hi" "hi \<le> 50"
    by (cases cat) auto
  obtain m where m: "PRIVACY_MULTIPLIERS t = Fin m" "1 \<le> m" using multiplier_at_least_1 by blast
  obtain d where d: "js_sub (num_int 1) PLATFORM_FEE = Fin d" "1 / 2 \<le> d" "d \<le> 1" using fee_left by blast
  obtain k where k: "js_div (js_add (num_int lo) (num_int hi)) (num_int 2) = Fin k" "of_int lo \<le> k" "k \<le> of_int hi"
    using midpoint [of lo hi] cat by auto
  define adj where "adj = privacyPremium raw t"
  have a: "amount raw" using raw by (rule estimate_amount)
  then have adj: "amount adj" "js_le raw adj" using m by (simp_all add: adj_def privacyPremium_def amount_mul amount_le_mul)
  define p0 p1 p2 p3 where "p0 = js_mul adj (Fin (1 / d))" and "p1 = js_mul adj (Fin k)" and "p2 = js_mul adj (num_int hi)"
    and "p3 = js_mul p2 (Fin (3 / 2))"
  have lo: "(2 :: rat) \<le> of_int lo" using cat(2) by (metis of_int_le_iff of_int_numeral)
  have c: "0 < 1 / d" "1 \<le> 1 / d" "1 / d \<le> k" "0 < k" "(0 :: rat) < of_int hi"
  proof -
    have k2: "2 \<le> k" using k(2) lo by linarith
    then have "1 / 2 * 2 \<le> d * k" using d(2) by (intro mult_mono) simp_all
    then show "1 / d \<le> k" using d(2) by (simp add: field_simps)
    show "0 < 1 / d" "1 \<le> 1 / d" "0 < k" "(0 :: rat) < of_int hi" using d(2,3) k2 k(3) by (simp_all add: field_simps)
  qed
  have am: "amount p0" "amount p1" "amount p2" "amount p3"
    using adj(1) c by (simp_all add: p0_def p1_def p2_def p3_def amount_mul)
  have le: "js_le adj p0" "js_le p0 p1" "js_le p1 p2" "js_le p2 p3"
    using adj(1) c k(3) am by (auto simp: p0_def p1_def p2_def p3_def intro: mul_mono amount_le_mul amount_le_refl)
  have r: "r = \<lparr>rc_raw = round_to raw 6, rc_fee = round_to (js_mul adj PLATFORM_FEE) 6, rc_multiplier = PRIVACY_MULTIPLIERS t,
      rc_minimum = makePricePoint adj rate p0, rc_recommended = makePricePoint adj rate p1, rc_premium = makePricePoint adj rate p2,
      rc_ceiling = makePricePoint adj rate p3\<rparr>"
    using assms raw cat(1) div_as_mul [OF adj(1), of d] d(1,2)
    by (simp add: recommendPrice_def Let_def adj_def [symmetric] p0_def p1_def p2_def p3_def k(1) [simplified] split: if_splits)
  have tr: "js_le x z" if "js_le x y" "js_le y z" for x y z using that by (rule js_le_trans)
  have "js_le (round_to raw 6) (round_to p0 6)" using a am(1) tr [OF adj(2) le(1)] by (intro amount_round)
  moreover note point_mono [OF am(1,2) le(2) v, of adj] point_mono [OF am(2,3) le(3) v, of adj] point_mono [OF am(3,4) le(4) v, of adj]
    point_mono [OF am(1,3) tr [OF le(2,3)] v, of adj] point_mono [OF am(2,4) tr [OF le(3,4)] v, of adj]
    point_mono [OF am(1,4) tr [OF le(2) tr [OF le(3,4)]] v, of adj]
  ultimately show ?thesis by (simp add: r prices_def) (simp add: makePricePoint_def)
qed

lemma fee_below_1: "\<not> js_le (Fin 1) PLATFORM_FEE"
proof -
  have "rnd (1 / 20) < 1" using fee_small by linarith
  then show ?thesis unfolding conjunct1 [OF fee_small] by (simp only: js_le.simps not_le)
qed

lemma demo_price_runs: "\<exists>r. recommendPrice ''o3'' (num_int 2000) (num_int 1000) Simple Private (num_int 2) [(''ocr'', num_int 3)] = Inr r"
  by (simp add: fee_below_1 recommendPrice_def estimateJobCost_def bad_amount_def LLM_COSTS_def LLM_TABLE_def Let_def)

theorem prices_ordered_witness:
  "\<exists>r. recommendPrice ''o3'' (num_int 2000) (num_int 1000) Simple Private (num_int 2) [(''ocr'', num_int 3)] = Inr r
     \<and> js_le (pp_usd (rc_recommended r)) (pp_usd (rc_ceiling r))"
proof -
  obtain r where r: "recommendPrice ''o3'' (num_int 2000) (num_int 1000) Simple Private (num_int 2) [(''ocr'', num_int 3)] = Inr r"
    using demo_price_runs by blast
  from prices_ordered [OF r] r show ?thesis by (simp add: prices_def)
qed

text \<open>A listed price is never below the raw cost it is listed with.\<close>

lemma listed_covers_cost:
  assumes "calculateListedPrice model inp outp markup apis = Inr (raw, listed)"
  shows "js_le raw listed"
proof -
  obtain c where c: "estimateJobCost model inp outp apis = Inr c" "raw = round_to c 6"
      "listed = round_to (js_mul c (js_add (num_int 1) (js_div markup (num_int 100)))) 6"
    using assms by (auto simp: calculateListedPrice_def bind_r_eq_Inr split: if_splits)
  obtain x where x: "markup = Fin x" "1 \<le> x" "x \<le> 50"
    using assms by (cases markup) (auto simp: calculateListedPrice_def split: if_splits)
  have "0 \<le> rnd (x / 100)" "rnd (x / 100) \<le> rnd 1" using x by (auto intro: rnd_nonneg rnd_mono)
  then have y: "fl (x / 100) = Fin (rnd (x / 100))" "0 \<le> rnd (x / 100)" "rnd (x / 100) \<le> 1"
    using rnd_of_int [of 1] by (simp_all add: fl_def Let_def)
  then have "rnd 1 \<le> rnd (1 + rnd (x / 100))" "rnd (1 + rnd (x / 100)) \<le> rnd 2" by (auto intro: rnd_mono)
  then obtain k where k: "js_add (num_int 1) (js_div markup (num_int 100)) = Fin k" "1 \<le> k"
    using rnd_of_int [of 1] rnd_of_int [of 2] y by (simp add: x fl_def [of "1 + _"] Let_def)
  have a: "amount c" using c(1) by (rule estimate_amount)
  then show ?thesis unfolding c(2,3) k(1) using k(2) by (intro amount_round amount_le_mul amount_mul) simp_all
qed


end
