(* ===== verification/Witness.thy ===== *)
theory Witness
  imports JsValue Payment
begin

text \<open>
  Verifying the platform's signed record of a job without a daemon, \<open>src/identity/witness-verify.ts\<close>: the bytes that are hashed, and
  the count of the signer's addresses whose signature is valid. JCS, UTF-8, SHA-256, base58, base64 and the signature blob of
  \<open>@bitgo/utxo-lib\<close> are the functions of a record.
\<close>

section \<open>Parameters\<close>

record sig_blob =
  sb_version :: nat
  sb_height :: nat
  sb_count :: nat

text \<open>
  \<open>wl_blob\<close> is \<open>fromBuffer\<close> on the decoded bytes, with the chain and the identity; \<open>wl_check\<close> is \<open>verifyHashOffline\<close>, one truth value
  for each embedded signature.
\<close>

record witness_lib =
  wl_jcs :: "jv \<Rightarrow> (string, string) result"
  wl_utf8 :: "string \<Rightarrow> nat list"
  wl_sha256 :: "nat list \<Rightarrow> nat list"
  wl_from58 :: "jv \<Rightarrow> (string, nat list) result"
  wl_base64 :: "jv \<Rightarrow> (string, nat list) result"
  wl_blob :: "nat list \<Rightarrow> string \<Rightarrow> jv \<Rightarrow> (string, sig_blob) result"
  wl_check :: "sig_blob \<Rightarrow> nat list \<Rightarrow> jv \<Rightarrow> (string, bool list) result"

datatype witness_reason = UnsupportedAlgorithm | MalformedSignature | UnsupportedVersion | NoSignatures | HeightMismatch
  | NoSignerAddresses | Insufficient nat jsnum | Errored string

section \<open>What is hashed\<close>

fun CHAIN_ID :: "network \<Rightarrow> string" where
  "CHAIN_ID Verustest = ''iJhCezBExJHvtyH3fGhNnt2NhU4Ztkf2yq''"
| "CHAIN_ID Verus = ''i5w5MuNik5NtLcYmNzcvaoixooEebB6MGV''"

fun le_bytes :: "nat \<Rightarrow> nat \<Rightarrow> nat list" where
  "le_bytes 0 n = []"
| "le_bytes (Suc k) n = n mod 256 # le_bytes k (n div 256)"

definition varSlice :: "nat list \<Rightarrow> nat list" where
  "varSlice bs = (let n = length bs in
     if n < 0xfd then n # bs
     else if n \<le> 0xffff then 0xfd # le_bytes 2 n @ bs
     else 0xfe # le_bytes 4 n @ bs)"

definition SIGNATURE_PREFIX :: string where
  "SIGNATURE_PREFIX = ''Verus signed data:'' @ [char_of (10 :: nat)]"

definition PREFIX_VARSLICE :: "nat list" where
  "PREFIX_VARSLICE = varSlice (map of_char SIGNATURE_PREFIX)"

definition jcsDatahash :: "witness_lib \<Rightarrow> jv \<Rightarrow> (string, nat list) result" where
  "jcsDatahash lib r = bind_r (wl_jcs lib r) (\<lambda>t. Inr (wl_sha256 lib (wl_utf8 lib t)))"

definition bound_bytes :: "nat list \<Rightarrow> nat list \<Rightarrow> nat \<Rightarrow> nat list \<Rightarrow> nat list" where
  "bound_bytes chain ident height datahash = chain @ le_bytes 4 height @ ident @ PREFIX_VARSLICE @ datahash"

text \<open>\<open>writeUInt32LE\<close> throws for a height that does not fit.\<close>

definition boundHash :: "witness_lib \<Rightarrow> string \<Rightarrow> jv \<Rightarrow> nat \<Rightarrow> nat list \<Rightarrow> (string, nat list) result" where
  "boundHash lib chain ident height datahash =
     bind_r (wl_from58 lib (JStr chain)) (\<lambda>c.
     bind_r (wl_from58 lib ident) (\<lambda>i.
     if height < 2 ^ 32 then Inr (wl_sha256 lib (bound_bytes c i height datahash)) else Inl ''range''))"

section \<open>The verification\<close>

definition primary_addresses :: "jv \<Rightarrow> jv list" where
  "primary_addresses keys = arr_of (jget keys ''primaryAddresses'')"

definition min_sigs :: "jv \<Rightarrow> jsnum" where
  "min_sigs keys = (let m = jget keys ''minimumSignatures'' in
     if is_number m \<and> js_lt (num_int 0) (num_of m) then num_of m else num_int 1)"

fun match_addresses :: "witness_lib \<Rightarrow> sig_blob \<Rightarrow> nat list \<Rightarrow> jv list \<Rightarrow> jv list \<Rightarrow> (string, jv list) result" where
  "match_addresses lib b h [] matched = Inr matched"
| "match_addresses lib b h (ad # ads) matched = (case wl_check lib b h ad of
     Inl e \<Rightarrow> Inl e
   | Inr rs \<Rightarrow> match_addresses lib b h ads (if True \<in> set rs then set_add matched ad else matched))"

definition lift_err :: "(string, 'a) result \<Rightarrow> (witness_reason, 'a) result" where
  "lift_err r = (case r of Inl e \<Rightarrow> Inl (Errored e) | Inr x \<Rightarrow> Inr x)"

definition check_blob :: "sig_blob \<Rightarrow> jv \<Rightarrow> (witness_reason, unit) result" where
  "check_blob b w =
     (if sb_version b \<noteq> 2 then Inl UnsupportedVersion
      else if sb_count b = 0 then Inl NoSignatures
      else if is_number (jget w ''signatureHeight'') \<and> jget w ''signatureHeight'' \<noteq> JNum (num_int (int (sb_height b)))
      then Inl HeightMismatch
      else Inr ())"

definition count_signers :: "witness_lib \<Rightarrow> network \<Rightarrow> sig_blob \<Rightarrow> jv \<Rightarrow> nat list \<Rightarrow> jv \<Rightarrow> (witness_reason, unit) result" where
  "count_signers lib net b keys datahash signedBy =
     (if primary_addresses keys = [] then Inl NoSignerAddresses
      else bind_r (lift_err (boundHash lib (CHAIN_ID net) signedBy (sb_height b) datahash)) (\<lambda>h.
        bind_r (lift_err (match_addresses lib b h (primary_addresses keys) [])) (\<lambda>matched.
        if js_le (min_sigs keys) (num_int (int (length matched))) then Inr ()
        else Inl (Insufficient (length matched) (min_sigs keys)))))"

text \<open>\<open>Inr ()\<close> stands for \<open>{verified: true}\<close>; \<open>get\<close> is \<open>client.getIdentityKeys\<close>.\<close>

definition verifyWitness :: "witness_lib \<Rightarrow> (jv \<Rightarrow> (string, jv) result) \<Rightarrow> network \<Rightarrow> jv \<Rightarrow> jv \<Rightarrow> (witness_reason, unit) result" where
  "verifyWitness lib get net r w =
     (if nullish w then Inl (Errored ''type'')
      else if jget w ''algorithm'' \<noteq> JStr ''verusid-signdata-sha256'' then Inl UnsupportedAlgorithm
      else bind_r (lift_err (jcsDatahash lib r)) (\<lambda>datahash.
        case wl_base64 lib (jget w ''signature'') of
          Inl _ \<Rightarrow> Inl MalformedSignature
        | Inr bytes \<Rightarrow>
            bind_r (lift_err (wl_blob lib bytes (CHAIN_ID net) (jget w ''signedBy''))) (\<lambda>b.
            bind_r (check_blob b w) (\<lambda>_.
            bind_r (lift_err (get (jget w ''signedBy''))) (\<lambda>keys.
            count_signers lib net b keys datahash (jget w ''signedBy''))))))"

section \<open>What verified means\<close>

lemma lift_err_simps [simp]: "lift_err (Inl e) = Inl (Errored e)" "lift_err (Inr x) = Inr x" "lift_err r = Inr x \<longleftrightarrow> r = Inr x"
  by (auto simp: lift_err_def split: sum.split)

definition signs :: "witness_lib \<Rightarrow> sig_blob \<Rightarrow> nat list \<Rightarrow> jv \<Rightarrow> bool" where
  "signs lib b h ad = (case wl_check lib b h ad of Inl _ \<Rightarrow> False | Inr rs \<Rightarrow> True \<in> set rs)"

lemma match_addresses_spec:
  "match_addresses lib b h ads matched = Inr out \<Longrightarrow> distinct matched \<Longrightarrow>
     distinct out \<and> set out = set matched \<union> {ad \<in> set ads. signs lib b h ad}"
proof (induction lib b h ads matched rule: match_addresses.induct)
  case (2 lib b h ad ads matched)
  then obtain rs where rs: "wl_check lib b h ad = Inr rs" by (auto split: sum.splits)
  let ?m = "if True \<in> set rs then set_add matched ad else matched"
  have "match_addresses lib b h ads ?m = Inr out" using 2(2) rs by simp
  moreover have "distinct ?m" using 2(3) by simp
  ultimately have "distinct out \<and> set out = set ?m \<union> {ad \<in> set ads. signs lib b h ad}" by (rule 2(1) [OF rs])
  moreover have "signs lib b h ad = (True \<in> set rs)" by (simp add: signs_def rs)
  ultimately show ?case by auto
qed auto

text \<open>
  The contract: the blob is of the right version and carries signatures, the height agrees with the one that is claimed, and as many
  distinct on-chain addresses of the signer as its identity asks for signed the hash of this record, for this network, at
  this height, by this identity.
\<close>

definition attested :: "witness_lib \<Rightarrow> (jv \<Rightarrow> (string, jv) result) \<Rightarrow> network \<Rightarrow> jv \<Rightarrow> jv \<Rightarrow> bool" where
  "attested lib get net r w = (\<exists>t bytes b keys c i signers.
     wl_jcs lib r = Inr t \<and> wl_base64 lib (jget w ''signature'') = Inr bytes
     \<and> wl_blob lib bytes (CHAIN_ID net) (jget w ''signedBy'') = Inr b \<and> sb_version b = 2 \<and> 0 < sb_count b \<and> sb_height b < 2 ^ 32
     \<and> (\<forall>n. jget w ''signatureHeight'' = JNum n \<longrightarrow> n = num_int (int (sb_height b)))
     \<and> get (jget w ''signedBy'') = Inr keys
     \<and> wl_from58 lib (JStr (CHAIN_ID net)) = Inr c \<and> wl_from58 lib (jget w ''signedBy'') = Inr i
     \<and> signers \<subseteq> set (primary_addresses keys) \<and> signers \<noteq> {} \<and> js_le (min_sigs keys) (num_int (int (card signers)))
     \<and> (\<forall>ad \<in> signers. signs lib b
          (wl_sha256 lib (bound_bytes c i (sb_height b) (wl_sha256 lib (wl_utf8 lib t)))) ad))"

lemma min_sigs_positive: "\<not> js_le (min_sigs keys) (num_int 0)"
  by (cases "num_of (jget keys ''minimumSignatures'')") (auto simp: min_sigs_def Let_def)

lemma check_blob_ok:
  "check_blob b w = Inr () \<longleftrightarrow> sb_version b = 2 \<and> 0 < sb_count b
     \<and> (\<forall>n. jget w ''signatureHeight'' = JNum n \<longrightarrow> n = num_int (int (sb_height b)))"
  by (cases "jget w ''signatureHeight''") (auto simp: check_blob_def)

lemma boundHash_ok:
  "boundHash lib ch ident n dh = Inr h \<Longrightarrow> \<exists>c i. wl_from58 lib (JStr ch) = Inr c \<and> wl_from58 lib ident = Inr i \<and> n < 2 ^ 32
     \<and> h = wl_sha256 lib (bound_bytes c i n dh)"
  by (auto simp: boundHash_def bind_r_eq_Inr simp del: power_numeral split: if_splits)

lemma jcsDatahash_ok: "jcsDatahash lib r = Inr dh \<Longrightarrow> \<exists>t. wl_jcs lib r = Inr t \<and> dh = wl_sha256 lib (wl_utf8 lib t)"
  by (auto simp: jcsDatahash_def bind_r_eq_Inr)

lemma count_signers_ok:
  "count_signers lib net b keys dh sb = Inr u \<Longrightarrow> \<exists>h matched. boundHash lib (CHAIN_ID net) sb (sb_height b) dh = Inr h
     \<and> match_addresses lib b h (primary_addresses keys) [] = Inr matched \<and> js_le (min_sigs keys) (num_int (int (length matched)))"
  by (auto simp: count_signers_def bind_r_eq_Inr split: if_splits)

lemma verifyWitness_ok:
  "verifyWitness lib get net r w = Inr u \<Longrightarrow> \<exists>dh bytes b keys. jcsDatahash lib r = Inr dh \<and> wl_base64 lib (jget w ''signature'') = Inr bytes
     \<and> wl_blob lib bytes (CHAIN_ID net) (jget w ''signedBy'') = Inr b \<and> check_blob b w = Inr ()
     \<and> get (jget w ''signedBy'') = Inr keys \<and> count_signers lib net b keys dh (jget w ''signedBy'') = Inr ()"
  by (cases "wl_base64 lib (jget w ''signature'')") (auto simp: verifyWitness_def bind_r_eq_Inr split: if_splits)

text \<open>
  C13. A witness is reported as verified only when the contract holds: enough distinct on-chain addresses of the signer signed
  this very record at this height; a repeated address counts once, and a threshold of zero counts as one.
\<close>

theorem verified_attested:
  assumes "verifyWitness lib get net r w = Inr ()"
  shows "attested lib get net r w"
proof -
  obtain dh bytes b keys where v: "jcsDatahash lib r = Inr dh" "wl_base64 lib (jget w ''signature'') = Inr bytes"
      "wl_blob lib bytes (CHAIN_ID net) (jget w ''signedBy'') = Inr b" "check_blob b w = Inr ()"
      "get (jget w ''signedBy'') = Inr keys" "count_signers lib net b keys dh (jget w ''signedBy'') = Inr ()"
    using verifyWitness_ok [OF assms] by blast
  obtain t where t: "wl_jcs lib r = Inr t" "dh = wl_sha256 lib (wl_utf8 lib t)"
    using jcsDatahash_ok [OF v(1)] by blast
  obtain h matched where m: "boundHash lib (CHAIN_ID net) (jget w ''signedBy'') (sb_height b) dh = Inr h"
      "match_addresses lib b h (primary_addresses keys) [] = Inr matched" "js_le (min_sigs keys) (num_int (int (length matched)))"
    using count_signers_ok [OF v(6)] by blast
  obtain c i where c: "wl_from58 lib (JStr (CHAIN_ID net)) = Inr c" "wl_from58 lib (jget w ''signedBy'') = Inr i" "sb_height b < 2 ^ 32"
      "h = wl_sha256 lib (bound_bytes c i (sb_height b) dh)"
    using boundHash_ok [OF m(1)] by blast
  from match_addresses_spec [OF m(2)] have d: "distinct matched"
    and s: "set matched = {ad \<in> set (primary_addresses keys). signs lib b h ad}"
    by auto
  have "matched \<noteq> []" using m(3) min_sigs_positive [of keys] by auto
  moreover have "js_le (min_sigs keys) (num_int (int (card (set matched))))" using m(3) distinct_card [OF d] by simp
  moreover have "set matched \<subseteq> set (primary_addresses keys)" "\<forall>ad \<in> set matched. signs lib b h ad" using s by auto
  ultimately show ?thesis
    unfolding attested_def using v(2-5) t c check_blob_ok [of b w]
    by (intro exI [of _ t] exI [of _ bytes] exI [of _ b] exI [of _ keys] exI [of _ c] exI [of _ i] exI [of _ "set matched"]) simp
qed

definition demo_witness_lib :: witness_lib where
  "demo_witness_lib = \<lparr>wl_jcs = (\<lambda>_. Inr ''r''), wl_utf8 = map of_char, wl_sha256 = (\<lambda>b. b), wl_from58 = (\<lambda>_. Inr (replicate 20 7)),
     wl_base64 = (\<lambda>_. Inr [1]), wl_blob = (\<lambda>_ _ _. Inr \<lparr>sb_version = 2, sb_height = 5, sb_count = 1\<rparr>),
     wl_check = (\<lambda>_ _ ad. Inr [ad \<noteq> JStr ''Rc''])\<rparr>"

definition demo_keys :: jv where
  "demo_keys = JObj [(''primaryAddresses'', JArr [JStr ''Ra'', JStr ''Rb'', JStr ''Rc'', JStr ''Ra'']), (''minimumSignatures'', JNum (num_int 2))]"

definition demo_witness :: jv where
  "demo_witness = JObj [(''algorithm'', JStr ''verusid-signdata-sha256''), (''signature'', JStr ''Ag''), (''signedBy'', JStr ''iP''),
     (''signatureHeight'', JNum (num_int 5))]"

lemmas witness_eval = verifyWitness_def demo_witness_lib_def demo_witness_def nullish_def jcsDatahash_def check_blob_def
  count_signers_def boundHash_def primary_addresses_def min_sigs_def Let_def set_add_def

lemma demo_verified: "verifyWitness demo_witness_lib (\<lambda>_. Inr demo_keys) Verustest (JObj []) demo_witness = Inr ()"
  by (simp add: witness_eval demo_keys_def)

theorem verified_attested_witness: "attested demo_witness_lib (\<lambda>_. Inr demo_keys) Verustest (JObj []) demo_witness"
  using verified_attested [OF demo_verified] by simp

text \<open>An address that is listed twice does not count twice.\<close>

lemma repeated_address_counts_once:
  "verifyWitness demo_witness_lib (\<lambda>_. Inr (JObj [(''primaryAddresses'', JArr [JStr ''Ra'', JStr ''Ra'']), (''minimumSignatures'', JNum (num_int 2))]))
     Verustest (JObj []) demo_witness = Inl (Insufficient 1 (num_int 2))"
  by (simp add: witness_eval)

text \<open>A height that is not a number is not compared with the one in the signature.\<close>

lemma height_unchecked:
  "check_blob \<lparr>sb_version = 2, sb_height = h, sb_count = 1\<rparr> (JObj [(''signatureHeight'', JStr s)]) = Inr ()"
  by (simp add: check_blob_def)

section \<open>The bytes say what was signed\<close>

lemma le_bytes_length [simp]: "length (le_bytes k n) = k"
  by (induction k arbitrary: n) auto

lemma le_bytes_inj: "m < 256 ^ k \<Longrightarrow> n < 256 ^ k \<Longrightarrow> le_bytes k m = le_bytes k n \<Longrightarrow> m = n"
proof (induction k arbitrary: m n)
  case (Suc k)
  then have "m div 256 = n div 256" "m mod 256 = n mod 256"
    by (auto intro: Suc.IH simp: less_mult_imp_div_less mult.commute)
  then show ?case by (metis div_mult_mod_eq)
qed simp

text \<open>
  Records, networks, identities and heights do not run into each other: the bytes hashed for two witnesses are equal only when
  the chain, the identity, the height and the record's hash are, so a signature for one says nothing of another.
\<close>

theorem bound_bytes_inj:
  assumes "bound_bytes c i n d = bound_bytes c' i' n' d'"
    and "length c = 20" "length c' = 20" "length i = 20" "length i' = 20" "n < 2 ^ 32" "n' < 2 ^ 32"
  shows "c = c' \<and> i = i' \<and> n = n' \<and> d = d'"
proof -
  have "c = c'" "le_bytes 4 n = le_bytes 4 n'" "i = i'" "d = d'"
    using assms(1-5) by (auto simp: bound_bytes_def)
  moreover from this(2) have "n = n'"
    by (rule le_bytes_inj [rotated 2]) (use assms(6,7) in simp_all)
  ultimately show ?thesis by simp
qed

text \<open>The prefix is the one the daemon uses: its length, nineteen, before the text.\<close>

lemma prefix_bytes: "PREFIX_VARSLICE = [19, 86, 101, 114, 117, 115, 32, 115, 105, 103, 110, 101, 100, 32, 100, 97, 116, 97, 58, 10]"
  by code_simp

end
