(* ===== verification/Envelope.thy ===== *)
theory Envelope
  imports JsValue Messages
begin

text \<open>
  The encrypted exchange of an API key, \<open>src/crypto/envelope.ts\<close>: hex, the signed access request,
  minting an envelope, authenticating and opening it, and verifying a request with the caller's
  replay store. The curve, HKDF, AES-GCM, base64, base58 and UTF-8 codecs, the message signature
  and its verification, JSON text, printing a number and \<open>Date.parse\<close> are the functions of the record
  \<open>cryptolib\<close>; random bytes and the clock are arguments. Wiping a buffer has no effect here.
\<close>

type_synonym bytes = "nat list"

record cryptolib =
  ec_pub :: "bytes \<Rightarrow> bytes"
  ec_shared :: "bytes \<Rightarrow> bytes \<Rightarrow> (string, bytes) result"
  hkdf32 :: "bytes \<Rightarrow> bytes \<Rightarrow> string \<Rightarrow> bytes"
  gcm_enc :: "bytes \<Rightarrow> bytes \<Rightarrow> bytes \<Rightarrow> bytes \<times> bytes"
  gcm_dec :: "bytes \<Rightarrow> bytes \<Rightarrow> bytes \<Rightarrow> bytes \<Rightarrow> (string, bytes) result"
  b64_enc :: "bytes \<Rightarrow> string"
  b64_dec :: "string \<Rightarrow> bytes"
  utf8_enc :: "string \<Rightarrow> bytes"
  utf8_dec :: "bytes \<Rightarrow> string"
  b58_dec :: "string \<Rightarrow> (string, bytes) result"
  key_address :: "string \<Rightarrow> (string, string) result"
  sign_msg :: "string \<Rightarrow> string \<Rightarrow> string"
  verify_msg :: "string \<Rightarrow> jv \<Rightarrow> string \<Rightarrow> bool"
  stringify :: "jv \<Rightarrow> string"
  parse_json :: "string \<Rightarrow> jv option"
  num_str :: "jsnum \<Rightarrow> string"
  date_ms :: "string \<Rightarrow> jsnum"

datatype env_error =
    NoContext
  | NotAuthentic
  | NoAddresses
  | InvalidNonce
  | InvalidWif nat
  | LibFailed string
  | ClientFailed jv
  | BadPayload

definition HKDF_INFO :: string where "HKDF_INFO = ''j41-key-envelope-v1''"

definition DEFAULT_MAX_AGE_SECONDS :: jsnum where "DEFAULT_MAX_AGE_SECONDS = num_int 300"

section \<open>Hex\<close>

definition hex_val :: "char \<Rightarrow> nat" where
  "hex_val c = (let n = of_char c in if n \<le> 57 then n - 48 else if n \<le> 70 then n - 55 else n - 87)"

text \<open>
  \<open>parseInt(s, 16)\<close>: white space, a sign, an optional \<open>0x\<close>, then the longest run of hex digits;
  \<open>None\<close> stands for NaN.
\<close>

definition parse_int16 :: "string \<Rightarrow> int option" where
  "parse_int16 s =
     (let t = dropWhile is_space s;
          neg = (t \<noteq> [] \<and> hd t = CHR ''-'');
          u = (if t \<noteq> [] \<and> (hd t = CHR ''-'' \<or> hd t = CHR ''+'') then tl t else t);
          v = (if starts_with u ''0x'' \<or> starts_with u ''0X'' then drop 2 u else u);
          ds = takeWhile is_hex v in
      if ds = [] then None
      else let n = foldl (\<lambda>a c. 16 * a + int (hex_val c)) 0 ds in Some (if neg then - n else n))"

text \<open>A store into a \<open>Uint8Array\<close>: modulo 256, NaN as 0.\<close>

definition to_byte :: "int option \<Rightarrow> nat" where
  "to_byte v = (case v of None \<Rightarrow> 0 | Some n \<Rightarrow> nat (n mod 256))"

definition hexToBytes :: "string \<Rightarrow> bytes" where
  "hexToBytes hex = map (\<lambda>i. to_byte (parse_int16 (take 2 (drop (i * 2) hex)))) [0..<length hex div 2]"

definition hex_char :: "nat \<Rightarrow> char" where
  "hex_char d = (if d < 10 then char_of (48 + d) else char_of (87 + d))"

text \<open>\<open>b.toString(16).padStart(2, '0')\<close> of a byte.\<close>

definition byte_hex :: "nat \<Rightarrow> string" where
  "byte_hex b = [hex_char (b div 16), hex_char (b mod 16)]"

definition bytesToHex :: "bytes \<Rightarrow> string" where
  "bytesToHex bs = concat (map byte_hex bs)"

section \<open>Requests and envelopes\<close>

record access_request =
  ar_buyer :: string
  ar_seller :: string
  ar_ephPub :: string
  ar_nonce :: string
  ar_timestamp :: jsnum
  ar_signature :: string

record access_envelope =
  ae_ciphertext :: string
  ae_iv :: string
  ae_authTag :: string
  ae_ephPub :: string
  ae_signature :: string
  ae_expiresAt :: string
  ae_timestamp :: jsnum

definition lib_e :: "(string, 'a) result \<Rightarrow> (env_error, 'a) result" where
  "lib_e r = (case r of Inl e \<Rightarrow> Inl (LibFailed e) | Inr a \<Rightarrow> Inr a)"

definition wifToPrivateKey :: "cryptolib \<Rightarrow> string \<Rightarrow> (env_error, bytes) result" where
  "wifToPrivateKey lib wif = bind_r (lib_e (b58_dec lib wif)) (\<lambda>decoded.
     if length decoded \<noteq> 33 \<and> length decoded \<noteq> 34 then Inl (InvalidWif (length decoded))
     else Inr (take 32 (drop 1 decoded)))"

definition request_message :: "cryptolib \<Rightarrow> access_request \<Rightarrow> string" where
  "request_message lib r = ''J41-ACCESS-REQUEST|Buyer:'' @ ar_buyer r @ ''|Seller:'' @ ar_seller r @ ''|EphPub:'' @ ar_ephPub r
     @ ''|Nonce:'' @ ar_nonce r @ ''|Ts:'' @ num_str lib (ar_timestamp r)"

definition envelope_message :: "cryptolib \<Rightarrow> access_envelope \<Rightarrow> string" where
  "envelope_message lib e = ''J41-ACCESS-ENVELOPE|Cipher:'' @ ae_ciphertext e @ ''|IV:'' @ ae_iv e @ ''|Tag:'' @ ae_authTag e
     @ ''|DispPub:'' @ ae_ephPub e @ ''|Ts:'' @ num_str lib (ae_timestamp e) @ ''|Expires:'' @ ae_expiresAt e"

definition buildAccessRequest :: "cryptolib \<Rightarrow> string \<Rightarrow> string \<Rightarrow> bytes \<Rightarrow> bytes \<Rightarrow> jsnum \<Rightarrow> (env_error, access_request) result" where
  "buildAccessRequest lib buyerWif seller ephPub nonce now =
     bind_r (lib_e (key_address lib buyerWif)) (\<lambda>buyer.
     let r = \<lparr>ar_buyer = buyer, ar_seller = seller, ar_ephPub = bytesToHex ephPub, ar_nonce = bytesToHex nonce,
              ar_timestamp = now, ar_signature = []\<rparr> in
     Inr (r\<lparr>ar_signature := sign_msg lib buyerWif (request_message lib r)\<rparr>))"

text \<open>The key both sides derive: HKDF of the x-coordinate of the shared point.\<close>

definition aes_key :: "cryptolib \<Rightarrow> bytes \<Rightarrow> string \<Rightarrow> string \<Rightarrow> (env_error, bytes) result" where
  "aes_key lib priv pubHex nonceHex = bind_r (lib_e (ec_shared lib priv (hexToBytes pubHex))) (\<lambda>point.
     Inr (hkdf32 lib (take 32 (drop 1 point)) (hexToBytes nonceHex) HKDF_INFO))"

definition mintAccessEnvelope ::
  "cryptolib \<Rightarrow> access_request \<Rightarrow> string \<Rightarrow> jv \<Rightarrow> bytes \<Rightarrow> jsnum \<Rightarrow> (env_error, access_envelope) result" where
  "mintAccessEnvelope lib request wif payload iv now =
     bind_r (wifToPrivateKey lib wif) (\<lambda>priv.
     bind_r (aes_key lib priv (ar_ephPub request) (ar_nonce request)) (\<lambda>key.
     let (encrypted, authTag) = gcm_enc lib key iv (utf8_enc lib (stringify lib payload));
         e = \<lparr>ae_ciphertext = b64_enc lib encrypted, ae_iv = bytesToHex iv, ae_authTag = bytesToHex authTag,
              ae_ephPub = bytesToHex (ec_pub lib priv), ae_signature = [], ae_expiresAt = str_of (jget payload ''expiresAt''),
              ae_timestamp = now\<rparr> in
     Inr (e\<lparr>ae_signature := sign_msg lib wif (envelope_message lib e)\<rparr>)))"

section \<open>Resolving a signer's addresses\<close>

record key_client =
  ck_keys :: "(string \<Rightarrow> (jv, jv) result) option"
  ck_agent :: "string \<Rightarrow> (jv, jv) result"

definition first_of :: "jv \<Rightarrow> jv" where
  "first_of v = (case v of JArr (x # _) \<Rightarrow> x | JStr (c # _) \<Rightarrow> JStr [c] | _ \<Rightarrow> JUndef)"

definition keys_addresses :: "(string \<Rightarrow> (jv, jv) result) \<Rightarrow> string \<Rightarrow> jv list" where
  "keys_addresses f i = (case f i of Inl _ \<Rightarrow> []
     | Inr keys \<Rightarrow> if is_array (jget keys ''primaryAddresses'') then arr_of (jget keys ''primaryAddresses'') else [])"

definition agent_address :: "jv \<Rightarrow> jv list" where
  "agent_address agent =
     (let a = first_of (jget agent ''primaryAddresses''); b = first_of (jget agent ''primaryaddresses''); c = jget agent ''address'';
          r = (if jtruthy a then a else if jtruthy b then b else c) in
      if jtruthy r then [r] else [])"

definition seller_addresses :: "key_client \<Rightarrow> string \<Rightarrow> (env_error, jv list) result" where
  "seller_addresses client i = (case ck_keys client of
       Some f \<Rightarrow> Inr (keys_addresses f i)
     | None \<Rightarrow> (case ck_agent client i of
           Inl e \<Rightarrow> Inl (ClientFailed e)
         | Inr agent \<Rightarrow> if agent = JUndef \<or> agent = JNull then Inl (ClientFailed JUndef) else Inr (agent_address agent)))"

definition buyer_addresses :: "key_client \<Rightarrow> string \<Rightarrow> jv list" where
  "buyer_addresses client i =
     (if starts_with i ''i'' \<and> length i > 30
      then let as = (case ck_keys client of Some f \<Rightarrow> keys_addresses f i
                     | None \<Rightarrow> (case ck_agent client i of Inl _ \<Rightarrow> [] | Inr agent \<Rightarrow> agent_address agent)) in
           if as = [] then [JStr i] else as
      else [JStr i])"

section \<open>Verifying and opening\<close>

definition verifyAccessEnvelope ::
  "cryptolib \<Rightarrow> access_envelope \<Rightarrow> key_client \<Rightarrow> string \<Rightarrow> jsnum \<Rightarrow> jsnum \<Rightarrow> (env_error, bool) result" where
  "verifyAccessEnvelope lib e client seller now maxAge =
     (let expiresMs = date_ms lib (ae_expiresAt e) in
      if \<not> is_finite expiresMs \<or> js_le expiresMs (js_mul now (num_int 1000)) then Inr False
      else if \<not> is_finite (ae_timestamp e) \<or> js_lt maxAge (js_sub (ae_timestamp e) now) then Inr False
      else bind_r (seller_addresses client seller) (\<lambda>as.
      if as = [] then Inl NoAddresses
      else Inr (\<exists>a \<in> set as. verify_msg lib (envelope_message lib e) a (ae_signature e))))"

definition valid_nonce :: "string \<Rightarrow> bool" where
  "valid_nonce n = (length n = 32 \<and> list_all is_hex n)"

definition decryptEnvelope :: "cryptolib \<Rightarrow> access_envelope \<Rightarrow> bytes \<Rightarrow> string \<Rightarrow> (env_error, jv) result" where
  "decryptEnvelope lib e ephPriv nonce =
     (if \<not> valid_nonce nonce then Inl InvalidNonce
      else bind_r (aes_key lib ephPriv (ae_ephPub e) nonce) (\<lambda>key.
      bind_r (lib_e (gcm_dec lib key (hexToBytes (ae_iv e)) (hexToBytes (ae_authTag e)) (b64_dec lib (ae_ciphertext e)))) (\<lambda>plain.
      case parse_json lib (utf8_dec lib plain) of Some v \<Rightarrow> Inr v | None \<Rightarrow> Inl BadPayload)))"

record open_context =
  oc_client :: "key_client option"
  oc_seller :: string
  oc_now :: jsnum
  oc_maxAge :: jsnum

definition openAccessEnvelope :: "cryptolib \<Rightarrow> access_envelope \<Rightarrow> bytes \<Rightarrow> string \<Rightarrow> open_context option \<Rightarrow> (env_error, jv) result" where
  "openAccessEnvelope lib e ephPriv nonce ctx =
     (case ctx of None \<Rightarrow> Inl NoContext
      | Some c \<Rightarrow> (case oc_client c of None \<Rightarrow> Inl NoContext
          | Some client \<Rightarrow>
              if oc_seller c = [] then Inl NoContext
              else bind_r (verifyAccessEnvelope lib e client (oc_seller c) (oc_now c) (oc_maxAge c)) (\<lambda>authentic.
                if \<not> authentic then Inl NotAuthentic else decryptEnvelope lib e ephPriv nonce)))"

fun js_abs :: "jsnum \<Rightarrow> jsnum" where
  "js_abs (Fin q) = Fin \<bar>q\<bar>"
| "js_abs NaN = NaN"
| "js_abs PInf = PInf"
| "js_abs NInf = PInf"

text \<open>
  \<open>isReplay\<close> reads and may update a store of the caller's: a function on that store. A request that
  fails before it leaves the store alone.
\<close>

definition verifyAccessRequest ::
  "cryptolib \<Rightarrow> access_request \<Rightarrow> key_client \<Rightarrow> jsnum \<Rightarrow> jsnum \<Rightarrow> (string \<Rightarrow> 's \<Rightarrow> bool \<times> 's) option \<Rightarrow> 's \<Rightarrow> bool \<times> 's" where
  "verifyAccessRequest lib r client now maxAge isReplay s =
     (if \<not> is_finite (ar_timestamp r) \<or> js_lt maxAge (js_abs (js_sub now (ar_timestamp r))) then (False, s)
      else if \<not> (\<exists>a \<in> set (buyer_addresses client (ar_buyer r)). verify_msg lib (request_message lib r) a (ar_signature r))
      then (False, s)
      else case isReplay of
        None \<Rightarrow> (True, s)
      | Some f \<Rightarrow> (case f (ar_nonce r) s of (seen, s') \<Rightarrow> (\<not> seen, s')))"

section \<open>Hex round trip\<close>

lemma of_hex_char: "d < 16 \<Longrightarrow> (of_char (hex_char d) :: nat) = (if d < 10 then 48 + d else 87 + d)"
  by (simp add: hex_char_def)

lemma hex_char_facts:
  assumes "d < 16"
  shows "hex_val (hex_char d) = d" "is_hex (hex_char d)" "\<not> is_space (hex_char d)"
    "hex_char d \<noteq> CHR ''-''" "hex_char d \<noteq> CHR ''+''" "hex_char d \<noteq> CHR ''x''" "hex_char d \<noteq> CHR ''X''" "hex_char d \<noteq> CHR ''|''"
proof -
  show "hex_val (hex_char d) = d" "is_hex (hex_char d)" "\<not> is_space (hex_char d)"
    using assms by (auto simp: hex_val_def of_hex_char is_hex_def is_digit_def is_space_def Let_def)
  have n: "hex_char d \<noteq> c" if c: "(of_char c :: nat) \<notin> {48..57} \<union> {97..102}" for c
    using c assms of_hex_char [OF assms] by (auto split: if_splits)
  show "hex_char d \<noteq> CHR ''-''" "hex_char d \<noteq> CHR ''+''" "hex_char d \<noteq> CHR ''x''" "hex_char d \<noteq> CHR ''X''" "hex_char d \<noteq> CHR ''|''"
    by (rule n; simp)+
qed

lemma parse_byte_hex: "b < 256 \<Longrightarrow> to_byte (parse_int16 (byte_hex b)) = b"
proof -
  assume b: "b < 256"
  then have d: "b div 16 < 16" "b mod 16 < 16" by auto
  have "to_byte (parse_int16 (byte_hex b)) = nat ((16 * int (b div 16) + int (b mod 16)) mod 256)"
    using hex_char_facts [OF d(1)] hex_char_facts [OF d(2)]
    by (simp add: parse_int16_def byte_hex_def to_byte_def starts_with_def Let_def)
  also have "16 * int (b div 16) + int (b mod 16) = int b" by presburger
  finally show ?thesis using b by simp
qed

lemma length_bytesToHex [simp]: "length (bytesToHex bs) = 2 * length bs"
  by (induction bs) (auto simp: bytesToHex_def byte_hex_def)

lemma take_bytesToHex: "i < length bs \<Longrightarrow> take 2 (drop (i * 2) (bytesToHex bs)) = byte_hex (bs ! i)"
proof (induction bs arbitrary: i)
  case (Cons b bs)
  have h: "bytesToHex (b # bs) = byte_hex b @ bytesToHex bs" by (simp add: bytesToHex_def)
  show ?case
  proof (cases i)
    case 0
    then show ?thesis by (simp add: h byte_hex_def)
  next
    case (Suc j)
    then show ?thesis using Cons by (simp add: h byte_hex_def)
  qed
qed simp

lemma hex_roundtrip: "list_all (\<lambda>b. b < 256) bs \<Longrightarrow> hexToBytes (bytesToHex bs) = bs"
  by (rule nth_equalityI) (simp_all add: hexToBytes_def take_bytesToHex parse_byte_hex list_all_length)

lemma bytesToHex_hex: "list_all (\<lambda>b. b < 256) bs \<Longrightarrow> list_all is_hex (bytesToHex bs)"
proof (induction bs)
  case (Cons b bs)
  then have "b div 16 < 16" "b mod 16 < 16" by auto
  with Cons show ?case by (simp add: bytesToHex_def byte_hex_def hex_char_facts)
qed (simp add: bytesToHex_def)

section \<open>The signed text determines the envelope\<close>

definition pipes :: "string \<Rightarrow> nat" where
  "pipes s = length (filter (\<lambda>c. c = CHR ''|'') s)"

lemma pipes_simps [simp]: "pipes [] = 0" "pipes (c # s) = (if c = CHR ''|'' then 1 else 0) + pipes s"
  "pipes (s @ t) = pipes s + pipes t"
  by (simp_all add: pipes_def)

lemma pipes_0: "pipes s = 0 \<longleftrightarrow> no_pipe s"
  by (auto simp: pipes_def no_pipe_def filter_empty_conv)

definition plain_fields :: "access_envelope \<Rightarrow> bool" where
  "plain_fields e = (no_pipe (ae_ciphertext e) \<and> no_pipe (ae_iv e) \<and> no_pipe (ae_authTag e) \<and> no_pipe (ae_ephPub e)
     \<and> no_pipe (ae_expiresAt e))"

definition plain_numbers :: "cryptolib \<Rightarrow> bool" where
  "plain_numbers lib = ((\<forall>n. no_pipe (num_str lib n)) \<and> inj (num_str lib))"

lemma envelope_message_inj:
  assumes "plain_numbers lib" "plain_fields e'" "envelope_message lib e = envelope_message lib e'"
  shows "e = e'\<lparr>ae_signature := ae_signature e\<rparr>"
proof -
  have n: "pipes (num_str lib n) = 0" for n using assms(1) by (simp add: plain_numbers_def pipes_0)
  have "pipes (envelope_message lib e) = pipes (envelope_message lib e')" using assms(3) by simp
  then have p: "plain_fields e"
    using assms(2) n by (auto simp: envelope_message_def plain_fields_def pipes_0 [symmetric])
  show ?thesis
    using assms p by (cases e; cases e')
      (simp add: envelope_message_def plain_fields_def plain_numbers_def pipe_front inj_eq)
qed

text \<open>
  C7. What opening returns is what the seller issued. \<open>signed\<close> is what the holder of an address has
  signed; a signature that verifies is one of those, and the seller signs envelope texts only for the
  envelopes it issued. Then an envelope that opens is, field for field, one that the seller issued
  (a relay that rewrites any field is refused before anything is decrypted), its key has not
  expired, and it is not dated further ahead than the window.
\<close>

theorem open_authentic:
  assumes "openAccessEnvelope lib e ephPriv nonce (Some c) = Inr payload"
    and "\<forall>m a sg. verify_msg lib m a sg \<longrightarrow> signed a m"
    and "\<forall>client as a m. oc_client c = Some client \<and> seller_addresses client (oc_seller c) = Inr as \<and> a \<in> set as \<and> signed a m
           \<and> starts_with m ''J41-ACCESS-ENVELOPE|'' \<longrightarrow> (\<exists>e'. issued e' \<and> plain_fields e' \<and> m = envelope_message lib e')"
    and "plain_numbers lib"
  shows "(\<exists>e'. issued e' \<and> e = e'\<lparr>ae_signature := ae_signature e\<rparr>)
    \<and> is_finite (date_ms lib (ae_expiresAt e)) \<and> \<not> js_le (date_ms lib (ae_expiresAt e)) (js_mul (oc_now c) (num_int 1000))
    \<and> \<not> js_lt (oc_maxAge c) (js_sub (ae_timestamp e) (oc_now c))
    \<and> decryptEnvelope lib e ephPriv nonce = Inr payload"
proof -
  obtain client where c: "oc_client c = Some client" "oc_seller c \<noteq> []"
    and v: "verifyAccessEnvelope lib e client (oc_seller c) (oc_now c) (oc_maxAge c) = Inr True"
    and d: "decryptEnvelope lib e ephPriv nonce = Inr payload"
    using assms(1) by (auto simp: openAccessEnvelope_def bind_r_eq_Inr split: option.splits if_splits)
  then obtain as x where a: "seller_addresses client (oc_seller c) = Inr as" "x \<in> set as"
      "verify_msg lib (envelope_message lib e) x (ae_signature e)"
    by (auto simp: verifyAccessEnvelope_def Let_def bind_r_eq_Inr split: if_splits)
  have "starts_with (envelope_message lib e) ''J41-ACCESS-ENVELOPE|''"
    by (simp add: envelope_message_def starts_with_def)
  with a assms(2,3) c obtain e' where e': "issued e'" "plain_fields e'" "envelope_message lib e = envelope_message lib e'"
    by metis
  from envelope_message_inj [OF assms(4) e'(2,3)] e'(1) d v show ?thesis
    by (auto simp: verifyAccessEnvelope_def Let_def split: if_splits)
qed

definition byte_list :: "bytes \<Rightarrow> bool" where
  "byte_list bs = list_all (\<lambda>b. b < 256) bs"

text \<open>What is used of the cryptography: ECDH agrees, AES-GCM and the codecs are undone by their inverses.\<close>

definition crypto_ok :: "cryptolib \<Rightarrow> bool" where
  "crypto_ok lib = ((\<forall>a b. ec_shared lib a (ec_pub lib b) = ec_shared lib b (ec_pub lib a))
     \<and> (\<forall>a b. \<exists>p. ec_shared lib a (ec_pub lib b) = Inr p)
     \<and> (\<forall>a. byte_list (ec_pub lib a))
     \<and> (\<forall>k iv pt. byte_list pt \<longrightarrow> gcm_dec lib k iv (snd (gcm_enc lib k iv pt)) (fst (gcm_enc lib k iv pt)) = Inr pt
          \<and> byte_list (fst (gcm_enc lib k iv pt)) \<and> byte_list (snd (gcm_enc lib k iv pt)))
     \<and> (\<forall>b. byte_list b \<longrightarrow> b64_dec lib (b64_enc lib b) = b)
     \<and> (\<forall>s. byte_list (utf8_enc lib s) \<and> utf8_dec lib (utf8_enc lib s) = s))"


section \<open>Replays\<close>

text \<open>A dispatcher that serves requests in order, each at its own time, with one store.\<close>

fun serve :: "cryptolib \<Rightarrow> key_client \<Rightarrow> jsnum \<Rightarrow> (string \<Rightarrow> 's \<Rightarrow> bool \<times> 's) \<Rightarrow> (access_request \<times> jsnum) list \<Rightarrow> 's \<Rightarrow> string list" where
  "serve lib client maxAge f [] s = []"
| "serve lib client maxAge f ((r, now) # rs) s =
     (case verifyAccessRequest lib r client now maxAge (Some f) s of
        (ok, s') \<Rightarrow> (if ok then [ar_nonce r] else []) @ serve lib client maxAge f rs s')"

definition recording :: "(string \<Rightarrow> 's \<Rightarrow> bool \<times> 's) \<Rightarrow> ('s \<Rightarrow> string set) \<Rightarrow> bool" where
  "recording f seen = (\<forall>n s. fst (f n s) = (n \<in> seen s) \<and> seen (snd (f n s)) = insert n (seen s))"

lemma verify_request_cases:
  assumes "recording f seen" "verifyAccessRequest lib r client now maxAge (Some f) s = (ok, s')"
  shows "seen s \<subseteq> seen s'" "ok \<Longrightarrow> ar_nonce r \<notin> seen s \<and> ar_nonce r \<in> seen s'"
proof -
  obtain b t where f: "f (ar_nonce r) s = (b, t)" by fastforce
  have "b = (ar_nonce r \<in> seen s)" "seen t = insert (ar_nonce r) (seen s)"
    using assms(1) f unfolding recording_def by (metis fst_conv snd_conv)+
  then show "seen s \<subseteq> seen s'" "ok \<Longrightarrow> ar_nonce r \<notin> seen s \<and> ar_nonce r \<in> seen s'"
    using assms(2) f by (auto simp: verifyAccessRequest_def split: if_splits)
qed

lemma serve_fresh:
  "recording f seen \<Longrightarrow> distinct (serve lib client maxAge f rs s) \<and> set (serve lib client maxAge f rs s) \<inter> seen s = {}"
proof (induction lib client maxAge f rs s rule: serve.induct)
  case (2 lib client maxAge f r now rs s)
  obtain ok s' where v: "verifyAccessRequest lib r client now maxAge (Some f) s = (ok, s')" by fastforce
  have "distinct (serve lib client maxAge f rs s') \<and> set (serve lib client maxAge f rs s') \<inter> seen s' = {}"
    by (rule 2(1) [OF v [symmetric] 2(2)])
  then show ?case using verify_request_cases [OF 2(2) v] by (auto simp: v)
qed simp

text \<open>
  C9. With a store that checks and records, no nonce is accepted twice in any sequence of requests, and
  junk cannot burn a nonce: a request without a signature of the buyer's leaves the store as it was.
\<close>

theorem no_replay:
  assumes "recording f seen"
  shows "distinct (serve lib client maxAge f rs s)
    \<and> (\<forall>r now. (\<forall>a \<in> set (buyer_addresses client (ar_buyer r)). \<not> verify_msg lib (request_message lib r) a (ar_signature r))
         \<longrightarrow> verifyAccessRequest lib r client now maxAge (Some f) s = (False, s))"
  using serve_fresh [OF assms] by (auto simp: verifyAccessRequest_def)

text \<open>An instance of the library and one exchange in it.\<close>

definition demo_num :: "jsnum \<Rightarrow> string" where
  "demo_num n = (case n of NaN \<Rightarrow> ''NaN'' | PInf \<Rightarrow> ''Infinity'' | NInf \<Rightarrow> ''-Infinity''
     | Fin q \<Rightarrow> show_int (fst (quotient_of q)) @ CHR ''/'' # show_int (snd (quotient_of q)))"

definition demo_payload :: jv where
  "demo_payload = JObj [(''expiresAt'', JStr ''2030'')]"

definition demo_crypto :: "string \<Rightarrow> cryptolib" where
  "demo_crypto M = \<lparr>ec_pub = (\<lambda>a. [2]), ec_shared = (\<lambda>a b. Inr (replicate 65 0)), hkdf32 = (\<lambda>x n i. [0]),
     gcm_enc = (\<lambda>k iv pt. (pt, [])), gcm_dec = (\<lambda>k iv tag ct. Inr ct), b64_enc = map char_of, b64_dec = map of_char,
     utf8_enc = map of_char, utf8_dec = map char_of, b58_dec = (\<lambda>w. Inr (replicate 33 1)), key_address = (\<lambda>w. Inr ''Rbuyer''),
     sign_msg = (\<lambda>w m. ''sig''), verify_msg = (\<lambda>m a s. m = M \<or> M = []), stringify = (\<lambda>v. ''p''),
     parse_json = (\<lambda>s. Some demo_payload), num_str = demo_num, date_ms = (\<lambda>s. num_int 2000000)\<rparr>"

lemma demo_num_plain: "plain_numbers (demo_crypto M)"
proof -
  have no: "no_pipe (demo_num n)" for n by (cases n) (simp_all add: demo_num_def)
  have slash: "CHR ''/'' \<notin> set (show_int i)" for i using show_int_chars [of "CHR ''/''" i] by (auto simp: is_digit_def)
  have "inj demo_num"
  proof (rule injI)
    fix m n assume e: "demo_num m = demo_num n"
    have fin: "CHR ''/'' \<in> set (demo_num n) \<longleftrightarrow> (\<exists>q. n = Fin q)" for n by (cases n) (simp_all add: demo_num_def)
    show "m = n"
    proof (cases "\<exists>q. m = Fin q")
      case True
      then obtain q r where q: "m = Fin q" "n = Fin r" using fin [of m] fin [of n] e by auto
      then have "quotient_of q = quotient_of r"
        using e by (simp add: demo_num_def sep_front slash show_int_inj prod_eq_iff)
      then show ?thesis using q by (simp add: quotient_of_inject_eq)
    next
      case False
      then have "\<not> (\<exists>q. n = Fin q)" using fin [of m] fin [of n] e by auto
      with False e show ?thesis by (cases m; cases n) (auto simp: demo_num_def)
    qed
  qed
  with no show ?thesis by (simp add: plain_numbers_def demo_crypto_def)
qed

lemma demo_crypto_ok: "crypto_ok (demo_crypto M)"
  by (auto simp: crypto_ok_def demo_crypto_def byte_list_def list_all_iff map_idI)

definition demo_client :: key_client where
  "demo_client = \<lparr>ck_keys = Some (\<lambda>i. Inr (JObj [(''primaryAddresses'', JArr [JStr ''Rseller''])])), ck_agent = (\<lambda>i. Inl JNull)\<rparr>"

definition demo_context :: open_context where
  "demo_context = \<lparr>oc_client = Some demo_client, oc_seller = ''iSeller'', oc_now = num_int 1000, oc_maxAge = num_int 300\<rparr>"

lemma demo_addresses: "seller_addresses demo_client i = Inr [JStr ''Rseller'']"
  by (simp add: seller_addresses_def demo_client_def keys_addresses_def)

lemma demo_clock: "js_mul (Fin 1000) (Fin 1000) = Fin 1000000" "js_sub (Fin 1000) (Fin 1000) = Fin 0"
  using js_sub_int [of 1000 1000] by (simp_all add: fl_eval)


text \<open>The same exchange when only the text of the issued envelope verifies.\<close>

definition demo_env0 :: access_envelope where
  "demo_env0 = \<lparr>ae_ciphertext = ''p'', ae_iv = ''09'', ae_authTag = [], ae_ephPub = ''02'', ae_signature = ''sig'',
     ae_expiresAt = ''2030'', ae_timestamp = num_int 1000\<rparr>"

abbreviation demo_strict :: cryptolib where
  "demo_strict \<equiv> demo_crypto (envelope_message (demo_crypto []) demo_env0)"

lemma demo_strict_msg: "envelope_message demo_strict e = envelope_message (demo_crypto []) e"
  by (simp add: envelope_message_def demo_crypto_def)

lemma demo_opens: "openAccessEnvelope demo_strict demo_env0 [5] (replicate 32 CHR ''a'') (Some demo_context) = Inr demo_payload"
proof -
  have v: "verifyAccessEnvelope demo_strict demo_env0 demo_client ''iSeller'' (num_int 1000) (num_int 300) = Inr True"
    unfolding verifyAccessEnvelope_def demo_strict_msg demo_addresses
    by (simp add: demo_crypto_def demo_env0_def demo_clock fl_eval)
  have "decryptEnvelope demo_strict demo_env0 [5] (replicate 32 CHR ''a'') = Inr demo_payload"
    by (simp add: decryptEnvelope_def valid_nonce_def list_all_iff is_hex_def is_digit_def aes_key_def lib_e_def demo_crypto_def)
  with v show ?thesis
    by (simp add: openAccessEnvelope_def demo_context_def)
qed

theorem open_authentic_witness:
  "openAccessEnvelope demo_strict demo_env0 [5] (replicate 32 CHR ''a'') (Some demo_context) = Inr demo_payload
   \<and> is_finite (date_ms demo_strict (ae_expiresAt demo_env0))"
proof -
  have n: "envelope_message (demo_crypto []) demo_env0 \<noteq> []" by (simp add: envelope_message_def)
  have p: "plain_fields demo_env0" by (simp add: plain_fields_def demo_env0_def)
  have v: "\<forall>m a sg. verify_msg demo_strict m a sg \<longrightarrow> m = envelope_message demo_strict demo_env0"
    unfolding demo_strict_msg using n by (simp add: demo_crypto_def)
  from open_authentic [OF demo_opens v, of "\<lambda>e. e = demo_env0"] p demo_num_plain demo_opens show ?thesis
    by auto
qed

theorem no_replay_witness:
  "distinct (serve (demo_crypto []) demo_client (num_int 300) (\<lambda>n s. (n \<in> set s, n # s))
     [(\<lparr>ar_buyer = ''R'', ar_seller = ''iS'', ar_ephPub = [], ar_nonce = ''n'', ar_timestamp = num_int 1000, ar_signature = []\<rparr>, num_int 1000),
      (\<lparr>ar_buyer = ''R'', ar_seller = ''iS'', ar_ephPub = [], ar_nonce = ''n'', ar_timestamp = num_int 1000, ar_signature = []\<rparr>, num_int 1000)] [])"
proof -
  have "recording (\<lambda>n (s :: string list). (n \<in> set s, n # s)) set" by (simp add: recording_def)
  from no_replay [OF this] show ?thesis by blast
qed

end
