(* ===== verification/MessageSig.thy ===== *)
theory MessageSig
  imports Witness Envelope
begin

text \<open>
  Message signatures and keys, \<open>src/identity/verus-message.ts\<close> and \<open>src/identity/verus-sign.ts\<close>: the bytes that are signed, the
  compact signature with its header, the recovery of the signer and the comparison with an address; WIF keys, addresses and
  the identity a challenge is signed for. The curve, the hashes, base58 and base64 are the functions of a record.
\<close>

unbundle bit_operations_syntax

record sig_lib =
  sl_utf8 :: "string \<Rightarrow> nat list"
  sl_sha256 :: "nat list \<Rightarrow> nat list"
  sl_ripemd :: "nat list \<Rightarrow> nat list"
  sl_b58dec :: "string \<Rightarrow> (string, nat list) result"
  sl_b58enc :: "nat list \<Rightarrow> string"
  sl_b64dec :: "string \<Rightarrow> nat list"
  sl_b64enc :: "nat list \<Rightarrow> string"
  sl_sign :: "nat list \<Rightarrow> nat list \<Rightarrow> (string, nat list \<times> nat) result"
  sl_recover :: "nat list \<Rightarrow> nat list \<Rightarrow> nat \<Rightarrow> bool \<Rightarrow> (string, nat list) result"
  sl_public :: "nat list \<Rightarrow> bool \<Rightarrow> (string, nat list) result"
  sl_idsign :: "network \<Rightarrow> string \<Rightarrow> string \<Rightarrow> string \<Rightarrow> string \<Rightarrow> (string, nat list list) result"

section \<open>What is signed\<close>

definition hash160 :: "sig_lib \<Rightarrow> nat list \<Rightarrow> nat list" where
  "hash160 lib bs = sl_ripemd lib (sl_sha256 lib bs)"

definition varint :: "nat \<Rightarrow> (string, nat list) result" where
  "varint n =
     (if n < 0xfd then Inr [n]
      else if n \<le> 0xffff then Inr (0xfd # le_bytes 2 n)
      else if n \<le> 0xffffffff then Inr (0xfe # le_bytes 4 n)
      else Inl ''message too long'')"

definition VERUS_PREFIX_BYTES :: "nat list" where
  "VERUS_PREFIX_BYTES = map of_char SIGNATURE_PREFIX"

definition magicHash :: "sig_lib \<Rightarrow> string \<Rightarrow> (string, nat list) result" where
  "magicHash lib m =
     (let bs = sl_utf8 lib m in
      bind_r (varint (length bs)) (\<lambda>l.
      bind_r (varint (length VERUS_PREFIX_BYTES)) (\<lambda>p.
      Inr (sl_sha256 lib (p @ VERUS_PREFIX_BYTES @ sl_sha256 lib (l @ bs))))))"

section \<open>Keys\<close>

definition decodeWif :: "sig_lib \<Rightarrow> string \<Rightarrow> (string, nat list \<times> bool) result" where
  "decodeWif lib wif = bind_r (sl_b58dec lib wif) (\<lambda>d.
     if length d \<noteq> 33 \<and> length d \<noteq> 34 then Inl (''Invalid WIF length: '' @ show_nat (length d)) else Inr (take 32 (drop 1 d), length d = 34))"

record net_consts =
  nc_pubKeyHash :: nat
  nc_wif :: nat

definition privateKeyToAddress :: "sig_lib \<Rightarrow> net_consts \<Rightarrow> nat list \<Rightarrow> (string, string) result" where
  "privateKeyToAddress lib net key = bind_r (sl_public lib key True) (\<lambda>pub.
     Inr (sl_b58enc lib (nc_pubKeyHash net # hash160 lib pub)))"

record key_pair =
  kp_public :: string
  kp_address :: string
  kp_wif :: string

definition keypairFromWIF :: "sig_lib \<Rightarrow> net_consts \<Rightarrow> string \<Rightarrow> (string, key_pair) result" where
  "keypairFromWIF lib net wif = bind_r (decodeWif lib wif) (\<lambda>(key, compressed).
     if \<not> compressed then Inl ''Uncompressed WIF keys are not supported; Verus requires compressed keys''
     else bind_r (sl_public lib key True) (\<lambda>pub.
          bind_r (privateKeyToAddress lib net key) (\<lambda>ad.
          Inr \<lparr>kp_public = concat (map byte_hex pub), kp_address = ad, kp_wif = wif\<rparr>)))"

text \<open>\<open>random\<close> is \<open>randomBytes(32)\<close>.\<close>

definition generateKeypair :: "sig_lib \<Rightarrow> net_consts \<Rightarrow> nat list \<Rightarrow> (string, key_pair) result" where
  "generateKeypair lib net random = keypairFromWIF lib net (sl_b58enc lib (nc_wif net # random @ [1]))"

section \<open>Signing and verifying\<close>

definition signVerusMessage :: "sig_lib \<Rightarrow> string \<Rightarrow> string \<Rightarrow> (string, string) result" where
  "signVerusMessage lib wif m = bind_r (decodeWif lib wif) (\<lambda>(key, compressed).
     bind_r (magicHash lib m) (\<lambda>h.
     bind_r (sl_sign lib h key) (\<lambda>(rs, recovery).
     Inr (sl_b64enc lib ((recovery + 27 + (if compressed then 4 else 0)) # rs)))))"

definition diff_bytes :: "nat list \<Rightarrow> nat list \<Rightarrow> nat" where
  "diff_bytes a b = foldl (\<lambda>d i. d OR ((a ! i) XOR (b ! i))) 0 [0..<20]"

text \<open>\<open>subarray(length - 20)\<close>: a negative start counts from the end.\<close>

definition address_hash :: "nat list \<Rightarrow> nat list" where
  "address_hash payload =
     (if length payload < 20 then drop (2 * length payload - 20) payload else drop (length payload - 20) payload)"

text \<open>Everything that throws is \<open>False\<close>.\<close>

definition check_recovered :: "sig_lib \<Rightarrow> nat list \<Rightarrow> string \<Rightarrow> (string, bool) result" where
  "check_recovered lib pub ad = bind_r (sl_b58dec lib ad) (\<lambda>payload.
     Inr (length (hash160 lib pub) = length (address_hash payload) \<and> diff_bytes (hash160 lib pub) (address_hash payload) = 0))"

definition verifyVerusMessage :: "sig_lib \<Rightarrow> string \<Rightarrow> string \<Rightarrow> string \<Rightarrow> bool" where
  "verifyVerusMessage lib m ad sg =
     (if m = [] \<or> ad = [] \<or> sg = [] then False
      else let sb = sl_b64dec lib sg in
           if length sb \<noteq> 65 then False
           else let header = hd sb in
                if header < 27 \<or> 34 < header then False
                else (case bind_r (magicHash lib m) (\<lambda>h.
                   bind_r (sl_recover lib h (tl sb) ((header - 27) AND 3) ((header - 27) AND 4 \<noteq> 0)) (\<lambda>pub.
                   check_recovered lib pub ad)) of
                  Inl _ \<Rightarrow> False
                | Inr b \<Rightarrow> b))"

text \<open>The identity that \<open>signChallenge\<close> signs for: the chain for an R-address, else the address itself.\<close>

definition signing_identity :: "network \<Rightarrow> string \<Rightarrow> string" where
  "signing_identity net ad = (if starts_with ad ''R'' then CHAIN_ID net else ad)"

definition signChallenge :: "sig_lib \<Rightarrow> string \<Rightarrow> string \<Rightarrow> string \<Rightarrow> network \<Rightarrow> (string, string) result" where
  "signChallenge lib wif challenge ad net =
     bind_r (sl_idsign lib net (CHAIN_ID net) (signing_identity net ad) challenge wif) (\<lambda>sigs.
       case sigs of
         [] \<Rightarrow> Inl ''signMessageOffline produced no signatures''
       | sg # _ \<Rightarrow> Inr (sl_b64enc lib sg))"

section \<open>The comparison\<close>

lemma or_zero_iff: "(a :: nat) OR b = 0 \<longleftrightarrow> a = 0 \<and> b = 0"
  by (metis or.comm_neutral or_eq_0_iff)

lemma xor_zero_iff: "(a :: nat) XOR b = 0 \<longleftrightarrow> a = b"
  by (metis bit.xor_self xor.assoc xor.comm_neutral xor_self_eq)

lemma diff_fold: "foldl (\<lambda>d i. d OR ((a ! i) XOR (b ! i))) (e :: nat) is = 0 \<longleftrightarrow> e = 0 \<and> (\<forall>i \<in> set is. a ! i = (b ! i :: nat))"
  by (induction "is" arbitrary: e) (auto simp: or_zero_iff xor_zero_iff)

text \<open>The constant-time comparison is equality.\<close>

lemma diff_bytes_eq: "length a = 20 \<Longrightarrow> length b = 20 \<Longrightarrow> diff_bytes a b = 0 \<longleftrightarrow> a = b"
  by (auto simp: diff_bytes_def diff_fold list_eq_iff_nth_eq)

section \<open>Signing and verifying agree\<close>

definition bytes :: "nat list \<Rightarrow> bool" where
  "bytes bs = (\<forall>b \<in> set bs. b < 256)"

text \<open>What is relied on of the libraries: encodings are undone by their decodings, a signature of a key recovers its public key, hashes have their lengths.\<close>

definition sig_laws :: "sig_lib \<Rightarrow> bool" where
  "sig_laws lib = (
     (\<forall>bs. bytes bs \<longrightarrow> sl_b64dec lib (sl_b64enc lib bs) = bs) \<and> (\<forall>bs. bytes bs \<longrightarrow> bs \<noteq> [] \<longrightarrow> sl_b64enc lib bs \<noteq> [])
     \<and> (\<forall>bs. bytes bs \<longrightarrow> sl_b58dec lib (sl_b58enc lib bs) = Inr bs) \<and> (\<forall>bs. bytes bs \<longrightarrow> bs \<noteq> [] \<longrightarrow> sl_b58enc lib bs \<noteq> [])
     \<and> (\<forall>bs. length (sl_ripemd lib bs) = 20 \<and> bytes (sl_ripemd lib bs))
     \<and> (\<forall>h k rs r. sl_sign lib h k = Inr (rs, r) \<longrightarrow> length rs = 64 \<and> bytes rs \<and> r < 4 \<and> (\<forall>c. sl_recover lib h rs r c = sl_public lib k c)))"

lemma header_bits:
  assumes "r < 4"
  shows "(r + (if c then 4 else 0)) AND 3 = (r :: nat)" "((r + (if c then 4 else 0)) AND 4 \<noteq> 0) = c"
proof -
  have "r \<in> {0, 1, 2, 3}" using assms by auto
  then show "(r + (if c then 4 else 0)) AND 3 = r" "((r + (if c then 4 else 0)) AND 4 \<noteq> 0) = c" by auto
qed

text \<open>
  C14. An agent's signatures verify under its own address, on either network: the header carries the recovery number and the kind
  of key through, and the recovered key's hash is that of the address its key pair was given.
\<close>

theorem own_signature_verifies:
  assumes "sig_laws lib" and "nc_pubKeyHash net < 256"
    and "keypairFromWIF lib net wif = Inr kp" and "signVerusMessage lib wif m = Inr sg" and "m \<noteq> []"
  shows "verifyVerusMessage lib m (kp_address kp) sg"
proof -
  obtain key pub where k: "decodeWif lib wif = Inr (key, True)" "sl_public lib key True = Inr pub"
      and ad: "kp_address kp = sl_b58enc lib (nc_pubKeyHash net # hash160 lib pub)"
    using assms(3) by (auto simp: keypairFromWIF_def privateKeyToAddress_def bind_r_eq_Inr split: if_splits)
  obtain h rs r where s: "magicHash lib m = Inr h" "sl_sign lib h key = Inr (rs, r)" "sg = sl_b64enc lib ((r + 27 + 4) # rs)"
    using assms(4) k(1) by (auto simp: signVerusMessage_def bind_r_eq_Inr)
  have L: "length rs = 64" "bytes rs" "r < 4" "sl_recover lib h rs r True = Inr pub"
    using assms(1) s(2) k(2) by (auto simp: sig_laws_def)
  have H: "length (hash160 lib pub) = 20" "bytes (hash160 lib pub)" using assms(1) by (auto simp: sig_laws_def hash160_def)
  have b: "bytes ((r + 27 + 4) # rs)" "bytes (nc_pubKeyHash net # hash160 lib pub)"
    using L(2,3) H(2) assms(2) by (auto simp: bytes_def)
  have "sl_b64dec lib sg = (r + 27 + 4) # rs" "sg \<noteq> []"
    and "sl_b58dec lib (kp_address kp) = Inr (nc_pubKeyHash net # hash160 lib pub)" "kp_address kp \<noteq> []"
    using assms(1) b unfolding sig_laws_def s(3) ad by blast+
  moreover have "address_hash (nc_pubKeyHash net # hash160 lib pub) = hash160 lib pub"
    using H(1) by (simp add: address_hash_def)
  ultimately have "check_recovered lib pub (kp_address kp) = Inr True"
    using H(1) by (simp add: check_recovered_def diff_bytes_eq)
  moreover have "(r + 27 + 4 - 27) AND 3 = r" "(r + 27 + 4 - 27) AND 4 \<noteq> 0"
    using header_bits [OF L(3), of True] by (simp_all add: add.commute)
  ultimately show ?thesis
    using \<open>sl_b64dec lib sg = (r + 27 + 4) # rs\<close> \<open>sg \<noteq> []\<close> \<open>kp_address kp \<noteq> []\<close> L s(1) assms(5)
    by (simp add: verifyVerusMessage_def Let_def)
qed

text \<open>And only the key behind an address passes: what verifies recovers, from this message's hash, a key with the address's hash.\<close>

lemma verified_recovers:
  assumes "verifyVerusMessage lib m ad sg"
  shows "\<exists>h r c pub payload. magicHash lib m = Inr h \<and> sl_recover lib h (tl (sl_b64dec lib sg)) r c = Inr pub
    \<and> sl_b58dec lib ad = Inr payload \<and> (length (hash160 lib pub) = 20 \<longrightarrow> hash160 lib pub = address_hash payload)"
proof -
  have v: "\<exists>h r c pub. magicHash lib m = Inr h \<and> sl_recover lib h (tl (sl_b64dec lib sg)) r c = Inr pub \<and> check_recovered lib pub ad = Inr True"
    using assms unfolding verifyVerusMessage_def Let_def
    by (simp only: split: if_splits) (auto simp: bind_r_eq_Inr split: sum.splits)
  then obtain h r c pub where v: "magicHash lib m = Inr h" "sl_recover lib h (tl (sl_b64dec lib sg)) r c = Inr pub"
      "check_recovered lib pub ad = Inr True"
    by blast
  from v(3) obtain payload where p: "sl_b58dec lib ad = Inr payload" "length (hash160 lib pub) = length (address_hash payload)"
      "diff_bytes (hash160 lib pub) (address_hash payload) = 0"
    by (auto simp: check_recovered_def bind_r_eq_Inr)
  then have "length (hash160 lib pub) = 20 \<longrightarrow> hash160 lib pub = address_hash payload"
    using diff_bytes_eq [of "hash160 lib pub" "address_hash payload"] by simp
  with v p(1) show ?thesis by blast
qed

text \<open>The version of the address is not looked at: the identity address with the same hash passes for the key's own.\<close>

lemma version_unchecked:
  assumes "length (hash160 lib pub) = 20" and "sl_b58dec lib ad = Inr (v # hash160 lib pub)"
  shows "check_recovered lib pub ad = Inr True"
  using assms by (simp add: check_recovered_def address_hash_def diff_bytes_eq)

text \<open>A challenge signed for an identity's name is signed for the name as it stands, which is no address.\<close>

lemma name_not_resolved: "signing_identity net ''alice@'' = ''alice@''"
  by (simp add: signing_identity_def starts_with_def)

text \<open>
  Onboarding signs for the chain: two R-addresses of one key cannot be told apart by what \<open>signChallenge\<close> signs.
\<close>

lemma r_address_anonymous:
  "starts_with a ''R'' \<Longrightarrow> starts_with b ''R'' \<Longrightarrow> signChallenge lib wif c a net = signChallenge lib wif c b net"
  by (simp add: signChallenge_def signing_identity_def)

definition demo_sig_lib :: sig_lib where
  "demo_sig_lib = \<lparr>sl_utf8 = map of_char, sl_sha256 = (\<lambda>bs. bs), sl_ripemd = (\<lambda>_. replicate 20 9),
     sl_b58dec = (\<lambda>s. Inr (map of_char s)), sl_b58enc = map char_of, sl_b64dec = map of_char, sl_b64enc = map char_of,
     sl_sign = (\<lambda>h k. Inr (replicate 64 5, 1)), sl_recover = (\<lambda>_ _ _ _. Inr [2]), sl_public = (\<lambda>_ _. Inr [2]),
     sl_idsign = (\<lambda>_ _ _ _ _. Inr [[1]])\<rparr>"

definition demo_net :: net_consts where
  "demo_net = \<lparr>nc_pubKeyHash = 60, nc_wif = 188\<rparr>"

lemma chars_of_bytes: "bytes bs \<Longrightarrow> map of_char (map char_of bs :: string) = bs"
  by (induction bs) (auto simp: bytes_def)

lemma demo_sig_laws: "sig_laws demo_sig_lib"
  using chars_of_bytes by (auto simp: sig_laws_def demo_sig_lib_def bytes_def)

definition demo_wif :: string where
  "demo_wif = map char_of (188 # replicate 32 7 @ [1 :: nat])"

theorem own_signature_verifies_witness:
  "\<exists>kp sg. keypairFromWIF demo_sig_lib demo_net demo_wif = Inr kp \<and> signVerusMessage demo_sig_lib demo_wif ''hi'' = Inr sg
     \<and> verifyVerusMessage demo_sig_lib ''hi'' (kp_address kp) sg"
proof -
  have "\<exists>kp. keypairFromWIF demo_sig_lib demo_net demo_wif = Inr kp"
    by (simp add: keypairFromWIF_def decodeWif_def privateKeyToAddress_def demo_sig_lib_def demo_wif_def)
  moreover have "\<exists>sg. signVerusMessage demo_sig_lib demo_wif ''hi'' = Inr sg"
    by (simp add: signVerusMessage_def decodeWif_def magicHash_def varint_def VERUS_PREFIX_BYTES_def SIGNATURE_PREFIX_def
        demo_sig_lib_def demo_wif_def Let_def)
  moreover have "nc_pubKeyHash demo_net < 256" by (simp add: demo_net_def)
  ultimately show ?thesis using own_signature_verifies [OF demo_sig_laws] by blast
qed

end
