(* ===== verification/Validation.thy ===== *)
theory Validation
  imports Vdxf
begin

text \<open>
  The rules a profile must meet, \<open>src/onboarding/validation.ts\<close>: each check returns \<open>None\<close> for a valid
  value or the error. Parsing a URL is \<open>new URL(..)\<close>, a function from a string to its protocol, or
  \<open>None\<close> where the constructor throws.
\<close>

datatype valid_error =
    Required
  | TooShort
  | TooLong
  | BadCharacters
  | Reserved string
  | NotOneOf
  | TooMany
  | TagTooLong string
  | EmptyTag
  | NotHttp
  | InvalidUrl
  | BadProtocol string
  | BadNumber string
  | NotAnArray
  | EmptyFileType
  | UrlError valid_error

definition name_char :: "char \<Rightarrow> bool" where
  "name_char c = (is_lower c \<or> is_upper c \<or> is_digit c \<or> c = CHR ''.'' \<or> c = CHR ''_'' \<or> c = CHR ''-'')"

definition RESERVED_NAMES :: "string list" where
  "RESERVED_NAMES = [''admin'', ''system'', ''platform'', ''verus'', ''test'', ''root'', ''api'', ''www'']"

definition VALID_PROTOCOLS :: "string list" where
  "VALID_PROTOCOLS = [''MCP'', ''REST'', ''A2A'', ''WebSocket'']"

definition VALID_TYPES :: "string list" where
  "VALID_TYPES = [''autonomous'', ''assisted'', ''hybrid'', ''tool'']"

definition validateAgentName :: "string \<Rightarrow> valid_error option" where
  "validateAgentName name =
     (if name = [] then Some Required
      else if length name < 3 then Some TooShort
      else if length name > 64 then Some TooLong
      else if \<not> list_all name_char name then Some BadCharacters
      else if to_lower name \<in> set RESERVED_NAMES then Some (Reserved name)
      else None)"

definition validateAgentType :: "string \<Rightarrow> valid_error option" where
  "validateAgentType t = (if t = [] then Some Required else if t \<notin> set VALID_TYPES then Some NotOneOf else None)"

definition validateDescription :: "string \<Rightarrow> valid_error option" where
  "validateDescription d =
     (if d = [] then Some Required else if length d < 10 then Some TooShort
      else if length d > 1000 then Some TooLong else None)"

fun first_bad :: "('a \<Rightarrow> valid_error option) \<Rightarrow> 'a list \<Rightarrow> valid_error option" where
  "first_bad f [] = None"
| "first_bad f (x # xs) = (case f x of Some e \<Rightarrow> Some e | None \<Rightarrow> first_bad f xs)"

definition check_tag :: "string \<Rightarrow> valid_error option" where
  "check_tag t = (if length t > 32 then Some (TagTooLong t) else if t = [] then Some EmptyTag else None)"

definition validateTags :: "string list \<Rightarrow> valid_error option" where
  "validateTags tags = (if length tags > 20 then Some TooMany else first_bad check_tag tags)"

definition validateUrl :: "(string \<Rightarrow> string option) \<Rightarrow> string \<Rightarrow> valid_error option" where
  "validateUrl url s = (case url s of
       None \<Rightarrow> Some InvalidUrl
     | Some p \<Rightarrow> if p \<notin> {''http:'', ''https:''} then Some NotHttp else None)"

definition validateProtocols :: "string list \<Rightarrow> valid_error option" where
  "validateProtocols ps = (if length ps > 10 then Some TooMany
     else first_bad (\<lambda>p. if p \<notin> set VALID_PROTOCOLS then Some (BadProtocol p) else None) ps)"

record endpoint_input =
  ep_url :: string
  ep_protocol :: string
  ep_public :: bool
  ep_desc :: "string option"

record capability_input =
  cap_id :: string
  cap_name :: string
  cap_desc :: "string option"

definition validateEndpoint :: "(string \<Rightarrow> string option) \<Rightarrow> endpoint_input \<Rightarrow> valid_error option" where
  "validateEndpoint url ep =
     (if ep_url ep = [] then Some Required
      else case validateUrl url (ep_url ep) of
        Some e \<Rightarrow> Some (UrlError e)
      | None \<Rightarrow> if ep_protocol ep = [] then Some Required else None)"

definition validateCapability :: "capability_input \<Rightarrow> valid_error option" where
  "validateCapability cap = (if cap_id cap = [] then Some Required else if cap_name cap = [] then Some Required else None)"

definition isFinitePositive :: "jv \<Rightarrow> bool" where
  "isFinitePositive v = (is_number v \<and> is_finite (num_of v) \<and> js_lt (num_int 0) (num_of v))"

definition isFinitePositiveInt :: "jv \<Rightarrow> bool" where
  "isFinitePositiveInt v = (isFinitePositive v \<and> is_integer (num_of v))"

definition check_file_type :: "jv \<Rightarrow> valid_error option" where
  "check_file_type ft = (if \<not> is_string ft \<or> trim (str_of ft) = [] then Some EmptyFileType else None)"

definition bad_field :: "jv \<Rightarrow> (jv \<Rightarrow> bool) \<Rightarrow> string \<Rightarrow> bool" where
  "bad_field session ok k = (\<not> nullish (jget session k) \<and> \<not> ok (jget session k))"

definition validateSessionInput :: "jv \<Rightarrow> valid_error option" where
  "validateSessionInput session =
     (if bad_field session isFinitePositive ''duration'' then Some (BadNumber ''duration'')
      else if bad_field session isFinitePositiveInt ''tokenLimit'' then Some (BadNumber ''tokenLimit'')
      else if bad_field session isFinitePositiveInt ''imageLimit'' then Some (BadNumber ''imageLimit'')
      else if bad_field session isFinitePositiveInt ''messageLimit'' then Some (BadNumber ''messageLimit'')
      else if bad_field session isFinitePositiveInt ''maxFileSize'' then Some (BadNumber ''maxFileSize'')
      else let ft = jget session ''allowedFileTypes'' in
      if nullish ft then None
      else if \<not> is_array ft then Some NotAnArray
      else first_bad check_file_type (arr_of ft))"

lemma first_bad_None: "first_bad f xs = None \<longleftrightarrow> (\<forall>x \<in> set xs. f x = None)"
  by (induction xs) (auto split: option.splits)

lemma validateTags_ok: "validateTags tags = None \<longleftrightarrow> length tags \<le> 20 \<and> (\<forall>t \<in> set tags. t \<noteq> [] \<and> length t \<le> 32)"
  by (auto simp: validateTags_def first_bad_None check_tag_def split: if_splits)

lemma validateProtocols_ok: "validateProtocols ps = None \<longleftrightarrow> length ps \<le> 10 \<and> set ps \<subseteq> set VALID_PROTOCOLS"
  by (auto simp: validateProtocols_def first_bad_None split: if_splits)

lemma validateAgentName_ok: "validateAgentName n = None \<longleftrightarrow>
    3 \<le> length n \<and> length n \<le> 64 \<and> list_all name_char n \<and> to_lower n \<notin> set RESERVED_NAMES"
  by (auto simp: validateAgentName_def)

end
