(* ===== verification/Finalize.thy ===== *)
theory Finalize
  imports Validation
begin

text \<open>
  Finalizing an agent's onboarding, \<open>src/onboarding/finalize.ts\<close>: the state file that survives a
  crash, the profile and the services asked for interactively, and the stages, each entered by the
  calls that complete it. The world is the file (written by a temporary file and a rename, so it is the old
  or the new state), the calls made so far with their outcome, and the number of clock readings.
  What hooks, platform and clock answer is the record \<open>fin_env\<close>; the answers to prompts are a list,
  and a run whose answers are used up is waiting. Question texts and log lines are not modelled.
\<close>

section \<open>Stages\<close>

datatype fin_stage = Onboarded | VdxfPublished | VdxfVerified | Indexed | ProfileRegistered | ServicesRegistered | Ready

fun stage_rank :: "fin_stage \<Rightarrow> nat" where
  "stage_rank Onboarded = 0"
| "stage_rank VdxfPublished = 1"
| "stage_rank VdxfVerified = 2"
| "stage_rank Indexed = 3"
| "stage_rank ProfileRegistered = 4"
| "stage_rank ServicesRegistered = 5"
| "stage_rank Ready = 6"

lemma stage_rank_inj: "stage_rank s = stage_rank t \<longleftrightarrow> s = t"
  by (cases s; cases t) simp_all

instantiation fin_stage :: linorder
begin

definition less_eq_fin_stage :: "fin_stage \<Rightarrow> fin_stage \<Rightarrow> bool" where
  "less_eq_fin_stage s t = (stage_rank s \<le> stage_rank t)"

definition less_fin_stage :: "fin_stage \<Rightarrow> fin_stage \<Rightarrow> bool" where
  "less_fin_stage s t = (stage_rank s < stage_rank t)"

instance
  by standard (auto simp: less_eq_fin_stage_def less_fin_stage_def stage_rank_inj [symmetric])

end

fun stage_name :: "fin_stage \<Rightarrow> string" where
  "stage_name Onboarded = ''onboarded''"
| "stage_name VdxfPublished = ''vdxf_published''"
| "stage_name VdxfVerified = ''vdxf_verified''"
| "stage_name Indexed = ''indexed''"
| "stage_name ProfileRegistered = ''profile_registered''"
| "stage_name ServicesRegistered = ''services_registered''"
| "stage_name Ready = ''ready''"

definition VALID_STAGES :: "fin_stage list" where
  "VALID_STAGES = [Onboarded, VdxfPublished, VdxfVerified, Indexed, ProfileRegistered, ServicesRegistered, Ready]"

definition stage_of :: "(string, jv) jsmap \<Rightarrow> fin_stage option" where
  "stage_of st = find (\<lambda>s. map_get st ''stage'' = Some (JStr (stage_name s))) VALID_STAGES"

section \<open>The world\<close>

datatype state_file = Absent | Corrupt | Holds jv

datatype fin_call = CPublish | CVerify | CIndex | CRegister | CAuth | CService jv

record world =
  w_file :: state_file
  w_calls :: "(fin_call \<times> bool) list"
  w_ticks :: nat

record fin_env =
  h_publish :: "(jv, unit) result option"
  h_verify :: "(jv, unit) result option"
  h_index :: "(jv, unit) result option"
  e_register :: "nat \<Rightarrow> (jv, unit) result"
  e_auth :: "(jv, unit) result"
  e_service :: "nat \<Rightarrow> (jv, unit) result"
  e_answers :: "string list"
  e_service_answers :: "string list"
  e_clock :: "nat \<Rightarrow> string"

record fin_params =
  fp_interactive :: bool
  fp_identity :: "string option"
  fp_address :: "string option"
  fp_profile :: "jv option"
  fp_services :: "jv list option"

datatype fin_error = CallFailed jv | Invalid valid_error | Waiting | NotIterable

type_synonym fin_state = "(string, jv) jsmap"

type_synonym 'a run = "world \<times> (fin_error, 'a) result"

definition then_run :: "'a run \<Rightarrow> (world \<Rightarrow> 'a \<Rightarrow> 'b run) \<Rightarrow> 'b run" where
  "then_run x f = (case x of (w, Inl e) \<Rightarrow> (w, Inl e) | (w, Inr a) \<Rightarrow> f w a)"

lemma then_run_simps [simp]:
  "then_run (w, Inl e) f = (w, Inl e)" "then_run (w, Inr a) f = f w a"
  by (simp_all add: then_run_def)

text \<open>A call outside: it is made, whatever it answers.\<close>

definition call_out :: "fin_call \<Rightarrow> (jv, unit) result \<Rightarrow> world \<Rightarrow> (jv, unit) result \<times> world" where
  "call_out c r w = (r, w\<lparr>w_calls := w_calls w @ [(c, is_ok r)]\<rparr>)"

section \<open>The state file\<close>

definition opt_str :: "string option \<Rightarrow> jv" where
  "opt_str s = (case s of None \<Rightarrow> JNull | Some x \<Rightarrow> if x = [] then JNull else JStr x)"

definition readState :: "fin_env \<Rightarrow> fin_params \<Rightarrow> world \<Rightarrow> world \<times> fin_state" where
  "readState env p w =
     (let fresh = (w\<lparr>w_ticks := w_ticks w + 2\<rparr>,
        [(''mode'', JStr (if fp_interactive p then ''interactive'' else ''headless'')), (''stage'', JStr ''onboarded''),
         (''identity'', opt_str (fp_identity p)), (''iAddress'', opt_str (fp_address p)),
         (''startedAt'', JStr (e_clock env (w_ticks w))), (''updatedAt'', JStr (e_clock env (w_ticks w + 1))),
         (''notes'', JArr [])]) in
      case w_file w of
        Holds v \<Rightarrow> if stage_of (props_of v) = None then fresh else (w, props_of v)
      | _ \<Rightarrow> fresh)"

definition writeState :: "fin_env \<Rightarrow> fin_state \<Rightarrow> world \<Rightarrow> world \<times> fin_state" where
  "writeState env st w =
     (let st' = map_set st ''updatedAt'' (JStr (e_clock env (w_ticks w))) in
      (w\<lparr>w_file := Holds (JObj st'), w_ticks := w_ticks w + 1\<rparr>, st'))"

text \<open>\<open>[...(state.notes || [])]\<close>: a list, the characters of a string, or a throw.\<close>

definition spread_notes :: "jv \<Rightarrow> jv list option" where
  "spread_notes v = (if \<not> jtruthy v then Some [] else case v of JArr xs \<Rightarrow> Some xs
     | JStr s \<Rightarrow> Some (map (\<lambda>c. JStr [c]) s) | _ \<Rightarrow> None)"

definition mark :: "fin_env \<Rightarrow> fin_stage \<Rightarrow> string \<Rightarrow> fin_state \<Rightarrow> world \<Rightarrow> fin_state run" where
  "mark env s msg st w =
     (let st1 = map_set st ''stage'' (JStr (stage_name s)) in
      case spread_notes (rget st1 ''notes'') of
        None \<Rightarrow> (w, Inl NotIterable)
      | Some ns \<Rightarrow>
          let line = JStr (e_clock env (w_ticks w) @ '' '' @ msg);
              (w', st') = writeState env (map_set st1 ''notes'' (JArr (ns @ [line]))) (w\<lparr>w_ticks := w_ticks w + 1\<rparr>) in
          (w', Inr st'))"

section \<open>Asking for a profile\<close>

type_synonym 'a asked = "(fin_error, 'a \<times> string list) result"

definition ask :: "string list \<Rightarrow> string asked" where
  "ask as = (case as of [] \<Rightarrow> Inl Waiting | a # r \<Rightarrow> Inr (a, r))"

definition check :: "valid_error option \<Rightarrow> (fin_error, unit) result" where
  "check e = (case e of None \<Rightarrow> Inr () | Some x \<Rightarrow> Inl (Invalid x))"

definition yes :: "string \<Rightarrow> bool" where
  "yes a = (to_lower a = ''y'' \<or> to_lower a = ''yes'')"

definition comma_list :: "string \<Rightarrow> string list" where
  "comma_list s = filter (\<lambda>t. t \<noteq> []) (map trim (split_on CHR '','' s))"

definition opt_text :: "string \<Rightarrow> string option" where
  "opt_text s = (if s = [] then None else Some s)"

fun endpoint_loop :: "endpoint_input list \<Rightarrow> string \<Rightarrow> string list \<Rightarrow> endpoint_input list asked" where
  "endpoint_loop eps add (url # protocol # desc # pub # as) =
     (if \<not> yes add then Inr (eps, url # protocol # desc # pub # as)
      else let eps' = eps @ [\<lparr>ep_url = url, ep_protocol = protocol, ep_public = yes pub, ep_desc = opt_text desc\<rparr>] in
           if length eps' \<ge> 10 then Inr (eps', as)
           else case as of [] \<Rightarrow> Inl Waiting | add' # as' \<Rightarrow> endpoint_loop eps' add' as')"
| "endpoint_loop eps add as = (if \<not> yes add then Inr (eps, as) else Inl Waiting)"

fun capability_loop :: "capability_input list \<Rightarrow> string \<Rightarrow> string list \<Rightarrow> capability_input list asked" where
  "capability_loop caps add (cid # name # desc # as) =
     (if \<not> yes add then Inr (caps, cid # name # desc # as)
      else let caps' = caps @ [\<lparr>cap_id = cid, cap_name = name, cap_desc = opt_text desc\<rparr>] in
           if length caps' \<ge> 50 then Inr (caps', as)
           else case as of [] \<Rightarrow> Inl Waiting | add' # as' \<Rightarrow> capability_loop caps' add' as')"
| "capability_loop caps add as = (if \<not> yes add then Inr (caps, as) else Inl Waiting)"

text \<open>A session limit: kept when it reads as a finite positive number, an integer where one is asked for.\<close>

definition session_number :: "jslib \<Rightarrow> bool \<Rightarrow> string \<Rightarrow> string \<Rightarrow> (string, jv) jsmap" where
  "session_number js int_only k raw =
     (let n = to_number js (JStr raw) in
      opt_field (raw \<noteq> [] \<and> is_finite n \<and> js_lt (num_int 0) n \<and> (int_only \<longrightarrow> is_integer n)) k (JNum n))"

definition session_fields :: "jslib \<Rightarrow> string \<Rightarrow> string \<Rightarrow> string \<Rightarrow> string \<Rightarrow> string \<Rightarrow> string \<Rightarrow> (string, jv) jsmap" where
  "session_fields js duration tokens images messages file_size types =
     session_number js False ''duration'' duration @ session_number js True ''tokenLimit'' tokens
   @ session_number js True ''imageLimit'' images @ session_number js True ''messageLimit'' messages
   @ session_number js True ''maxFileSize'' file_size
   @ opt_field (types \<noteq> [] \<and> comma_list types \<noteq> []) ''allowedFileTypes'' (JArr (map JStr (comma_list types)))"

definition ask_session :: "jslib \<Rightarrow> string list \<Rightarrow> jv option asked" where
  "ask_session js as =
     bind_r (ask as) (\<lambda>(add, as).
     if \<not> yes add then Inr (None, as)
     else bind_r (ask as) (\<lambda>(duration, as). bind_r (ask as) (\<lambda>(tokens, as). bind_r (ask as) (\<lambda>(images, as).
          bind_r (ask as) (\<lambda>(messages, as). bind_r (ask as) (\<lambda>(file_size, as). bind_r (ask as) (\<lambda>(types, as).
          let s = session_fields js duration tokens images messages file_size types in
          if s = [] then Inr (None, as)
          else bind_r (check (validateSessionInput (JObj s))) (\<lambda>_. Inr (Some (JObj s), as)))))))))"

definition str_list :: "string list \<Rightarrow> jv" where
  "str_list xs = JArr (map JStr xs)"

definition network_blob :: "capability_input list \<Rightarrow> endpoint_input list \<Rightarrow> string list \<Rightarrow> (string, jv) jsmap" where
  "network_blob caps eps protocols =
     opt_field (caps \<noteq> []) ''capabilities'' (str_list (map (\<lambda>c. if cap_id c \<noteq> [] then cap_id c else cap_name c) caps))
   @ opt_field (eps \<noteq> []) ''endpoints'' (str_list (map ep_url eps))
   @ opt_field (protocols \<noteq> []) ''protocols'' (str_list protocols)"

definition profile_blob :: "string \<Rightarrow> string list \<Rightarrow> string \<Rightarrow> string \<Rightarrow> (string, jv) jsmap" where
  "profile_blob category tags website avatar =
     opt_field (category \<noteq> []) ''category'' (JStr category) @ opt_field (tags \<noteq> []) ''tags'' (str_list tags)
   @ opt_field (website \<noteq> []) ''website'' (JStr website) @ opt_field (avatar \<noteq> []) ''avatar'' (JStr avatar)"

record profile_answers =
  pa_name :: string
  pa_type :: string
  pa_desc :: string
  pa_category :: string
  pa_pay :: string
  pa_tags :: "string list"
  pa_website :: string
  pa_avatar :: string
  pa_protocols :: "string list"
  pa_endpoints :: "endpoint_input list"
  pa_capabilities :: "capability_input list"
  pa_session :: "jv option"

definition profile_of :: "profile_answers \<Rightarrow> jv" where
  "profile_of a =
     (let net = network_blob (pa_capabilities a) (pa_endpoints a) (pa_protocols a);
          blob = profile_blob (pa_category a) (pa_tags a) (pa_website a) (pa_avatar a) in
      JObj ([(''name'', JStr (pa_name a)), (''type'', JStr (pa_type a)), (''description'', JStr (pa_desc a))]
        @ opt_field (pa_pay a \<noteq> []) ''payAddress'' (JStr (pa_pay a))
        @ opt_field (net \<noteq> []) ''network'' (JObj net) @ opt_field (blob \<noteq> []) ''profile'' (JObj blob)
        @ (case pa_session a of None \<Rightarrow> [] | Some s \<Rightarrow> [(''session'', s)])))"

text \<open>A comma-separated answer: absent when empty, else checked.\<close>

definition ask_list :: "(string list \<Rightarrow> valid_error option) \<Rightarrow> string \<Rightarrow> (fin_error, string list) result" where
  "ask_list f raw = (if raw = [] then Inr [] else bind_r (check (f (comma_list raw))) (\<lambda>_. Inr (comma_list raw)))"

definition ask_url :: "(string \<Rightarrow> string option) \<Rightarrow> string \<Rightarrow> (fin_error, unit) result" where
  "ask_url url s = (if s = [] then Inr () else check (validateUrl url s))"

definition ask_profile :: "jslib \<Rightarrow> (string \<Rightarrow> string option) \<Rightarrow> string list \<Rightarrow> profile_answers asked" where
  "ask_profile js url as =
     bind_r (ask as) (\<lambda>(name, as). bind_r (check (validateAgentName name)) (\<lambda>_.
     bind_r (ask as) (\<lambda>(typ, as). bind_r (check (validateAgentType typ)) (\<lambda>_.
     bind_r (ask as) (\<lambda>(desc, as). bind_r (check (validateDescription desc)) (\<lambda>_.
     bind_r (ask as) (\<lambda>(category, as). bind_r (ask as) (\<lambda>(pay, as). bind_r (ask as) (\<lambda>(tagsRaw, as).
     bind_r (ask as) (\<lambda>(website, as). bind_r (ask as) (\<lambda>(avatar, as). bind_r (ask as) (\<lambda>(protocolsRaw, as).
     bind_r (ask_list validateTags tagsRaw) (\<lambda>tags.
     bind_r (ask_url url website) (\<lambda>_. bind_r (ask_url url avatar) (\<lambda>_.
     bind_r (ask_list validateProtocols protocolsRaw) (\<lambda>protocols.
     bind_r (ask as) (\<lambda>(addEp, as). bind_r (endpoint_loop [] addEp as) (\<lambda>(eps, as).
     bind_r (ask as) (\<lambda>(addCap, as). bind_r (capability_loop [] addCap as) (\<lambda>(caps, as).
     bind_r (ask_session js as) (\<lambda>(session, as).
     Inr (\<lparr>pa_name = name, pa_type = typ, pa_desc = desc, pa_category = category, pa_pay = pay, pa_tags = tags,
           pa_website = website, pa_avatar = avatar, pa_protocols = protocols, pa_endpoints = eps,
           pa_capabilities = caps, pa_session = session\<rparr>, as))))))))))))))))))))))"

definition resolveProfile :: "jslib \<Rightarrow> (string \<Rightarrow> string option) \<Rightarrow> fin_params \<Rightarrow> string list \<Rightarrow> (fin_error, jv option) result" where
  "resolveProfile js url p as =
     (case fp_profile p of
        Some pf \<Rightarrow> Inr (Some pf)
      | None \<Rightarrow> if \<not> fp_interactive p then Inr None
                else bind_r (ask_profile js url as) (\<lambda>(a, _). Inr (Some (profile_of a))))"

section \<open>Asking for services\<close>

definition opt_js :: "string \<Rightarrow> jv" where
  "opt_js s = (if s = [] then JUndef else JStr s)"

definition service_of :: "jslib \<Rightarrow> string \<Rightarrow> string \<Rightarrow> string \<Rightarrow> string \<Rightarrow> string \<Rightarrow> string \<Rightarrow> jv" where
  "service_of js name desc category priceRaw currency turnaround =
     (let n = to_number js (JStr priceRaw) in
      JObj [(''name'', JStr name), (''description'', opt_js desc), (''category'', opt_js category),
        (''price'', JNum (if n = NaN then num_int 0 else n)), (''currency'', opt_js currency), (''turnaround'', opt_js turnaround)])"

fun service_loop :: "jslib \<Rightarrow> jv list \<Rightarrow> string \<Rightarrow> string list \<Rightarrow> (fin_error, jv list) result" where
  "service_loop js svcs add (name # as) =
     (if \<not> yes add then Inr svcs
      else if name = [] then Inr svcs
      else case as of
        desc # category # price # currency # turnaround # add' # as' \<Rightarrow>
          service_loop js (svcs @ [service_of js name desc category price currency turnaround]) add' as'
      | _ \<Rightarrow> Inl Waiting)"
| "service_loop js svcs add [] = (if \<not> yes add then Inr svcs else Inl Waiting)"

definition resolveServices :: "jslib \<Rightarrow> fin_params \<Rightarrow> string list \<Rightarrow> (fin_error, jv list) result" where
  "resolveServices js p as =
     (if fp_services p \<noteq> None \<and> fp_services p \<noteq> Some [] then Inr (the (fp_services p))
      else if \<not> fp_interactive p then Inr []
      else bind_r (ask as) (\<lambda>(add, as). service_loop js [] add as))"

section \<open>Finalizing\<close>

text \<open>A stage of one hook: call it when it is given, else only note it.\<close>

definition hook_stage ::
  "fin_env \<Rightarrow> (jv, unit) result option \<Rightarrow> fin_call \<Rightarrow> fin_stage \<Rightarrow> string \<Rightarrow> string \<Rightarrow> fin_state \<Rightarrow> world \<Rightarrow> fin_state run" where
  "hook_stage env hook c next msg deferred st w =
     (case hook of
        None \<Rightarrow> mark env next deferred st w
      | Some r \<Rightarrow> (case call_out c r w of
            (Inl e, w') \<Rightarrow> (w', Inl (CallFailed e))
          | (Inr _, w') \<Rightarrow> mark env next msg st w'))"

definition at_stage :: "fin_stage \<Rightarrow> (fin_state \<Rightarrow> world \<Rightarrow> fin_state run) \<Rightarrow> world \<Rightarrow> fin_state \<Rightarrow> fin_state run" where
  "at_stage s f w st = (if stage_of st = Some s then f st w else (w, Inr st))"

definition auth_error :: "jv \<Rightarrow> bool" where
  "auth_error e = (jget e ''code'' = JStr ''SIGNATURE_INVALID'' \<or> jget e ''statusCode'' = JNum (num_int 401))"

definition already_there :: "jv \<Rightarrow> bool" where
  "already_there e = (jget e ''statusCode'' = JNum (num_int 409))"

text \<open>The retry: re-authenticate, register again; a conflict of either call counts as registered.\<close>

definition retry_register :: "fin_env \<Rightarrow> fin_state \<Rightarrow> world \<Rightarrow> fin_state run" where
  "retry_register env st w =
     (let failed = (\<lambda>e w. if already_there e then mark env ProfileRegistered ''Agent already registered on platform'' st w
                           else (w, Inl (CallFailed e))) in
      case call_out CAuth (e_auth env) w of
        (Inl e, w1) \<Rightarrow> failed e w1
      | (Inr _, w1) \<Rightarrow>
          (case call_out CRegister (e_register env 1) w1 of
             (Inl e, w2) \<Rightarrow> failed e w2
           | (Inr _, w2) \<Rightarrow>
               mark env ProfileRegistered ''Agent profile registered (retry after re-auth)'' st w2))"

definition register_profile :: "fin_env \<Rightarrow> fin_state \<Rightarrow> world \<Rightarrow> fin_state run" where
  "register_profile env st w =
     (case call_out CRegister (e_register env 0) w of
        (Inr _, w1) \<Rightarrow> mark env ProfileRegistered ''Agent profile registered'' st w1
      | (Inl e, w1) \<Rightarrow> if auth_error e then retry_register env st w1 else (w1, Inl (CallFailed e)))"

definition profile_stage :: "jslib \<Rightarrow> (string \<Rightarrow> string option) \<Rightarrow> fin_env \<Rightarrow> fin_params \<Rightarrow> fin_state \<Rightarrow> world \<Rightarrow> fin_state run" where
  "profile_stage js url env p st w =
     (case resolveProfile js url p (e_answers env) of
        Inl e \<Rightarrow> (w, Inl e)
      | Inr None \<Rightarrow> mark env ProfileRegistered ''Profile registration skipped'' st w
      | Inr (Some _) \<Rightarrow> register_profile env st w)"

fun register_services :: "fin_env \<Rightarrow> nat \<Rightarrow> jv list \<Rightarrow> world \<Rightarrow> unit run" where
  "register_services env i [] w = (w, Inr ())"
| "register_services env i (svc # svcs) w =
     (case call_out (CService svc) (e_service env i) w of
        (Inl e, w') \<Rightarrow> (w', Inl (CallFailed e))
      | (Inr _, w') \<Rightarrow> register_services env (Suc i) svcs w')"

definition services_stage :: "jslib \<Rightarrow> fin_env \<Rightarrow> fin_params \<Rightarrow> fin_state \<Rightarrow> world \<Rightarrow> fin_state run" where
  "services_stage js env p st w =
     (case resolveServices js p (e_service_answers env) of
        Inl e \<Rightarrow> (w, Inl e)
      | Inr svcs \<Rightarrow> then_run (register_services env 0 svcs w) (\<lambda>w' _.
          mark env ServicesRegistered
            (if svcs = [] then ''No services registered'' else ''Registered '' @ show_nat (length svcs) @ '' service(s)'') st w'))"

definition ready_stage :: "fin_env \<Rightarrow> fin_state \<Rightarrow> world \<Rightarrow> fin_state run" where
  "ready_stage env st w =
     mark env Ready ''Finalize complete'' (map_set st ''completedAt'' (JStr (e_clock env (w_ticks w)))) (w\<lparr>w_ticks := w_ticks w + 1\<rparr>)"

definition finalizeOnboarding :: "jslib \<Rightarrow> (string \<Rightarrow> string option) \<Rightarrow> fin_env \<Rightarrow> fin_params \<Rightarrow> world \<Rightarrow> fin_state run" where
  "finalizeOnboarding js url env p w =
     (let (w0, st0) = readState env p w in
      then_run (at_stage Onboarded (hook_stage env (h_publish env) CPublish VdxfPublished
          ''VDXF definitions published'' ''VDXF publish hook not provided (deferred)'') w0 st0) (\<lambda>w1 st1.
      then_run (at_stage VdxfPublished (hook_stage env (h_verify env) CVerify VdxfVerified
          ''VDXF definitions verified'' ''VDXF verify hook not provided (deferred)'') w1 st1) (\<lambda>w2 st2.
      then_run (at_stage VdxfVerified (hook_stage env (h_index env) CIndex Indexed
          ''Index visibility confirmed'' ''Index wait hook not provided (deferred)'') w2 st2) (\<lambda>w3 st3.
      then_run (at_stage Indexed (profile_stage js url env p) w3 st3) (\<lambda>w4 st4.
      then_run (at_stage ProfileRegistered (services_stage js env p) w4 st4) (\<lambda>w5 st5.
      at_stage ServicesRegistered (ready_stage env) w5 st5))))))"

section \<open>The abstract machine\<close>

text \<open>
  What a client may rely on: a stage and the calls made. A stage is left only by the call that
  completes it (or by none, when the step is optional), failures leave it, and the last stage is final.
\<close>

fun stage_call :: "fin_stage \<Rightarrow> (fin_call \<times> fin_stage) option" where
  "stage_call Onboarded = Some (CPublish, VdxfPublished)"
| "stage_call VdxfPublished = Some (CVerify, VdxfVerified)"
| "stage_call VdxfVerified = Some (CIndex, Indexed)"
| "stage_call Indexed = Some (CRegister, ProfileRegistered)"
| "stage_call _ = None"

inductive onboard_step :: "fin_stage \<times> (fin_call \<times> bool) list \<Rightarrow> fin_stage \<times> (fin_call \<times> bool) list \<Rightarrow> bool" where
  completes: "stage_call s = Some (c, t) \<Longrightarrow> onboard_step (s, ev) (t, ev @ [(c, True)])"
| skips: "stage_call s = Some (c, t) \<Longrightarrow> onboard_step (s, ev) (t, ev)"
| fails: "stage_call s = Some (c, t) \<Longrightarrow> onboard_step (s, ev) (s, ev @ [(c, False)])"
| authenticates: "onboard_step (Indexed, ev) (Indexed, ev @ [(CAuth, b)])"
| services: "onboard_step (ProfileRegistered, ev) (ServicesRegistered, ev @ map (\<lambda>v. (CService v, True)) svcs)"
| service_fails: "onboard_step (ProfileRegistered, ev)
    (ProfileRegistered, ev @ map (\<lambda>v. (CService v, True)) svcs @ [(CService v, False)])"
| finishes: "onboard_step (ServicesRegistered, ev) (Ready, ev)"

inductive_cases onboard_stepE: "onboard_step (s, ev) (t, ev')"

definition file_stage :: "state_file \<Rightarrow> fin_stage" where
  "file_stage f = (case f of Holds v \<Rightarrow> (case stage_of (props_of v) of Some s \<Rightarrow> s | None \<Rightarrow> Onboarded) | _ \<Rightarrow> Onboarded)"

definition abs_world :: "world \<Rightarrow> fin_stage \<times> (fin_call \<times> bool) list" where
  "abs_world w = (file_stage (w_file w), w_calls w)"

section \<open>The code refines the abstract machine\<close>

lemma stage_name_inj [simp]: "stage_name s = stage_name t \<longleftrightarrow> s = t"
  by (cases s; cases t) simp_all

lemma stage_of_set: "map_get st ''stage'' = Some (JStr (stage_name s)) \<Longrightarrow> stage_of st = Some s"
  by (cases s) (simp_all add: stage_of_def VALID_STAGES_def)

definition iterable_notes :: "fin_state \<Rightarrow> bool" where
  "iterable_notes st = (spread_notes (rget st ''notes'') \<noteq> None)"

text \<open>A state in memory that agrees with the file.\<close>

definition linked :: "world \<Rightarrow> fin_state \<Rightarrow> bool" where
  "linked w st = (stage_of st = Some (file_stage (w_file w)) \<and> iterable_notes st)"

definition file_ok :: "state_file \<Rightarrow> bool" where
  "file_ok f = (case f of Holds v \<Rightarrow> stage_of (props_of v) \<noteq> None \<longrightarrow> iterable_notes (props_of v) | _ \<Rightarrow> True)"

lemma mark_ok:
  assumes "iterable_notes st"
  obtains w' st' where "mark env s msg st w = (w', Inr st')" "linked w' st'" "file_stage (w_file w') = s"
    "w_calls w' = w_calls w" "file_ok (w_file w')"
proof -
  obtain ns where ns: "spread_notes (rget st ''notes'') = Some ns"
    using assms by (auto simp: iterable_notes_def)
  define st1 where "st1 = map_set (map_set st ''stage'' (JStr (stage_name s))) ''notes''
      (JArr (ns @ [JStr (e_clock env (w_ticks w) @ '' '' @ msg)]))"
  define st' where "st' = map_set st1 ''updatedAt'' (JStr (e_clock env (w_ticks w + 1)))"
  define w' where "w' = w\<lparr>w_file := Holds (JObj st'), w_ticks := w_ticks w + 1 + 1\<rparr>"
  have "rget (map_set st ''stage'' (JStr (stage_name s))) ''notes'' = rget st ''notes''" by (simp add: rget_def)
  then have m: "mark env s msg st w = (w', Inr st')"
    by (simp add: mark_def ns writeState_def Let_def st'_def st1_def w'_def)
  have g: "stage_of st' = Some s" by (rule stage_of_set) (simp add: st'_def st1_def)
  moreover have "iterable_notes st'" by (simp add: iterable_notes_def st'_def st1_def rget_def spread_notes_def)
  ultimately show thesis using that [OF m] by (simp add: w'_def linked_def file_stage_def file_ok_def)
qed

lemma iterable_set_stage [simp]: "k \<noteq> ''notes'' \<Longrightarrow> iterable_notes (map_set st k v) = iterable_notes st"
  by (simp add: iterable_notes_def rget_def)

abbreviation steps :: "fin_stage \<times> (fin_call \<times> bool) list \<Rightarrow> fin_stage \<times> (fin_call \<times> bool) list \<Rightarrow> bool" where
  "steps \<equiv> onboard_step\<^sup>*\<^sup>*"

text \<open>What each stage does, from a world it is linked to, is a path of the abstract machine.\<close>

definition sim :: "world \<Rightarrow> fin_state run \<Rightarrow> bool" where
  "sim w r = (steps (abs_world w) (abs_world (fst r)) \<and> (file_ok (w_file w) \<longrightarrow> file_ok (w_file (fst r)))
     \<and> (case snd r of Inl _ \<Rightarrow> True | Inr st \<Rightarrow> linked (fst r) st))"

lemma sim_then: "sim w x \<Longrightarrow> (\<And>w' st. linked w' st \<Longrightarrow> sim w' (f w' st)) \<Longrightarrow> sim w (then_run x f)"
  by (cases x; cases "snd x") (force simp: sim_def split: sum.splits)+

lemma sim_at: "linked w st \<Longrightarrow> (stage_of st = Some s \<Longrightarrow> sim w (f st w)) \<Longrightarrow> sim w (at_stage s f w st)"
  by (simp add: at_stage_def sim_def)

lemma sim_mark:
  assumes "iterable_notes st" and "steps (abs_world w) (t, w_calls w')"
  shows "sim w (mark env t msg st w')"
proof -
  obtain w'' st' where "mark env t msg st w' = (w'', Inr st')" "linked w'' st'" "file_stage (w_file w'') = t"
      "w_calls w'' = w_calls w'" "file_ok (w_file w'')"
    using mark_ok [OF assms(1)] by metis
  with assms(2) show ?thesis by (simp add: sim_def abs_world_def)
qed

lemma sim_fail: "steps (abs_world w) (abs_world w') \<Longrightarrow> w_file w' = w_file w \<Longrightarrow> sim w (w', Inl e)"
  by (simp add: sim_def)

lemma linked_abs: "linked w st \<Longrightarrow> stage_of st = Some s \<Longrightarrow> abs_world w = (s, w_calls w)"
  by (simp add: linked_def abs_world_def)

lemmas step_path = r_into_rtranclp [of onboard_step]

lemma sim_hook:
  assumes "linked w st" "stage_of st = Some s" "stage_call s = Some (c, t)"
  shows "sim w (hook_stage env hook c t msg deferred st w)"
proof -
  have n: "iterable_notes st" using assms(1) by (simp add: linked_def)
  note a = linked_abs [OF assms(1,2)]
  consider "hook = None" | e where "hook = Some (Inl e)" | "hook = Some (Inr ())" by (cases hook) (auto split: sum.splits elim: sumE)
  then show ?thesis
  proof cases
    case 1
    have "steps (abs_world w) (t, w_calls w)" unfolding a using assms(3) by (intro step_path onboard_step.skips)
    with 1 n show ?thesis by (simp add: hook_stage_def sim_mark)
  next
    case (2 e)
    have "steps (abs_world w) (s, w_calls w @ [(c, False)])" unfolding a using assms(3) by (intro step_path onboard_step.fails)
    with 2 a show ?thesis by (auto simp: hook_stage_def call_out_def abs_world_def intro!: sim_fail)
  next
    case 3
    have "steps (abs_world w) (t, w_calls w @ [(c, True)])" unfolding a using assms(3) by (intro step_path onboard_step.completes)
    with 3 n show ?thesis by (simp add: hook_stage_def call_out_def sim_mark)
  qed
qed

lemma sim_register:
  assumes l: "linked w st" "stage_of st = Some Indexed"
  shows "sim w (register_profile env st w)"
proof -
  have n: "iterable_notes st" using l(1) by (simp add: linked_def)
  note a = linked_abs [OF l]
  have S: "stage_call Indexed = Some (CRegister, ProfileRegistered)" by simp
  let ?w = "\<lambda>cs. w\<lparr>w_calls := w_calls w @ cs\<rparr>"
  have p0: "steps (abs_world w) (ProfileRegistered, w_calls w @ [(CRegister, True)])"
    unfolding a using S by (intro step_path onboard_step.completes)
  have p1: "steps (abs_world w) (Indexed, w_calls w @ [(CRegister, False)])"
    unfolding a using S by (intro step_path onboard_step.fails)
  have p2: "steps (abs_world w) (Indexed, w_calls w @ [(CRegister, False), (CAuth, b)])" for b
    using rtranclp.rtrancl_into_rtrancl [OF p1 onboard_step.authenticates] by simp
  have p3: "steps (abs_world w) (ProfileRegistered, w_calls w @ [(CRegister, False), (CAuth, b)])" for b
    using rtranclp.rtrancl_into_rtrancl [OF p2 onboard_step.skips [OF S]] .
  have p4: "steps (abs_world w) (ProfileRegistered, w_calls w @ [(CRegister, False), (CAuth, True), (CRegister, True)])"
    using rtranclp.rtrancl_into_rtrancl [OF p2 [of True] onboard_step.completes [OF S]] by simp
  have p5: "steps (abs_world w) (Indexed, w_calls w @ [(CRegister, False), (CAuth, True), (CRegister, False)])"
    using rtranclp.rtrancl_into_rtrancl [OF p2 [of True] onboard_step.fails [OF S]] by simp
  have p6: "steps (abs_world w) (ProfileRegistered, w_calls w @ [(CRegister, False), (CAuth, True), (CRegister, False)])"
    using rtranclp.rtrancl_into_rtrancl [OF p5 onboard_step.skips [OF S]] .
  have f: "abs_world (?w cs) = (Indexed, w_calls w @ cs)" for cs using a by (simp add: abs_world_def)
  have M: "sim w (mark env ProfileRegistered msg st (?w cs))" if "steps (abs_world w) (ProfileRegistered, w_calls w @ cs)" for cs msg
    using that n by (intro sim_mark) simp_all
  have F: "sim w (?w cs, Inl e)" if "steps (abs_world w) (Indexed, w_calls w @ cs)" for cs e
    using that by (intro sim_fail) (simp_all add: f)
  have R: "sim w (retry_register env st (?w [(CRegister, False)]))"
    using M F p2 p3 p4 p5 p6
    by (cases "e_auth env"; cases "e_register env 1") (simp_all add: retry_register_def call_out_def Let_def)
  show ?thesis
    using M [OF p0] F [OF p1] R by (cases "e_register env 0") (simp_all add: register_profile_def call_out_def)
qed

lemma sim_profile:
  assumes "linked w st" "stage_of st = Some Indexed"
  shows "sim w (profile_stage js url env p st w)"
proof -
  have n: "iterable_notes st" using assms(1) by (simp add: linked_def)
  have "steps (abs_world w) (ProfileRegistered, w_calls w)"
    unfolding linked_abs [OF assms] by (intro step_path onboard_step.skips [of _ CRegister]) simp
  then show ?thesis
    using n sim_register [OF assms]
    by (auto simp: profile_stage_def sim_mark sim_def [of w "(w, Inl _)"] split: sum.splits option.splits)
qed

lemma register_services_calls:
  assumes "register_services env i svcs w = (w', r)"
  shows "w_file w' = w_file w \<and>
    (case r of Inr _ \<Rightarrow> w_calls w' = w_calls w @ map (\<lambda>v. (CService v, True)) svcs
     | Inl _ \<Rightarrow> \<exists>pre v. w_calls w' = w_calls w @ map (\<lambda>v. (CService v, True)) pre @ [(CService v, False)])"
  using assms
proof (induction env i svcs w rule: register_services.induct)
  case (2 env i svc svcs w)
  show ?case
  proof (cases "e_service env i")
    case (Inl e)
    then show ?thesis using 2(2) by (auto simp: call_out_def intro!: exI [of _ "[]"])
  next
    case (Inr u)
    let ?w = "w\<lparr>w_calls := w_calls w @ [(CService svc, True)]\<rparr>"
    have r: "register_services env (Suc i) svcs ?w = (w', r)" using 2(2) Inr by (simp add: call_out_def)
    have c: "call_out (CService svc) (e_service env i) w = (Inr u, ?w)" using Inr by (simp add: call_out_def)
    note ih = 2(1) [OF c [symmetric] refl r]
    show ?thesis
    proof (cases r)
      case (Inl e)
      with ih obtain pre v where "w_calls w' = w_calls w @ map (\<lambda>v. (CService v, True)) (svc # pre) @ [(CService v, False)]"
        by auto
      with ih Inl show ?thesis by (auto intro!: exI [of _ "svc # pre"])
    qed (use ih in simp)
  qed
qed auto

lemma sim_services:
  assumes "linked w st" "stage_of st = Some ProfileRegistered"
  shows "sim w (services_stage js env p st w)"
proof (cases "resolveServices js p (e_service_answers env)")
  case (Inl e)
  then show ?thesis by (simp add: services_stage_def sim_def)
next
  case (Inr svcs)
  note a = linked_abs [OF assms]
  have n: "iterable_notes st" using assms(1) by (simp add: linked_def)
  obtain w' r where r: "register_services env 0 svcs w = (w', r)" by fastforce
  note c = register_services_calls [OF r]
  show ?thesis
  proof (cases r)
    case e: (Inl e)
    then obtain pre v where "w_calls w' = w_calls w @ map (\<lambda>v. (CService v, True)) pre @ [(CService v, False)]" "w_file w' = w_file w"
      using c by auto
    then have "steps (abs_world w) (abs_world w')"
      using a onboard_step.service_fails [of "w_calls w" pre v] by (simp add: abs_world_def step_path)
    with Inr r e c show ?thesis by (simp add: services_stage_def sim_fail)
  next
    case (Inr u)
    then have "steps (abs_world w) (ServicesRegistered, w_calls w')"
      using a c by (simp add: step_path onboard_step.services)
    with \<open>resolveServices js p (e_service_answers env) = Inr svcs\<close> Inr r n show ?thesis
      by (simp add: services_stage_def sim_mark)
  qed
qed

lemma sim_ready:
  assumes "linked w st" "stage_of st = Some ServicesRegistered"
  shows "sim w (ready_stage env st w)"
  unfolding ready_stage_def
  using assms by (intro sim_mark) (simp_all add: linked_def linked_abs [OF assms] step_path onboard_step.finishes)

lemma read_linked:
  "file_ok (w_file w) \<Longrightarrow> readState env p w = (w0, st) \<Longrightarrow> linked w0 st \<and> abs_world w0 = abs_world w \<and> w_file w0 = w_file w"
  by (auto simp: readState_def Let_def linked_def file_ok_def file_stage_def abs_world_def iterable_notes_def spread_notes_def rget_def
      stage_of_def [of "(_, _) # _"] VALID_STAGES_def split: state_file.splits option.splits if_splits)

lemma finalize_sim:
  assumes "file_ok (w_file w)"
  shows "sim w (finalizeOnboarding js url env p w)"
proof -
  obtain w0 st where r: "readState env p w = (w0, st)" by fastforce
  note l = read_linked [OF assms r]
  have "sim w0 (finalizeOnboarding js url env p w)"
  proof -
    have "sim w0 (w0, Inr st)" using l by (simp add: sim_def)
    show ?thesis
      unfolding finalizeOnboarding_def r Let_def split
      by (intro sim_then sim_at sim_hook sim_profile sim_services sim_ready | rule stage_call.simps | simp add: l)+
  qed
  then show ?thesis using l by (simp add: sim_def)
qed

section \<open>Where a run stops\<close>

definition lands :: "nat \<Rightarrow> fin_state run \<Rightarrow> bool" where
  "lands n r = (case snd r of Inl _ \<Rightarrow> True | Inr st \<Rightarrow> linked (fst r) st \<and> n \<le> stage_rank (file_stage (w_file (fst r))))"

lemma lands_then:
  "lands n x \<Longrightarrow> (\<And>w st. linked w st \<Longrightarrow> n \<le> stage_rank (file_stage (w_file w)) \<Longrightarrow> lands m (f w st)) \<Longrightarrow> lands m (then_run x f)"
  by (cases x; cases "snd x") (force simp: lands_def)+

lemma lands_at:
  assumes "linked w st" "stage_rank s \<le> stage_rank (file_stage (w_file w))"
    and "stage_of st = Some s \<Longrightarrow> lands (Suc (stage_rank s)) (f st w)"
  shows "lands (Suc (stage_rank s)) (at_stage s f w st)"
proof (cases "stage_of st = Some s")
  case False
  then have "file_stage (w_file w) \<noteq> s" using assms(1) by (simp add: linked_def)
  then have "stage_rank (file_stage (w_file w)) \<noteq> stage_rank s" by (simp add: stage_rank_inj)
  with False assms(1,2) show ?thesis by (simp add: at_stage_def lands_def)
qed (simp add: assms(3) at_stage_def)

lemma linked_iter: "linked w st \<Longrightarrow> iterable_notes st"
  by (simp add: linked_def)

lemma lands_mark: "iterable_notes st \<Longrightarrow> lands (stage_rank s) (mark env s msg st w)"
  by (rule mark_ok [of st env s msg w]) (simp_all add: lands_def linked_def)

lemma lands_inl [simp]: "lands n (w, Inl e)"
  by (simp add: lands_def)

lemma lands_hook: "linked w st \<Longrightarrow> lands (stage_rank t) (hook_stage env hook c t msg deferred st w)"
  using linked_iter by (auto simp: hook_stage_def call_out_def lands_mark split: option.splits sum.splits)

lemma lands_register: "linked w st \<Longrightarrow> lands (stage_rank ProfileRegistered) (register_profile env st w)"
  using lands_mark [of st ProfileRegistered] linked_iter [of w st]
  by (auto simp: register_profile_def retry_register_def call_out_def Let_def split: sum.splits)

lemma lands_profile: "linked w st \<Longrightarrow> lands (stage_rank ProfileRegistered) (profile_stage js url env p st w)"
  using lands_mark [of st ProfileRegistered] lands_register [of w st] linked_iter [of w st]
  by (auto simp: profile_stage_def split: sum.splits option.splits)

lemma lands_services: "linked w st \<Longrightarrow> lands (stage_rank ServicesRegistered) (services_stage js env p st w)"
  using lands_mark [of st ServicesRegistered] linked_iter [of w st]
  by (auto simp: services_stage_def then_run_def split: sum.splits prod.splits)

lemma lands_ready: "linked w st \<Longrightarrow> lands (stage_rank Ready) (ready_stage env st w)"
  unfolding ready_stage_def by (intro lands_mark) (simp add: linked_iter)

lemma lands_link:
  assumes "linked w st" "stage_rank s \<le> stage_rank (file_stage (w_file w))"
    and "\<And>w st. linked w st \<Longrightarrow> lands (Suc (stage_rank s)) (f st w)"
    and "\<And>w st. linked w st \<Longrightarrow> Suc (stage_rank s) \<le> stage_rank (file_stage (w_file w)) \<Longrightarrow> lands m (g w st)"
  shows "lands m (then_run (at_stage s f w st) g)"
  using assms by (intro lands_then [of "Suc (stage_rank s)"] lands_at)

lemma next_rank:
  "Suc (stage_rank Onboarded) = stage_rank VdxfPublished" "Suc (stage_rank VdxfPublished) = stage_rank VdxfVerified"
  "Suc (stage_rank VdxfVerified) = stage_rank Indexed" "Suc (stage_rank Indexed) = stage_rank ProfileRegistered"
  "Suc (stage_rank ProfileRegistered) = stage_rank ServicesRegistered" "Suc (stage_rank ServicesRegistered) = stage_rank Ready"
  by simp_all

lemma lands_stages:
  "linked w st \<Longrightarrow> lands (Suc (stage_rank Onboarded)) (hook_stage env h1 c1 VdxfPublished m1 d1 st w)"
  "linked w st \<Longrightarrow> lands (Suc (stage_rank VdxfPublished)) (hook_stage env h2 c2 VdxfVerified m2 d2 st w)"
  "linked w st \<Longrightarrow> lands (Suc (stage_rank VdxfVerified)) (hook_stage env h3 c3 Indexed m3 d3 st w)"
  "linked w st \<Longrightarrow> lands (Suc (stage_rank Indexed)) (profile_stage js url env p st w)"
  "linked w st \<Longrightarrow> lands (Suc (stage_rank ProfileRegistered)) (services_stage js env p st w)"
  "linked w st \<Longrightarrow> lands (Suc (stage_rank ServicesRegistered)) (ready_stage env st w)"
  by (unfold next_rank) (rule lands_hook lands_profile lands_services lands_ready; assumption)+

lemma top_rank: "Suc (stage_rank ServicesRegistered) \<le> stage_rank s \<Longrightarrow> s = Ready"
  by (cases s) simp_all

lemma finalize_lands:
  assumes "file_ok (w_file w)"
  shows "lands (Suc (stage_rank ServicesRegistered)) (finalizeOnboarding js url env p w)"
proof -
  obtain w0 st where r: "readState env p w = (w0, st)" by fastforce
  note l = read_linked [OF assms r]
  show ?thesis
    unfolding finalizeOnboarding_def r Let_def split
    by (intro lands_link lands_at lands_stages) (simp_all add: l)
qed

section \<open>Each call is completed once\<close>

definition calls_once :: "fin_stage \<times> (fin_call \<times> bool) list \<Rightarrow> bool" where
  "calls_once x = list_all (\<lambda>s. case stage_call s of None \<Rightarrow> True
      | Some (c, _) \<Rightarrow> count_list (snd x) (c, True) \<le> (if s < fst x then 1 else 0)) VALID_STAGES"

lemma count_services [simp]: "\<forall>v. c \<noteq> CService v \<Longrightarrow> count_list (map (\<lambda>v. (CService v, b)) svcs) (c, b') = 0"
  by (induction svcs) auto

lemma step_once: "onboard_step x y \<Longrightarrow> calls_once x \<Longrightarrow> calls_once y \<and> fst x \<le> fst y"
proof (induction rule: onboard_step.induct)
  case (completes s c t ev)
  then show ?case by (cases s) (auto simp: calls_once_def VALID_STAGES_def less_fin_stage_def less_eq_fin_stage_def)
next
  case (skips s c t ev)
  then show ?case by (cases s) (auto simp: calls_once_def VALID_STAGES_def less_fin_stage_def less_eq_fin_stage_def)
next
  case (fails s c t ev)
  then show ?case by (cases s) (auto simp: calls_once_def VALID_STAGES_def less_fin_stage_def)
qed (auto simp: calls_once_def VALID_STAGES_def less_fin_stage_def less_eq_fin_stage_def)

lemma steps_once: "steps x y \<Longrightarrow> calls_once x \<Longrightarrow> calls_once y \<and> fst x \<le> fst y"
  by (induction rule: rtranclp_induct) (auto dest: step_once)

definition run_ok :: "world \<Rightarrow> bool" where
  "run_ok w = (file_ok (w_file w) \<and> calls_once (abs_world w))"

text \<open>The runs of a process that is started again and again, each with its own answers.\<close>

interpretation fin: monotone_machine "\<lambda>w e. fst (finalizeOnboarding js url (fst e) (snd e) w)" run_ok "\<lambda>w. file_stage (w_file w)"
  for js url
proof
  fix w :: world and e :: "fin_env \<times> fin_params"
  assume w: "run_ok w"
  have "sim w (finalizeOnboarding js url (fst e) (snd e) w)"
    using w by (intro finalize_sim) (simp add: run_ok_def)
  then show "run_ok (fst (finalizeOnboarding js url (fst e) (snd e) w))"
      "file_stage (w_file w) \<le> file_stage (w_file (fst (finalizeOnboarding js url (fst e) (snd e) w)))"
    using w steps_once by (fastforce simp: sim_def run_ok_def abs_world_def)+
qed

definition fresh_world :: world where
  "fresh_world = \<lparr>w_file = Absent, w_calls = [], w_ticks = 0\<rparr>"

definition finalize_runs :: "jslib \<Rightarrow> (string \<Rightarrow> string option) \<Rightarrow> (fin_env \<times> fin_params) list \<Rightarrow> world" where
  "finalize_runs js url es = foldl (\<lambda>w e. fst (finalizeOnboarding js url (fst e) (snd e) w)) fresh_world es"

lemma fresh_ok: "run_ok fresh_world"
  by (simp add: run_ok_def fresh_world_def file_ok_def calls_once_def VALID_STAGES_def abs_world_def)

section \<open>Nothing fails when nothing outside fails\<close>

lemma ok_then:
  "lands n x \<Longrightarrow> is_ok (snd x) \<Longrightarrow> (\<And>w st. linked w st \<Longrightarrow> is_ok (snd (f w st))) \<Longrightarrow> is_ok (snd (then_run x f))"
  by (cases x; cases "snd x") (auto simp: lands_def is_ok_def)

lemma ok_at: "(linked w st \<Longrightarrow> is_ok (snd (f st w))) \<Longrightarrow> linked w st \<Longrightarrow> is_ok (snd (at_stage s f w st))"
  by (simp add: at_stage_def is_ok_def)

lemma ok_link:
  assumes l: "linked w st"
    and "\<And>w st. linked w st \<Longrightarrow> lands (Suc (stage_rank s)) (f st w)"
    and "\<And>w st. linked w st \<Longrightarrow> is_ok (snd (f st w))"
    and "\<And>w st. linked w st \<Longrightarrow> is_ok (snd (g w st))"
  shows "is_ok (snd (then_run (at_stage s f w st) g))"
proof (rule ok_then [of 0])
  show "lands 0 (at_stage s f w st)"
    using l assms(2) [OF l] by (cases "snd (f st w)") (simp_all add: at_stage_def lands_def)
qed (use assms in \<open>simp_all add: ok_at\<close>)

lemma ok_mark: "iterable_notes st \<Longrightarrow> is_ok (snd (mark env s msg st w))"
  by (rule mark_ok [of st env s msg w]) simp_all

definition hook_fails :: "(jv, unit) result option \<Rightarrow> bool" where
  "hook_fails h = (case h of Some (Inl _) \<Rightarrow> True | _ \<Rightarrow> False)"

text \<open>A run in which every call outside succeeds, with nothing to ask.\<close>

definition smooth :: "fin_env \<Rightarrow> fin_params \<Rightarrow> bool" where
  "smooth env p = (\<not> hook_fails (h_publish env) \<and> \<not> hook_fails (h_verify env) \<and> \<not> hook_fails (h_index env)
     \<and> is_ok (e_register env 0) \<and> list_all (\<lambda>i. is_ok (e_service env i)) [0..<length (case fp_services p of None \<Rightarrow> [] | Some s \<Rightarrow> s)]
     \<and> (\<not> fp_interactive p \<or> fp_profile p \<noteq> None \<and> fp_services p \<noteq> None \<and> fp_services p \<noteq> Some []))"

lemma ok_hook: "linked w st \<Longrightarrow> \<not> hook_fails h \<Longrightarrow> is_ok (snd (hook_stage env h c t msg deferred st w))"
  by (auto simp: hook_stage_def call_out_def hook_fails_def ok_mark linked_iter split: option.splits sum.splits)

lemma ok_profile: "linked w st \<Longrightarrow> smooth env p \<Longrightarrow> is_ok (snd (profile_stage js url env p st w))"
  by (auto simp: profile_stage_def resolveProfile_def smooth_def register_profile_def call_out_def ok_mark linked_iter
      split: option.splits sum.splits)

lemma ok_register_services:
  "(\<And>j. j < length svcs \<Longrightarrow> is_ok (e_service env (i + j))) \<Longrightarrow> is_ok (snd (register_services env i svcs w))"
proof (induction svcs arbitrary: i w)
  case (Cons a svcs)
  have "is_ok (e_service env i)" using Cons.prems [of 0] by simp
  moreover have "is_ok (snd (register_services env (Suc i) svcs w'))" for w'
    using Cons.prems [of "Suc _"] by (intro Cons.IH) simp
  ultimately show ?case by (cases "e_service env i") (auto simp: call_out_def is_ok_def)
qed (simp add: is_ok_def)

lemma ok_services:
  assumes "linked w st" "smooth env p"
  shows "is_ok (snd (services_stage js env p st w))"
proof -
  obtain svcs where s: "resolveServices js p (e_service_answers env) = Inr svcs" "svcs = (case fp_services p of None \<Rightarrow> [] | Some s \<Rightarrow> s)"
    using assms(2) by (cases "fp_services p") (auto simp: resolveServices_def smooth_def)
  have "is_ok (snd (register_services env 0 svcs w))"
    using assms(2) s(2) by (intro ok_register_services) (simp add: smooth_def list_all_iff)
  then obtain w' where "register_services env 0 svcs w = (w', Inr ())"
    by (cases "register_services env 0 svcs w"; cases "snd (register_services env 0 svcs w)") auto
  then show ?thesis
    using s(1) ok_mark [OF linked_iter [OF assms(1)]] by (simp add: services_stage_def)
qed

lemma ok_ready: "linked w st \<Longrightarrow> is_ok (snd (ready_stage env st w))"
  unfolding ready_stage_def by (intro ok_mark) (simp add: linked_iter)

lemma finalize_ok:
  assumes "file_ok (w_file w)" "smooth env p"
  shows "is_ok (snd (finalizeOnboarding js url env p w))"
proof -
  obtain w0 st where r: "readState env p w = (w0, st)" by fastforce
  note l = read_linked [OF assms(1) r]
  have h: "\<not> hook_fails (h_publish env)" "\<not> hook_fails (h_verify env)" "\<not> hook_fails (h_index env)"
    using assms(2) by (simp_all add: smooth_def)
  show ?thesis
    unfolding finalizeOnboarding_def r Let_def split
    by (intro ok_link ok_at lands_stages ok_hook h ok_profile ok_services ok_ready) (simp_all add: l assms(2))
qed

lemma run_again:
  assumes "file_stage (w_file w) = Ready"
  shows "fst (finalizeOnboarding js url env p w) = w"
proof -
  obtain v where "w_file w = Holds v" "stage_of (props_of v) = Some Ready"
    using assms by (auto simp: file_stage_def split: state_file.splits option.splits)
  then show ?thesis by (simp add: finalizeOnboarding_def readState_def at_stage_def Let_def)
qed

section \<open>What the questions let through\<close>

lemma trim_trim: "trim s = [] \<longleftrightarrow> list_all is_space s"
proof -
  have "trim s = [] \<longleftrightarrow> dropWhile is_space (dropWhile is_space s) = []"
    by (simp only: trim_def rev_is_Nil_conv dropWhile_eq_Nil_conv set_rev)
  then show ?thesis by (simp add: list_all_iff)
qed

lemma trim_not_blank: "trim s \<noteq> [] \<Longrightarrow> trim (trim s) \<noteq> []"
proof -
  assume s: "trim s \<noteq> []"
  have "\<not> list_all is_space (trim s)"
    using hd_dropWhile [of is_space "rev (dropWhile is_space s)"] s
    by (metis (no_types, lifting) trim_def hd_in_set list_all_iff rev_is_Nil_conv set_rev)
  then show ?thesis by (simp add: trim_trim)
qed

lemma comma_list_texts: "t \<in> set (comma_list s) \<Longrightarrow> trim t \<noteq> []"
  by (auto simp: comma_list_def trim_not_blank)

lemma session_number_get:
  "map_get (session_number js b k raw) k' = (if k = k' \<and> session_number js b k raw \<noteq> [] then Some (JNum (to_number js (JStr raw))) else None)"
  by (auto simp: session_number_def opt_field_def Let_def)

lemma session_number_ok:
  "session_number js b k raw \<noteq> [] \<Longrightarrow> isFinitePositive (JNum (to_number js (JStr raw)))"
  "session_number js True k raw \<noteq> [] \<Longrightarrow> isFinitePositiveInt (JNum (to_number js (JStr raw)))"
  by (auto simp: session_number_def opt_field_def Let_def isFinitePositiveInt_def isFinitePositive_def split: if_splits)

lemma session_fields_valid: "validateSessionInput (JObj (session_fields js d t i m f ty)) = None"
proof -
  let ?s = "session_fields js d t i m f ty"
  have ft: "jget (JObj ?s) ''allowedFileTypes'' = (if ty \<noteq> [] \<and> comma_list ty \<noteq> [] then JArr (map JStr (comma_list ty)) else JUndef)"
    by (simp add: session_fields_def jget_def map_get_append session_number_get opt_field_def)
  have n: "\<not> bad_field (JObj ?s) isFinitePositive ''duration''" "\<not> bad_field (JObj ?s) isFinitePositiveInt ''tokenLimit''"
    "\<not> bad_field (JObj ?s) isFinitePositiveInt ''imageLimit''" "\<not> bad_field (JObj ?s) isFinitePositiveInt ''messageLimit''"
    "\<not> bad_field (JObj ?s) isFinitePositiveInt ''maxFileSize''"
    by (auto simp: bad_field_def session_fields_def jget_def map_get_append session_number_get opt_field_def session_number_ok nullish_def
        split: option.splits if_splits)
  show ?thesis
    using n by (auto simp: validateSessionInput_def nullish_def ft Let_def first_bad_None check_file_type_def comma_list_texts)
qed

lemma ask_session_ok: "ask_session js as = Inr (Some s, r) \<Longrightarrow> s \<noteq> JObj [] \<and> validateSessionInput s = None"
  by (auto simp: ask_session_def bind_r_def Let_def check_def split: sum.splits if_splits option.splits)

lemma endpoint_loop_bound: "endpoint_loop eps add as = Inr (eps', r) \<Longrightarrow> length eps < 10 \<Longrightarrow> length eps' \<le> 10"
  by (induction eps add as rule: endpoint_loop.induct) (auto simp: Let_def split: if_splits list.splits)

lemma capability_loop_bound: "capability_loop caps add as = Inr (caps', r) \<Longrightarrow> length caps < 50 \<Longrightarrow> length caps' \<le> 50"
  by (induction caps add as rule: capability_loop.induct) (auto simp: Let_def split: if_splits list.splits)

lemma check_ok: "check e = Inr () \<longleftrightarrow> e = None"
  by (cases e) (simp_all add: check_def)

lemma bind_Inr: "bind_r y f = Inr x \<longleftrightarrow> (\<exists>a. y = Inr a \<and> f a = Inr x)"
  by (cases y) auto

lemma ask_list_ok: "ask_list f raw = Inr xs \<Longrightarrow> f [] = None \<Longrightarrow> f xs = None"
  by (auto simp: ask_list_def bind_Inr check_ok split: if_splits)

lemma ask_url_ok: "ask_url url s = Inr () \<Longrightarrow> s = [] \<or> validateUrl url s = None"
  by (auto simp: ask_url_def check_def split: if_splits option.splits)

lemma ask_tags_ok: "ask_list validateTags raw = Inr xs \<Longrightarrow> validateTags xs = None"
  by (erule ask_list_ok) (simp add: validateTags_def)

lemma ask_protocols_ok: "ask_list validateProtocols raw = Inr xs \<Longrightarrow> validateProtocols xs = None"
  by (erule ask_list_ok) (simp add: validateProtocols_def)

text \<open>The checks that have passed when the questions are answered.\<close>

lemma ask_profile_checked:
  assumes "ask_profile js url as = Inr (a, r)"
  obtains tagsRaw protocolsRaw addEp as1 r1 addCap as2 r2 as3 where
    "validateAgentName (pa_name a) = None" "validateAgentType (pa_type a) = None" "validateDescription (pa_desc a) = None"
    "ask_list validateTags tagsRaw = Inr (pa_tags a)" "ask_list validateProtocols protocolsRaw = Inr (pa_protocols a)"
    "ask_url url (pa_website a) = Inr ()" "ask_url url (pa_avatar a) = Inr ()"
    "endpoint_loop [] addEp as1 = Inr (pa_endpoints a, r1)" "capability_loop [] addCap as2 = Inr (pa_capabilities a, r2)"
    "ask_session js as3 = Inr (pa_session a, r)"
  using assms unfolding ask_profile_def
  by (clarsimp simp: bind_Inr check_ok)

lemma ask_profile_ok:
  assumes "ask_profile js url as = Inr (a, r)"
  shows "validateAgentName (pa_name a) = None \<and> validateAgentType (pa_type a) = None \<and> validateDescription (pa_desc a) = None
    \<and> validateTags (pa_tags a) = None \<and> validateProtocols (pa_protocols a) = None
    \<and> (pa_website a = [] \<or> validateUrl url (pa_website a) = None) \<and> (pa_avatar a = [] \<or> validateUrl url (pa_avatar a) = None)
    \<and> length (pa_endpoints a) \<le> 10 \<and> length (pa_capabilities a) \<le> 50
    \<and> (case pa_session a of None \<Rightarrow> True | Some s \<Rightarrow> s \<noteq> JObj [] \<and> validateSessionInput s = None)"
proof (rule ask_profile_checked [OF assms])
  fix addEp as1 r1 addCap as2 r2 as3
  assume "endpoint_loop [] addEp as1 = Inr (pa_endpoints a, r1)" "capability_loop [] addCap as2 = Inr (pa_capabilities a, r2)"
    and "ask_session js as3 = Inr (pa_session a, r)"
  then have "length (pa_endpoints a) \<le> 10 \<and> length (pa_capabilities a) \<le> 50
      \<and> (case pa_session a of None \<Rightarrow> True | Some s \<Rightarrow> s \<noteq> JObj [] \<and> validateSessionInput s = None)"
    using endpoint_loop_bound capability_loop_bound ask_session_ok by (fastforce split: option.splits)
  then show ?thesis if "validateAgentName (pa_name a) = None" "validateAgentType (pa_type a) = None"
      "validateDescription (pa_desc a) = None" "ask_list validateTags t = Inr (pa_tags a)"
      "ask_list validateProtocols q = Inr (pa_protocols a)" "ask_url url (pa_website a) = Inr ()" "ask_url url (pa_avatar a) = Inr ()" for t q
    using that ask_tags_ok [OF that(4)] ask_protocols_ok [OF that(5)] ask_url_ok [OF that(6)] ask_url_ok [OF that(7)] by simp
qed

section \<open>Properties\<close>


definition demo_env :: fin_env where
  "demo_env = \<lparr>h_publish = Some (Inr ()), h_verify = None, h_index = Some (Inr ()), e_register = (\<lambda>_. Inr ()), e_auth = Inr (),
     e_service = (\<lambda>_. Inr ()), e_answers = [], e_service_answers = [], e_clock = (\<lambda>_. ''2026-01-01T00:00:00.000Z'')\<rparr>"

definition demo_params :: fin_params where
  "demo_params = \<lparr>fp_interactive = False, fp_identity = Some ''a.agentplatform@'', fp_address = None,
     fp_profile = Some (JObj [(''name'', JStr ''abc'')]), fp_services = Some [JObj [(''name'', JStr ''svc'')]]\<rparr>"


text \<open>
  Across any number of runs, each with its own parameters and answers and each stopping at any
  failure, the publication, the verification, the wait for the index and the registration of the
  profile are each completed at most once, and the stage of the file never goes back.
\<close>

theorem stages_completed_once:
  "(let w = finalize_runs js url es in
    count_list (w_calls w) (CPublish, True) \<le> 1 \<and> count_list (w_calls w) (CVerify, True) \<le> 1
  \<and> count_list (w_calls w) (CIndex, True) \<le> 1 \<and> count_list (w_calls w) (CRegister, True) \<le> 1
  \<and> file_stage (w_file (finalize_runs js url (take n es))) \<le> file_stage (w_file w))"
proof -
  have k: "run_ok (finalize_runs js url es)" for es
    unfolding finalize_runs_def by (rule fin.run_inv [OF fresh_ok])
  have "finalize_runs js url es = foldl (\<lambda>w e. fst (finalizeOnboarding js url (fst e) (snd e) w)) (finalize_runs js url (take n es)) (drop n es)"
    unfolding finalize_runs_def by (metis append_take_drop_id foldl_append)
  then have "file_stage (w_file (finalize_runs js url (take n es))) \<le> file_stage (w_file (finalize_runs js url es))"
    using fin.run_rank [OF k [of "take n es"], of js url "drop n es"] by simp
  then show ?thesis
    using k [of es] by (auto simp: run_ok_def calls_once_def VALID_STAGES_def Let_def abs_world_def split: if_splits)
qed

text \<open>
  C34. Liveness: when every hook given, the registration and every service succeed, and nothing needs
  to be asked, a run from any stage returns with the file at the last stage, and a further run, whatever it is given, makes no call
  and writes nothing.
\<close>

theorem finalize_completes:
  assumes "file_ok (w_file w)" "smooth env p"
  shows "\<exists>st w'. finalizeOnboarding js url env p w = (w', Inr st) \<and> file_stage (w_file w') = Ready
    \<and> fst (finalizeOnboarding js' url' env' p' w') = w'"
proof -
  obtain w' st where r: "finalizeOnboarding js url env p w = (w', Inr st)"
    using finalize_ok [OF assms, of js url]
    by (cases "finalizeOnboarding js url env p w"; cases "snd (finalizeOnboarding js url env p w)") auto
  then have "file_stage (w_file w') = Ready"
    using finalize_lands [OF assms(1), of js url env p] top_rank by (simp add: lands_def)
  with r run_again show ?thesis by blast
qed

lemma finalize_completes_witness:
  "\<exists>st w'. finalizeOnboarding demo_jslib (\<lambda>_. None) demo_env demo_params fresh_world = (w', Inr st) \<and> file_stage (w_file w') = Ready"
proof -
  have "smooth demo_env demo_params" by (simp add: smooth_def demo_env_def demo_params_def hook_fails_def)
  then show ?thesis
    using finalize_completes [of fresh_world demo_env demo_params demo_jslib "\<lambda>_. None"] fresh_ok unfolding run_ok_def by blast
qed

text \<open>
  A profile put together from the answers to the questions has a valid name, type, description,
  tags, protocols and links, at most ten endpoints and fifty capabilities, and a session
  that is absent or valid; the check of the session limits never rejects what was read from the answers.
\<close>

theorem ask_profile_valid:
  assumes "ask_profile js url as = Inr (a, r)"
  shows "validateAgentName (pa_name a) = None \<and> validateAgentType (pa_type a) = None \<and> validateDescription (pa_desc a) = None
    \<and> validateTags (pa_tags a) = None \<and> validateProtocols (pa_protocols a) = None
    \<and> (pa_website a = [] \<or> validateUrl url (pa_website a) = None) \<and> (pa_avatar a = [] \<or> validateUrl url (pa_avatar a) = None)
    \<and> length (pa_endpoints a) \<le> 10 \<and> length (pa_capabilities a) \<le> 50
    \<and> (case pa_session a of None \<Rightarrow> True | Some s \<Rightarrow> s \<noteq> JObj [] \<and> validateSessionInput s = None)
    \<and> validateSessionInput (JObj (session_fields js d t i m f ty)) = None"
  using ask_profile_ok [OF assms] session_fields_valid by simp

definition demo_answers :: "string list" where
  "demo_answers = [''my-agent'', ''autonomous'', ''An agent for tests'', ''general'', [], ''a, b'', [], [], ''MCP'', ''N'', ''N'', ''N'']"

lemma ask_profile_valid_witness:
  "\<exists>a r. ask_profile demo_jslib (\<lambda>_. None) demo_answers = Inr (a, r) \<and> pa_tags a = [''a'', ''b''] \<and> validateTags (pa_tags a) = None"
proof -
  have "case ask_profile demo_jslib (\<lambda>_. None) demo_answers of Inl _ \<Rightarrow> False | Inr (a, r) \<Rightarrow> pa_tags a = [''a'', ''b'']"
    by code_simp
  then obtain a r where a: "ask_profile demo_jslib (\<lambda>_. None) demo_answers = Inr (a, r)" "pa_tags a = [''a'', ''b'']"
    by (auto split: sum.splits)
  show ?thesis using a ask_profile_valid [OF a(1)] by blast
qed

end
