(* ===== verification/Cli.thy ===== *)
theory Cli
  imports MessageSig Finalize
begin

text \<open>
  The command line, \<open>bin/j41.js\<close>: a run reads lines, prints, keeps the keys in a file and calls the agent. Each call is
  recorded with the file as it is at that moment. A line that never comes leaves the run pending. Of what is printed the
  lines about keys are kept; the agent's own operations answer from the environment and are modelled in \<open>Registration\<close> and
  \<open>Endpoints\<close>. The file system is taken to be writable.
\<close>

section \<open>A run\<close>

datatype key_text = Garbled | Json jv

type_synonym key_file = "(nat \<times> key_text) option"

datatype cli_call = CallRegister string jv | CallProfile jv | CallService jv

record cli_world =
  cw_lines :: "string list"
  cw_file :: key_file
  cw_out :: "(string \<times> jv) list"
  cw_calls :: "(jv \<times> cli_call \<times> key_file) list"

datatype cli_stop = Pending | Threw string

record cli_env =
  ce_sig :: sig_lib
  ce_net :: "network \<Rightarrow> net_consts"
  ce_random :: "nat list"
  ce_api :: string
  ce_insecure :: bool
  ce_js :: jslib
  ce_url :: "string \<Rightarrow> string option"
  ce_register :: "string \<Rightarrow> jv \<Rightarrow> (string, jv) result"
  ce_profile :: "jv \<Rightarrow> (string, unit) result"
  ce_service :: "jv \<Rightarrow> (string, unit) result"

type_synonym 'a cli = "cli_world \<Rightarrow> (cli_stop, 'a) result \<times> cli_world"

definition ret :: "'a \<Rightarrow> 'a cli" where
  "ret a w = (Inr a, w)"

definition bind_cli :: "'a cli \<Rightarrow> ('a \<Rightarrow> 'b cli) \<Rightarrow> 'b cli" where
  "bind_cli m f w = (case m w of (Inl e, w') \<Rightarrow> (Inl e, w') | (Inr a, w') \<Rightarrow> f a w')"

definition ask_line :: "string cli" where
  "ask_line w = (case cw_lines w of [] \<Rightarrow> (Inl Pending, w) | l # ls \<Rightarrow> (Inr l, w\<lparr>cw_lines := ls\<rparr>))"

definition print :: "string \<Rightarrow> jv \<Rightarrow> unit cli" where
  "print label v w = (Inr (), w\<lparr>cw_out := cw_out w @ [(label, v)]\<rparr>)"

definition lift_r :: "(string, 'a) result \<Rightarrow> 'a cli" where
  "lift_r r w = (case r of Inl e \<Rightarrow> (Inl (Threw e), w) | Inr a \<Rightarrow> (Inr a, w))"

definition or_else :: "string \<Rightarrow> string \<Rightarrow> string" where
  "or_else s d = (if s = [] then d else s)"

section \<open>Checks\<close>

definition validateNetwork :: "string \<Rightarrow> network option" where
  "validateNetwork s = (if s = ''verus'' then Some Verus else if s = ''verustest'' then Some Verustest else None)"

definition network_text :: "network \<Rightarrow> string" where
  "network_text net = (case net of Verus \<Rightarrow> ''verus'' | Verustest \<Rightarrow> ''verustest'')"

definition CLI_TYPES :: "string list" where
  "CLI_TYPES = [''autonomous'', ''assisted'', ''tool'']"

definition validateName :: "string \<Rightarrow> valid_error option" where
  "validateName name =
     (if name = [] then Some Required
      else if length name < 3 then Some TooShort
      else if 64 < length name then Some TooLong
      else if \<not> list_all name_char name then Some BadCharacters
      else if to_lower name \<in> set RESERVED_NAMES then Some (Reserved name)
      else None)"

definition cli_url :: "(string \<Rightarrow> string option) \<Rightarrow> string \<Rightarrow> valid_error option" where
  "cli_url url s = (case url s of None \<Rightarrow> Some InvalidUrl | Some p \<Rightarrow> if p \<in> {''http:'', ''https:''} then None else Some NotHttp)"

definition cli_description :: "string \<Rightarrow> valid_error option" where
  "cli_description d = (if d = [] \<or> length d < 10 then Some TooShort else if 1000 < length d then Some TooLong else None)"

definition cli_tags :: "string list \<Rightarrow> valid_error option" where
  "cli_tags tags =
     (if 20 < length tags then Some TooMany else first_bad (\<lambda>t. if 32 < length t then Some (TagTooLong t) else None) tags)"

definition cli_protocols :: "string list \<Rightarrow> valid_error option" where
  "cli_protocols ps = (case first_bad (\<lambda>p. if p \<in> set VALID_PROTOCOLS then None else Some (BadProtocol p)) ps of
       Some e \<Rightarrow> Some e
     | None \<Rightarrow> if 10 < length ps then Some TooMany else None)"

section \<open>The profile\<close>

definition ask_trim :: "string list \<Rightarrow> string asked" where
  "ask_trim as = bind_r (ask as) (\<lambda>(a, as). Inr (trim a, as))"

fun endpoints_asked :: "(string \<Rightarrow> string option) \<Rightarrow> endpoint_input list \<Rightarrow> string \<Rightarrow> string list \<Rightarrow> endpoint_input list asked" where
  "endpoints_asked url eps add [] = (if \<not> yes add then Inr (eps, []) else Inl Waiting)"
| "endpoints_asked url eps add (u # as) =
     (if \<not> yes add then Inr (eps, u # as)
      else if trim u = [] \<or> cli_url url (trim u) \<noteq> None then Inr (eps, as)
      else case as of
        [] \<Rightarrow> Inl Waiting
      | p # as1 \<Rightarrow>
          if trim p = [] then Inr (eps, as1)
          else case as1 of
            d # b # as2 \<Rightarrow>
              (let eps' = eps @ [\<lparr>ep_url = trim u, ep_protocol = trim p, ep_public = yes (trim b), ep_desc = opt_text (trim d)\<rparr>] in
               if 10 \<le> length eps' then Inr (eps', as2)
               else case as2 of [] \<Rightarrow> Inl Waiting | add' # as3 \<Rightarrow> endpoints_asked url eps' (trim add') as3)
          | _ \<Rightarrow> Inl Waiting)"

fun capabilities_asked :: "capability_input list \<Rightarrow> string \<Rightarrow> string list \<Rightarrow> capability_input list asked" where
  "capabilities_asked caps add [] = (if \<not> yes add then Inr (caps, []) else Inl Waiting)"
| "capabilities_asked caps add (c # as) =
     (if \<not> yes add then Inr (caps, c # as)
      else if trim c = [] then Inr (caps, as)
      else case as of
        [] \<Rightarrow> Inl Waiting
      | n # as1 \<Rightarrow>
          if trim n = [] then Inr (caps, as1)
          else case as1 of
            [] \<Rightarrow> Inl Waiting
          | d # as2 \<Rightarrow>
              (let caps' = caps @ [\<lparr>cap_id = trim c, cap_name = trim n, cap_desc = opt_text (trim d)\<rparr>] in
               if 50 \<le> length caps' then Inr (caps', as2)
               else case as2 of [] \<Rightarrow> Inl Waiting | add' # as3 \<Rightarrow> capabilities_asked caps' (trim add') as3))"

definition session_asked :: "jslib \<Rightarrow> string list \<Rightarrow> (string, jv) jsmap asked" where
  "session_asked js as =
     bind_r (ask_trim as) (\<lambda>(duration, as). bind_r (ask_trim as) (\<lambda>(tokens, as). bind_r (ask_trim as) (\<lambda>(images, as).
     bind_r (ask_trim as) (\<lambda>(messages, as). bind_r (ask_trim as) (\<lambda>(file_size, as). bind_r (ask_trim as) (\<lambda>(types, as).
     Inr (session_fields js duration tokens images messages file_size types, as)))))))"

record cli_profile =
  cp_name :: string
  cp_type :: string
  cp_desc :: string
  cp_category :: string
  cp_owner :: string
  cp_tags :: "string list option"
  cp_website :: string
  cp_avatar :: string
  cp_protocols :: "string list option"
  cp_endpoints :: "endpoint_input list"
  cp_capabilities :: "capability_input list"
  cp_session :: "(string, jv) jsmap"

text \<open>A list that is only there when the answer is not empty.\<close>

definition list_asked :: "(string list \<Rightarrow> valid_error option) \<Rightarrow> string \<Rightarrow> (fin_error, string list option) result" where
  "list_asked f raw =
     (if raw = [] then Inr None else bind_r (check (f (comma_list raw))) (\<lambda>_. Inr (Some (comma_list raw))))"

definition url_asked :: "(string \<Rightarrow> string option) \<Rightarrow> string \<Rightarrow> (fin_error, unit) result" where
  "url_asked url s = (if s = [] then Inr () else check (cli_url url s))"

definition collectAgentProfile :: "jslib \<Rightarrow> (string \<Rightarrow> string option) \<Rightarrow> string list \<Rightarrow> cli_profile asked" where
  "collectAgentProfile js url as =
     bind_r (ask_trim as) (\<lambda>(name, as). bind_r (check (validateName name)) (\<lambda>_.
     bind_r (ask_trim as) (\<lambda>(typ, as). let typ = or_else typ ''autonomous'' in
     bind_r (check (if typ \<in> set CLI_TYPES then None else Some NotOneOf)) (\<lambda>_.
     bind_r (ask_trim as) (\<lambda>(desc, as). bind_r (check (cli_description desc)) (\<lambda>_.
     bind_r (ask_trim as) (\<lambda>(category, as). bind_r (ask_trim as) (\<lambda>(owner, as).
     bind_r (ask_trim as) (\<lambda>(tagsRaw, as). bind_r (list_asked cli_tags tagsRaw) (\<lambda>tags.
     bind_r (ask_trim as) (\<lambda>(website, as). bind_r (url_asked url website) (\<lambda>_.
     bind_r (ask_trim as) (\<lambda>(avatar, as). bind_r (url_asked url avatar) (\<lambda>_.
     bind_r (ask_trim as) (\<lambda>(protocolsRaw, as). bind_r (list_asked cli_protocols protocolsRaw) (\<lambda>protocols.
     bind_r (ask_trim as) (\<lambda>(addEp, as). bind_r (endpoints_asked url [] addEp as) (\<lambda>(eps, as).
     bind_r (ask_trim as) (\<lambda>(addCap, as). bind_r (capabilities_asked [] addCap as) (\<lambda>(caps, as).
     bind_r (session_asked js as) (\<lambda>(session, as).
     Inr (\<lparr>cp_name = name, cp_type = typ, cp_desc = desc, cp_category = or_else category ''general'', cp_owner = owner,
           cp_tags = tags, cp_website = website, cp_avatar = avatar, cp_protocols = protocols, cp_endpoints = eps,
           cp_capabilities = caps, cp_session = session\<rparr>, as))))))))))))))))))))))"

definition opt_list :: "string \<Rightarrow> string list option \<Rightarrow> (string \<times> jv) list" where
  "opt_list k xs = (case xs of None \<Rightarrow> [] | Some ys \<Rightarrow> [(k, str_list ys)])"

definition endpoint_json :: "endpoint_input \<Rightarrow> jv" where
  "endpoint_json e = JObj [(''url'', JStr (ep_url e)), (''protocol'', JStr (ep_protocol e)),
     (''description'', case ep_desc e of None \<Rightarrow> JUndef | Some d \<Rightarrow> JStr d), (''public'', JBool (ep_public e))]"

definition capability_json :: "capability_input \<Rightarrow> jv" where
  "capability_json c = JObj [(''id'', JStr (cap_id c)), (''name'', JStr (cap_name c)),
     (''description'', case cap_desc c of None \<Rightarrow> JUndef | Some d \<Rightarrow> JStr d)]"

definition profile_json :: "cli_profile \<Rightarrow> (string \<times> jv) list" where
  "profile_json p =
     [(''name'', JStr (cp_name p)), (''type'', JStr (cp_type p)), (''description'', JStr (cp_desc p)), (''category'', JStr (cp_category p))]
     @ opt_field (cp_owner p \<noteq> []) ''owner'' (JStr (cp_owner p)) @ opt_list ''tags'' (cp_tags p)
     @ opt_field (cp_website p \<noteq> []) ''website'' (JStr (cp_website p)) @ opt_field (cp_avatar p \<noteq> []) ''avatar'' (JStr (cp_avatar p))
     @ opt_list ''protocols'' (cp_protocols p)
     @ opt_field (cp_endpoints p \<noteq> []) ''endpoints'' (JArr (map endpoint_json (cp_endpoints p)))
     @ opt_field (cp_capabilities p \<noteq> []) ''capabilities'' (JArr (map capability_json (cp_capabilities p)))
     @ opt_field (cp_session p \<noteq> []) ''session'' (JObj (cp_session p))"

section \<open>The services\<close>

fun services_asked :: "jslib \<Rightarrow> jv list \<Rightarrow> string \<Rightarrow> string list \<Rightarrow> jv list asked" where
  "services_asked js svcs add [] = (if \<not> yes add then Inr (svcs, []) else Inl Waiting)"
| "services_asked js svcs add (n # as) =
     (if \<not> yes add then Inr (svcs, n # as)
      else if trim n = [] then Inr (svcs, as)
      else case as of
        d # c # p # cur # t # add' # as' \<Rightarrow>
          services_asked js (svcs @ [service_of js (trim n) (trim d) (or_else (trim c) ''general'') (or_else (trim p) ''0'')
            (or_else (trim cur) ''VRSCTEST'') (or_else (trim t) ''TBD'')]) (trim add') as'
      | _ \<Rightarrow> Inl Waiting)"

definition collectServices :: "jslib \<Rightarrow> string list \<Rightarrow> jv list asked" where
  "collectServices js as = bind_r (ask_trim as) (\<lambda>(add, as). services_asked js [] add as)"

text \<open>Questions that are answered, refused with a message (\<open>None\<close>), or left open.\<close>

definition lift_asked :: "(string list \<Rightarrow> 'a asked) \<Rightarrow> 'a option cli" where
  "lift_asked f w = (case f (cw_lines w) of
       Inr (a, ls) \<Rightarrow> (Inr (Some a), w\<lparr>cw_lines := ls\<rparr>)
     | Inl Waiting \<Rightarrow> (Inl Pending, w\<lparr>cw_lines := []\<rparr>)
     | Inl _ \<Rightarrow> (Inr None, w))"

section \<open>The key file\<close>

text \<open>The file is removed first: the mode of \<open>writeFileSync\<close> only counts when it creates the file.\<close>

definition KEY_MODE :: nat where "KEY_MODE = 6 * 64"

definition unlink :: "unit cli" where
  "unlink w = (Inr (), w\<lparr>cw_file := None\<rparr>)"

definition write_new :: "jv \<Rightarrow> unit cli" where
  "write_new v w =
     (Inr (), w\<lparr>cw_file := Some (case cw_file w of None \<Rightarrow> KEY_MODE | Some (m, _) \<Rightarrow> m,
        Json (JObj (filter (\<lambda>p. snd p \<noteq> JUndef) (props_of v))))\<rparr>)"


definition save_keys :: "jv \<Rightarrow> unit cli" where
  "save_keys v = bind_cli unlink (\<lambda>_. write_new v)"

definition key_object :: "key_pair \<Rightarrow> network \<Rightarrow> jv" where
  "key_object kp net = JObj [(''wif'', JStr (kp_wif kp)), (''pubkey'', JStr (kp_public kp)), (''address'', JStr (kp_address kp)),
     (''network'', JStr (network_text net))]"

definition masked :: "string \<Rightarrow> string" where
  "masked wif = take 4 wif @ ''...'' @ drop (length wif - 4) wif"

definition print_keys :: "key_pair \<Rightarrow> unit cli" where
  "print_keys kp = bind_cli (print ''Address'' (JStr (kp_address kp))) (\<lambda>_.
     bind_cli (print ''Pubkey'' (JStr (kp_public kp))) (\<lambda>_. print ''WIF'' (JStr (masked (kp_wif kp)))))"

definition new_keys :: "cli_env \<Rightarrow> (network \<times> key_pair) option cli" where
  "new_keys env = bind_cli ask_line (\<lambda>l.
     case validateNetwork (or_else (trim l) ''verustest'') of
       None \<Rightarrow> ret None
     | Some net \<Rightarrow> bind_cli (lift_r (generateKeypair (ce_sig env) (ce_net env net) (ce_random env))) (\<lambda>kp.
         bind_cli (print_keys kp) (\<lambda>_. ret (Some (net, kp)))))"

definition generateKeys :: "cli_env \<Rightarrow> unit cli" where
  "generateKeys env = bind_cli (new_keys env) (\<lambda>k. case k of
       None \<Rightarrow> ret ()
     | Some (net, kp) \<Rightarrow> bind_cli ask_line (\<lambda>l.
         if to_lower (trim l) = ''n'' then ret () else save_keys (key_object kp net)))"

definition ensure_keys :: "cli_env \<Rightarrow> jv \<Rightarrow> jv option cli" where
  "ensure_keys env saved =
     (if jtruthy saved \<and> jtruthy (jget saved ''wif'') then ret (Some saved)
      else bind_cli (new_keys env) (\<lambda>k. case k of
          None \<Rightarrow> ret None
        | Some (net, kp) \<Rightarrow> bind_cli (save_keys (key_object kp net)) (\<lambda>_. ret (Some (key_object kp net)))))"

section \<open>The commands\<close>

text \<open>\<open>new J41Agent\<close> refuses plain HTTP.\<close>

definition new_agent :: "cli_env \<Rightarrow> unit cli" where
  "new_agent env = lift_r (if starts_with (ce_api env) ''http://'' \<and> \<not> ce_insecure env
     then Inl ''Refusing to connect over insecure HTTP. Set J41_ALLOW_INSECURE=1 to override (dev only).'' else Inr ())"

definition network_of :: "jv \<Rightarrow> jv" where
  "network_of keys = (if jtruthy (jget keys ''network'') then jget keys ''network'' else JStr ''verustest'')"

text \<open>A call of the agent, which signs with the key \<open>wif\<close>; its error is a value.\<close>

definition call :: "jv \<Rightarrow> cli_call \<Rightarrow> (string, 'a) result \<Rightarrow> (string, 'a) result cli" where
  "call wif c r w = (Inr r, w\<lparr>cw_calls := cw_calls w @ [(wif, c, cw_file w)]\<rparr>)"

fun register_services :: "cli_env \<Rightarrow> jv \<Rightarrow> jv list \<Rightarrow> unit cli" where
  "register_services env wif [] = ret ()"
| "register_services env wif (v # vs) =
     bind_cli (call wif (CallService v) (ce_service env v)) (\<lambda>_. register_services env wif vs)"

definition with_canary :: "cli_profile \<Rightarrow> bool \<Rightarrow> jv" where
  "with_canary p c = JObj (profile_json p @ [(''canary'', JBool c)])"

definition ask_canary :: "bool cli" where
  "ask_canary = bind_cli ask_line (\<lambda>l. ret (to_lower (trim l) \<noteq> ''n'' \<and> to_lower (trim l) \<noteq> ''no''))"

definition with_identity :: "jv \<Rightarrow> jv \<Rightarrow> jv" where
  "with_identity keys r =
     (let m = map_set (props_of keys) ''identity'' (jget r ''identity'') in
      JObj (if jtruthy (jget r ''iAddress'') then map_set m ''iAddress'' (jget r ''iAddress'') else m))"

text \<open>An identity that was registered: it is saved with its keys, then the profile and the services follow, each on its own.\<close>

definition registered :: "cli_env \<Rightarrow> jv \<Rightarrow> cli_profile \<Rightarrow> jv list \<Rightarrow> jv \<Rightarrow> unit cli" where
  "registered env keys p svcs r =
     bind_cli (print ''Identity'' (jget r ''identity'')) (\<lambda>_.
     bind_cli (save_keys (with_identity keys r)) (\<lambda>_.
     bind_cli ask_canary (\<lambda>c.
     bind_cli (call (jget keys ''wif'') (CallProfile (with_canary p c)) (ce_profile env (with_canary p c))) (\<lambda>_.
     register_services env (jget keys ''wif'') svcs))))"

definition register_with :: "cli_env \<Rightarrow> jv \<Rightarrow> cli_profile \<Rightarrow> jv list \<Rightarrow> unit cli" where
  "register_with env keys p svcs =
     bind_cli (new_agent env) (\<lambda>_.
     bind_cli (call (jget keys ''wif'') (CallRegister (to_lower (cp_name p)) (network_of keys))
         (ce_register env (to_lower (cp_name p)) (network_of keys))) (\<lambda>r.
     case r of Inl e \<Rightarrow> print ''Error'' (JStr e) | Inr x \<Rightarrow> registered env keys p svcs x))"

definition registerAgent :: "cli_env \<Rightarrow> jv \<Rightarrow> unit cli" where
  "registerAgent env saved =
     bind_cli (ensure_keys env saved) (\<lambda>k. case k of None \<Rightarrow> ret () | Some keys \<Rightarrow>
     bind_cli (lift_asked (collectAgentProfile (ce_js env) (ce_url env))) (\<lambda>p. case p of None \<Rightarrow> ret () | Some p \<Rightarrow>
     bind_cli (lift_asked (collectServices (ce_js env))) (\<lambda>svcs. case svcs of None \<Rightarrow> ret () | Some svcs \<Rightarrow>
     register_with env keys p svcs)))"

definition updateAgentProfile :: "cli_env \<Rightarrow> jv \<Rightarrow> unit cli" where
  "updateAgentProfile env saved =
     (if \<not> jtruthy saved \<or> \<not> jtruthy (jget saved ''identity'') \<or> \<not> jtruthy (jget saved ''wif'') then ret ()
      else bind_cli (print ''Updating'' (jget saved ''identity'')) (\<lambda>_.
        bind_cli (lift_asked (collectAgentProfile (ce_js env) (ce_url env))) (\<lambda>p. case p of None \<Rightarrow> ret () | Some p \<Rightarrow>
        bind_cli (lift_asked (collectServices (ce_js env))) (\<lambda>svcs. case svcs of None \<Rightarrow> ret () | Some svcs \<Rightarrow>
        bind_cli (new_agent env) (\<lambda>_.
        bind_cli ask_canary (\<lambda>c.
        bind_cli (call (jget saved ''wif'') (CallProfile (with_canary p c)) (ce_profile env (with_canary p c))) (\<lambda>r.
        case r of Inl e \<Rightarrow> print ''Error'' (JStr e) | Inr _ \<Rightarrow> register_services env (jget saved ''wif'') svcs)))))))"

definition field_or :: "jv \<Rightarrow> string \<Rightarrow> string \<Rightarrow> jv" where
  "field_or v k d = (if jtruthy (jget v k) then jget v k else JStr d)"

definition print_field :: "jv \<Rightarrow> string \<Rightarrow> string \<Rightarrow> unit cli" where
  "print_field v k label = (if jtruthy (jget v k) then print label (jget v k) else ret ())"

text \<open>A WIF that is no string has no \<open>substring\<close>.\<close>

definition show_wif :: "jv \<Rightarrow> unit cli" where
  "show_wif v = (if \<not> jtruthy (jget v ''wif'') then print ''WIF'' (JStr ''(missing)'')
     else case jget v ''wif'' of
       JStr s \<Rightarrow> print ''WIF'' (JStr (masked s))
     | _ \<Rightarrow> lift_r (Inl ''savedKeys.wif.substring is not a function''))"

definition showKeys :: "jv \<Rightarrow> unit cli" where
  "showKeys v =
     (if \<not> jtruthy v then ret ()
      else bind_cli (print ''Address'' (field_or v ''address'' ''(missing)'')) (\<lambda>_.
        bind_cli (print ''Pubkey'' (field_or v ''pubkey'' ''(missing)'')) (\<lambda>_.
        bind_cli (show_wif v) (\<lambda>_.
        bind_cli (print ''Network'' (network_of v)) (\<lambda>_.
        bind_cli (print_field v ''identity'' ''Identity'') (\<lambda>_. print_field v ''iAddress'' ''i-Address''))))))"

definition checkStatus :: "jv \<Rightarrow> unit cli" where
  "checkStatus v =
     (if \<not> jtruthy v \<or> \<not> jtruthy (jget v ''identity'') then ret ()
      else bind_cli (print ''Identity'' (jget v ''identity'')) (\<lambda>_.
        bind_cli (print ''Address'' (jget v ''address'')) (\<lambda>_. print ''Network'' (network_of v))))"

text \<open>The keys of the file; one that cannot be read counts as none.\<close>

definition saved_keys :: "key_file \<Rightarrow> jv" where
  "saved_keys f = (case f of Some (_, Json v) \<Rightarrow> v | _ \<Rightarrow> JNull)"

definition greet :: "jv \<Rightarrow> unit cli" where
  "greet v = (if nullish v then ret ()
     else bind_cli (print ''Found'' (jget v ''address'')) (\<lambda>_. print_field v ''identity'' ''Identity''))"

definition command :: "cli_env \<Rightarrow> jv \<Rightarrow> string \<Rightarrow> unit cli" where
  "command env saved choice =
     (if choice = ''1'' then generateKeys env
      else if choice = ''2'' then registerAgent env saved
      else if choice = ''3'' then showKeys saved
      else if choice = ''4'' then (if jtruthy saved then checkStatus saved else ret ())
      else if choice = ''5'' then (if jtruthy saved then updateAgentProfile env saved else ret ())
      else ret ())"

definition main :: "cli_env \<Rightarrow> unit cli" where
  "main env w =
     (let saved = saved_keys (cw_file w) in
      bind_cli (greet saved) (\<lambda>_. bind_cli ask_line (\<lambda>l. command env saved (trim l))) w)"

section \<open>Reasoning about runs\<close>

text \<open>
  From a state with \<open>P\<close>, whatever happens \<open>I\<close> holds at the end, and a run that returns ends with \<open>Q\<close>.
\<close>

definition run_triple :: "(cli_world \<Rightarrow> bool) \<Rightarrow> (cli_world \<Rightarrow> bool) \<Rightarrow> 'a cli \<Rightarrow> ('a \<Rightarrow> cli_world \<Rightarrow> bool) \<Rightarrow> bool" where
  "run_triple I P m Q = (\<forall>w. P w \<longrightarrow> (case m w of (Inl e, w') \<Rightarrow> I w' | (Inr a, w') \<Rightarrow> I w' \<and> Q a w'))"

named_theorems cli_rules "rules for the steps of a run"

lemma run_bind:
  assumes "run_triple I P m Q" "\<And>a. run_triple I (Q a) (f a) R"
  shows "run_triple I P (bind_cli m f) R"
  unfolding run_triple_def
proof (intro allI impI)
  fix w
  assume w: "P w"
  obtain r w' where m: "m w = (r, w')" by fastforce
  show "case bind_cli m f w of (Inl e, w') \<Rightarrow> I w' | (Inr a, w') \<Rightarrow> I w' \<and> R a w'"
  proof (cases r)
    case (Inl e)
    then show ?thesis using assms(1) w m by (auto simp: run_triple_def bind_cli_def)
  next
    case (Inr a)
    then have "Q a w'" using assms(1) w m by (auto simp: run_triple_def)
    then show ?thesis using assms(2) [of a] Inr m by (simp add: run_triple_def bind_cli_def)
  qed
qed

lemma run_keeps: "run_triple I P m Q \<Longrightarrow> P w \<Longrightarrow> I (snd (m w))"
  unfolding run_triple_def by (cases "m w"; cases "fst (m w)") fastforce+

lemma run_pre: "run_triple I P m Q \<Longrightarrow> (\<And>w. P' w \<Longrightarrow> P w) \<Longrightarrow> run_triple I P' m Q"
  by (simp add: run_triple_def)

lemma run_ret [cli_rules]: "(\<And>w. P w \<Longrightarrow> I w \<and> Q a w) \<Longrightarrow> run_triple I P (ret a) Q"
  by (simp add: run_triple_def ret_def)

lemma run_lift_r [cli_rules]: "(\<And>w. P w \<Longrightarrow> I w) \<Longrightarrow> run_triple I P (lift_r r) (\<lambda>_. P)"
  by (simp add: run_triple_def lift_r_def split: sum.splits)

text \<open>Conditions that look neither at the lines nor at what is printed.\<close>

definition blind :: "(cli_world \<Rightarrow> bool) \<Rightarrow> bool" where
  "blind P = (\<forall>w ls out. P (w\<lparr>cw_lines := ls\<rparr>) = P w \<and> P (w\<lparr>cw_out := out\<rparr>) = P w)"

lemma run_blind [cli_rules]:
  assumes "blind P" "\<And>w. P w \<Longrightarrow> I w"
  shows "run_triple I P ask_line (\<lambda>_. P)" "run_triple I P (print l v) (\<lambda>_. P)" "run_triple I P (lift_asked f) (\<lambda>_. P)"
  using assms
  by (simp_all add: run_triple_def blind_def ask_line_def print_def lift_asked_def split: list.splits sum.splits prod.splits fin_error.splits)

text \<open>A run that asks and prints only.\<close>

definition talks :: "'a cli \<Rightarrow> bool" where
  "talks m = (\<forall>I P. blind P \<longrightarrow> (\<forall>w. P w \<longrightarrow> I w) \<longrightarrow> run_triple I P m (\<lambda>_. P))"

lemma talksD: "talks m \<Longrightarrow> blind P \<Longrightarrow> (\<And>w. P w \<Longrightarrow> I w) \<Longrightarrow> run_triple I P m (\<lambda>_. P)"
  by (simp add: talks_def)

lemma talks_bind: "talks m \<Longrightarrow> (\<And>a. talks (f a)) \<Longrightarrow> talks (bind_cli m f)"
  unfolding talks_def by (blast intro: run_bind)

lemma talks_basic: "talks ask_line" "talks (print l v)" "talks (ret a)" "talks (lift_r r)" "talks (lift_asked g)"
  by (auto simp: talks_def intro: cli_rules)

lemmas talks_rules = talks_basic talks_bind

lemma talks_new_keys: "talks (new_keys env)"
  unfolding new_keys_def print_keys_def by (intro talks_rules) (auto split: option.splits intro!: talks_rules)

lemma talks_ask_canary: "talks ask_canary"
  unfolding ask_canary_def by (intro talks_rules)

lemma talks_showKeys: "talks (showKeys v)"
  unfolding showKeys_def show_wif_def print_field_def
  by (cases "jget v ''wif''") (simp_all add: talks_rules)

lemma talks_checkStatus: "talks (checkStatus v)"
  unfolding checkStatus_def by (auto intro!: talks_rules)

lemma talks_greet: "talks (greet v)"
  unfolding greet_def print_field_def by (auto intro!: talks_rules)

section \<open>The keys are saved before they are used\<close>

definition held :: "jv \<Rightarrow> key_file \<Rightarrow> bool" where
  "held k f = (\<exists>m v. f = Some (m, Json v) \<and> jget v ''wif'' = k)"

text \<open>Every call so far was made with a key of the file; the file is the old one or a private one.\<close>

definition sound_world :: "key_file \<Rightarrow> cli_world \<Rightarrow> bool" where
  "sound_world f0 w = ((\<forall>c \<in> set (cw_calls w). held (fst c) (snd (snd c)))
     \<and> (cw_file w = f0 \<or> (\<exists>t. cw_file w = Some (KEY_MODE, t))))"

definition holds_key :: "key_file \<Rightarrow> jv \<Rightarrow> cli_world \<Rightarrow> bool" where
  "holds_key f0 k w = (sound_world f0 w \<and> held k (cw_file w))"

lemma blind_sound: "blind (sound_world f0)" "blind (holds_key f0 k)"
  by (simp_all add: blind_def sound_world_def holds_key_def)

lemma holds_sound: "holds_key f0 k w \<Longrightarrow> sound_world f0 w"
  by (simp add: holds_key_def)

lemma talks_sound: "talks m \<Longrightarrow> run_triple (sound_world f0) (sound_world f0) m (\<lambda>_. sound_world f0)"
  by (rule talksD) (simp_all add: blind_sound)

lemma talks_holds: "talks m \<Longrightarrow> run_triple (sound_world f0) (holds_key f0 k) m (\<lambda>_. holds_key f0 k)"
  by (rule talksD) (simp_all add: blind_sound holds_sound)

lemma run_call [cli_rules]: "run_triple (sound_world f0) (holds_key f0 k) (call k c r) (\<lambda>_. holds_key f0 k)"
  by (auto simp: run_triple_def call_def holds_key_def sound_world_def)

lemma map_get_filter: "map_get m k = Some v \<Longrightarrow> v \<noteq> JUndef \<Longrightarrow> map_get (filter (\<lambda>p. snd p \<noteq> JUndef) m) k = Some v"
  by (induction m) (auto split: if_splits)

lemma jget_written: "jget v k \<noteq> JUndef \<Longrightarrow> jget (JObj (filter (\<lambda>p. snd p \<noteq> JUndef) (props_of v))) k = jget v k"
  by (auto simp: jget_def map_get_filter split: option.splits)

lemma run_save_keys [cli_rules]:
  "jget v ''wif'' \<noteq> JUndef \<Longrightarrow> run_triple (sound_world f0) (sound_world f0) (save_keys v) (\<lambda>_. holds_key f0 (jget v ''wif''))"
  by (simp add: run_triple_def save_keys_def bind_cli_def unlink_def write_new_def sound_world_def holds_key_def held_def jget_written)

lemma register_services_sound: "run_triple (sound_world f0) (holds_key f0 k) (register_services env k svcs) (\<lambda>_. holds_key f0 k)"
proof (induction svcs)
  case (Cons v vs)
  then show ?case by (simp add: run_bind [OF run_call])
qed (auto intro: run_ret holds_sound)

lemma with_identity_wif: "jget (with_identity keys r) ''wif'' = jget keys ''wif''"
  by (simp add: with_identity_def jget_def map_get_map_set Let_def)

lemma registered_sound:
  assumes "jget keys ''wif'' \<noteq> JUndef"
  shows "run_triple (sound_world f0) (holds_key f0 (jget keys ''wif'')) (registered env keys p svcs r) (\<lambda>_. holds_key f0 (jget keys ''wif''))"
proof -
  note s = run_save_keys [of "with_identity keys r", unfolded with_identity_wif, OF assms]
  show ?thesis
    unfolding registered_def
    by (intro run_bind [OF talks_holds] run_bind [OF run_pre [OF s holds_sound]] run_bind [OF run_call]
        register_services_sound talks_ask_canary talks_basic)
qed

lemma register_with_sound:
  assumes "jget keys ''wif'' \<noteq> JUndef"
  shows "run_triple (sound_world f0) (holds_key f0 (jget keys ''wif'')) (register_with env keys p svcs) (\<lambda>_. holds_key f0 (jget keys ''wif''))"
  unfolding register_with_def new_agent_def
  by (intro run_bind [OF talks_holds] run_bind [OF run_call] talks_basic)
    (auto split: sum.splits intro!: talks_holds talks_basic registered_sound assms)

text \<open>The keys the run starts with, or new ones.\<close>

lemma ensure_keys_sound:
  "run_triple (sound_world f0) (\<lambda>w. sound_world f0 w \<and> saved_keys (cw_file w) = saved) (ensure_keys env saved)
     (\<lambda>k w. sound_world f0 w \<and> (\<forall>keys. k = Some keys \<longrightarrow> jget keys ''wif'' \<noteq> JUndef \<and> holds_key f0 (jget keys ''wif'') w))"
proof (cases "jtruthy saved \<and> jtruthy (jget saved ''wif'')")
  case True
  then have "held (jget saved ''wif'') f" if "saved_keys f = saved" for f
    using that by (auto simp: saved_keys_def held_def split: option.splits prod.splits key_text.splits)
  then show ?thesis using True by (auto simp: ensure_keys_def holds_key_def intro!: run_ret)
next
  case False
  let ?Q = "\<lambda>k w. sound_world f0 w \<and> (\<forall>keys. k = Some keys \<longrightarrow> jget keys ''wif'' \<noteq> JUndef \<and> holds_key f0 (jget keys ''wif'') w)"
  have n: "run_triple (sound_world f0) (sound_world f0) (new_keys env) (\<lambda>_. sound_world f0)" by (rule talks_sound [OF talks_new_keys])
  have "run_triple (sound_world f0) (sound_world f0)
      (case k of None \<Rightarrow> ret None | Some (net, kp) \<Rightarrow> bind_cli (save_keys (key_object kp net)) (\<lambda>_. ret (Some (key_object kp net)))) ?Q" for k
    by (cases k) (auto simp: key_object_def holds_sound intro!: run_ret run_bind [OF run_save_keys])
  then show ?thesis using False by (auto simp: ensure_keys_def intro!: run_bind [OF run_pre [OF n]])
qed

definition saved_world :: "key_file \<Rightarrow> jv \<Rightarrow> cli_world \<Rightarrow> bool" where
  "saved_world f0 saved w = (sound_world f0 w \<and> saved_keys (cw_file w) = saved)"

lemma saved_blind: "blind (saved_world f0 saved)" "saved_world f0 saved w \<Longrightarrow> sound_world f0 w"
  by (simp_all add: saved_world_def blind_def sound_world_def)

lemma registerAgent_sound: "run_triple (sound_world f0) (saved_world f0 saved) (registerAgent env saved) (\<lambda>_. sound_world f0)"
proof -
  have r: "run_triple (sound_world f0) (holds_key f0 (jget keys ''wif'')) (register_with env keys p svcs) (\<lambda>_. sound_world f0)"
    if "jget keys ''wif'' \<noteq> JUndef" for keys p svcs
    using register_with_sound [OF that, of f0 env p svcs] by (auto simp: run_triple_def holds_sound split: prod.splits sum.splits)
  have s: "run_triple (sound_world f0) (holds_key f0 (jget keys ''wif''))
      (case v of None \<Rightarrow> ret () | Some svcs \<Rightarrow> register_with env keys p svcs) (\<lambda>_. sound_world f0)"
    if "jget keys ''wif'' \<noteq> JUndef" for keys p v
    using r [OF that] by (cases v) (auto intro!: run_ret simp: holds_sound)
  have q: "run_triple (sound_world f0) (holds_key f0 (jget keys ''wif''))
      (case v of None \<Rightarrow> ret () | Some p \<Rightarrow> bind_cli (lift_asked (collectServices (ce_js env))) (\<lambda>svcs.
        case svcs of None \<Rightarrow> ret () | Some svcs \<Rightarrow> register_with env keys p svcs)) (\<lambda>_. sound_world f0)"
    if "jget keys ''wif'' \<noteq> JUndef" for keys v
    using s [OF that] by (cases v) (auto intro!: run_ret run_bind [OF talks_holds] talks_basic simp: holds_sound)
  show ?thesis
    unfolding registerAgent_def
  proof (rule run_bind [OF run_pre [OF ensure_keys_sound]])
    show "saved_world f0 saved w \<Longrightarrow> sound_world f0 w \<and> saved_keys (cw_file w) = saved" for w
      by (simp add: saved_world_def)
    show "run_triple (sound_world f0) (\<lambda>w. sound_world f0 w \<and> (\<forall>keys. k = Some keys \<longrightarrow> jget keys ''wif'' \<noteq> JUndef \<and> holds_key f0 (jget keys ''wif'') w))
        (case k of None \<Rightarrow> ret () | Some keys \<Rightarrow> bind_cli (lift_asked (collectAgentProfile (ce_js env) (ce_url env))) (\<lambda>p.
          case p of None \<Rightarrow> ret () | Some p \<Rightarrow> bind_cli (lift_asked (collectServices (ce_js env))) (\<lambda>svcs.
            case svcs of None \<Rightarrow> ret () | Some svcs \<Rightarrow> register_with env keys p svcs))) (\<lambda>_. sound_world f0)" for k
    proof (cases k)
      case (Some keys)
      show ?thesis
      proof (cases "jget keys ''wif'' = JUndef")
        case False
        have "run_triple (sound_world f0) (holds_key f0 (jget keys ''wif'')) (bind_cli (lift_asked (collectAgentProfile (ce_js env) (ce_url env)))
            (\<lambda>p. case p of None \<Rightarrow> ret () | Some p \<Rightarrow> bind_cli (lift_asked (collectServices (ce_js env))) (\<lambda>svcs.
              case svcs of None \<Rightarrow> ret () | Some svcs \<Rightarrow> register_with env keys p svcs))) (\<lambda>_. sound_world f0)"
          by (rule run_bind [OF talks_holds q [OF False]]) (rule talks_basic)
        then show ?thesis using Some by (auto elim: run_pre)
      qed (simp add: Some run_triple_def)
    qed (simp add: run_ret)
  qed
qed

lemma update_body_sound:
  assumes "k = jget saved ''wif''"
  shows "run_triple (sound_world f0) (holds_key f0 k) (bind_cli (new_agent env) (\<lambda>_. bind_cli ask_canary (\<lambda>c.
      bind_cli (call (jget saved ''wif'') (CallProfile (with_canary p c)) (ce_profile env (with_canary p c))) (\<lambda>r.
      case r of Inl e \<Rightarrow> print ''Error'' (JStr e) | Inr _ \<Rightarrow> register_services env (jget saved ''wif'') svcs)))) (\<lambda>_. holds_key f0 k)"
  unfolding new_agent_def assms
  by (intro run_bind [OF talks_holds] run_bind [OF run_call] talks_basic talks_ask_canary)
    (auto split: sum.splits intro!: talks_holds talks_basic register_services_sound)

lemma updateAgentProfile_sound: "run_triple (sound_world f0) (saved_world f0 saved) (updateAgentProfile env saved) (\<lambda>_. sound_world f0)"
proof (cases "\<not> jtruthy saved \<or> \<not> jtruthy (jget saved ''identity'') \<or> \<not> jtruthy (jget saved ''wif'')")
  case True
  then show ?thesis by (simp add: updateAgentProfile_def run_ret saved_blind)
next
  case False
  have h: "saved_world f0 saved w \<Longrightarrow> holds_key f0 (jget saved ''wif'') w" for w
    using False by (auto simp: saved_world_def holds_key_def held_def saved_keys_def split: option.splits prod.splits key_text.splits)
  have "run_triple (sound_world f0) (holds_key f0 (jget saved ''wif'')) (updateAgentProfile env saved) (\<lambda>_. holds_key f0 (jget saved ''wif''))"
    using False unfolding updateAgentProfile_def
    by (simp only: if_False) (intro run_bind [OF talks_holds] talks_basic; auto split: option.splits
      intro!: run_ret holds_sound run_bind [OF talks_holds] talks_basic update_body_sound)
  then show ?thesis using h holds_sound by (auto simp: run_triple_def split: prod.splits sum.splits)
qed

lemma generateKeys_sound: "run_triple (sound_world f0) (sound_world f0) (generateKeys env) (\<lambda>_. sound_world f0)"
proof -
  have "run_triple (sound_world f0) (sound_world f0) (save_keys (key_object kp net)) (\<lambda>_. sound_world f0)" for kp net
    using run_save_keys [of "key_object kp net" f0] holds_sound
    by (auto simp: run_triple_def key_object_def split: prod.splits sum.splits)
  then show ?thesis
    unfolding generateKeys_def
    by (intro run_bind [OF talks_sound [OF talks_new_keys]])
      (auto split: option.splits prod.splits intro!: run_ret run_bind [OF talks_sound] talks_basic)
qed

lemma main_sound:
  "run_triple (sound_world f0) (saved_world f0 saved) (bind_cli (greet saved) (\<lambda>_. bind_cli ask_line (\<lambda>l. command env saved (trim l))))
     (\<lambda>_. sound_world f0)"
proof -
  have t: "talks m \<Longrightarrow> run_triple (sound_world f0) (saved_world f0 saved) m (\<lambda>_. saved_world f0 saved)" for m :: "'z cli"
    by (rule talksD) (simp_all add: saved_blind)
  have t': "talks m \<Longrightarrow> run_triple (sound_world f0) (saved_world f0 saved) m (\<lambda>_. sound_world f0)" for m :: "'z cli"
    by (rule run_pre [OF talks_sound]) (simp_all add: saved_blind)
  have g: "run_triple (sound_world f0) (saved_world f0 saved) (generateKeys env) (\<lambda>_. sound_world f0)"
    by (rule run_pre [OF generateKeys_sound]) (simp add: saved_blind)
  show ?thesis
    by (intro run_bind [OF t [OF talks_greet]] run_bind [OF t [OF talks_basic(1)]])
      (simp add: command_def g registerAgent_sound updateAgentProfile_sound t' talks_showKeys talks_checkStatus talks_basic)
qed

text \<open>
  C38. The command line never signs with a key that it has not saved: at every call to the platform the key file holds the key the
  agent signs with, whatever is typed, answered or left open; and when the file changes it is a new one that only its owner can read.
\<close>

theorem keys_saved_first:
  assumes "cw_calls w = []"
  shows "(\<forall>c \<in> set (cw_calls (snd (main env w))). held (fst c) (snd (snd c)))
    \<and> (cw_file (snd (main env w)) = cw_file w \<or> (\<exists>t. cw_file (snd (main env w)) = Some (KEY_MODE, t)))"
proof -
  have "saved_world (cw_file w) (saved_keys (cw_file w)) w" using assms by (simp add: saved_world_def sound_world_def)
  then have "sound_world (cw_file w) (snd (main env w))"
    unfolding main_def Let_def by (rule run_keeps [OF main_sound])
  then show ?thesis by (simp add: sound_world_def)
qed

definition demo_cli_env :: cli_env where
  "demo_cli_env = \<lparr>ce_sig = demo_sig_lib, ce_net = (\<lambda>_. demo_net), ce_random = replicate 32 7, ce_api = ''https://api.junction41.io'',
     ce_insecure = False, ce_js = demo_jslib, ce_url = (\<lambda>_. Some ''https:''), ce_register = (\<lambda>n _. Inr (JObj [(''identity'', JStr n)])),
     ce_profile = (\<lambda>_. Inr ()), ce_service = (\<lambda>_. Inr ())\<rparr>"

definition demo_cli_world :: cli_world where
  "demo_cli_world = \<lparr>cw_lines = [''2'', ''Alice'', '''', ''helps with code''] @ replicate 15 '''', cw_file = Some (420, Json (JObj [(''wif'', JStr ''Uw7'')])),
     cw_out = [], cw_calls = []\<rparr>"

lemma demo_registers: "map (\<lambda>c. fst (snd c)) (cw_calls (snd (main demo_cli_env demo_cli_world))) \<noteq> []"
  by code_simp

theorem keys_saved_first_witness:
  "cw_calls (snd (main demo_cli_env demo_cli_world)) \<noteq> []
   \<and> held (fst (hd (cw_calls (snd (main demo_cli_env demo_cli_world))))) (snd (snd (hd (cw_calls (snd (main demo_cli_env demo_cli_world))))))"
  using keys_saved_first [of demo_cli_world demo_cli_env] demo_registers by (simp add: demo_cli_world_def)

section \<open>The questions and the library's rules\<close>

lemma validateName_eq: "validateName = validateAgentName"
  by (simp add: fun_eq_iff validateName_def validateAgentName_def)

lemma cli_url_eq: "cli_url = validateUrl"
  by (auto simp: fun_eq_iff cli_url_def validateUrl_def split: option.splits)

lemma cli_type_valid: "t \<in> set CLI_TYPES \<Longrightarrow> validateAgentType t = None"
  by (auto simp: CLI_TYPES_def validateAgentType_def VALID_TYPES_def)

lemma cli_description_valid: "cli_description d = None \<longleftrightarrow> validateDescription d = None"
  by (auto simp: cli_description_def validateDescription_def)

lemma comma_list_filled: "[] \<notin> set (comma_list s)"
  by (simp add: comma_list_def)

lemma cli_tags_valid: "cli_tags (comma_list s) = None \<Longrightarrow> validateTags (comma_list s) = None"
  using comma_list_filled [of s] by (auto simp: cli_tags_def validateTags_ok first_bad_None split: if_splits)

lemma cli_protocols_valid: "cli_protocols ps = None \<Longrightarrow> validateProtocols ps = None"
  by (auto simp: cli_protocols_def validateProtocols_ok first_bad_None split: option.splits if_splits)

lemma list_asked_valid:
  assumes "list_asked f raw = Inr (Some xs)" "\<And>s. f (comma_list s) = None \<Longrightarrow> g (comma_list s) = None"
  shows "g xs = None"
  using assms by (auto simp: list_asked_def bind_Inr check_ok split: if_splits)

lemma url_asked_valid: "url_asked url s = Inr () \<Longrightarrow> s = [] \<or> validateUrl url s = None"
  by (auto simp: url_asked_def check_ok cli_url_eq split: if_splits)

definition endpoints_valid :: "(string \<Rightarrow> string option) \<Rightarrow> endpoint_input list \<Rightarrow> bool" where
  "endpoints_valid url eps = (\<forall>e \<in> set eps. validateEndpoint url e = None)"

lemma endpoints_valid_simps [simp]:
  "endpoints_valid url []" "endpoints_valid url (eps @ [e]) \<longleftrightarrow> endpoints_valid url eps \<and> validateEndpoint url e = None"
  by (auto simp: endpoints_valid_def)

lemma typed_endpoint_valid:
  "u \<noteq> [] \<Longrightarrow> cli_url url u = None \<Longrightarrow> p \<noteq> [] \<Longrightarrow>
     validateEndpoint url \<lparr>ep_url = u, ep_protocol = p, ep_public = b, ep_desc = d\<rparr> = None"
  by (simp add: validateEndpoint_def cli_url_eq)

lemma endpoints_asked_valid:
  "endpoints_asked url eps add as = Inr (eps', r) \<Longrightarrow> endpoints_valid url eps \<Longrightarrow> length eps < 10
    \<Longrightarrow> endpoints_valid url eps' \<and> length eps' \<le> 10"
  by (induction url eps add as rule: endpoints_asked.induct)
    (auto simp: Let_def typed_endpoint_valid split: if_splits list.splits)

definition capabilities_valid :: "capability_input list \<Rightarrow> bool" where
  "capabilities_valid caps = (\<forall>c \<in> set caps. validateCapability c = None)"

lemma capabilities_valid_simps [simp]:
  "capabilities_valid []" "capabilities_valid (caps @ [c]) \<longleftrightarrow> capabilities_valid caps \<and> validateCapability c = None"
  by (auto simp: capabilities_valid_def)

lemma typed_capability_valid: "c \<noteq> [] \<Longrightarrow> n \<noteq> [] \<Longrightarrow> validateCapability \<lparr>cap_id = c, cap_name = n, cap_desc = d\<rparr> = None"
  by (simp add: validateCapability_def)

lemma capabilities_asked_valid:
  "capabilities_asked caps add as = Inr (caps', r) \<Longrightarrow> capabilities_valid caps \<Longrightarrow> length caps < 50
    \<Longrightarrow> capabilities_valid caps' \<and> length caps' \<le> 50"
  by (induction caps add as rule: capabilities_asked.induct)
    (auto simp: Let_def typed_capability_valid split: if_splits list.splits)

lemma session_asked_valid: "session_asked js as = Inr (s, r) \<Longrightarrow> validateSessionInput (JObj s) = None"
  by (auto simp: session_asked_def bind_Inr session_fields_valid)

text \<open>The rules of \<open>Validation\<close>, for a profile as it was typed.\<close>

definition profile_valid :: "(string \<Rightarrow> string option) \<Rightarrow> cli_profile \<Rightarrow> bool" where
  "profile_valid url p = (
     validateAgentName (cp_name p) = None \<and> validateAgentType (cp_type p) = None \<and> validateDescription (cp_desc p) = None
     \<and> (cp_tags p = None \<or> validateTags (the (cp_tags p)) = None)
     \<and> (cp_website p = [] \<or> validateUrl url (cp_website p) = None) \<and> (cp_avatar p = [] \<or> validateUrl url (cp_avatar p) = None)
     \<and> (cp_protocols p = None \<or> validateProtocols (the (cp_protocols p)) = None)
     \<and> endpoints_valid url (cp_endpoints p) \<and> length (cp_endpoints p) \<le> 10
     \<and> capabilities_valid (cp_capabilities p) \<and> length (cp_capabilities p) \<le> 50
     \<and> validateSessionInput (JObj (cp_session p)) = None)"

lemma collected_checks:
  assumes "collectAgentProfile js url as = Inr (p, r)"
  obtains tagsRaw protocolsRaw addEp as1 r1 addCap as2 r2 as3 where
    "validateName (cp_name p) = None" "cp_type p \<in> set CLI_TYPES" "cli_description (cp_desc p) = None"
    "list_asked cli_tags tagsRaw = Inr (cp_tags p)" "list_asked cli_protocols protocolsRaw = Inr (cp_protocols p)"
    "url_asked url (cp_website p) = Inr ()" "url_asked url (cp_avatar p) = Inr ()"
    "endpoints_asked url [] addEp as1 = Inr (cp_endpoints p, r1)" "capabilities_asked [] addCap as2 = Inr (cp_capabilities p, r2)"
    "session_asked js as3 = Inr (cp_session p, r)"
  using assms unfolding collectAgentProfile_def Let_def
  by (clarsimp simp: bind_Inr check_ok split: if_splits)

text \<open>What the command line accepts, the library accepts: no profile that was typed is refused later.\<close>

theorem cli_profile_valid:
  assumes "collectAgentProfile js url as = Inr (p, r)"
  shows "profile_valid url p"
proof (rule collected_checks [OF assms])
  fix t q addEp as1 r1 addCap as2 r2 as3
  assume c: "validateName (cp_name p) = None" "cp_type p \<in> set CLI_TYPES" "cli_description (cp_desc p) = None"
    "list_asked cli_tags t = Inr (cp_tags p)" "list_asked cli_protocols q = Inr (cp_protocols p)"
    "url_asked url (cp_website p) = Inr ()" "url_asked url (cp_avatar p) = Inr ()"
    "endpoints_asked url [] addEp as1 = Inr (cp_endpoints p, r1)" "capabilities_asked [] addCap as2 = Inr (cp_capabilities p, r2)"
    "session_asked js as3 = Inr (cp_session p, r)"
  have "cp_tags p = None \<or> validateTags (the (cp_tags p)) = None"
    using c(4) list_asked_valid [of cli_tags t _ validateTags] cli_tags_valid by (cases "cp_tags p") auto
  moreover have "cp_protocols p = None \<or> validateProtocols (the (cp_protocols p)) = None"
    using c(5) list_asked_valid [of cli_protocols q _ validateProtocols] cli_protocols_valid by (cases "cp_protocols p") auto
  ultimately show ?thesis
    using c(1-3) url_asked_valid [OF c(6)] url_asked_valid [OF c(7)] endpoints_asked_valid [OF c(8)] capabilities_asked_valid [OF c(9)]
      session_asked_valid [OF c(10)]
    by (simp add: profile_valid_def validateName_eq cli_type_valid cli_description_valid)
qed

section \<open>What the command line does not do\<close>

text \<open>The library's type \<open>hybrid\<close> cannot be chosen, though the rules are said to be mirrored.\<close>

lemma hybrid_refused: "validateAgentType ''hybrid'' = None \<and> ''hybrid'' \<notin> set CLI_TYPES"
  by (simp add: validateAgentType_def VALID_TYPES_def CLI_TYPES_def)

text \<open>
  Choosing to generate a key pair and answering nothing but the default replaces the keys in the file, those of a registered
  identity included; nothing is asked about them and nothing is kept.
\<close>

lemma keys_overwritten:
  assumes "cw_file w = Some (m, Json saved)" "saved = JObj ((''address'', ad) # kv)" "cw_lines w = [''1'', [], []]"
    and "generateKeypair (ce_sig env) (ce_net env Verustest) (ce_random env) = Inr kp"
  shows "cw_file (snd (main env w)) = Some (KEY_MODE, Json (key_object kp Verustest))"
  using assms
  by (simp add: main_def bind_cli_def greet_def nullish_def print_def print_field_def ret_def ask_line_def command_def trim_def
      generateKeys_def new_keys_def or_else_def validateNetwork_def lift_r_def print_keys_def to_lower_def save_keys_def unlink_def
      write_new_def saved_keys_def key_object_def is_space_def Let_def)

text \<open>Of a WIF only four characters at either end are shown, so long as it has more than eight.\<close>

lemma masked_hides: "length v = length w \<Longrightarrow> take 4 v = take 4 w \<Longrightarrow> drop (length w - 4) v = drop (length w - 4) w \<Longrightarrow> masked v = masked w"
  by (simp add: masked_def)

end
