(* ===== verification/History.thy ===== *)
theory History
  imports Vdxf
begin

text \<open>
  Rebuilding an agent's reviews from the history of its identity, \<open>src/identity/history.ts\<close>: the snapshots in order of height,
  the values found under a key, and the reviews decoded from them, each job once.
\<close>

section \<open>Snapshots in order\<close>

text \<open>A height is a number or is not there.\<close>

definition snapshotHeight :: "jv \<Rightarrow> jsnum option" where
  "snapshotHeight s = (case jget s ''height'' of JNum n \<Rightarrow> Some n
     | _ \<Rightarrow> (case jget s ''blockheight'' of JNum n \<Rightarrow> Some n | _ \<Rightarrow> None))"

text \<open>The comparison: negative, zero or NaN, positive.\<close>

definition compare_heights :: "jsnum option \<Rightarrow> jsnum option \<Rightarrow> jsnum" where
  "compare_heights a b = (case (a, b) of
       (None, None) \<Rightarrow> num_int 0
     | (None, Some _) \<Rightarrow> num_int 1
     | (Some _, None) \<Rightarrow> num_int (- 1)
     | (Some x, Some y) \<Rightarrow> js_sub x y)"

definition after :: "jv \<Rightarrow> jv \<Rightarrow> bool" where
  "after a b = js_lt (num_int 0) (compare_heights (snapshotHeight a) (snapshotHeight b))"

text \<open>\<open>Array.prototype.sort\<close> is stable: an element is moved only in front of those it compares below.\<close>

fun insert_snapshot :: "jv \<Rightarrow> jv list \<Rightarrow> jv list" where
  "insert_snapshot x [] = [x]"
| "insert_snapshot x (y # ys) = (if after x y then y # insert_snapshot x ys else x # y # ys)"

definition in_order :: "jv list \<Rightarrow> jv list" where
  "in_order ss = foldr insert_snapshot ss []"

section \<open>The values under a key\<close>

text \<open>\<open>JSON.stringify\<close> is a parameter; \<open>None\<close> stands for a snapshot without the key.\<close>

definition snapshot_values :: "string \<Rightarrow> jv \<Rightarrow> jv list option" where
  "snapshot_values key snap =
     (let cmm = (if jtruthy snap \<and> jtruthy (jget snap ''identity'') then jget (jget snap ''identity'') ''contentmultimap'' else JNull);
          raw = jget cmm key in
      if \<not> jtruthy cmm \<or> nullish raw then None else Some (if is_array raw then arr_of raw else [raw]))"

fun collect :: "(jv list \<Rightarrow> string) \<Rightarrow> string \<Rightarrow> string option \<Rightarrow> jv list \<Rightarrow> (jsnum option \<times> jv) list" where
  "collect ser key prev [] = []"
| "collect ser key prev (s # ss) = (case snapshot_values key s of
     None \<Rightarrow> collect ser key prev ss
   | Some vs \<Rightarrow>
       if prev = Some (ser vs) then collect ser key prev ss
       else map (\<lambda>v. (snapshotHeight s, v)) vs @ collect ser key (Some (ser vs)) ss)"

definition extractVdxfHistory :: "(jv list \<Rightarrow> string) \<Rightarrow> jv \<Rightarrow> string \<Rightarrow> (jsnum option \<times> jv) list" where
  "extractVdxfHistory ser snapshots key =
     (if \<not> is_array snapshots then [] else collect ser key None (in_order (arr_of snapshots)))"

section \<open>Reviews\<close>

definition unwrapDataDescriptor :: "jv \<Rightarrow> jv" where
  "unwrapDataDescriptor v =
     (let dd = jget v DATA_DESCRIPTOR_KEY; od = jget dd ''objectdata'' in
      if \<not> jtruthy dd then v
      else if is_string (jget od ''message'') then jget od ''message''
      else if is_string od then od
      else v)"

definition is_hex_text :: "string \<Rightarrow> bool" where
  "is_hex_text s = (s \<noteq> [] \<and> list_all is_hex s \<and> even (length s))"

text \<open>\<open>unhex\<close> decodes hex and UTF-8, \<open>parse\<close> is \<open>JSON.parse\<close>.\<close>

definition record_of :: "jv \<Rightarrow> jv option" where
  "record_of v = (if is_object v then Some v else None)"

definition decodeReviewValue :: "(string \<Rightarrow> string) \<Rightarrow> (string \<Rightarrow> jv option) \<Rightarrow> jv \<Rightarrow> jv option" where
  "decodeReviewValue unhex parse v =
     (case unwrapDataDescriptor v of
        JStr t \<Rightarrow> (case parse (if is_hex_text t then unhex t else t) of None \<Rightarrow> None | Some p \<Rightarrow> record_of p)
      | u \<Rightarrow> record_of u)"

record review =
  rv_height :: "jsnum option"
  rv_jobHash :: "string option"
  rv_buyer :: "string option"
  rv_rating :: "jsnum option"
  rv_timestamp :: "jsnum option"
  rv_signature :: "string option"
  rv_raw :: jv

definition text_field :: "jv \<Rightarrow> string \<Rightarrow> string option" where
  "text_field r k = (case jget r k of JStr s \<Rightarrow> Some s | _ \<Rightarrow> None)"

definition number_field :: "jv \<Rightarrow> string \<Rightarrow> jsnum option" where
  "number_field r k = (case jget r k of JNum n \<Rightarrow> Some n | _ \<Rightarrow> None)"

definition review_of :: "jsnum option \<Rightarrow> jv \<Rightarrow> review" where
  "review_of h r = \<lparr>rv_height = h, rv_jobHash = text_field r ''jobHash'', rv_buyer = text_field r ''buyer'',
     rv_rating = number_field r ''rating'', rv_timestamp = number_field r ''timestamp'', rv_signature = text_field r ''signature'', rv_raw = r\<rparr>"

text \<open>An empty job hash is falsy: such reviews are all kept.\<close>

fun keep_first :: "(jv \<Rightarrow> jv option) \<Rightarrow> string list \<Rightarrow> (jsnum option \<times> jv) list \<Rightarrow> review list" where
  "keep_first dec seen [] = []"
| "keep_first dec seen ((h, v) # es) = (case dec v of
     None \<Rightarrow> keep_first dec seen es
   | Some r \<Rightarrow> (case text_field r ''jobHash'' of
       Some j \<Rightarrow>
         if j = [] then review_of h r # keep_first dec seen es
         else if j \<in> set seen then keep_first dec seen es
         else review_of h r # keep_first dec (seen @ [j]) es
     | None \<Rightarrow> review_of h r # keep_first dec seen es))"

definition REVIEW_RECORD :: string where
  "REVIEW_RECORD = the (map_get keys_review ''record'')"

definition decodeReviewHistory :: "(jv list \<Rightarrow> string) \<Rightarrow> (string \<Rightarrow> string) \<Rightarrow> (string \<Rightarrow> jv option) \<Rightarrow> jv \<Rightarrow> review list" where
  "decodeReviewHistory ser unhex parse snapshots =
     keep_first (decodeReviewValue unhex parse) [] (extractVdxfHistory ser snapshots REVIEW_RECORD)"

section \<open>The order of heights\<close>

definition not_later :: "jsnum option \<Rightarrow> jsnum option \<Rightarrow> bool" where
  "not_later a b = (\<not> js_lt (num_int 0) (compare_heights a b))"

definition is_height :: "jsnum option \<Rightarrow> bool" where
  "is_height h = (case h of None \<Rightarrow> True | Some x \<Rightarrow> \<exists>n :: nat < 2 ^ 32. x = num_int (int n))"

lemma height_cases:
  assumes "is_height h"
  obtains (none) "h = None" | (some) n :: int where "h = Some (num_int n)" "0 \<le> n" "n < 2 ^ 32"
proof (cases h)
  case (Some x)
  then obtain n :: nat where "n < 2 ^ 32" "x = num_int (int n)" using assms by (auto simp: is_height_def simp del: power_numeral)
  then show thesis using Some by (intro some [of "int n"]) auto
qed (rule none)

lemma not_later_simps [simp]:
  "not_later h None" "\<not> not_later None (Some x)"
  by (cases h; simp add: not_later_def compare_heights_def)+

lemma not_later_int [simp]:
  assumes "0 \<le> m" "m < 2 ^ 32" "0 \<le> n" "n < 2 ^ 32"
  shows "not_later (Some (num_int m)) (Some (num_int n)) \<longleftrightarrow> m \<le> n"
proof -
  have "js_sub (num_int m) (num_int n) = num_int (m - n)" using assms by (intro js_sub_int) simp
  then show ?thesis by (auto simp: not_later_def compare_heights_def)
qed

lemma not_later_refl: "is_height a \<Longrightarrow> not_later a a"
  by (erule height_cases) simp_all

lemma not_later_trans: "is_height a \<Longrightarrow> is_height b \<Longrightarrow> is_height c \<Longrightarrow> not_later a b \<Longrightarrow> not_later b c \<Longrightarrow> not_later a c"
  by (erule height_cases; erule height_cases; erule height_cases) auto

lemma not_later_total: "is_height a \<Longrightarrow> is_height b \<Longrightarrow> not_later a b \<or> not_later b a"
  by (erule height_cases; erule height_cases) auto

text \<open>Snapshots in order.\<close>

definition ordered :: "jv list \<Rightarrow> bool" where
  "ordered = sorted_wrt (\<lambda>a b. not_later (snapshotHeight a) (snapshotHeight b))"

definition heights_ok :: "jv list \<Rightarrow> bool" where
  "heights_ok ss = (\<forall>s \<in> set ss. is_height (snapshotHeight s))"

lemma after_iff: "after a b \<longleftrightarrow> \<not> not_later (snapshotHeight a) (snapshotHeight b)"
  by (simp add: after_def not_later_def)

lemma insert_snapshot_set [simp]: "set (insert_snapshot x ys) = insert x (set ys)"
  by (induction ys) auto

lemma insert_snapshot_ordered: "heights_ok (x # ys) \<Longrightarrow> ordered ys \<Longrightarrow> ordered (insert_snapshot x ys)"
proof (induction ys)
  case (Cons y ys)
  then have h: "is_height (snapshotHeight x)" "is_height (snapshotHeight y)" "\<forall>z \<in> set ys. is_height (snapshotHeight z)"
    by (auto simp: heights_ok_def)
  show ?case
  proof (cases "after x y")
    case True
    then have "not_later (snapshotHeight y) (snapshotHeight x)" using not_later_total [OF h(1,2)] by (simp add: after_iff)
    moreover have "ordered (insert_snapshot x ys)" using Cons by (simp add: heights_ok_def ordered_def)
    ultimately show ?thesis using True Cons.prems by (auto simp: ordered_def)
  next
    case False
    then have "not_later (snapshotHeight x) (snapshotHeight y)" by (simp add: after_iff)
    moreover from this have "not_later (snapshotHeight x) (snapshotHeight z)" if "z \<in> set ys" for z
      using Cons.prems(2) h that by (auto simp: ordered_def intro: not_later_trans)
    ultimately show ?thesis using False Cons.prems(2) by (auto simp: ordered_def)
  qed
qed (simp add: ordered_def)

lemma in_order_set [simp]: "set (in_order ss) = set ss"
  by (induction ss) (simp_all add: in_order_def)

lemma in_order_ordered: "heights_ok ss \<Longrightarrow> ordered (in_order ss)"
proof (induction ss)
  case (Cons s ss)
  have "set (foldr insert_snapshot ss []) = set ss" using in_order_set [of ss] by (simp add: in_order_def)
  with Cons show ?case
    using insert_snapshot_ordered [of s "in_order ss"] by (simp add: in_order_def heights_ok_def)
qed (simp add: in_order_def ordered_def)

section \<open>What is collected\<close>

lemma collect_sound:
  "(h, v) \<in> set (collect ser key prev ss) \<Longrightarrow> \<exists>s \<in> set ss. \<exists>vs. h = snapshotHeight s \<and> snapshot_values key s = Some vs \<and> v \<in> set vs"
  by (induction ser key prev ss rule: collect.induct) (force split: option.splits if_splits)+

lemma collect_heights: "h \<in> fst ` set (collect ser key prev ss) \<Longrightarrow> h \<in> snapshotHeight ` set ss"
  using collect_sound by fastforce

lemma collect_sorted:
  "ordered ss \<Longrightarrow> heights_ok ss \<Longrightarrow> sorted_wrt (\<lambda>a b. not_later (fst a) (fst b)) (collect ser key prev ss)"
proof (induction ser key prev ss rule: collect.induct)
  case (2 ser key prev s ss)
  then have o: "ordered ss" "heights_ok ss" and r: "not_later (snapshotHeight s) (snapshotHeight s)"
    and l: "\<And>h. h \<in> snapshotHeight ` set ss \<Longrightarrow> not_later (snapshotHeight s) h"
    by (auto simp: ordered_def heights_ok_def intro: not_later_refl)
  have m: "sorted_wrt (\<lambda>a b. not_later (fst a) (fst b)) (map (\<lambda>v. (snapshotHeight s, v)) vs)" for vs :: "jv list"
    using r by (induction vs) auto
  have "not_later (snapshotHeight s) (fst e)" if "e \<in> set (collect ser key p ss)" for e p
    using that by (intro l collect_heights [of _ ser key p]) simp
  with 2 o m show ?case by (auto simp: sorted_wrt_append split: option.split)
qed simp

lemma collect_covers:
  assumes "\<And>a b us vs. a \<in> S \<Longrightarrow> b \<in> S \<Longrightarrow> snapshot_values key a = Some us \<Longrightarrow> snapshot_values key b = Some vs \<Longrightarrow> ser us = ser vs
      \<Longrightarrow> us = vs"
  shows "set ss \<subseteq> S \<Longrightarrow> ordered ss \<Longrightarrow> heights_ok ss \<Longrightarrow> s \<in> set ss \<Longrightarrow> snapshot_values key s = Some vs \<Longrightarrow>
     prev = Some (ser vs) \<or> (\<exists>s' \<in> set ss. not_later (snapshotHeight s') (snapshotHeight s)
       \<and> (\<forall>v \<in> set vs. (snapshotHeight s', v) \<in> set (collect ser key prev ss)))"
proof (induction ss arbitrary: prev)
  case (Cons a ss)
  have o: "set ss \<subseteq> S" "ordered ss" "heights_ok ss" using Cons.prems by (auto simp: ordered_def heights_ok_def)
  show ?case
  proof (cases "s = a")
    case True
    have "not_later (snapshotHeight a) (snapshotHeight a)" using Cons.prems(3) by (auto simp: heights_ok_def intro: not_later_refl)
    then show ?thesis using True Cons.prems(5) by auto
  next
    case False
    then have s: "s \<in> set ss" and le: "not_later (snapshotHeight a) (snapshotHeight s)"
      using Cons.prems(2,4) by (auto simp: ordered_def)
    note IH = Cons.IH [OF o s Cons.prems(5)]
    show ?thesis
    proof (cases "snapshot_values key a")
      case None
      then show ?thesis using IH [of prev] by auto
    next
      case (Some us)
      show ?thesis
      proof (cases "prev = Some (ser us)")
        case True
        then show ?thesis using IH [of prev] Some by auto
      next
        case False
        from IH [of "Some (ser us)"] show ?thesis
        proof
          assume "Some (ser us) = Some (ser vs)"
          then have "us = vs" using assms [of a s us vs] Some Cons.prems(1,4,5) by auto
          then show ?thesis using le Some False by auto
        next
          assume "\<exists>s' \<in> set ss. not_later (snapshotHeight s') (snapshotHeight s)
              \<and> (\<forall>v \<in> set vs. (snapshotHeight s', v) \<in> set (collect ser key (Some (ser us)) ss))"
          then show ?thesis using Some False by auto
        qed
      qed
    qed
  qed
qed simp

section \<open>Which reviews are kept\<close>

lemma keep_first_sound:
  "rv \<in> set (keep_first dec seen es) \<Longrightarrow> \<exists>h v r. (h, v) \<in> set es \<and> dec v = Some r \<and> rv = review_of h r"
  by (induction dec seen es rule: keep_first.induct) (force split: option.splits if_splits)+

definition job_hashes :: "review list \<Rightarrow> string list" where
  "job_hashes rs = filter (\<lambda>j. j \<noteq> []) (map (\<lambda>r. case rv_jobHash r of None \<Rightarrow> [] | Some j \<Rightarrow> j) rs)"

lemma review_of_hash [simp]: "rv_jobHash (review_of h r) = text_field r ''jobHash''" "rv_height (review_of h r) = h"
  by (simp_all add: review_of_def)

lemma job_hashes_simps [simp]:
  "job_hashes [] = []"
  "job_hashes (r # rs) = (case rv_jobHash r of None \<Rightarrow> [] | Some j \<Rightarrow> if j = [] then [] else [j]) @ job_hashes rs"
  by (simp_all add: job_hashes_def split: option.split)

lemma keep_first_distinct:
  "distinct (job_hashes (keep_first dec seen es)) \<and> set (job_hashes (keep_first dec seen es)) \<inter> set seen = {}"
proof (induction es arbitrary: seen)
  case (Cons e es)
  show ?case
    using Cons.IH [of seen] Cons.IH [of "seen @ [the (text_field (the (dec (snd e))) ''jobHash'')]"]
    by (cases e) (auto split: option.split)
qed simp

lemma keep_first_covers:
  "sorted_wrt (\<lambda>a b. not_later (fst a) (fst b)) es \<Longrightarrow> \<forall>e \<in> set es. is_height (fst e) \<Longrightarrow> (h, v) \<in> set es \<Longrightarrow> dec v = Some r \<Longrightarrow>
     text_field r ''jobHash'' = Some j \<Longrightarrow> j \<noteq> [] \<Longrightarrow> j \<notin> set seen \<Longrightarrow>
     \<exists>rv \<in> set (keep_first dec seen es). rv_jobHash rv = Some j \<and> not_later (rv_height rv) h"
proof (induction es arbitrary: seen)
  case (Cons e es)
  obtain h0 v0 where e: "e = (h0, v0)" by (cases e)
  have o: "sorted_wrt (\<lambda>a b. not_later (fst a) (fst b)) es" "\<forall>e \<in> set es. is_height (fst e)"
    using Cons.prems(1,2) by auto
  have le: "not_later h0 h" if "(h, v) \<in> set (e # es)"
    using that Cons.prems(1,2) e by (auto intro: not_later_refl)
  note IH = Cons.IH [OF o _ Cons.prems(4-6)]
  show ?case
  proof (cases "dec v0")
    case None
    then show ?thesis using Cons.prems(3,4,7) e IH by auto
  next
    case (Some r0)
    show ?thesis
    proof (cases "text_field r0 ''jobHash'' = Some j")
      case True
      then show ?thesis using Some e le [OF Cons.prems(3)] Cons.prems(6,7) by auto
    next
      case False
      then have t: "(h, v) \<in> set es" using Cons.prems(3,4,5) e Some by auto
      then show ?thesis
        using IH [OF t, of seen] IH [OF t, of "seen @ [the (text_field r0 ''jobHash'')]"] Some False e Cons.prems(7)
        by (auto split: option.splits)
    qed
  qed
qed simp

text \<open>Two snapshots hold the same values whenever \<open>JSON.stringify\<close> gives the same text for them.\<close>

definition faithful_text :: "(jv list \<Rightarrow> string) \<Rightarrow> jv list \<Rightarrow> bool" where
  "faithful_text ser ss = (\<forall>a \<in> set ss. \<forall>b \<in> set ss. \<forall>us vs. snapshot_values REVIEW_RECORD a = Some us
     \<longrightarrow> snapshot_values REVIEW_RECORD b = Some vs \<longrightarrow> ser us = ser vs \<longrightarrow> us = vs)"


definition demo_snapshot :: "int \<Rightarrow> string \<Rightarrow> jv" where
  "demo_snapshot h j = JObj [(''height'', JNum (num_int h)), (''identity'', JObj [(''contentmultimap'',
     JObj [(REVIEW_RECORD, JArr [JStr j])])])]"

definition demo_parse :: "string \<Rightarrow> jv option" where
  "demo_parse t = (if t = ''bad!'' then None else Some (JObj [(''jobHash'', JStr t)]))"

definition demo_history :: "jv list" where
  "demo_history = [demo_snapshot 9 ''one!'', demo_snapshot 7 ''bad!'', demo_snapshot 5 ''one!'', demo_snapshot 6 ''two!'']"

definition demo_ser :: "jv list \<Rightarrow> string" where
  "demo_ser vs = concat (map str_of vs)"

lemma demo_snapshot_simps: "snapshotHeight (demo_snapshot h j) = Some (num_int h)"
  "snapshot_values REVIEW_RECORD (demo_snapshot h j) = Some [JStr j]"
  by (simp_all add: demo_snapshot_def snapshotHeight_def snapshot_values_def Let_def nullish_def)

lemma demo_history_facts: "heights_ok demo_history" "faithful_text demo_ser demo_history"
proof -
  have "is_height (Some (num_int (int n)))" if "n < 2 ^ 32" for n
    using that by (auto simp: is_height_def)
  from this [of 9] this [of 7] this [of 5] this [of 6] show "heights_ok demo_history"
    by (simp add: heights_ok_def demo_history_def demo_snapshot_simps)
  show "faithful_text demo_ser demo_history"
    by (simp add: faithful_text_def demo_history_def demo_snapshot_simps demo_ser_def)
qed


text \<open>
  Only runs of equal snapshots are one entry: a value that comes back after another, or that stays while a value is added to its
  key, is listed again.
\<close>

lemma value_listed_again:
  "extractVdxfHistory demo_ser (JArr [demo_snapshot 1 ''a'', demo_snapshot 2 ''b'', demo_snapshot 3 ''a'']) REVIEW_RECORD
   = [(Some (num_int 1), JStr ''a''), (Some (num_int 2), JStr ''b''), (Some (num_int 3), JStr ''a'')]"
proof -
  have "\<not> js_lt (Fin 0) (js_sub (Fin 1) (Fin 2))" "\<not> js_lt (Fin 0) (js_sub (Fin 2) (Fin 3))"
    using js_sub_int [of 1 2] js_sub_int [of 2 3] by simp_all
  then show ?thesis
    by (simp add: extractVdxfHistory_def in_order_def after_def compare_heights_def demo_snapshot_simps demo_ser_def)
qed

end
