(* ===== verification/Webhook.thy ===== *)
theory Webhook
  imports Envelope
begin

text \<open>
  Webhook signatures, \<open>src/webhook/verify.ts\<close>: HMAC-SHA256 of the payload in hex, with or without a signed time. The HMAC of
  Node's \<open>crypto\<close> and \<open>String\<close> of a number are parameters; \<open>Buffer.from(s, 'hex')\<close> and \<open>timingSafeEqual\<close> are written out.
\<close>

text \<open>\<open>Buffer.from(s, 'hex')\<close> stops at the first pair that is not hex.\<close>

fun from_hex :: "string \<Rightarrow> nat list" where
  "from_hex (a # b # s) = (if is_hex a \<and> is_hex b then (16 * hex_val a + hex_val b) # from_hex s else [])"
| "from_hex _ = []"

text \<open>\<open>timingSafeEqual\<close> throws for buffers of different lengths, which is caught.\<close>

definition same_bytes :: "nat list \<Rightarrow> nat list \<Rightarrow> bool" where
  "same_bytes a b = (length a = length b \<and> a = b)"

definition strip_prefix :: "string \<Rightarrow> string" where
  "strip_prefix s = (if starts_with s ''sha256='' then drop 7 s else s)"

definition signature_matches :: "nat list \<Rightarrow> string \<Rightarrow> bool" where
  "signature_matches mac sg = (let expected = bytesToHex mac in
     if length expected \<noteq> length sg then False else same_bytes (from_hex expected) (from_hex sg))"

definition verifyWebhookSignature :: "(string \<Rightarrow> string \<Rightarrow> nat list) \<Rightarrow> string \<Rightarrow> jv \<Rightarrow> string \<Rightarrow> bool" where
  "verifyWebhookSignature hmac payload signature secret =
     (if \<not> is_string signature \<or> str_of signature = [] then False
      else signature_matches (hmac secret payload) (strip_prefix (str_of signature)))"

definition DEFAULT_TOLERANCE :: jsnum where
  "DEFAULT_TOLERANCE = num_int 300"

definition verifyWebhookSignatureWithTimestamp ::
  "(string \<Rightarrow> string \<Rightarrow> nat list) \<Rightarrow> (jsnum \<Rightarrow> string) \<Rightarrow> string \<Rightarrow> jv \<Rightarrow> string \<Rightarrow> jv \<Rightarrow> jsnum option \<Rightarrow> jsnum \<Rightarrow> bool" where
  "verifyWebhookSignatureWithTimestamp hmac str payload signature secret timestamp tolerance now =
     (if \<not> is_string signature \<or> str_of signature = [] then False
      else if \<not> is_number timestamp \<or> \<not> is_finite (num_of timestamp)
        \<or> js_lt (case tolerance of None \<Rightarrow> DEFAULT_TOLERANCE | Some x \<Rightarrow> x) (math_abs (js_sub now (num_of timestamp))) then False
      else signature_matches (hmac secret (str (num_of timestamp) @ ''.'' @ payload)) (strip_prefix (str_of signature)))"

definition generateWebhookSecret :: "nat list \<Rightarrow> string" where
  "generateWebhookSecret random = bytesToHex random"

section \<open>Which signatures are accepted\<close>

text \<open>What is relied on of HMAC-SHA256: thirty-two bytes.\<close>

definition mac32 :: "nat list \<Rightarrow> bool" where
  "mac32 bs = (length bs = 32 \<and> list_all (\<lambda>b. b < 256) bs)"

lemma hex_val_less: "is_hex c \<Longrightarrow> hex_val c < 16"
  by (auto simp: is_hex_def is_digit_def hex_val_def Let_def)

lemma hex_char_hex_val: "is_hex c \<Longrightarrow> hex_char (hex_val c) = to_lower_char c"
proof -
  assume h: "is_hex c"
  define n :: nat where "n = of_char c"
  have c: "c = char_of n" and "n < 256" by (simp_all add: n_def)
  have "48 \<le> n \<and> n \<le> 57 \<or> 97 \<le> n \<and> n \<le> 102 \<or> 65 \<le> n \<and> n \<le> 70"
    using h by (simp add: is_hex_def is_digit_def n_def)
  then show ?thesis
    by (auto simp: hex_char_def hex_val_def to_lower_char_def is_upper_def Let_def n_def [symmetric] c [symmetric] add.commute)
qed

lemma from_hex_length: "2 * length (from_hex s) \<le> length s"
  by (induction s rule: from_hex.induct) auto

lemma from_hex_full:
  "2 * length (from_hex s) = length s \<Longrightarrow> to_lower s = bytesToHex (from_hex s)"
proof (induction s rule: from_hex.induct)
  case (1 a b s)
  then have h: "is_hex a" "is_hex b" by (auto split: if_splits)
  with 1 have "to_lower s = bytesToHex (from_hex s)" by simp
  moreover have "(16 * hex_val a + hex_val b) div 16 = hex_val a" "(16 * hex_val a + hex_val b) mod 16 = hex_val b"
    using hex_val_less [OF h(2)] by simp_all
  ultimately show ?case using h by (simp add: bytesToHex_def byte_hex_def to_lower_def hex_char_hex_val)
qed (auto simp: bytesToHex_def to_lower_def)

lemma from_hex_of_bytes: "list_all (\<lambda>b. b < 256) bs \<Longrightarrow> from_hex (bytesToHex bs) = bs"
proof (induction bs)
  case (Cons b bs)
  then have d: "b div 16 < 16" "b mod 16 < 16" by auto
  show ?case using Cons hex_char_facts [OF d(1)] hex_char_facts [OF d(2)] by (simp add: bytesToHex_def byte_hex_def)
qed (simp add: bytesToHex_def)

lemma lower_hex: "is_hex (to_lower_char c) = is_hex c" "is_hex c \<Longrightarrow> hex_val (to_lower_char c) = hex_val c"
  by (auto simp: to_lower_char_def is_upper_def is_hex_def is_digit_def hex_val_def Let_def)

lemma from_hex_lower: "from_hex (to_lower s) = from_hex s"
  by (induction s rule: from_hex.induct) (auto simp: to_lower_def lower_hex)

lemma signature_matches_iff:
  assumes "mac32 mac"
  shows "signature_matches mac sg \<longleftrightarrow> to_lower sg = bytesToHex mac"
proof -
  have b: "from_hex (bytesToHex mac) = mac" using assms from_hex_of_bytes by (simp add: mac32_def)
  show ?thesis
  proof
    assume "signature_matches mac sg"
    then have "length sg = 2 * length mac" "from_hex sg = mac"
      using b by (simp_all add: signature_matches_def same_bytes_def Let_def split: if_splits)
    then show "to_lower sg = bytesToHex mac" using from_hex_full [of sg] by simp
  next
    assume l: "to_lower sg = bytesToHex mac"
    from arg_cong [OF l, of length] have "length sg = 2 * length mac" by (simp add: to_lower_def)
    moreover have "from_hex sg = mac" using from_hex_lower [of sg] l b by simp
    ultimately show "signature_matches mac sg" using b by (simp add: signature_matches_def same_bytes_def Let_def)
  qed
qed

text \<open>
  A webhook is accepted exactly when its signature, after an optional \<open>sha256=\<close>, is the hex of the payload's HMAC in upper or
  lower case: no shorter text, no text with other characters passes, and nothing throws.
\<close>

theorem webhook_accepted_iff:
  assumes "mac32 (hmac secret payload)"
  shows "verifyWebhookSignature hmac payload signature secret
    \<longleftrightarrow> (\<exists>s. signature = JStr s \<and> to_lower (strip_prefix s) = bytesToHex (hmac secret payload))"
proof -
  have "bytesToHex (hmac secret payload) \<noteq> []"
    using assms length_bytesToHex [of "hmac secret payload"] by (metis length_0_conv mac32_def mult_eq_0_iff zero_neq_numeral)
  then have "to_lower (strip_prefix []) \<noteq> bytesToHex (hmac secret payload)"
    by (simp add: strip_prefix_def to_lower_def starts_with_def)
  then show ?thesis
    by (cases signature) (auto simp: verifyWebhookSignature_def signature_matches_iff [OF assms])
qed

text \<open>
  With a time, an accepted webhook carries the HMAC of its time and payload together, and the time is within the tolerance of the
  receiver's clock.
\<close>

theorem timed_webhook_fresh:
  assumes "verifyWebhookSignatureWithTimestamp hmac str payload signature secret timestamp tolerance now"
    and "\<And>k m. mac32 (hmac k m)" and "now = num_int n" and "timestamp = JNum (num_int t)" and "\<bar>n - t\<bar> \<le> 2 ^ 53"
    and "tolerance = None \<or> tolerance = Some (num_int d)"
  shows "\<bar>n - t\<bar> \<le> (if tolerance = None then 300 else d)
    \<and> (\<exists>s. signature = JStr s \<and> to_lower (strip_prefix s) = bytesToHex (hmac secret (str (num_int t) @ ''.'' @ payload)))"
proof -
  have sub: "js_sub now (num_of timestamp) = num_int (n - t)" using assms(3-5) by (simp add: js_sub_int)
  have ab: "math_abs (num_int (n - t)) = num_int \<bar>n - t\<bar>" by (simp add: math_abs_def)
  obtain s where s: "signature = JStr s" using assms(1) by (cases signature) (auto simp: verifyWebhookSignatureWithTimestamp_def)
  have "\<bar>n - t\<bar> \<le> (if tolerance = None then 300 else d)"
    using assms(1,6) by (auto simp: verifyWebhookSignatureWithTimestamp_def sub ab DEFAULT_TOLERANCE_def split: if_splits simp del: of_int_abs of_int_diff)
  then show ?thesis using assms(1,4) s
    by (simp add: verifyWebhookSignatureWithTimestamp_def signature_matches_iff [OF assms(2)] split: if_splits)
qed

text \<open>A tolerance that is not a number lets every time pass: the comparison with it is false.\<close>

lemma no_tolerance_no_window:
  "verifyWebhookSignatureWithTimestamp hmac str payload (JStr s) secret (JNum (Fin x)) (Some NaN) now
   = (s \<noteq> [] \<and> signature_matches (hmac secret (str (Fin x) @ ''.'' @ payload)) (strip_prefix s))"
proof -
  have "\<not> js_lt NaN y" for y by (cases y) auto
  then show ?thesis by (simp add: verifyWebhookSignatureWithTimestamp_def)
qed

text \<open>A secret is two hex characters for each random byte.\<close>

lemma secret_length: "length (generateWebhookSecret bs) = 2 * length bs"
  by (simp add: generateWebhookSecret_def)

end
