(* ===== verification/Egress.thy ===== *)
theory Egress
  imports JsText
begin

text \<open>
  The tunnel through the egress proxy, \<open>src/net/egress-agent.ts\<close>: \<open>connectThroughProxy\<close> as a machine over the socket's events and the
  timer, and the choice of an agent from the environment. The TLS handshake inside the tunnel is Node's.
\<close>

section \<open>The CONNECT request and its reply\<close>

record egress_target =
  eg_host :: string
  eg_port :: nat
  eg_token :: string

definition CRLF :: string where
  "CRLF = [char_of (13 :: nat), char_of (10 :: nat)]"

definition host_port :: "egress_target \<Rightarrow> string" where
  "host_port t = eg_host t @ '':'' @ show_nat (eg_port t)"

definition connect_request :: "egress_target \<Rightarrow> string" where
  "connect_request t = ''CONNECT '' @ host_port t @ '' HTTP/1.1'' @ CRLF @ ''Host: '' @ host_port t @ CRLF
     @ ''Proxy-Authorization: Bearer '' @ eg_token t @ CRLF @ CRLF"

text \<open>\<open>indexOf\<close>.\<close>

fun index_of :: "string \<Rightarrow> string \<Rightarrow> nat option" where
  "index_of [] p = (if p = [] then Some 0 else None)"
| "index_of (c # s) p = (if starts_with (c # s) p then Some 0 else map_option Suc (index_of s p))"

text \<open>The first line, and \<open>/^HTTP\/\d\.\d (\d{3})/\<close> on it.\<close>

definition status_line :: "string \<Rightarrow> string" where
  "status_line buf = (case index_of buf CRLF of Some i \<Rightarrow> take i buf | None \<Rightarrow> take (length buf - 1) buf)"

definition status_of :: "string \<Rightarrow> string option" where
  "status_of line = (if starts_with line ''HTTP/'' then (case drop 5 line of
       a # d # b # sp # x # y # z # _ \<Rightarrow>
         if is_digit a \<and> d = CHR ''.'' \<and> is_digit b \<and> sp = CHR '' '' \<and> is_digit x \<and> is_digit y \<and> is_digit z then Some [x, y, z] else None
     | _ \<Rightarrow> None) else None)"

section \<open>The machine\<close>

datatype egress_error = ConnectTimeout | HeaderTooLarge | Refused string | SocketError string

datatype outcome = Tunnel | Failed egress_error

record connecting =
  ct_buf :: string
  ct_reading :: bool
  ct_settled :: bool
  ct_destroyed :: bool
  ct_outcome :: "outcome option"
  ct_written :: string

datatype socket_event = Connected | Data string | Broken string | Timeout

definition connecting0 :: connecting where
  "connecting0 = \<lparr>ct_buf = [], ct_reading = True, ct_settled = False, ct_destroyed = False, ct_outcome = None, ct_written = []\<rparr>"

definition MAX_HEADER :: nat where "MAX_HEADER = 8192"

definition fail :: "egress_error \<Rightarrow> connecting \<Rightarrow> connecting" where
  "fail e s = (if ct_settled s then s else s\<lparr>ct_settled := True, ct_destroyed := True, ct_outcome := Some (Failed e)\<rparr>)"

text \<open>A promise keeps its first outcome.\<close>

definition resolve :: "connecting \<Rightarrow> connecting" where
  "resolve s = s\<lparr>ct_settled := True, ct_outcome := (case ct_outcome s of None \<Rightarrow> Some Tunnel | Some x \<Rightarrow> Some x)\<rparr>"

definition onData :: "string \<Rightarrow> connecting \<Rightarrow> connecting" where
  "onData chunk s =
     (let buf = ct_buf s @ chunk; s1 = s\<lparr>ct_buf := buf\<rparr> in
      case index_of buf (CRLF @ CRLF) of
        None \<Rightarrow> if MAX_HEADER < length buf then fail HeaderTooLarge s1 else s1
      | Some _ \<Rightarrow>
          (let s2 = s1\<lparr>ct_reading := False\<rparr> in
           if status_of (status_line buf) = Some ''200'' then resolve s2 else fail (Refused (status_line buf)) s2))"

definition socket_step :: "egress_target \<Rightarrow> connecting \<Rightarrow> socket_event \<Rightarrow> connecting" where
  "socket_step t s ev = (case ev of
       Connected \<Rightarrow> s\<lparr>ct_written := ct_written s @ connect_request t\<rparr>
     | Data chunk \<Rightarrow> if ct_reading s \<and> \<not> ct_destroyed s then onData chunk s else s
     | Broken e \<Rightarrow> fail (SocketError e) s
     | Timeout \<Rightarrow> fail ConnectTimeout s)"

definition socket_run :: "egress_target \<Rightarrow> socket_event list \<Rightarrow> connecting" where
  "socket_run t evs = foldl (socket_step t) connecting0 evs"

section \<open>The agent of the environment\<close>

record egress_opts =
  eo_host :: string
  eo_port :: nat
  eo_token :: string

text \<open>\<open>parse\<close> is \<open>new URL\<close>, giving the host and the port as \<open>Number\<close> reads it, 0 when there is none.\<close>

definition getEgressSocketAgent :: "(string \<Rightarrow> (string \<times> nat) option) \<Rightarrow> string option \<Rightarrow> string option \<Rightarrow> egress_opts option" where
  "getEgressSocketAgent parse proxy token = (case proxy of
       None \<Rightarrow> None
     | Some uri \<Rightarrow> if uri = [] then None else (case parse uri of
         None \<Rightarrow> None
       | Some (h, p) \<Rightarrow> Some \<lparr>eo_host = h, eo_port = (if p = 0 then 80 else p), eo_token = (case token of None \<Rightarrow> [] | Some x \<Rightarrow> x)\<rparr>))"

section \<open>Fail closed\<close>

lemma starts_with_more: "starts_with s p \<Longrightarrow> starts_with (s @ t) p"
  by (auto simp: starts_with_iff)

lemma index_of_room: "index_of s p = Some i \<Longrightarrow> i + length p \<le> length s"
proof (induction s arbitrary: i)
  case (Cons c s)
  then show ?case
    by (auto simp: starts_with_iff split: if_splits) (metis append_Cons length_append le_add1 length_Cons)
qed (simp split: if_splits)

lemma index_of_append: "index_of s p = Some i \<Longrightarrow> index_of (s @ t) p = Some i"
proof (induction s arbitrary: i)
  case Nil
  then show ?case by (cases t) (auto simp: starts_with_def split: if_splits)
next
  case (Cons c s)
  show ?case
  proof (cases "starts_with (c # s) p")
    case True
    then show ?thesis using Cons.prems starts_with_more [OF True, of t] by simp
  next
    case False
    then obtain j where j: "index_of s p = Some j" "i = Suc j" using Cons.prems by auto
    then have "\<not> starts_with (c # s @ t) p"
      using False index_of_room [OF j(1)] by (auto simp: starts_with_def take_Cons' split: if_splits)
    then show ?thesis using Cons.IH [OF j(1)] j(2) by simp
  qed
qed

text \<open>The bytes received, and what they must be for the tunnel to open.\<close>

definition received :: "socket_event list \<Rightarrow> string" where
  "received evs = concat (map (\<lambda>e. case e of Data c \<Rightarrow> c | _ \<Rightarrow> []) evs)"

definition granted :: "string \<Rightarrow> bool" where
  "granted buf = (index_of buf (CRLF @ CRLF) \<noteq> None \<and> status_of (status_line buf) = Some ''200'')"

definition undisturbed :: "socket_event list \<Rightarrow> bool" where
  "undisturbed evs = (\<forall>e \<in> set evs. case e of Timeout \<Rightarrow> False | Broken _ \<Rightarrow> False | _ \<Rightarrow> True)"

definition egress_inv :: "socket_event list \<Rightarrow> connecting \<Rightarrow> bool" where
  "egress_inv evs s = (case ct_outcome s of
       None \<Rightarrow> ct_buf s = received evs \<and> index_of (received evs) (CRLF @ CRLF) = None \<and> ct_reading s \<and> \<not> ct_settled s
         \<and> \<not> ct_destroyed s \<and> undisturbed evs
     | Some Tunnel \<Rightarrow> ct_settled s \<and> \<not> ct_reading s \<and> (\<exists>pre suf. evs = pre @ suf \<and> granted (received pre) \<and> undisturbed pre)
     | Some (Failed _) \<Rightarrow> ct_settled s \<and> ct_destroyed s)"

lemma received_simps [simp]: "received [] = []" "received (evs @ [e]) = received evs @ (case e of Data c \<Rightarrow> c | _ \<Rightarrow> [])"
  by (simp_all add: received_def)

lemma undisturbed_simps [simp]: "undisturbed []"
  "undisturbed (evs @ [e]) = (undisturbed evs \<and> (case e of Timeout \<Rightarrow> False | Broken _ \<Rightarrow> False | _ \<Rightarrow> True))"
  by (auto simp: undisturbed_def)

lemma onData_inv:
  assumes "egress_inv evs s" and "ct_outcome s = None"
  shows "egress_inv (evs @ [Data c]) (onData c s)"
proof (cases "index_of (received evs @ c) (CRLF @ CRLF)")
  case None
  with assms show ?thesis by (simp add: egress_inv_def onData_def fail_def Let_def)
next
  case (Some i)
  have "\<exists>pre suf. evs @ [Data c] = pre @ suf \<and> granted (received pre) \<and> undisturbed pre"
    if "status_of (status_line (received evs @ c)) = Some ''200''"
    using assms Some that by (intro exI [of _ "evs @ [Data c]"] exI [of _ "[]"]) (simp add: granted_def egress_inv_def)
  with assms Some show ?thesis by (auto simp: egress_inv_def onData_def resolve_def fail_def Let_def)
qed

lemma egress_step_inv:
  assumes "egress_inv evs s"
  shows "egress_inv (evs @ [e]) (socket_step t s e)"
proof (cases "ct_outcome s")
  case None
  show ?thesis
  proof (cases e)
    case (Data c)
    with assms None have "socket_step t s e = onData c s" by (simp add: socket_step_def egress_inv_def)
    then show ?thesis using onData_inv [OF assms None] Data by simp
  qed (use assms None in \<open>simp_all add: egress_inv_def socket_step_def fail_def\<close>)
next
  case (Some x)
  have "ct_outcome (socket_step t s e) = Some x \<and> ct_settled (socket_step t s e) = ct_settled s
      \<and> ct_reading (socket_step t s e) = ct_reading s \<and> ct_destroyed (socket_step t s e) = ct_destroyed s"
    using assms Some by (cases x; cases e) (simp_all add: egress_inv_def socket_step_def fail_def)
  moreover have "\<exists>pre suf. evs @ [e] = pre @ suf \<and> granted (received pre) \<and> undisturbed pre"
    if "\<exists>pre suf. evs = pre @ suf \<and> granted (received pre) \<and> undisturbed pre"
    using that by (elim exE conjE) (rename_tac pre suf, rule_tac x = pre in exI, rule_tac x = "suf @ [e]" in exI, simp)
  ultimately show ?thesis using assms Some by (auto simp: egress_inv_def split: outcome.splits)
qed

lemma socket_run_inv: "egress_inv evs (socket_run t evs)"
proof (induction evs rule: rev_induct)
  case Nil
  then show ?case by (simp add: egress_inv_def socket_run_def connecting0_def CRLF_def)
next
  case (snoc e evs)
  with egress_step_inv [OF snoc, of e t] show ?case by (simp add: socket_run_def)
qed

text \<open>
  C26. The tunnel fails closed: it opens only if what was received, before any error of the socket and before the time was up, is a
  whole header whose first line carries the status 200.
\<close>

theorem tunnel_fails_closed:
  assumes "ct_outcome (socket_run t evs) = Some Tunnel"
  shows "\<exists>pre suf. evs = pre @ suf \<and> undisturbed pre \<and> index_of (received pre) (CRLF @ CRLF) \<noteq> None
    \<and> status_of (status_line (received pre)) = Some ''200''"
  using socket_run_inv [of evs t] assms by (auto simp: egress_inv_def granted_def)

definition demo_reply :: string where
  "demo_reply = ''HTTP/1.1 200 OK'' @ CRLF @ CRLF"

definition demo_target :: egress_target where
  "demo_target = \<lparr>eg_host = ''h'', eg_port = 443, eg_token = ''k''\<rparr>"

lemma demo_granted: "granted demo_reply"
  by code_simp

lemma demo_tunnel: "ct_outcome (socket_run demo_target [Data demo_reply]) = Some Tunnel"
proof -
  obtain i where "index_of demo_reply (CRLF @ CRLF) = Some i" "status_of (status_line demo_reply) = Some ''200''"
    using demo_granted by (auto simp: granted_def)
  then show ?thesis by (simp add: socket_run_def socket_step_def connecting0_def onData_def resolve_def Let_def)
qed

theorem tunnel_fails_closed_witness:
  "\<exists>pre suf. [Data demo_reply] = pre @ suf \<and> status_of (status_line (received pre)) = Some ''200''"
  using tunnel_fails_closed [OF demo_tunnel] by blast

section \<open>How the reply is cut does not matter\<close>

lemma status_line_append:
  assumes "index_of s (CRLF @ CRLF) = Some i"
  shows "status_line (s @ t) = status_line s"
proof -
  have "index_of s CRLF \<noteq> None"
    using assms by (induction s arbitrary: i) (auto simp: starts_with_iff CRLF_def split: if_splits)
  then obtain j where j: "index_of s CRLF = Some j" by auto
  then have "index_of (s @ t) CRLF = Some j" "j \<le> length s" using index_of_append index_of_room [OF j] by auto
  with j show ?thesis by (simp add: status_line_def)
qed

lemma onData_settled: "ct_outcome s \<noteq> None \<Longrightarrow> egress_inv evs s \<Longrightarrow> ct_outcome (socket_step t s e) = ct_outcome s"
proof -
  assume z: "ct_outcome s \<noteq> None" and i: "egress_inv evs s"
  then obtain y where "ct_outcome s = Some y" by auto
  with i show ?thesis by (cases y; cases e) (simp_all add: egress_inv_def socket_step_def fail_def)
qed

lemma run_data:
  "length (concat cs) \<le> MAX_HEADER \<Longrightarrow> ct_outcome (socket_run t (map Data cs)) =
     (if index_of (concat cs) (CRLF @ CRLF) = None then None
      else if status_of (status_line (concat cs)) = Some ''200'' then Some Tunnel
      else Some (Failed (Refused (status_line (concat cs)))))"
proof (induction cs rule: rev_induct)
  case Nil
  then show ?case by (simp add: socket_run_def connecting0_def CRLF_def)
next
  case (snoc c cs)
  let ?s = "socket_run t (map Data cs)"
  have r: "received (map Data cs) = concat cs" by (simp add: received_def comp_def)
  have st: "socket_run t (map Data cs @ [Data c]) = socket_step t ?s (Data c)" by (simp add: socket_run_def)
  note inv = socket_run_inv [of "map Data cs" t]
  have IH: "ct_outcome ?s = (if index_of (concat cs) (CRLF @ CRLF) = None then None
      else if status_of (status_line (concat cs)) = Some ''200'' then Some Tunnel
      else Some (Failed (Refused (status_line (concat cs)))))"
    using snoc by simp
  show ?case
  proof (cases "index_of (concat cs) (CRLF @ CRLF)")
    case None
    then have "ct_outcome ?s = None" using IH by simp
    then show ?thesis using inv snoc.prems r
      by (auto simp: st socket_step_def egress_inv_def onData_def resolve_def fail_def Let_def split: option.split)
  next
    case (Some i)
    then have "ct_outcome ?s \<noteq> None" using IH by simp
    then have "ct_outcome (socket_step t ?s (Data c)) = ct_outcome ?s" using inv by (rule onData_settled)
    then show ?thesis using IH Some index_of_append [OF Some, of c] status_line_append [OF Some, of c] by (simp add: st)
  qed
qed

text \<open>
  However the proxy's reply is cut into pieces, the outcome is that of the reply in one piece, as long as it stays within the
  8192 bytes allowed for a header.
\<close>

theorem pieces_do_not_matter:
  assumes "length (concat cs) \<le> MAX_HEADER"
  shows "ct_outcome (socket_run t (map Data cs)) = ct_outcome (socket_run t [Data (concat cs)])"
  using run_data [OF assms, of t] run_data [of "[concat cs]" t] assms by simp

theorem pieces_do_not_matter_witness:
  "ct_outcome (socket_run demo_target (map Data [''HTTP/1.1 200 OK'', CRLF, CRLF])) = Some Tunnel"
proof -
  have "length (concat [''HTTP/1.1 200 OK'', CRLF, CRLF]) \<le> MAX_HEADER" by (simp add: MAX_HEADER_def CRLF_def)
  moreover have "concat [''HTTP/1.1 200 OK'', CRLF, CRLF] = demo_reply" by (simp add: demo_reply_def)
  ultimately show ?thesis using pieces_do_not_matter [of "[''HTTP/1.1 200 OK'', CRLF, CRLF]" demo_target] demo_tunnel by metis
qed

text \<open>Only three digits are compared: a status line of four digits that starts with 200 opens the tunnel too.\<close>

lemma four_digit_status: "status_of ''HTTP/1.1 2004'' = Some ''200''"
  by (simp add: status_of_def starts_with_def is_digit_def)

end
