(* ===== verification/Standalone.thy ===== *)
theory Standalone
  imports JsValue Messages
begin

text \<open>
  Two helpers that work without a client: the login of \<open>src/auth/login-consent.ts\<close> and the probe for what a backend supports,
  \<open>src/backend-features.ts\<close>. \<open>fetch\<close>, the signer, Unicode normalization and the clock are parameters.
\<close>

section \<open>Login by consent\<close>

text \<open>An answer: whether the status is a good one, and the parsed body (\<open>Inl\<close> when it is not JSON).\<close>

record http_answer =
  ha_ok :: bool
  ha_body :: "(string, jv) result"

datatype login_error = NoAnswer string | Declined string | MissingChallenge | Refused sign_refusal | SigningFailed string | BadBody

datatype login_call = GetChallenge | SignHash string | PostVerify jv

record login_lib =
  ll_challenge :: "(string, http_answer) result"
  ll_verify :: "jv \<Rightarrow> (string, http_answer) result"
  ll_sign :: "string \<Rightarrow> (string, string) result"
  ll_nfkc :: "units \<Rightarrow> units"

definition error_text :: "http_answer \<Rightarrow> string" where
  "error_text a = (case ha_body a of Inl _ \<Rightarrow> [] | Inr b \<Rightarrow> str_of (jget (jget b ''error'') ''message''))"

text \<open>\<open>const { data } = await res.json()\<close>; a body of \<open>null\<close> throws.\<close>

definition data_of :: "(string, http_answer) result \<Rightarrow> (login_error, jv) result" where
  "data_of r = (case r of
       Inl e \<Rightarrow> Inl (NoAnswer e)
     | Inr a \<Rightarrow> if \<not> ha_ok a then Inl (Declined (error_text a))
         else (case ha_body a of Inl _ \<Rightarrow> Inl BadBody | Inr b \<Rightarrow> if nullish b then Inl BadBody else Inr (jget b ''data'')))"

definition check_challenge :: "login_lib \<Rightarrow> jv \<Rightarrow> (login_error, string) result" where
  "check_challenge lib ch =
     (let h = jget ch ''challengeHash'' in
      if nullish ch then Inl BadBody
      else if \<not> jtruthy h \<or> \<not> jtruthy (jget ch ''challengeId'') then Inl MissingChallenge
      else case assertConsentChallengeHash (if is_string h then Some (str_of h) else None) of
        Inl e \<Rightarrow> Inl (Refused e)
      | Inr _ \<Rightarrow> (case assertNotProtocolMessage (ll_nfkc lib) (units_of (str_of h)) of
          Inl e \<Rightarrow> Inl (Refused e)
        | Inr _ \<Rightarrow> Inr (str_of h)))"

text \<open>The outcome and the calls made.\<close>

definition loginWithConsent :: "login_lib \<Rightarrow> string \<Rightarrow> (login_error, jv) result \<times> login_call list" where
  "loginWithConsent lib identity =
     (case bind_r (data_of (ll_challenge lib)) (\<lambda>ch. bind_r (check_challenge lib ch) (\<lambda>h. Inr (ch, h))) of
        Inl e \<Rightarrow> (Inl e, [GetChallenge])
      | Inr (ch, h) \<Rightarrow> (case ll_sign lib h of
          Inl e \<Rightarrow> (Inl (SigningFailed e), [GetChallenge, SignHash h])
        | Inr sg \<Rightarrow>
            (let body = JObj [(''challengeId'', jget ch ''challengeId''), (''verusId'', JStr identity), (''signature'', JStr sg)] in
             (data_of (ll_verify lib body), [GetChallenge, SignHash h, PostVerify body]))))"

lemma signed_is_hash: "SignHash h \<in> set (snd (loginWithConsent lib i)) \<Longrightarrow> length h = 64 \<and> list_all is_hex h"
  by (auto simp: loginWithConsent_def check_challenge_def assertConsentChallengeHash_def Let_def bind_r_eq_Inr
      split: sum.splits if_splits)

section \<open>What a backend supports\<close>

definition CACHE_TTL_MS :: int where "CACHE_TTL_MS = 5 * 60 * 1000"

text \<open>The version document as it is kept: version, commit, features; with the time it was fetched.\<close>

record backend_version =
  bv_version :: jv
  bv_commit :: jv
  bv_features :: "jv list"

type_synonym version_cache = "(string, backend_version \<times> int) jsmap"

definition or_empty :: "jv \<Rightarrow> jv" where
  "or_empty v = (if nullish v then JStr [] else v)"

definition parse_version :: "jv \<Rightarrow> backend_version option" where
  "parse_version d =
     (if \<not> jtruthy d \<or> \<not> is_array (jget d ''features'') then None
      else Some \<lparr>bv_version = or_empty (jget d ''version''), bv_commit = or_empty (jget d ''commit''), bv_features = arr_of (jget d ''features'')\<rparr>)"

text \<open>\<open>answer\<close> is what the platform would answer now, \<open>later\<close> the time it has answered; the third component tells whether it was asked.\<close>

definition ask_version ::
  "(string, http_answer) result \<Rightarrow> int \<Rightarrow> string \<Rightarrow> version_cache \<Rightarrow> backend_version option \<times> version_cache \<times> bool" where
  "ask_version answer later url cache = (case answer of
       Inl _ \<Rightarrow> (None, cache, True)
     | Inr a \<Rightarrow> (case (if ha_ok a then (case ha_body a of Inl _ \<Rightarrow> None | Inr b \<Rightarrow> parse_version b) else None) of
         None \<Rightarrow> (None, cache, True)
       | Some w \<Rightarrow> (Some w, map_set cache url (w, later), True)))"

definition fetchBackendVersion ::
  "(string, http_answer) result \<Rightarrow> int \<Rightarrow> int \<Rightarrow> string \<Rightarrow> version_cache \<Rightarrow> backend_version option \<times> version_cache \<times> bool" where
  "fetchBackendVersion answer now later url cache =
     (case map_get cache url of
        Some (v, t) \<Rightarrow> if now - t < CACHE_TTL_MS then (Some v, cache, False) else ask_version answer later url cache
      | None \<Rightarrow> ask_version answer later url cache)"

definition hasFeature :: "backend_version option \<Rightarrow> string \<Rightarrow> bool" where
  "hasFeature v f = (case v of None \<Rightarrow> False | Some x \<Rightarrow> JStr f \<in> set (bv_features x))"

record feature_check =
  fc_ok :: bool
  fc_required :: "string list"
  fc_soft :: "string list"

definition checkRequiredFeatures :: "backend_version option \<Rightarrow> string list \<Rightarrow> string list \<Rightarrow> feature_check" where
  "checkRequiredFeatures v required soft = (case v of
       None \<Rightarrow> \<lparr>fc_ok = True, fc_required = [], fc_soft = []\<rparr>
     | Some x \<Rightarrow> (let miss = filter (\<lambda>f. JStr f \<notin> set (bv_features x)) in
         \<lparr>fc_ok = (miss required = []), fc_required = miss required, fc_soft = miss soft\<rparr>))"

text \<open>Within five minutes of an answer the backend is not asked again, and its answer then is the one given.\<close>

lemma cached_version:
  assumes "fetchBackendVersion answer now later url cache = (Some v, cache', True)" and "t - later < CACHE_TTL_MS"
  shows "fetchBackendVersion answer' t t' url cache' = (Some v, cache', False)"
  using assms by (auto simp: fetchBackendVersion_def ask_version_def split: option.splits sum.splits if_splits)

text \<open>A backend that does not answer is taken to support nothing, and to lack nothing that is required.\<close>

lemma unreachable_passes: "fc_ok (checkRequiredFeatures None required soft)" "\<not> hasFeature None f"
  by (simp_all add: checkRequiredFeatures_def hasFeature_def)

lemma check_ok_iff: "fc_ok (checkRequiredFeatures (Some v) required soft) \<longleftrightarrow> (\<forall>f \<in> set required. hasFeature (Some v) f)"
  by (auto simp: checkRequiredFeatures_def hasFeature_def Let_def filter_empty_conv)

end
