(* ===== verification/BuyerSession.thy ===== *)
theory BuyerSession
  imports Wallet AgentOps
begin

text \<open>
  The buyer's side of a job, \<open>src/buyer/session.ts\<close>: \<open>start\<close> creates the job, checks what the platform says is to be
  paid and to whom, pays and waits for the seller; then the session is a machine over its methods, the seller's messages
  and the timers. Creating the job is \<open>createJob\<close> of AgentOps, paying is \<open>sendMultiPayment\<close> of Wallet.
\<close>

section \<open>What is paid\<close>

datatype session_error = NoJob op_error | NoPayAddress | BadPayAddress | BadFee | NotPaid wallet_error | CallFailed string
  | NoAnswer | JobGone jv | VerificationTimeout | NotActive | JailboxParked

definition is_base58 :: "char \<Rightarrow> bool" where
  "is_base58 c = ((is_digit c \<and> c \<noteq> CHR ''0'') \<or> (is_upper c \<and> c \<noteq> CHR ''I'' \<and> c \<noteq> CHR ''O'') \<or> (is_lower c \<and> c \<noteq> CHR ''l''))"

text \<open>\<open>/^[Ri][1-9A-HJ-NP-Za-km-z]{25,40}$/\<close>.\<close>

definition isVerusAddr :: "jv \<Rightarrow> bool" where
  "isVerusAddr v = (case v of
       JStr (c # s) \<Rightarrow> (c = CHR ''R'' \<or> c = CHR ''i'') \<and> list_all is_base58 s \<and> 25 \<le> length s \<and> length s \<le> 40
     | _ \<Rightarrow> False)"

definition fee_ok :: "jv \<Rightarrow> jv \<Rightarrow> jsnum \<Rightarrow> bool" where
  "fee_ok feeAddr feeAmt amount = (isVerusAddr feeAddr \<and> is_number feeAmt \<and> is_finite (num_of feeAmt)
     \<and> \<not> js_le (num_of feeAmt) (num_int 0) \<and> \<not> js_lt amount (num_of feeAmt))"

definition payment_outputs :: "jv \<Rightarrow> jsnum \<Rightarrow> (session_error, (string \<times> jsnum) list) result" where
  "payment_outputs job amount =
     (let p = jget job ''payment''; payAddr = jget p ''address'';
          feeAddr = jget p ''platformFeeAddress''; feeAmt = jget p ''feeAmount'' in
      if \<not> jtruthy payAddr then Inl NoPayAddress
      else if \<not> isVerusAddr payAddr then Inl BadPayAddress
      else if nullish feeAddr \<and> nullish feeAmt then Inr [(str_of payAddr, amount)]
      else if \<not> fee_ok feeAddr feeAmt amount then Inl BadFee
      else Inr [(str_of payAddr, amount), (str_of feeAddr, num_of feeAmt)])"

section \<open>Waiting for the seller\<close>

definition MAX_WAIT_MS :: int where "MAX_WAIT_MS = 15 * 60 * 1000"
definition CHECK_EVERY_MS :: int where "CHECK_EVERY_MS = 15000"

text \<open>
  Each round reads the clock and, within the time allowed, asks for the job. \<open>None\<close> when the rounds given are over and it
  still waits.
\<close>

fun wait_started :: "int \<Rightarrow> jv \<Rightarrow> (int \<times> (string, jv) result) list \<Rightarrow> (session_error, jv) result option" where
  "wait_started t0 job [] = None"
| "wait_started t0 job ((now, answer) # rest) =
     (if now - t0 < MAX_WAIT_MS then
        (case answer of
           Inl e \<Rightarrow> Some (Inl (CallFailed e))
         | Inr check \<Rightarrow>
             if nullish check then Some (Inl NoAnswer)
             else if jget check ''status'' = JStr ''in_progress'' then Some (Inr check)
             else if jget check ''status'' = JStr ''cancelled'' \<or> jget check ''status'' = JStr ''failed''
             then Some (Inl (JobGone (jget check ''status'')))
             else wait_started t0 job rest)
      else Some (if jget job ''status'' = JStr ''in_progress'' then Inr job else Inl VerificationTimeout))"

section \<open>Starting\<close>

record session_config =
  bc_seller :: string
  bc_amount :: jsnum
  bc_currency :: "string option"
  bc_idle :: "int option"

definition session_currency :: "session_config \<Rightarrow> string" where
  "session_currency c = (case bc_currency c of None \<Rightarrow> ''VRSCTEST'' | Some s \<Rightarrow> if s = [] then ''VRSCTEST'' else s)"

text \<open>The platform's answers after the payment: to \<open>recordPaymentCombined\<close>, to the rounds of the wait, to \<open>connectChat\<close>.\<close>

record start_env =
  se_ops :: op_env
  se_net :: net_env
  se_record :: "string \<Rightarrow> (string, unit) result"
  se_clock :: int
  se_rounds :: "(int \<times> (string, jv) result) list"
  se_chat :: "(string, unit) result"

definition session_job :: "start_env \<Rightarrow> op_agent \<Rightarrow> session_config \<Rightarrow> jv op" where
  "session_job env oa c = createJob (se_ops env) oa (bc_seller c) (bc_amount c) (Some (session_currency c)) None"

definition after_payment :: "start_env \<Rightarrow> jv \<Rightarrow> string \<Rightarrow> (session_error, jv) result option" where
  "after_payment env job tid = (case se_record env tid of
       Inl e \<Rightarrow> Some (Inl (CallFailed e))
     | Inr _ \<Rightarrow> (case wait_started (se_clock env) job (se_rounds env) of
         None \<Rightarrow> None
       | Some (Inl e) \<Rightarrow> Some (Inl e)
       | Some (Inr job') \<Rightarrow> Some (case se_chat env of Inl e \<Rightarrow> Inl (CallFailed e) | Inr _ \<Rightarrow> Inr job')))"

text \<open>The agent's wallet afterwards, the transaction if one was built, and the outcome.\<close>

definition start :: "utxolib \<Rightarrow> start_env \<Rightarrow> op_agent \<Rightarrow> agent \<Rightarrow> session_config
    \<Rightarrow> agent \<times> tx option \<times> (session_error, jv) result option" where
  "start lib env oa a c =
     (case fst (session_job env oa c []) of
        Inl e \<Rightarrow> (a, None, Some (Inl (NoJob e)))
      | Inr job \<Rightarrow>
          if nullish job then (a, None, Some (Inl NoAnswer))
          else case payment_outputs job (bc_amount c) of
            Inl e \<Rightarrow> (a, None, Some (Inl e))
          | Inr outs \<Rightarrow> (case sendMultiPayment lib a (se_net env) outs of
              (a', t, Inl e) \<Rightarrow> (a', t, Some (Inl (NotPaid e)))
            | (a', t, Inr tid) \<Rightarrow> (a', t, after_payment env job tid)))"

section \<open>Bounds of a payment\<close>

lemma output_sats_mono:
  assumes "is_finite (snd x)" "is_finite (snd y)" "js_le (snd x) (snd y)"
  shows "js_le (output_sats x) (output_sats y)"
proof -
  obtain u v where uv: "snd x = Fin u" "snd y = Fin v" "u \<le> v"
    using assms by (auto simp: is_finite_iff)
  have "js_le (fl (u * 100000000)) (fl (v * 100000000))"
    using uv(3) by (intro fl_mono) simp
  then show ?thesis
    unfolding output_sats_def SATS_PER_COIN_def uv
    by (cases "fl (u * 100000000)"; cases "fl (v * 100000000)") (auto intro!: floor_mono)
qed

lemma isVerusAddr_string: "isVerusAddr v \<Longrightarrow> v = JStr (str_of v)"
  by (auto simp: isVerusAddr_def split: jv.splits list.splits)

lemma payment_outputs_cases:
  assumes "payment_outputs job amount = Inr outs"
  obtains (no_fee) p where "jget (jget job ''payment'') ''address'' = JStr p" "isVerusAddr (JStr p)" "outs = [(p, amount)]"
  | (fee) p q f where "jget (jget job ''payment'') ''address'' = JStr p" "isVerusAddr (JStr p)" "isVerusAddr (JStr q)"
      "is_finite f" "\<not> js_le f (num_int 0)" "\<not> js_lt amount f" "outs = [(p, amount), (q, f)]"
  using assms isVerusAddr_string
  by (fastforce simp: payment_outputs_def Let_def fee_ok_def split: if_splits)

lemma multi_outputs:
  assumes "sendMultiPayment lib a env outs = (a', Some t, r)"
  obtains ss own cs change where "output_scripts lib (a_net a) outs = Inr ss" "wif_addr lib (the (a_wif a)) (a_net a) = Inr own"
    "tx_outs t = ss @ change_outs cs change" "cs \<noteq> None \<longrightarrow> toOutputScript lib (a_net a) own = Inr (the cs)"
    "each_r check_output outs = Inr ()"
proof -
  obtain us a1 utxos own e b where m: "mergeUtxos a (positive_utxos us) = (a1, utxos)"
    and w: "wif_addr lib (the (a_wif a)) (a_net a1) = Inr own"
    and p: "buildMultiPayment lib \<lparr>m_wif = the (a_wif a), m_outputs = outs, m_utxos = utxos,
              m_fee = DEFAULT_FEE, m_change = Some own, m_network = a_net a1, m_expiry = e\<rparr> = Inr b"
    and t: "t = built b"
    using assms
    by (auto simp: sendMultiPayment_def Let_def bind_r_eq_Inr lift_pay_def split: if_splits sum.splits prod.splits)
  note M = mergeUtxos_fields [OF m]
  obtain ca ss cs change where "output_scripts lib (a_net a) outs = Inr ss" "each_r check_output outs = Inr ()"
      "change_address lib (the (a_wif a)) (a_net a) (Some own) = Inr ca"
      "change_script lib (a_net a) ca change = Inr cs" "tx_outs t = ss @ change_outs cs change"
    using p by (auto simp: buildMultiPayment_def Let_def bind_r_eq_Inr M t split: if_splits prod.splits)
  with w M that show thesis
    by (auto simp: change_address_def change_script_def truthy_str_def bind_r_eq_Inr split: if_splits)
qed

text \<open>
  C12. Whatever the platform answers, a transaction that \<open>start\<close> builds pays the amount the buyer configured to one well-formed
  address, at most one fee that is no larger than that amount to another, and the rest to the address of the buyer's own
  key: a doctored job costs at most twice the amount, besides the miner's fee.
\<close>

theorem start_pays_bounded:
  assumes "start lib env oa a c = (a', Some t, r)"
  shows "\<exists>pay s fees rest. tx_outs t = (s, output_sats (pay, bc_amount c)) # fees @ rest
    \<and> isVerusAddr (JStr pay) \<and> toOutputScript lib (a_net a) pay = Inr s \<and> is_finite (bc_amount c) \<and> js_lt (num_int 0) (bc_amount c)
    \<and> (fees = [] \<or> (\<exists>q sq v. fees = [(sq, v)] \<and> isVerusAddr (JStr q) \<and> toOutputScript lib (a_net a) q = Inr sq
          \<and> js_le v (output_sats (pay, bc_amount c))))
    \<and> (rest = [] \<or> (\<exists>own so v. rest = [(so, v)] \<and> wif_addr lib (the (a_wif a)) (a_net a) = Inr own
          \<and> toOutputScript lib (a_net a) own = Inr so))"
proof -
  obtain job outs r' where o: "payment_outputs job (bc_amount c) = Inr outs"
    and m: "sendMultiPayment lib a (se_net env) outs = (a', Some t, r')"
    using assms by (auto simp: start_def split: sum.splits prod.splits if_splits)
  obtain ss own cs change where M: "output_scripts lib (a_net a) outs = Inr ss"
      "wif_addr lib (the (a_wif a)) (a_net a) = Inr own" "tx_outs t = ss @ change_outs cs change"
      "cs \<noteq> None \<longrightarrow> toOutputScript lib (a_net a) own = Inr (the cs)" "each_r check_output outs = Inr ()"
    using m by (rule multi_outputs)
  have rest: "change_outs cs change = [] \<or> (\<exists>own so v. change_outs cs change = [(so, v)]
      \<and> wif_addr lib (the (a_wif a)) (a_net a) = Inr own \<and> toOutputScript lib (a_net a) own = Inr so)"
    using M(2,4) by (cases cs) (auto simp: change_outs_def)
  have pos: "is_finite (bc_amount c) \<and> js_lt (num_int 0) (bc_amount c)"
    if "(p, bc_amount c) \<in> set outs" for p
  proof -
    have "check_output (p, bc_amount c) = Inr ()" using M(5) that by (simp add: each_r_ok)
    then show ?thesis by (cases "bc_amount c") (auto simp: check_output_def)
  qed
  from o show ?thesis
  proof (cases rule: payment_outputs_cases)
    case (no_fee p)
    then obtain s where s: "ss = [(s, output_sats (p, bc_amount c))]" "toOutputScript lib (a_net a) p = Inr s"
      using M(1) by (auto simp: bind_r_eq_Inr)
    show ?thesis
      using s no_fee rest pos [of p] M(3)
      by (intro exI [of _ p] exI [of _ s] exI [of _ "[]"] exI [of _ "change_outs cs change"]) simp
  next
    case (fee p q f)
    then obtain s sq where s: "ss = [(s, output_sats (p, bc_amount c)), (sq, output_sats (q, f))]"
        "toOutputScript lib (a_net a) p = Inr s" "toOutputScript lib (a_net a) q = Inr sq"
      using M(1) by (auto simp: bind_r_eq_Inr)
    have fin: "is_finite (bc_amount c)" using pos [of p] fee by simp
    then have "js_le f (bc_amount c)" using fee(4,6) by (auto simp: is_finite_iff)
    then have "js_le (output_sats (q, f)) (output_sats (p, bc_amount c))"
      using fee(4) fin by (intro output_sats_mono) simp_all
    then have fees: "[(sq, output_sats (q, f))] = [] \<or> (\<exists>q' sq' v. [(sq, output_sats (q, f))] = [(sq', v)] \<and> isVerusAddr (JStr q')
        \<and> toOutputScript lib (a_net a) q' = Inr sq' \<and> js_le v (output_sats (p, bc_amount c)))"
      using s(3) fee(3) by blast
    show ?thesis
      by (rule exI [of _ p], rule exI [of _ s], rule exI [of _ "[(sq, output_sats (q, f))]"],
          rule exI [of _ "change_outs cs change"], intro conjI rest fees) (use s fee pos [of p] M(3) in simp_all)
  qed
qed

definition demo_addr :: "char \<Rightarrow> string" where
  "demo_addr x = CHR ''R'' # replicate 33 x"

definition demo_paid_job :: jv where
  "demo_paid_job = JObj [(''status'', JStr ''requested''), (''payment'', JObj [(''address'', JStr (demo_addr CHR ''a'')),
     (''platformFeeAddress'', JStr (demo_addr CHR ''b'')), (''feeAmount'', JNum (num_int 1))])]"

definition demo_start_env :: start_env where
  "demo_start_env = \<lparr>se_ops = (demo_op_env (JStr ''J41-JOB s@ 5 7''))\<lparr>oe_submit := Inr demo_paid_job, oe_now := 7\<rparr>,
     se_net = demo_env, se_record = (\<lambda>_. Inr ()), se_clock = 0, se_rounds = [], se_chat = Inr ()\<rparr>"

definition demo_session :: session_config where
  "demo_session = \<lparr>bc_seller = ''s@'', bc_amount = num_int 2, bc_currency = None, bc_idle = None\<rparr>"

lemma demo_digit: "show_nat 7 = ''7''"
  by code_simp

lemma demo_job: "fst (session_job demo_start_env demo_op_agent demo_session []) = Inr demo_paid_job"
  by (simp add: session_job_def demo_start_env_def demo_session_def demo_op_env_def demo_op_agent_def createJob_def bind_op_def
      guard_op_def ok_op_def can_sign_def call_op_def resolve_address_def sign_supplied_def nullish_def check_text_def
      signMessageBuilt_def submit_def starts_with_def show_int_def demo_digit)

lemma demo_outputs: "payment_outputs demo_paid_job (num_int 2) = Inr [(demo_addr CHR ''a'', num_int 2), (demo_addr CHR ''b'', num_int 1)]"
  by code_simp

lemma demo_starts: "\<exists>a' t r. start demo_lib demo_start_env demo_op_agent demo_agent demo_session = (a', Some t, r)"
proof -
  have "\<exists>a' t r. sendMultiPayment demo_lib demo_agent demo_env [(demo_addr CHR ''a'', num_int 2), (demo_addr CHR ''b'', num_int 1)]
      = (a', Some t, r)"
    using demo_multi_sats [simplified]
    by (simp add: wallet_eval demo_addr_def payment_target_numeral)
  moreover have "\<not> nullish demo_paid_job" by (simp add: nullish_def demo_paid_job_def)
  ultimately show ?thesis
    using demo_job demo_outputs
    by (auto simp: start_def demo_session_def demo_start_env_def split: sum.splits prod.splits)
qed

theorem start_pays_bounded_witness:
  "\<exists>a' t r. start demo_lib demo_start_env demo_op_agent demo_agent demo_session = (a', Some t, r)
     \<and> snd (hd (tx_outs t)) = num_int 200000000 \<and> length (tx_outs t) \<le> 3"
proof -
  obtain a' t r where s: "start demo_lib demo_start_env demo_op_agent demo_agent demo_session = (a', Some t, r)"
    using demo_starts by blast
  have "output_sats (p, bc_amount demo_session) = num_int 200000000" for p
    using demo_multi_sats(2) [of p] by (simp add: demo_session_def)
  then show ?thesis
    using s start_pays_bounded [OF s] by fastforce
qed

section \<open>The wait is over in fifteen minutes\<close>

text \<open>Readings of a clock at least fifteen seconds apart.\<close>

definition spaced :: "int \<Rightarrow> int list \<Rightarrow> bool" where
  "spaced t ts = (\<forall>k < length ts. t + CHECK_EVERY_MS * int k \<le> ts ! k)"

lemma spaced_Cons: "spaced t (x # ts) \<Longrightarrow> t \<le> x \<and> spaced (t + CHECK_EVERY_MS) ts"
  by (force simp: spaced_def nth_Cons' algebra_simps split: if_splits)

lemma wait_started_ends:
  "spaced t (map fst ws) \<Longrightarrow> t0 + MAX_WAIT_MS \<le> t + CHECK_EVERY_MS * (int (length ws) - 1) \<Longrightarrow> ws \<noteq> []
     \<Longrightarrow> wait_started t0 job ws \<noteq> None"
proof (induction t0 job ws arbitrary: t rule: wait_started.induct)
  case (2 t0 job now answer rest)
  have t: "t \<le> now" "spaced (t + CHECK_EVERY_MS) (map fst rest)"
    using spaced_Cons [of t now "map fst rest"] 2(2) by simp_all
  show ?case
  proof (cases "rest = []")
    case True
    with 2(3) t have "\<not> now - t0 < MAX_WAIT_MS" by simp
    then show ?thesis by simp
  next
    case False
    have "t0 + MAX_WAIT_MS \<le> (t + CHECK_EVERY_MS) + CHECK_EVERY_MS * (int (length rest) - 1)"
      using 2(3) by (simp add: algebra_simps)
    with 2(1) [OF _ _ _ _ _ t(2)] False show ?thesis
      by (simp split: sum.split)
  qed
qed simp

text \<open>Sixty-one rounds are enough: the buyer is never left waiting for a seller who does not come.\<close>

lemma wait_bounded:
  assumes "spaced t0 (map fst ws)" and "length ws = 61"
  shows "wait_started t0 job ws \<noteq> None"
proof (rule wait_started_ends [OF assms(1)])
  show "t0 + MAX_WAIT_MS \<le> t0 + CHECK_EVERY_MS * (int (length ws) - 1)"
    by (simp add: assms(2) MAX_WAIT_MS_def CHECK_EVERY_MS_def)
qed (use assms(2) in auto)

lemma wait_started_Inr:
  "wait_started t0 job ws = Some (Inr j) \<Longrightarrow> jget j ''status'' = JStr ''in_progress''"
  by (induction t0 job ws rule: wait_started.induct) (auto split: if_splits sum.splits)

section \<open>Two things that go wrong\<close>

text \<open>
  Without a currency the session asks for \<open>VRSCTEST\<close>, so that \<open>createJob\<close>, which would take the currency of the agent's
  network, never does: the job of a mainnet buyer is created in the test currency and paid in the main one.
\<close>

lemma mainnet_job_in_test_currency:
  assumes "bc_currency c = None" and "oa_mainnet oa"
  shows "pick_currency oa (Some (session_currency c)) = ''VRSCTEST''" and "pick_currency oa None = ''VRSC''"
  using assms by (simp_all add: pick_currency_def session_currency_def defaultCurrency_def)

text \<open>When the payment was sent and its record fails, \<open>start\<close> ends in an error after the money left the wallet; nothing is kept that would stop a second \<open>start\<close> from paying a second job.\<close>

lemma paid_but_failed:
  assumes "fst (session_job env oa c []) = Inr job" and "\<not> nullish job" and "payment_outputs job (bc_amount c) = Inr outs"
    and "sendMultiPayment lib a (se_net env) outs = (a', Some t, Inr tid)" and "se_record env tid = Inl e"
  shows "start lib env oa a c = (a', Some t, Some (Inl (CallFailed e)))"
  using assms by (simp add: start_def after_payment_def)

text \<open>A session that starts has a job in progress.\<close>

lemma start_in_progress:
  assumes "start lib env oa a c = (a', t, Some (Inr job))"
  shows "jget job ''status'' = JStr ''in_progress'' \<and> t \<noteq> None"
  using assms wait_started_Inr
  by (auto simp: start_def after_payment_def sendMultiPayment_def Let_def split: sum.splits prod.splits if_splits option.splits)

section \<open>The session\<close>

text \<open>
  \<open>config.onMessage\<close>: the caller's handler, or that of a \<open>sendAndWait\<close>, which closes over the handler it replaced. A wait
  is open until its promise is settled; its timer is armed until it fires or a reply clears it.
\<close>

datatype msg_handler = NoHandler | UserHandler | Waiter nat msg_handler

record buyer_session =
  bs_job :: string
  bs_me :: string
  bs_active :: bool
  bs_last :: int
  bs_limit :: "int option"
  bs_timer :: bool
  bs_handler :: msg_handler
  bs_armed :: "(nat \<times> msg_handler) list"
  bs_open :: "nat list"
  bs_next :: nat
  bs_workspace :: "nat option"
  bs_made :: nat

datatype session_out = Posted string | ToUser string | Reply nat string | NoReply nat | RequestEnd string | SessionEnded string
  | Connects nat | Disconnects nat | Throws session_error | Unhandled string

text \<open>The session once \<open>start\<close> is over; \<open>made\<close> is when it was constructed, which is its last activity.\<close>

definition opened :: "session_config \<Rightarrow> string \<Rightarrow> string \<Rightarrow> bool \<Rightarrow> int \<Rightarrow> buyer_session" where
  "opened c job me listens made = \<lparr>bs_job = job, bs_me = me, bs_active = True, bs_last = made,
     bs_limit = (case bc_idle c of Some n \<Rightarrow> if 0 < n then Some n else None | None \<Rightarrow> None),
     bs_timer = (case bc_idle c of Some n \<Rightarrow> 0 < n | None \<Rightarrow> False),
     bs_handler = (if listens then UserHandler else NoHandler), bs_armed = [], bs_open = [], bs_next = 0,
     bs_workspace = None, bs_made = 0\<rparr>"

text \<open>The chat takes a message unless it is not connected or the message leaks the canary: \<open>chat\<close> is that outcome.\<close>

definition send :: "(string, unit) result \<Rightarrow> int \<Rightarrow> string \<Rightarrow> buyer_session \<Rightarrow> buyer_session \<times> (session_error, session_out list) result" where
  "send chat now m s =
     (if \<not> bs_active s then (s, Inl NotActive)
      else (s\<lparr>bs_last := now\<rparr>, case chat of Inl e \<Rightarrow> Inl (CallFailed e) | Inr _ \<Rightarrow> Inr [Posted m]))"

text \<open>\<open>sendAndWait\<close> does not wait for \<open>send\<close>: what \<open>send\<close> throws is a rejection nobody handles.\<close>

definition sendAndWait :: "(string, unit) result \<Rightarrow> int \<Rightarrow> string \<Rightarrow> buyer_session \<Rightarrow> buyer_session \<times> session_out list" where
  "sendAndWait chat now m s =
     (if \<not> bs_active s then (s, [Throws NotActive])
      else let n = bs_next s; h = bs_handler s;
               s1 = s\<lparr>bs_handler := Waiter n h, bs_armed := bs_armed s @ [(n, h)], bs_open := bs_open s @ [n], bs_next := Suc n\<rparr> in
           (case send chat now m s1 of
              (s2, Inl (CallFailed e)) \<Rightarrow> (s2, [Unhandled e])
            | (s2, Inl e) \<Rightarrow> (s2, [])
            | (s2, Inr outs) \<Rightarrow> (s2, outs)))"

text \<open>Calling a handler with a message.\<close>

fun call_handler :: "msg_handler \<Rightarrow> string \<Rightarrow> buyer_session \<Rightarrow> buyer_session \<times> session_out list" where
  "call_handler NoHandler m s = (s, [])"
| "call_handler UserHandler m s = (s, [ToUser m])"
| "call_handler (Waiter n h) m s =
     (let (s', outs) = call_handler h m (s\<lparr>bs_armed := map_delete (bs_armed s) n, bs_handler := h\<rparr>) in
      if n \<in> set (bs_open s') then (s'\<lparr>bs_open := set_delete (bs_open s') n\<rparr>, outs @ [Reply n m]) else (s', outs))"

definition incoming :: "string \<Rightarrow> string \<Rightarrow> string \<Rightarrow> int \<Rightarrow> buyer_session \<Rightarrow> buyer_session \<times> session_out list" where
  "incoming job sender m now s =
     (if job \<noteq> bs_job s \<or> sender = bs_me s then (s, []) else call_handler (bs_handler s) m (s\<lparr>bs_last := now\<rparr>))"

definition wait_timer :: "nat \<Rightarrow> buyer_session \<Rightarrow> buyer_session \<times> session_out list" where
  "wait_timer n s = (case map_get (bs_armed s) n of
       None \<Rightarrow> (s, [])
     | Some h \<Rightarrow> (s\<lparr>bs_handler := h, bs_armed := map_delete (bs_armed s) n, bs_open := set_delete (bs_open s) n\<rparr>,
         if n \<in> set (bs_open s) then [NoReply n] else []))"

text \<open>\<open>endSession\<close>: the failure of \<open>requestEndSession\<close> is caught, and its answer changes no state.\<close>

definition endSession :: "string \<Rightarrow> buyer_session \<Rightarrow> buyer_session \<times> session_out list" where
  "endSession reason s =
     (if \<not> bs_active s then (s, [])
      else (s\<lparr>bs_active := False, bs_workspace := None, bs_timer := False\<rparr>,
        (case bs_workspace s of Some w \<Rightarrow> [Disconnects w] | None \<Rightarrow> []) @ [RequestEnd reason, SessionEnded reason]))"

definition idle_tick :: "int \<Rightarrow> buyer_session \<Rightarrow> buyer_session \<times> session_out list" where
  "idle_tick now s = (case bs_limit s of
       Some n \<Rightarrow> if bs_timer s \<and> 1000 * n \<le> now - bs_last s then endSession ''idle-timeout'' s else (s, [])
     | None \<Rightarrow> (s, []))"

definition connectWorkspace :: "bool \<Rightarrow> buyer_session \<Rightarrow> buyer_session \<times> session_out list" where
  "connectWorkspace enabled s =
     (if \<not> enabled then (s, [Throws JailboxParked])
      else if \<not> bs_active s then (s, [Throws NotActive])
      else (s\<lparr>bs_workspace := Some (bs_made s), bs_made := Suc (bs_made s)\<rparr>, [Connects (bs_made s)]))"

definition workspace_status :: "string \<Rightarrow> int \<Rightarrow> buyer_session \<Rightarrow> buyer_session" where
  "workspace_status st now s =
     (let s1 = (if st = ''agent_done'' then s\<lparr>bs_last := now\<rparr> else s) in
      if st = ''disconnected'' \<or> st = ''aborted'' \<or> st = ''completed'' then s1\<lparr>bs_workspace := None\<rparr> else s1)"

datatype session_event = Send "(string, unit) result" int string | SendAndWait "(string, unit) result" int string
  | Incoming string string string int | WaitTimer nat | IdleTick int | EndSession string | ConnectWorkspace bool
  | WorkspaceStatus string int

definition session_step :: "buyer_session \<Rightarrow> session_event \<Rightarrow> buyer_session \<times> session_out list" where
  "session_step s e = (case e of
       Send chat now m \<Rightarrow> (case send chat now m s of (s', Inl x) \<Rightarrow> (s', [Throws x]) | (s', Inr outs) \<Rightarrow> (s', outs))
     | SendAndWait chat now m \<Rightarrow> sendAndWait chat now m s
     | Incoming job sender m now \<Rightarrow> incoming job sender m now s
     | WaitTimer n \<Rightarrow> wait_timer n s
     | IdleTick now \<Rightarrow> idle_tick now s
     | EndSession r \<Rightarrow> endSession r s
     | ConnectWorkspace enabled \<Rightarrow> connectWorkspace enabled s
     | WorkspaceStatus st now \<Rightarrow> (workspace_status st now s, []))"

fun session_run :: "buyer_session \<Rightarrow> session_event list \<Rightarrow> buyer_session \<times> session_out list" where
  "session_run s [] = (s, [])"
| "session_run s (e # es) =
     (let (s1, o1) = session_step s e; (s2, o2) = session_run s1 es in (s2, o1 @ o2))"

section \<open>The session ends once\<close>

definition is_end :: "session_out \<Rightarrow> bool" where
  "is_end x = (case x of RequestEnd _ \<Rightarrow> True | _ \<Rightarrow> False)"

definition is_work :: "session_out \<Rightarrow> bool" where
  "is_work x = (case x of Posted _ \<Rightarrow> True | Connects _ \<Rightarrow> True | _ \<Rightarrow> False)"

text \<open>After a request to end: no message posted, no workspace connected, no further request.\<close>

fun ends_quietly :: "session_out list \<Rightarrow> bool" where
  "ends_quietly [] = True"
| "ends_quietly (x # xs) = (if is_end x then list_all (\<lambda>y. \<not> is_end y \<and> \<not> is_work y) xs else ends_quietly xs)"

lemma out_kinds [simp]:
  "\<not> is_end (Posted m)" "is_work (Posted m)" "\<not> is_end (ToUser m)" "\<not> is_work (ToUser m)" "\<not> is_end (Reply n m)" "\<not> is_work (Reply n m)"
  "\<not> is_end (NoReply n)" "\<not> is_work (NoReply n)" "is_end (RequestEnd r)" "\<not> is_work (RequestEnd r)"
  "\<not> is_end (SessionEnded r)" "\<not> is_work (SessionEnded r)" "\<not> is_end (Connects w)" "is_work (Connects w)"
  "\<not> is_end (Disconnects w)" "\<not> is_work (Disconnects w)" "\<not> is_end (Throws x)" "\<not> is_work (Throws x)"
  "\<not> is_end (Unhandled e)" "\<not> is_work (Unhandled e)"
  by (simp_all add: is_end_def is_work_def)

lemma call_handler_quiet:
  "call_handler h m s = (s', outs) \<Longrightarrow> bs_active s' = bs_active s \<and> bs_workspace s' = bs_workspace s \<and> bs_timer s' = bs_timer s
     \<and> (\<forall>x \<in> set outs. \<not> is_end x \<and> \<not> is_work x)"
  by (induction h m s arbitrary: s' outs rule: call_handler.induct)
    (fastforce simp: Let_def split: prod.splits if_splits)+

text \<open>A step of an ended session leaves it ended and does nothing; a step that asks for the end does so last of what matters.\<close>

lemma ended_step:
  assumes "session_step s e = (s', outs)" and "\<not> bs_active s"
  shows "\<not> bs_active s' \<and> list_all (\<lambda>y. \<not> is_end y \<and> \<not> is_work y) outs"
  using assms call_handler_quiet [of "bs_handler s" _ "s\<lparr>bs_last := _\<rparr>" s' outs]
  by (auto simp: session_step_def send_def sendAndWait_def incoming_def wait_timer_def idle_tick_def endSession_def
      connectWorkspace_def workspace_status_def Let_def list_all_iff split: session_event.splits if_splits option.splits)

lemma active_step:
  assumes "session_step s e = (s', outs)" and "bs_active s"
  shows "bs_active s' \<and> list_all (\<lambda>y. \<not> is_end y) outs \<or> \<not> bs_active s' \<and> ends_quietly outs"
  using assms call_handler_quiet [of "bs_handler s" _ "s\<lparr>bs_last := _\<rparr>" s' outs]
  by (auto simp: session_step_def send_def sendAndWait_def incoming_def wait_timer_def idle_tick_def endSession_def
      connectWorkspace_def workspace_status_def Let_def list_all_iff
      split: session_event.splits if_splits option.splits sum.splits prod.splits)

lemma ended_run:
  "\<not> bs_active s \<Longrightarrow> \<not> bs_active (fst (session_run s es)) \<and> list_all (\<lambda>y. \<not> is_end y \<and> \<not> is_work y) (snd (session_run s es))"
proof (induction es arbitrary: s)
  case (Cons e es)
  obtain s1 o1 where st: "session_step s e = (s1, o1)" by (cases "session_step s e")
  with ended_step [OF st Cons.prems] Cons.IH [of s1] show ?case by (simp add: split_beta)
qed simp

lemma ends_quietly_append:
  "list_all (\<lambda>y. \<not> is_end y) xs \<Longrightarrow> ends_quietly (xs @ ys) = ends_quietly ys"
  "ends_quietly xs \<Longrightarrow> list_all (\<lambda>y. \<not> is_end y \<and> \<not> is_work y) ys \<Longrightarrow> ends_quietly (xs @ ys)"
proof -
  show "list_all (\<lambda>y. \<not> is_end y) xs \<Longrightarrow> ends_quietly (xs @ ys) = ends_quietly ys"
    by (induction xs) auto
  have q: "list_all (\<lambda>y. \<not> is_end y \<and> \<not> is_work y) ys \<Longrightarrow> ends_quietly ys" for ys
    by (induction ys) auto
  show "ends_quietly xs \<Longrightarrow> list_all (\<lambda>y. \<not> is_end y \<and> \<not> is_work y) ys \<Longrightarrow> ends_quietly (xs @ ys)"
    by (induction xs) (auto simp: q)
qed

lemma run_ends_quietly: "ends_quietly (snd (session_run s es))"
proof (induction es arbitrary: s)
  case (Cons e es)
  obtain s1 o1 where st: "session_step s e = (s1, o1)" by (cases "session_step s e")
  show ?case
  proof (cases "bs_active s")
    case True
    from active_step [OF st True] show ?thesis
      using Cons.IH [of s1] ended_run [of s1 es] st by (auto simp: ends_quietly_append split_beta)
  next
    case False
    with ended_step [OF st False] have "list_all (\<lambda>y. \<not> is_end y) o1" by (simp add: list_all_iff)
    then show ?thesis using Cons.IH [of s1] st by (simp add: ends_quietly_append split_beta)
  qed
qed simp

text \<open>An ended session holds no workspace and no idle timer.\<close>

definition tidy :: "buyer_session \<Rightarrow> bool" where
  "tidy s = (bs_active s \<or> bs_workspace s = None \<and> \<not> bs_timer s)"

lemma tidy_step: "session_step s e = (s', outs) \<Longrightarrow> tidy s \<Longrightarrow> tidy s'"
  using call_handler_quiet [of "bs_handler s" _ "s\<lparr>bs_last := _\<rparr>" s' outs]
  by (auto simp: tidy_def session_step_def send_def sendAndWait_def incoming_def wait_timer_def idle_tick_def endSession_def
      connectWorkspace_def workspace_status_def Let_def split: session_event.splits if_splits option.splits sum.splits prod.splits)

interpretation buyer_session: invariant_machine "\<lambda>s e. fst (session_step s e)" tidy
  by unfold_locales (metis tidy_step prod.collapse)

lemma session_run_foldl: "fst (session_run s es) = foldl (\<lambda>s e. fst (session_step s e)) s es"
  by (induction es arbitrary: s) (simp_all add: split_beta)


section \<open>Replies\<close>

text \<open>Runs in which a \<open>sendAndWait\<close> is called only when no other is open.\<close>

fun one_at_a_time :: "buyer_session \<Rightarrow> session_event list \<Rightarrow> bool" where
  "one_at_a_time s [] = True"
| "one_at_a_time s (e # es) =
     ((case e of SendAndWait _ _ _ \<Rightarrow> bs_open s = [] | _ \<Rightarrow> True) \<and> one_at_a_time (fst (session_step s e)) es)"

definition base_handler :: "bool \<Rightarrow> msg_handler" where
  "base_handler listens = (if listens then UserHandler else NoHandler)"

definition calm :: "msg_handler \<Rightarrow> buyer_session \<Rightarrow> bool" where
  "calm h s = (bs_open s = [] \<and> bs_armed s = [] \<and> bs_handler s = h
     \<or> (\<exists>n. bs_open s = [n] \<and> bs_armed s = [(n, h)] \<and> bs_handler s = Waiter n h))"

lemma calm_cases:
  assumes "calm h s"
  obtains (idle) "bs_open s = []" "bs_armed s = []" "bs_handler s = h"
  | (waiting) n where "bs_open s = [n]" "bs_armed s = [(n, h)]" "bs_handler s = Waiter n h"
  using assms by (auto simp: calm_def)

lemma calm_same: "calm h s \<Longrightarrow> bs_open s' = bs_open s \<Longrightarrow> bs_armed s' = bs_armed s \<Longrightarrow> bs_handler s' = bs_handler s \<Longrightarrow> calm h s'"
  by (simp add: calm_def)

lemma calm_call:
  assumes "calm (base_handler l) s" and "call_handler (bs_handler s) m (s\<lparr>bs_last := t\<rparr>) = (s', outs)"
  shows "calm (base_handler l) s'"
  using assms(1)
proof (cases rule: calm_cases)
  case idle
  with assms(2) show ?thesis by (auto simp: calm_def base_handler_def split: if_splits)
next
  case (waiting n)
  with assms(2) show ?thesis
    by (auto simp: calm_def base_handler_def map_delete_def set_delete_def split: if_splits)
qed

lemma calm_timer: "calm h s \<Longrightarrow> calm h (fst (wait_timer n s))"
  by (erule calm_cases) (auto simp: calm_def wait_timer_def map_delete_def set_delete_def)

lemma endSession_same: "bs_open (fst (endSession r s)) = bs_open s \<and> bs_armed (fst (endSession r s)) = bs_armed s
    \<and> bs_handler (fst (endSession r s)) = bs_handler s"
  by (simp add: endSession_def)

lemma send_same: "bs_open (fst (send chat now m s)) = bs_open s \<and> bs_armed (fst (send chat now m s)) = bs_armed s
    \<and> bs_handler (fst (send chat now m s)) = bs_handler s"
  by (simp add: send_def)

lemma calm_wait: "calm h s \<Longrightarrow> bs_open s = [] \<Longrightarrow> calm h (fst (sendAndWait chat now m s))"
  by (erule calm_cases) (auto simp: sendAndWait_def send_def calm_def Let_def split: sum.split)

lemma calm_step:
  assumes "session_step s e = (s', outs)" and "calm (base_handler l) s"
    and "case e of SendAndWait _ _ _ \<Rightarrow> bs_open s = [] | _ \<Rightarrow> True"
  shows "calm (base_handler l) s'"
proof (cases e)
  case (Send chat now m)
  then have "s' = fst (send chat now m s)" using assms(1) by (auto simp: session_step_def split: prod.splits sum.splits)
  with send_same [of chat now m s] show ?thesis by (intro calm_same [OF assms(2)]) simp_all
next
  case (SendAndWait chat now m)
  with calm_wait [OF assms(2), of chat now m] assms(1,3) show ?thesis by (simp add: session_step_def)
next
  case (Incoming job sender m now)
  with assms(1,2) calm_call [OF assms(2)] show ?thesis by (auto simp: session_step_def incoming_def split: if_splits)
next
  case (WaitTimer n)
  with calm_timer [OF assms(2), of n] assms(1) show ?thesis by (simp add: session_step_def)
next
  case (IdleTick now)
  then have "s' = s \<or> s' = fst (endSession ''idle-timeout'' s)"
    using assms(1) by (auto simp: session_step_def idle_tick_def split: option.splits if_splits)
  with endSession_same [of "''idle-timeout''" s] calm_same [OF assms(2)] show ?thesis by metis
next
  case (EndSession r)
  with assms(1) have "s' = fst (endSession r s)" by (simp add: session_step_def)
  with endSession_same [of r s] show ?thesis by (intro calm_same [OF assms(2)]) simp_all
next
  case (ConnectWorkspace b)
  with assms(1) show ?thesis
    by (intro calm_same [OF assms(2)]) (auto simp: session_step_def connectWorkspace_def split: if_splits)
next
  case (WorkspaceStatus st now)
  with assms(1) show ?thesis
    by (intro calm_same [OF assms(2)]) (auto simp: session_step_def workspace_status_def Let_def)
qed

lemma calm_run: "calm (base_handler l) s \<Longrightarrow> one_at_a_time s es \<Longrightarrow> calm (base_handler l) (fst (session_run s es))"
proof (induction es arbitrary: s)
  case (Cons e es)
  obtain s1 o1 where st: "session_step s e = (s1, o1)" by (cases "session_step s e")
  with calm_step [OF st Cons.prems(1)] Cons.prems(2) Cons.IH [of s1] show ?case by (simp add: split_beta)
qed simp

lemma call_handler_names: "bs_job (fst (call_handler h m s)) = bs_job s \<and> bs_me (fst (call_handler h m s)) = bs_me s"
  by (induction h m s rule: call_handler.induct) (auto simp: Let_def split: prod.splits)

lemma step_names: "bs_job (fst (session_step s e)) = bs_job s \<and> bs_me (fst (session_step s e)) = bs_me s"
  using call_handler_names
  by (auto simp: session_step_def send_def sendAndWait_def incoming_def wait_timer_def idle_tick_def endSession_def
      connectWorkspace_def workspace_status_def Let_def split: session_event.split option.split sum.split prod.split)

lemma run_names: "bs_job (fst (session_run s es)) = bs_job s \<and> bs_me (fst (session_run s es)) = bs_me s"
  using step_names by (induction es arbitrary: s) (auto simp: split_beta)

text \<open>
  As long as a \<open>sendAndWait\<close> is not called while another is open, the seller's next message goes to the caller's handler,
  if there is one, and settles the open wait with its text, if there is one; afterwards no wait is open.
\<close>

theorem reply_reaches_wait:
  assumes "one_at_a_time (opened c job me listens now) es"
    and "s = fst (session_run (opened c job me listens now) es)" and "sender \<noteq> me"
  shows "snd (incoming job sender m t s) = (if listens then [ToUser m] else []) @ map (\<lambda>n. Reply n m) (bs_open s)
    \<and> bs_open (fst (incoming job sender m t s)) = [] \<and> length (bs_open s) \<le> 1"
proof -
  have names: "bs_job s' = bs_job s0 \<and> bs_me s' = bs_me s0" if "s' = fst (session_run s0 es)" for s' s0
    using that by (simp add: run_names)
  have "calm (base_handler listens) (opened c job me listens now)"
    by (simp add: calm_def base_handler_def opened_def)
  with assms(1,2) have "calm (base_handler listens) s" by (simp add: calm_run)
  moreover have "bs_job s = job" "bs_me s = me"
    using names [OF assms(2)] by (simp_all add: opened_def)
  ultimately show ?thesis
    using assms(3) by (auto simp: incoming_def calm_def base_handler_def set_delete_def)
qed

definition demo_talk :: "session_event list" where
  "demo_talk = [SendAndWait (Inr ()) 1 ''hi'', IdleTick 2]"

theorem reply_reaches_wait_witness:
  "snd (incoming ''j'' ''s@'' ''yo'' 9 (fst (session_run (opened demo_session ''j'' ''me'' True 0) demo_talk))) = [ToUser ''yo'', Reply 0 ''yo'']"
proof -
  have "one_at_a_time (opened demo_session ''j'' ''me'' True 0) demo_talk"
    by (simp add: demo_talk_def opened_def demo_session_def)
  moreover have "bs_open (fst (session_run (opened demo_session ''j'' ''me'' True 0) demo_talk)) = [0]"
    by (simp add: demo_talk_def opened_def demo_session_def session_step_def sendAndWait_def send_def idle_tick_def)
  ultimately show ?thesis
    using reply_reaches_wait [of demo_session "''j''" "''me''" True 0 demo_talk _ "''s@''" "''yo''" 9] by simp
qed

text \<open>
  With two at once, the first one's timer puts back the handler it replaced, and with it removes the second's: the seller's reply
  comes and the second wait does not get it.
\<close>

lemma overlapping_wait_lost:
  "session_run (opened demo_session ''j'' ''me'' True 0)
     [SendAndWait (Inr ()) 1 ''a'', SendAndWait (Inr ()) 2 ''b'', WaitTimer 0, Incoming ''j'' ''s@'' ''answer'' 3, WaitTimer 1]
   = ((opened demo_session ''j'' ''me'' True 0)\<lparr>bs_last := 3, bs_next := 2, bs_handler := Waiter 0 UserHandler\<rparr>,
      [Posted ''a'', Posted ''b'', NoReply 0, ToUser ''answer'', NoReply 1])"
  by (simp add: opened_def demo_session_def session_step_def sendAndWait_def send_def wait_timer_def incoming_def map_delete_def
      set_delete_def Let_def)

text \<open>A second workspace replaces the first without disconnecting it: the end of the session disconnects the second alone.\<close>

lemma workspace_outlives_session:
  "snd (session_run (opened demo_session ''j'' ''me'' True 0) [ConnectWorkspace True, ConnectWorkspace True, EndSession ''done''])
   = [Connects 0, Connects 1, Disconnects 1, RequestEnd ''done'', SessionEnded ''done'']"
  by (simp add: opened_def demo_session_def session_step_def connectWorkspace_def endSession_def)

text \<open>A message that the chat refuses is an unhandled rejection of \<open>sendAndWait\<close>, and the wait stays open.\<close>

lemma refused_send_unhandled:
  "bs_active s \<Longrightarrow> snd (sendAndWait (Inl e) now m s) = [Unhandled e] \<and> bs_next s \<in> set (bs_open (fst (sendAndWait (Inl e) now m s)))"
  by (simp add: sendAndWait_def send_def Let_def)

text \<open>
  The idle time counts from the construction of the session, which \<open>start\<close> does not reset: when paying and waiting for the seller
  took longer than the limit, the first tick ends a session that has just begun.
\<close>

lemma idle_counts_the_wait:
  assumes "bc_idle c = Some n" and "0 < n" and "made + 1000 * n \<le> now"
  shows "RequestEnd ''idle-timeout'' \<in> set (snd (idle_tick now (opened c job me listens made)))"
  using assms by (simp add: idle_tick_def opened_def endSession_def)

end
