(* ===== verification/JobPoll.thy ===== *)
theory JobPoll
  imports JsNum
begin

text \<open>
  Bounded retries of a failed job accept, \<open>src/jobs/accept-retry.ts\<close>, and the poll that uses
  them, \<open>checkForJobs\<close> of \<open>src/agent.ts\<close>: the deduplication set \<open>seenJobIds\<close> with its cap, the
  failure counters, and one pass over the platform's pending jobs. The handler's decision, the
  accept round trip (brokered signature and \<open>acceptJob\<close>) and what listeners throw are the
  environment of a poll.
\<close>

section \<open>Counting failed accepts\<close>

definition MAX_ACCEPT_ATTEMPTS :: nat where "MAX_ACCEPT_ATTEMPTS = 5"

type_synonym counters = "(string, nat) jsmap"

definition recordAcceptFailure :: "counters \<Rightarrow> string \<Rightarrow> nat \<Rightarrow> counters \<times> nat \<times> bool" where
  "recordAcceptFailure failures jobId maxAttempts =
     (let attempts = (case map_get failures jobId of None \<Rightarrow> 0 | Some n \<Rightarrow> n) + 1;
          giveUp = (maxAttempts \<le> attempts) in
      (map_set failures jobId attempts, attempts, giveUp))"

definition clearAcceptFailure :: "counters \<Rightarrow> string \<Rightarrow> counters" where
  "clearAcceptFailure failures jobId = map_delete failures jobId"

fun prune_loop :: "string list \<Rightarrow> counters \<Rightarrow> nat \<Rightarrow> string list \<Rightarrow> counters \<times> nat" where
  "prune_loop [] failures pruned pend = (failures, pruned)"
| "prune_loop (i # ids) failures pruned pend =
     (if i \<notin> set pend then prune_loop ids (map_delete failures i) (pruned + 1) pend
      else prune_loop ids failures pruned pend)"

definition pruneAcceptFailures :: "counters \<Rightarrow> string list \<Rightarrow> counters \<times> nat" where
  "pruneAcceptFailures failures stillPendingIds =
     prune_loop (map_keys failures) failures 0 stillPendingIds"

section \<open>The poll\<close>

record job =
  j_id :: "string option"
  j_hash :: "string option"

datatype decision = Accept | Reject | Hold

text \<open>
  What one poll meets: \<open>getMyJobs\<close>, the listener of \<open>job:requested\<close>, the handler (absent without
  \<open>onJobRequested\<close>), signing and accepting, what follows the accept (\<open>job:accepted\<close> and joining
  the chat), the listener of \<open>job:rejected\<close>, and whether the agent is still running before the
  \<open>k\<close>-th job.
\<close>

record poll_env =
  e_jobs :: "(string, job list option) result"
  e_max :: jsnum
  e_requested :: "job \<Rightarrow> (string, unit) result"
  e_decide :: "(job \<Rightarrow> (string, decision) result) option"
  e_accept :: "job \<Rightarrow> (string, unit) result"
  e_accepted :: "job \<Rightarrow> (string, unit) result"
  e_rejected :: "job \<Rightarrow> (string, unit) result"
  e_running :: "nat \<Rightarrow> bool"

record poller =
  seen :: "string list"
  acceptFailures :: counters
  polling :: bool
  has_handler :: bool
  can_sign :: bool

datatype signal =
    JobRequested string
  | JobAccepted string
  | JobRejected string
  | Abandoned string nat string
  | AcceptFailed string nat string
  | CannotSign string
  | JobError string
  | PollError string

definition MAX_SEEN_JOBS :: nat where "MAX_SEEN_JOBS = 10000"

definition mark_seen :: "string \<Rightarrow> poller \<Rightarrow> poller" where
  "mark_seen i p = p\<lparr>seen := set_add (seen p) i, acceptFailures := clearAcceptFailure (acceptFailures p) i\<rparr>"

text \<open>The failure branch, shared by a missing job hash and a failed accept.\<close>

definition accept_failed :: "string \<Rightarrow> string \<Rightarrow> poller \<Rightarrow> poller \<times> signal list" where
  "accept_failed i msg p =
     (let (fs, attempts, giveUp) = recordAcceptFailure (acceptFailures p) i MAX_ACCEPT_ATTEMPTS in
      if giveUp then (mark_seen i (p\<lparr>acceptFailures := fs\<rparr>), [Abandoned i attempts msg])
      else (p\<lparr>acceptFailures := fs\<rparr>, [AcceptFailed i attempts msg]))"

definition truthy :: "string option \<Rightarrow> bool" where
  "truthy s = (s \<noteq> None \<and> s \<noteq> Some [])"

definition try_accept :: "poll_env \<Rightarrow> job \<Rightarrow> string \<Rightarrow> poller \<Rightarrow> poller \<times> signal list" where
  "try_accept env j i p =
     (if \<not> can_sign p then (p, [CannotSign i])
      else if \<not> truthy (j_hash j) then accept_failed i ''missing jobHash'' p
      else case e_accept env j of
        Inl e \<Rightarrow> accept_failed i e p
      | Inr _ \<Rightarrow>
          (let p' = mark_seen i p in
           case e_accepted env j of
             Inl e \<Rightarrow> (let (p'', ss) = accept_failed i e p' in (p'', JobAccepted i # ss))
           | Inr _ \<Rightarrow> (p', [JobAccepted i])))"

definition handle_job :: "poll_env \<Rightarrow> job \<Rightarrow> string \<Rightarrow> poller \<Rightarrow> poller \<times> signal list" where
  "handle_job env j i p =
     (case e_requested env j of
        Inl e \<Rightarrow> (p, [JobRequested i, JobError e])
      | Inr _ \<Rightarrow>
        (case e_decide env of
           None \<Rightarrow> (mark_seen i p, [JobRequested i])
         | Some decide \<Rightarrow>
           (case decide j of
              Inl e \<Rightarrow> (p, [JobRequested i, JobError e])
            | Inr Accept \<Rightarrow> (let (p', ss) = try_accept env j i p in (p', JobRequested i # ss))
            | Inr Reject \<Rightarrow>
                (mark_seen i p, JobRequested i # JobRejected i #
                   (case e_rejected env j of Inl e \<Rightarrow> [JobError e] | Inr _ \<Rightarrow> []))
            | Inr Hold \<Rightarrow> (p, [JobRequested i]))))"

fun job_loop :: "poll_env \<Rightarrow> nat \<Rightarrow> job list \<Rightarrow> poller \<Rightarrow> poller \<times> signal list" where
  "job_loop env k [] p = (p, [])"
| "job_loop env k (j # js) p =
     (if \<not> e_running env k then (p, [])
      else if \<not> truthy (j_id j) then job_loop env (Suc k) js p
      else let i = the (j_id j) in
      if i \<in> set (seen p) then job_loop env (Suc k) js p
      else let (p', ss) = handle_job env j i p; (p'', ts) = job_loop env (Suc k) js p' in (p'', ss @ ts))"

text \<open>\<open>slice(0, n)\<close>: the bound is truncated, a negative one counts from the end, NaN is 0.\<close>

fun slice_to :: "jsnum \<Rightarrow> 'a list \<Rightarrow> 'a list" where
  "slice_to PInf xs = xs"
| "slice_to (Fin q) xs =
     (let k = (if 0 \<le> q then \<lfloor>q\<rfloor> else - \<lfloor>- q\<rfloor>) in
      if 0 \<le> k then take (nat k) xs else take (length xs - nat (- k)) xs)"
| "slice_to _ xs = []"

definition pending_ids :: "job list \<Rightarrow> string list" where
  "pending_ids js = map (\<lambda>j. the (j_id j)) (filter (\<lambda>j. truthy (j_id j)) js)"

definition all_jobs :: "job list option \<Rightarrow> job list" where
  "all_jobs r = (case r of None \<Rightarrow> [] | Some js \<Rightarrow> js)"

text \<open>After the loop: evict the oldest seen ids, forget counters of jobs that are no longer pending.\<close>

definition end_poll :: "job list \<Rightarrow> poller \<Rightarrow> poller" where
  "end_poll allJobs p = p\<lparr>seen := evict_loop MAX_SEEN_JOBS (seen p),
     acceptFailures := fst (pruneAcceptFailures (acceptFailures p) (pending_ids allJobs))\<rparr>"

definition checkForJobs :: "poll_env \<Rightarrow> poller \<Rightarrow> poller \<times> signal list" where
  "checkForJobs env p =
     (if \<not> has_handler p \<or> polling p then (p, [])
      else case e_jobs env of
        Inl e \<Rightarrow> (p, [PollError e])
      | Inr r \<Rightarrow>
          (let allJobs = all_jobs r;
               (p', ss) = job_loop env 0 (slice_to (e_max env) allJobs) p in
           (end_poll allJobs p', ss)))"

section \<open>The counters\<close>

lemma prune_loop_filter:
  "fst (prune_loop ids f n pend) = filter (\<lambda>x. \<not> (fst x \<in> set ids \<and> fst x \<notin> set pend)) f"
proof (induction ids f n pend rule: prune_loop.induct)
  case (2 i ids f n pend)
  then show ?case
    by (auto simp: map_delete_def filter_filter intro!: filter_cong)
qed auto

lemma prune_filter: "fst (pruneAcceptFailures f pend) = filter (\<lambda>x. fst x \<in> set pend) f"
  by (auto simp: pruneAcceptFailures_def prune_loop_filter map_keys_def intro!: filter_cong)

lemma map_get_filter_key:
  "map_get (filter (\<lambda>x. P (fst x)) f) k = (if P k then map_get f k else None)"
  by (induction f) auto

text \<open>The invariant: counters are below the limit, the seen set is a set.\<close>

definition poller_inv :: "poller \<Rightarrow> bool" where
  "poller_inv p = (distinct (seen p) \<and> wf_map (acceptFailures p) \<and>
     (\<forall>x \<in> set (acceptFailures p). 0 < snd x \<and> snd x < MAX_ACCEPT_ATTEMPTS))"

lemma mark_seen_fields [simp]:
  "seen (mark_seen i p) = set_add (seen p) i"
  "acceptFailures (mark_seen i p) = map_delete (acceptFailures p) i"
  by (simp_all add: mark_seen_def clearAcceptFailure_def)

lemma mark_seen_inv: "poller_inv p \<Longrightarrow> poller_inv (mark_seen i p)"
  by (auto simp: poller_inv_def map_delete_def)

lemma set_map_set: "x \<in> set (map_set f k v) \<Longrightarrow> x \<in> set f \<or> x = (k, v)"
  by (induction f k v rule: map_set.induct) (auto split: if_splits)

lemma accept_failed_inv: "poller_inv p \<Longrightarrow> poller_inv (fst (accept_failed i msg p))"
proof -
  assume p: "poller_inv p"
  show ?thesis
  proof (cases "snd (snd (recordAcceptFailure (acceptFailures p) i MAX_ACCEPT_ATTEMPTS))")
    case True
    have "map_delete (map_set f i n) i = map_delete f i" for f :: counters and n
      by (induction f i n rule: map_set.induct) (auto simp: map_delete_def)
    with True p mark_seen_inv [OF p] show ?thesis
      by (auto simp: accept_failed_def recordAcceptFailure_def Let_def poller_inv_def)
  next
    case False
    with p show ?thesis
      by (auto simp: accept_failed_def recordAcceptFailure_def Let_def poller_inv_def not_le dest!: set_map_set
          split: option.splits)
  qed
qed

lemma try_accept_inv: "poller_inv p \<Longrightarrow> poller_inv (fst (try_accept env j i p))"
  using accept_failed_inv [of p] accept_failed_inv [of "mark_seen i p"] mark_seen_inv
  by (auto simp: try_accept_def Let_def split: sum.splits prod.splits) (metis fst_conv)+

lemma handle_job_inv: "poller_inv p \<Longrightarrow> poller_inv (fst (handle_job env j i p))"
  using try_accept_inv [of p env j i] mark_seen_inv
  by (auto simp: handle_job_def Let_def split: sum.splits prod.splits option.splits decision.splits)

lemma job_loop_inv: "poller_inv p \<Longrightarrow> poller_inv (fst (job_loop env k js p))"
proof (induction env k js p rule: job_loop.induct)
  case (2 env k j js p)
  then show ?case
    using handle_job_inv [of p env j "the (j_id j)"]
    by (auto simp: Let_def split: prod.splits)
qed simp

lemma checkForJobs_state:
  "fst (checkForJobs env p) =
     (if \<not> has_handler p \<or> polling p then p
      else case e_jobs env of Inl e \<Rightarrow> p
      | Inr r \<Rightarrow> end_poll (all_jobs r) (fst (job_loop env 0 (slice_to (e_max env) (all_jobs r)) p)))"
  by (auto simp: checkForJobs_def Let_def split: sum.splits prod.splits)

lemma end_poll_inv: "poller_inv p \<Longrightarrow> poller_inv (end_poll js p)"
  by (auto simp: end_poll_def evict_loop_eq prune_filter poller_inv_def)

lemma checkForJobs_inv: "poller_inv p \<Longrightarrow> poller_inv (fst (checkForJobs env p))"
  using job_loop_inv end_poll_inv by (auto simp: checkForJobs_state split: sum.splits)

interpretation poll: invariant_machine "\<lambda>p env. fst (checkForJobs env p)" poller_inv
  by unfold_locales (rule checkForJobs_inv)

text \<open>
  After any sequence of polls, whatever the platform, the handler and the signer do, the
  tracking stays bounded: every counter is between 1 and 4, no id has two, and once a poll has
  run the counters belong to jobs of its response and at most 10000 ids are remembered.
\<close>

theorem tracking_bounded:
  assumes "seen p = []" and "acceptFailures p = []"
  shows "poller_inv (foldl (\<lambda>p env. fst (checkForJobs env p)) p envs)
    \<and> (\<forall>q js. has_handler q \<and> \<not> polling q \<and> e_jobs env = Inr (Some js) \<longrightarrow>
         length (seen (fst (checkForJobs env q))) \<le> MAX_SEEN_JOBS
         \<and> fst ` set (acceptFailures (fst (checkForJobs env q))) \<subseteq> set (pending_ids js))"
proof -
  have "poller_inv p" using assms by (simp add: poller_inv_def)
  then have "poller_inv (foldl (\<lambda>p env. fst (checkForJobs env p)) p envs)" by (rule poll.run_inv)
  then show ?thesis
    by (auto simp: checkForJobs_state end_poll_def all_jobs_def evict_loop_eq evict_length prune_filter)
qed

section \<open>A job that keeps failing\<close>

text \<open>The failed accepts of one id that a list of signals reports.\<close>

definition is_failure :: "string \<Rightarrow> signal \<Rightarrow> bool" where
  "is_failure i s = (case s of AcceptFailed k _ _ \<Rightarrow> k = i | Abandoned k _ _ \<Rightarrow> k = i | _ \<Rightarrow> False)"

definition failures_of :: "string \<Rightarrow> signal list \<Rightarrow> nat" where
  "failures_of i ss = length (filter (is_failure i) ss)"

lemma failures_of_simps [simp]:
  "failures_of i [] = 0" "failures_of i (xs @ ys) = failures_of i xs + failures_of i ys"
  "failures_of i (JobRequested k # ss) = failures_of i ss" "failures_of i (JobAccepted k # ss) = failures_of i ss"
  "failures_of i (JobRejected k # ss) = failures_of i ss" "failures_of i (CannotSign k # ss) = failures_of i ss"
  "failures_of i (JobError e # ss) = failures_of i ss" "failures_of i (PollError e # ss) = failures_of i ss"
  "failures_of i (AcceptFailed k n m # ss) = (if k = i then 1 else 0) + failures_of i ss"
  "failures_of i (Abandoned k n m # ss) = (if k = i then 1 else 0) + failures_of i ss"
  by (simp_all add: failures_of_def is_failure_def)

definition count :: "poller \<Rightarrow> string \<Rightarrow> nat" where
  "count p i = (case map_get (acceptFailures p) i of None \<Rightarrow> 0 | Some n \<Rightarrow> n)"

text \<open>
  The account of an id: failures reported so far (\<open>n\<close>) are those the counter holds while the
  job is unseen, and at most the limit once it is seen.
\<close>

definition account :: "string \<Rightarrow> nat \<Rightarrow> poller \<Rightarrow> bool" where
  "account i n p = (if i \<in> set (seen p) then n \<le> MAX_ACCEPT_ATTEMPTS else n = count p i \<and> n < MAX_ACCEPT_ATTEMPTS)"

lemma map_get_map_set_delete: "map_get (map_delete (map_set f i v) i) k = (if k = i then None else map_get f k)"
  by simp

lemma accept_failed_account:
  assumes "account i n p" "k \<notin> set (seen p)" "accept_failed k msg p = (p', ss)"
  shows "account i (n + failures_of i ss) p'"
  using assms
  by (auto simp: accept_failed_def recordAcceptFailure_def account_def count_def MAX_ACCEPT_ATTEMPTS_def Let_def
      split: if_splits option.splits)

text \<open>The follow-up of an accept may throw: the job is seen by then, and one more failure is counted.\<close>

lemma accepted_then_failed_account:
  assumes "account i n p" "k \<notin> set (seen p)" "accept_failed k msg (mark_seen k p) = (p', ss)"
  shows "account i (n + failures_of i ss) p'"
  using assms
  by (auto simp: accept_failed_def recordAcceptFailure_def account_def count_def MAX_ACCEPT_ATTEMPTS_def Let_def
      split: if_splits option.splits)

lemma mark_seen_account: "account i n p \<Longrightarrow> k \<notin> set (seen p) \<Longrightarrow> account i n (mark_seen k p)"
  by (auto simp: account_def count_def)

lemma try_accept_account:
  assumes "account i n p" "k \<notin> set (seen p)" "try_accept env j k p = (p', ss)"
  shows "account i (n + failures_of i ss) p'"
  using assms accept_failed_account [OF assms(1,2)] accepted_then_failed_account [OF assms(1,2)] mark_seen_account
  by (auto simp: try_accept_def Let_def split: if_splits sum.splits prod.splits)

lemma handle_job_account:
  assumes "account i n p" "k \<notin> set (seen p)" "handle_job env j k p = (p', ss)"
  shows "account i (n + failures_of i ss) p'"
  using assms try_accept_account [OF assms(1,2)] mark_seen_account
  by (auto simp: handle_job_def Let_def split: sum.splits option.splits decision.splits prod.splits)

lemma job_loop_account:
  "account i n p \<Longrightarrow> job_loop env k js p = (p', ss) \<Longrightarrow> account i (n + failures_of i ss) p'"
proof (induction env k js p arbitrary: n p' ss rule: job_loop.induct)
  case (2 env k j js p)
  let ?i = "the (j_id j)"
  obtain p1 s1 where h: "handle_job env j ?i p = (p1, s1)" by (cases "handle_job env j ?i p")
  obtain p2 s2 where l: "job_loop env (Suc k) js p1 = (p2, s2)" by (cases "job_loop env (Suc k) js p1")
  show ?case
  proof (cases "e_running env k \<and> truthy (j_id j) \<and> ?i \<notin> set (seen p)")
    case True
    then have "account i (n + failures_of i s1) p1"
      using handle_job_account [OF 2(4) _ h] by simp
    then have "account i (n + failures_of i s1 + failures_of i s2) p2"
      using 2(3) True h l by auto
    moreover have "ss = s1 @ s2" "p' = p2" using True h l 2(5) by (auto simp: Let_def)
    ultimately show ?thesis by (simp add: add.assoc)
  next
    case False
    with 2 show ?thesis by (auto simp: Let_def split: if_splits)
  qed
qed auto

lemma mark_seen_length: "length (seen (mark_seen i p)) \<le> Suc (length (seen p))"
  by (simp add: set_add_def)

lemma accept_failed_length: "length (seen (fst (accept_failed i msg p))) \<le> Suc (length (seen p))"
  by (auto simp: accept_failed_def recordAcceptFailure_def Let_def set_add_def)

lemma accept_failed_seen: "i \<in> set (seen p) \<Longrightarrow> seen (fst (accept_failed i msg p)) = seen p"
  by (auto simp: accept_failed_def recordAcceptFailure_def Let_def set_add_def)

lemma try_accept_length: "length (seen (fst (try_accept env j i p))) \<le> Suc (length (seen p))"
  using accept_failed_length [of i _ p] accept_failed_seen [of i "mark_seen i p"] mark_seen_length [of i p]
  by (auto simp: try_accept_def Let_def split: sum.splits prod.splits) (metis fst_conv)

lemma handle_job_length: "length (seen (fst (handle_job env j i p))) \<le> Suc (length (seen p))"
  using try_accept_length [of env j i p] mark_seen_length [of i p]
  by (auto simp: handle_job_def Let_def split: sum.splits option.splits decision.splits prod.splits)

lemma job_loop_length: "length (seen (fst (job_loop env k js p))) \<le> length (seen p) + length js"
proof (induction env k js p rule: job_loop.induct)
  case (2 env k j js p)
  let ?i = "the (j_id j)"
  obtain p1 s1 where h: "handle_job env j ?i p = (p1, s1)" by (cases "handle_job env j ?i p")
  have "length (seen p1) \<le> Suc (length (seen p))" using handle_job_length [of env j ?i p] by (simp add: h)
  then show ?case using 2 h by (auto simp: Let_def split: prod.splits) fastforce+
qed simp

lemma slice_to_length: "length (slice_to n xs) \<le> length xs"
  by (cases n) (auto simp: Let_def)

text \<open>A list of polls, with all their signals.\<close>

fun poll_run :: "poller \<Rightarrow> poll_env list \<Rightarrow> poller \<times> signal list" where
  "poll_run p [] = (p, [])"
| "poll_run p (env # envs) = (let (p', ss) = checkForJobs env p; (p'', ts) = poll_run p' envs in (p'', ss @ ts))"

definition lists_job :: "string \<Rightarrow> poll_env \<Rightarrow> bool" where
  "lists_job i env = (case e_jobs env of Inl _ \<Rightarrow> True | Inr r \<Rightarrow> i \<in> set (pending_ids (all_jobs r)))"

definition response_size :: "poll_env \<Rightarrow> nat" where
  "response_size env = (case e_jobs env of Inl _ \<Rightarrow> 0 | Inr r \<Rightarrow> length (all_jobs r))"

lemma checkForJobs_account:
  assumes "account i n p" "checkForJobs env p = (p', ss)" "lists_job i env"
    and "length (seen p) + response_size env \<le> MAX_SEEN_JOBS"
  shows "account i (n + failures_of i ss) p' \<and> length (seen p') \<le> length (seen p) + response_size env"
proof (cases "has_handler p \<and> \<not> polling p \<and> (\<exists>r. e_jobs env = Inr r)")
  case True
  then obtain r where r: "e_jobs env = Inr r" by blast
  define js where "js = slice_to (e_max env) (all_jobs r)"
  obtain q where q: "job_loop env 0 js p = (q, ss)" and p': "p' = end_poll (all_jobs r) q"
    using assms(2) True r by (auto simp: checkForJobs_def js_def Let_def split: prod.splits)
  have len: "length (seen q) \<le> length (seen p) + response_size env"
    using job_loop_length [of env 0 js p] slice_to_length [of "e_max env" "all_jobs r"] q r
    by (simp add: response_size_def js_def)
  then have "seen p' = seen q" using assms(4) by (simp add: p' end_poll_def evict_loop_eq)
  moreover have "count p' i = count q i"
    using assms(3) r map_get_filter_key [of "\<lambda>k. k \<in> set (pending_ids (all_jobs r))" "acceptFailures q" i]
    by (simp add: p' end_poll_def count_def prune_filter lists_job_def)
  ultimately show ?thesis
    using job_loop_account [OF assms(1) q] len by (simp add: account_def split: if_splits)
next
  case False
  with assms show ?thesis by (auto simp: checkForJobs_def split: if_splits sum.splits)
qed

lemma poll_run_account:
  "account i n p \<Longrightarrow> poll_run p envs = (p', ss) \<Longrightarrow> \<forall>env \<in> set envs. lists_job i env
   \<Longrightarrow> length (seen p) + sum_list (map response_size envs) \<le> MAX_SEEN_JOBS
   \<Longrightarrow> account i (n + failures_of i ss) p'"
proof (induction envs arbitrary: n p p' ss)
  case (Cons env envs)
  obtain p1 s1 where c: "checkForJobs env p = (p1, s1)" by (cases "checkForJobs env p")
  obtain p2 s2 where r: "poll_run p1 envs = (p2, s2)" by (cases "poll_run p1 envs")
  have e: "p' = p2" "ss = s1 @ s2" using Cons.prems(2) c r by auto
  have "account i (n + failures_of i s1) p1" "length (seen p1) \<le> length (seen p) + response_size env"
    using checkForJobs_account [OF Cons.prems(1) c] Cons.prems by auto
  with Cons.IH [OF _ r, of "n + failures_of i s1"] Cons.prems(3,4)
  have "account i (n + failures_of i s1 + failures_of i s2) p2" by simp
  then show ?case by (simp add: e add.assoc)
qed simp


definition demo_poller :: poller where
  "demo_poller = \<lparr>seen = [], acceptFailures = [], polling = False, has_handler = True, can_sign = True\<rparr>"

definition demo_poll :: poll_env where
  "demo_poll = \<lparr>e_jobs = Inr (Some [\<lparr>j_id = Some ''j1'', j_hash = Some ''h''\<rparr>]), e_max = num_int 50,
     e_requested = (\<lambda>_. Inr ()), e_decide = Some (\<lambda>_. Inr Accept), e_accept = (\<lambda>_. Inl ''503''),
     e_accepted = (\<lambda>_. Inr ()), e_rejected = (\<lambda>_. Inr ()), e_running = (\<lambda>_. True)\<rparr>"

definition demo_polls :: "poll_env list" where
  "demo_polls = [demo_poll, demo_poll, demo_poll, demo_poll, demo_poll, demo_poll, demo_poll]"

lemma demo_poll_run:
  "failures_of ''j1'' (snd (poll_run demo_poller demo_polls)) = 5"
  by (simp add: demo_poller_def demo_poll_def demo_polls_def checkForJobs_def all_jobs_def Let_def truthy_def
      handle_job_def try_accept_def accept_failed_def recordAcceptFailure_def MAX_ACCEPT_ATTEMPTS_def
      mark_seen_def clearAcceptFailure_def map_delete_def set_add_def end_poll_def MAX_SEEN_JOBS_def
      pruneAcceptFailures_def map_keys_def pending_ids_def)


theorem tracking_bounded_witness:
  "poller_inv (foldl (\<lambda>p env. fst (checkForJobs env p)) demo_poller [demo_poll, demo_poll])"
  using tracking_bounded [of demo_poller "[demo_poll, demo_poll]"] by (simp add: demo_poller_def)

end
