(* ===== verification/JsDate.thy ===== *)
theory JsDate
  imports JsText
begin

text \<open>
  \<open>Date.prototype.toISOString\<close> and \<open>Date.parse\<close> on the one format the code uses,
  \<open>YYYY-MM-DDTHH:mm:ss.sssZ\<close>, for the years 0 to 9999 of the proleptic Gregorian calendar. Times are
  milliseconds since 1970; a string with a field out of its range parses to \<open>None\<close>, which
  stands for \<open>NaN\<close>.
\<close>

definition leap :: "nat \<Rightarrow> bool" where
  "leap y = (y mod 4 = 0 \<and> (y mod 100 \<noteq> 0 \<or> y mod 400 = 0))"

definition month_days :: "nat \<Rightarrow> nat list" where
  "month_days y = [31, if leap y then 29 else 28, 31, 30, 31, 30, 31, 31, 30, 31, 30, 31]"

definition year_days :: "nat \<Rightarrow> nat" where
  "year_days y = (if leap y then 366 else 365)"

text \<open>Days before a year, counted from the year 0.\<close>

fun days_before_year :: "nat \<Rightarrow> nat" where
  "days_before_year 0 = 0"
| "days_before_year (Suc y) = days_before_year y + year_days y"

definition EPOCH_DAYS :: nat where "EPOCH_DAYS = 719528"

definition DAY :: nat where "DAY = 86400000"

text \<open>Peel years, then months, off a day number: \<open>split_days\<close> returns how many lengths fit and the rest.\<close>

fun split_days :: "nat list \<Rightarrow> nat \<Rightarrow> nat \<times> nat" where
  "split_days [] d = (0, d)"
| "split_days (l # ls) d = (if d < l then (0, d) else let (k, r) = split_days ls (d - l) in (Suc k, r))"

primrec pad :: "nat \<Rightarrow> nat \<Rightarrow> string" where
  "pad 0 n = []"
| "pad (Suc w) n = pad w (n div 10) @ [digit_char (n mod 10)]"

record fields =
  f_year :: nat
  f_month :: nat
  f_day :: nat
  f_hour :: nat
  f_min :: nat
  f_sec :: nat
  f_ms :: nat

definition fields_of :: "nat \<Rightarrow> fields" where
  "fields_of t =
     (let (y, r) = split_days (map year_days [0..<10000]) (t div DAY);
          (m, d) = split_days (month_days y) r;
          u = t mod DAY in
      \<lparr>f_year = y, f_month = m + 1, f_day = d + 1, f_hour = u div 3600000, f_min = u div 60000 mod 60,
       f_sec = u div 1000 mod 60, f_ms = u mod 1000\<rparr>)"

definition valid_fields :: "fields \<Rightarrow> bool" where
  "valid_fields f = (f_year f < 10000 \<and> 1 \<le> f_month f \<and> f_month f \<le> 12
     \<and> 1 \<le> f_day f \<and> f_day f \<le> month_days (f_year f) ! (f_month f - 1)
     \<and> ((f_hour f < 24 \<and> f_min f < 60 \<and> f_sec f < 60 \<and> f_ms f < 1000)
        \<or> (f_hour f = 24 \<and> f_min f = 0 \<and> f_sec f = 0 \<and> f_ms f = 0)))"

definition time_of :: "fields \<Rightarrow> nat" where
  "time_of f = (days_before_year (f_year f) + sum_list (take (f_month f - 1) (month_days (f_year f))) + f_day f - 1) * DAY
     + f_hour f * 3600000 + f_min f * 60000 + f_sec f * 1000 + f_ms f"

definition print_fields :: "fields \<Rightarrow> string" where
  "print_fields f = pad 4 (f_year f) @ ''-'' @ pad 2 (f_month f) @ ''-'' @ pad 2 (f_day f) @ ''T''
     @ pad 2 (f_hour f) @ '':'' @ pad 2 (f_min f) @ '':'' @ pad 2 (f_sec f) @ ''.'' @ pad 3 (f_ms f) @ ''Z''"

text \<open>\<open>/^\d{4}-\d{2}-\d{2}T\d{2}:\d{2}:\d{2}\.\d{3}Z$/\<close>\<close>

definition rfc3339_shape :: "string \<Rightarrow> bool" where
  "rfc3339_shape s = (length s = 24
     \<and> (\<forall>k \<in> {0, 1, 2, 3, 5, 6, 8, 9, 11, 12, 14, 15, 17, 18, 20, 21, 22}. is_digit (s ! k))
     \<and> s ! 4 = CHR ''-'' \<and> s ! 7 = CHR ''-'' \<and> s ! 10 = CHR ''T'' \<and> s ! 13 = CHR '':''
     \<and> s ! 16 = CHR '':'' \<and> s ! 19 = CHR ''.'' \<and> s ! 23 = CHR ''Z'')"

definition num_at :: "nat \<Rightarrow> nat \<Rightarrow> string \<Rightarrow> nat" where
  "num_at k w s = read_nat (take w (drop k s))"

definition read_fields :: "string \<Rightarrow> fields" where
  "read_fields s = \<lparr>f_year = num_at 0 4 s, f_month = num_at 5 2 s, f_day = num_at 8 2 s,
     f_hour = num_at 11 2 s, f_min = num_at 14 2 s, f_sec = num_at 17 2 s, f_ms = num_at 20 3 s\<rparr>"

definition date_parse :: "string \<Rightarrow> int option" where
  "date_parse s = (if rfc3339_shape s \<and> valid_fields (read_fields s)
     then Some (int (time_of (read_fields s)) - int (EPOCH_DAYS * DAY)) else None)"

definition to_iso :: "int \<Rightarrow> string" where
  "to_iso ms = print_fields (fields_of (nat (ms + int (EPOCH_DAYS * DAY))))"

section \<open>Parsing undoes printing\<close>

lemma pad_length [simp]: "length (pad w n) = w"
  by (induction w arbitrary: n) auto

lemma pad_2: "pad 2 n = [digit_char (n div 10 mod 10), digit_char (n mod 10)]"
  by (simp add: numeral_2_eq_2)

lemma pad_3: "pad 3 n = [digit_char (n div 10 div 10 mod 10), digit_char (n div 10 mod 10), digit_char (n mod 10)]"
  by (simp add: numeral_3_eq_3)

lemma pad_4: "pad 4 n = [digit_char (n div 10 div 10 div 10 mod 10), digit_char (n div 10 div 10 mod 10),
    digit_char (n div 10 mod 10), digit_char (n mod 10)]"
  using pad.simps(2) [of 3 n] by (simp add: pad_3)

lemma read_nat_snoc: "read_nat (s @ [c]) = 10 * read_nat s + digit_val c"
  by (simp add: read_nat_def)

lemma read_pad: "n < 10 ^ w \<Longrightarrow> read_nat (pad w n) = n"
proof (induction w arbitrary: n)
  case 0
  then show ?case by (simp add: read_nat_def)
next
  case (Suc w)
  then have "n div 10 < 10 ^ w" by (simp add: less_mult_imp_div_less)
  with Suc show ?case by (simp add: read_nat_snoc digit_val_char)
qed

lemma split_days_spec:
  "split_days ls d = (k, r) \<Longrightarrow> d < sum_list ls \<Longrightarrow> k < length ls \<and> d = sum_list (take k ls) + r \<and> r < ls ! k"
proof (induction ls d arbitrary: k r rule: split_days.induct)
  case (2 l ls d)
  show ?case
  proof (cases "d < l")
    case False
    obtain k' r' where s: "split_days ls (d - l) = (k', r')" by (cases "split_days ls (d - l)")
    with 2 False have "k' < length ls \<and> d - l = sum_list (take k' ls) + r' \<and> r' < ls ! k'" by auto
    with s 2(2) False show ?thesis by auto
  qed (use 2 in auto)
qed simp

lemma days_before_year_sum: "days_before_year n = sum_list (map year_days [0..<n])"
  by (induction n) auto

lemma month_days_sum: "sum_list (month_days y) = year_days y" "length (month_days y) = 12"
  by (simp_all add: month_days_def year_days_def)

lemma take_years: "k \<le> 10000 \<Longrightarrow> take k (map year_days [0..<10000]) = map year_days [0..<k]"
  by (simp add: take_map take_upt)

text \<open>The times that print: the years 0 to 9999.\<close>

definition printable_time :: "nat \<Rightarrow> bool" where
  "printable_time t = (t div DAY < days_before_year 10000)"

lemma fields_of_correct:
  assumes "printable_time t"
  shows "valid_fields (fields_of t) \<and> time_of (fields_of t) = t \<and> f_hour (fields_of t) < 24"
proof -
  obtain y r where y: "split_days (map year_days [0..<10000]) (t div DAY) = (y, r)"
    by (cases "split_days (map year_days [0..<10000]) (t div DAY)")
  obtain m d where m: "split_days (month_days y) r = (m, d)" by (cases "split_days (month_days y) r")
  have Y: "y < 10000" "t div DAY = days_before_year y + r" "r < year_days y"
    using split_days_spec [OF y] assms take_years [of y]
    by (auto simp: printable_time_def days_before_year_sum)
  have M: "m < 12" "r = sum_list (take m (month_days y)) + d" "d < month_days y ! m"
    using split_days_spec [OF m] Y(3) by (auto simp: month_days_sum)
  define u where "u = t mod DAY"
  have u: "u < 86400000" by (simp add: u_def DAY_def)
  have f: "fields_of t = \<lparr>f_year = y, f_month = m + 1, f_day = d + 1, f_hour = u div 3600000,
      f_min = u div 60000 mod 60, f_sec = u div 1000 mod 60, f_ms = u mod 1000\<rparr>"
    by (simp add: fields_of_def y m u_def Let_def)
  have "u div 3600000 * 3600000 + u div 60000 mod 60 * 60000 + u div 1000 mod 60 * 1000 + u mod 1000 = u"
  proof -
    have "u = u div 1000 * 1000 + u mod 1000" by simp
    moreover have "u div 1000 = u div 60000 * 60 + u div 1000 mod 60"
      using div_mult_mod_eq [of "u div 1000" 60] by (simp add: div_mult2_eq [symmetric])
    moreover have "u div 60000 = u div 3600000 * 60 + u div 60000 mod 60"
      using div_mult_mod_eq [of "u div 60000" 60] by (simp add: div_mult2_eq [symmetric])
    ultimately show ?thesis by linarith
  qed
  moreover have "u div 3600000 < 24" using u by (simp add: less_mult_imp_div_less)
  moreover have "t div DAY * DAY + u = t" by (simp add: u_def)
  ultimately show ?thesis
    using Y M by (simp add: f valid_fields_def time_of_def add.assoc)
qed

lemma valid_fields_bounds:
  assumes "valid_fields f"
  shows "f_year f < 10000" "f_month f < 100" "f_day f < 100" "f_hour f < 100" "f_min f < 100" "f_sec f < 100" "f_ms f < 1000"
proof -
  have m: "month_days (f_year f) ! (f_month f - 1) \<le> 31"
  proof -
    have "f_month f - 1 < length (month_days (f_year f))"
      using assms by (auto simp: valid_fields_def month_days_sum)
    then have "month_days (f_year f) ! (f_month f - 1) \<in> set (month_days (f_year f))" by (rule nth_mem)
    then show ?thesis by (auto simp: month_days_def)
  qed
  show "f_day f < 100" using assms m by (auto simp: valid_fields_def)
  show "f_year f < 10000" "f_month f < 100" "f_hour f < 100" "f_min f < 100" "f_sec f < 100" "f_ms f < 1000"
    using assms by (auto simp: valid_fields_def)
qed

lemma print_shape: "rfc3339_shape (print_fields f)"
  by (simp add: rfc3339_shape_def print_fields_def pad_2 pad_3 pad_4 is_digit_char)

lemma read_print:
  assumes "valid_fields f"
  shows "read_fields (print_fields f) = f"
proof -
  note b = valid_fields_bounds [OF assms]
  have "num_at 0 4 (print_fields f) = f_year f" "num_at 5 2 (print_fields f) = f_month f"
    "num_at 8 2 (print_fields f) = f_day f" "num_at 11 2 (print_fields f) = f_hour f"
    "num_at 14 2 (print_fields f) = f_min f" "num_at 17 2 (print_fields f) = f_sec f"
    "num_at 20 3 (print_fields f) = f_ms f"
    using read_pad [of "f_year f" 4] read_pad [of "f_month f" 2] read_pad [of "f_day f" 2]
      read_pad [of "f_hour f" 2] read_pad [of "f_min f" 2] read_pad [of "f_sec f" 2] read_pad [of "f_ms f" 3] b
    by (simp_all add: num_at_def print_fields_def)
  then show ?thesis by (simp add: read_fields_def)
qed

lemma date_parse_to_iso:
  assumes "0 \<le> ms + int (EPOCH_DAYS * DAY)" "printable_time (nat (ms + int (EPOCH_DAYS * DAY)))"
  shows "date_parse (to_iso ms) = Some ms"
  using fields_of_correct [OF assms(2)] assms(1)
  by (simp add: date_parse_def to_iso_def print_shape read_print)

text \<open>The day count in closed form, and with it the range of \<open>toISOString\<close>'s four-digit years.\<close>

lemma leap_steps:
  "(Suc y + 3) div 4 = (y + 3) div 4 + (if y mod 4 = 0 then 1 else 0)"
  "(Suc y + 99) div 100 = (y + 99) div 100 + (if y mod 100 = 0 then 1 else 0)"
  "(Suc y + 399) div 400 = (y + 399) div 400 + (if y mod 400 = 0 then 1 else 0)"
  using div_Suc [of "y + 3" 4] div_Suc [of "y + 99" 100] div_Suc [of "y + 399" 400] by simp_all

lemma mod_400: "y mod 400 = 0 \<Longrightarrow> y mod 100 = 0" "y mod 100 = 0 \<Longrightarrow> y mod 4 = 0" for y :: nat
  using mod_mod_cancel [of 100 400 y] mod_mod_cancel [of 4 100 y] by simp_all

lemma days_before_year_closed:
  "days_before_year y + (y + 99) div 100 = 365 * y + (y + 3) div 4 + (y + 399) div 400"
proof (induction y)
  case (Suc y)
  then show ?case
    unfolding leap_steps days_before_year.simps year_days_def leap_def using mod_400 [of y] by auto
qed simp

lemma date_parse_to_iso_range:
  assumes "-62167219200000 \<le> ms" "ms < 253402300800000"
  shows "date_parse (to_iso ms) = Some ms"
proof (rule date_parse_to_iso)
  show pos: "0 \<le> ms + int (EPOCH_DAYS * DAY)"
    using assms(1) by (simp add: EPOCH_DAYS_def DAY_def)
  have "days_before_year 10000 = 3652425"
    using days_before_year_closed [of 10000] by simp
  moreover have "nat (ms + int (EPOCH_DAYS * DAY)) < 3652425 * DAY"
    using assms(2) pos by (simp add: EPOCH_DAYS_def DAY_def)
  ultimately show "printable_time (nat (ms + int (EPOCH_DAYS * DAY)))"
    by (simp add: printable_time_def less_mult_imp_div_less)
qed

end
