(* ===== verification/Canonical.thy ===== *)
theory Canonical
  imports JsValue JsDate
begin

text \<open>
  The canonical-v1 signed envelope, \<open>src/crypto/canonical.ts\<close>: structural validation and window
  rules of a value of unknown shape, building a request-access envelope, signing, and the
  multi-signature check against resolved keys. \<open>json-canonicalize\<close>, the message signer and the
  single-signature verifier are parameters; \<open>getIdentityKeys\<close> is the answer it gives.
\<close>

section \<open>Constants\<close>

definition CANONICAL_MAX_BYTES :: nat where "CANONICAL_MAX_BYTES = 8192"

definition CLOCK_SKEW_MS :: int where "CLOCK_SKEW_MS = 300000"

definition SUPPORTED_VERSIONS :: "jsnum list" where "SUPPORTED_VERSIONS = [num_int 1]"

definition SUPPORTED_SUITES :: "string list" where "SUPPORTED_SUITES = [''verus-signmessage-v1'']"

definition ACTIONS :: "string list" where
  "ACTIONS = [''request-access'', ''review-api-session'', ''review-submit'', ''budget-request'']"

definition ACTION_MAX_WINDOW_MS :: "(string, int) jsmap" where
  "ACTION_MAX_WINDOW_MS = [(''request-access'', 5 * 60 * 1000), (''review-api-session'', 7 * 24 * 60 * 60 * 1000),
     (''review-submit'', 7 * 24 * 60 * 60 * 1000), (''budget-request'', 60 * 60 * 1000)]"

definition ALLOWED_TOP_LEVEL_KEYS :: "string list" where
  "ALLOWED_TOP_LEVEL_KEYS = [''version'', ''cryptoSuite'', ''action'', ''buyer'', ''seller'', ''payload'',
     ''contentHash'', ''nonce'', ''issuedAt'', ''expiresAt'']"

definition REQUIRED_TOP_LEVEL_KEYS :: "string list" where
  "REQUIRED_TOP_LEVEL_KEYS = [''version'', ''cryptoSuite'', ''action'', ''buyer'', ''seller'', ''payload'',
     ''nonce'', ''issuedAt'', ''expiresAt'']"

definition ALLOWED_BUYER_SELLER_KEYS :: "string list" where
  "ALLOWED_BUYER_SELLER_KEYS = [''iaddress'', ''name'']"

definition ALLOWED_CONTENT_HASH_KEYS :: "string list" where
  "ALLOWED_CONTENT_HASH_KEYS = [''alg'', ''digest'']"

text \<open>The regular expressions \<open>IADDRESS_RE\<close>, \<open>NONCE_RE\<close> and the digest's.\<close>

definition is_base58 :: "char \<Rightarrow> bool" where
  "is_base58 c = ((is_digit c \<and> c \<noteq> CHR ''0'') \<or> (is_upper c \<and> c \<noteq> CHR ''I'' \<and> c \<noteq> CHR ''O'')
     \<or> (is_lower c \<and> c \<noteq> CHR ''l''))"

definition iaddress_re :: "string \<Rightarrow> bool" where
  "iaddress_re s = (length s = 34 \<and> hd s = CHR ''i'' \<and> list_all is_base58 (tl s))"

definition lower_hex :: "nat \<Rightarrow> string \<Rightarrow> bool" where
  "lower_hex n s = (length s = n \<and> list_all (\<lambda>c. is_hex c \<and> \<not> is_upper c) s)"

datatype canonical_error =
    INVALID_BODY | CANONICAL_TOO_LARGE | UNEXPECTED_FIELD | UNSUPPORTED_VERSION | UNSUPPORTED_SUITE
  | UNKNOWN_ACTION | EXPIRES_BEFORE_ISSUED | EXPIRES_TOO_FAR | EXPIRED | ISSUED_IN_FUTURE

section \<open>Validation\<close>

definition known_keys :: "string list \<Rightarrow> jv \<Rightarrow> (canonical_error, unit) result" where
  "known_keys ks v = each_r (\<lambda>k. guard_r (k \<in> set ks) UNEXPECTED_FIELD) (jkeys v)"

definition validatePartyObject :: "jv \<Rightarrow> (canonical_error, unit) result" where
  "validatePartyObject party =
     bind_r (guard_r (is_object party) INVALID_BODY) (\<lambda>_.
     bind_r (known_keys ALLOWED_BUYER_SELLER_KEYS party) (\<lambda>_.
     bind_r (guard_r (is_string (jget party ''iaddress'') \<and> iaddress_re (str_of (jget party ''iaddress''))) INVALID_BODY) (\<lambda>_.
     guard_r (\<not> (has_key party ''name'' \<and> jget party ''name'' \<noteq> JUndef \<and> \<not> is_string (jget party ''name''))) INVALID_BODY)))"

definition validateContentHash :: "jv \<Rightarrow> (canonical_error, unit) result" where
  "validateContentHash ch =
     bind_r (guard_r (is_object ch) INVALID_BODY) (\<lambda>_.
     bind_r (known_keys ALLOWED_CONTENT_HASH_KEYS ch) (\<lambda>_.
     bind_r (guard_r (jget ch ''alg'' = JStr ''sha256'') INVALID_BODY) (\<lambda>_.
     guard_r (is_string (jget ch ''digest'') \<and> lower_hex 64 (str_of (jget ch ''digest''))) INVALID_BODY)))"

text \<open>A comparison with a NaN time is false: \<open>None\<close> makes it so.\<close>

definition gt_time :: "int option \<Rightarrow> int option \<Rightarrow> bool" where
  "gt_time a b = (case (a, b) of (Some x, Some y) \<Rightarrow> y < x | _ \<Rightarrow> False)"

definition le_time :: "int option \<Rightarrow> int option \<Rightarrow> bool" where
  "le_time a b = (case (a, b) of (Some x, Some y) \<Rightarrow> x \<le> y | _ \<Rightarrow> False)"

definition plus_time :: "int option \<Rightarrow> int \<Rightarrow> int option" where
  "plus_time a d = map_option (\<lambda>x. x + d) a"

definition minus_time :: "int option \<Rightarrow> int option \<Rightarrow> int option" where
  "minus_time a b = (case (a, b) of (Some x, Some y) \<Rightarrow> Some (x - y) | _ \<Rightarrow> None)"

definition check_window :: "string \<Rightarrow> string \<Rightarrow> string \<Rightarrow> int \<Rightarrow> (canonical_error, unit) result" where
  "check_window action issuedAt expiresAt now =
     (let issuedAtMs = date_parse issuedAt; expiresAtMs = date_parse expiresAt in
      if le_time expiresAtMs issuedAtMs then Inl EXPIRES_BEFORE_ISSUED
      else if gt_time (minus_time expiresAtMs issuedAtMs) (map_get ACTION_MAX_WINDOW_MS action) then Inl EXPIRES_TOO_FAR
      else if gt_time (Some now) (plus_time expiresAtMs CLOCK_SKEW_MS) then Inl EXPIRED
      else if gt_time issuedAtMs (Some (now + CLOCK_SKEW_MS)) then Inl ISSUED_IN_FUTURE
      else Inr ())"

definition validateEnvelope :: "jv \<Rightarrow> int \<Rightarrow> (canonical_error, unit) result" where
  "validateEnvelope e now =
     bind_r (guard_r (is_object e) INVALID_BODY) (\<lambda>_.
     bind_r (known_keys ALLOWED_TOP_LEVEL_KEYS e) (\<lambda>_.
     bind_r (each_r (\<lambda>k. guard_r (has_key e k) INVALID_BODY) REQUIRED_TOP_LEVEL_KEYS) (\<lambda>_.
     bind_r (guard_r (jget e ''version'' \<in> JNum ` set SUPPORTED_VERSIONS) UNSUPPORTED_VERSION) (\<lambda>_.
     bind_r (guard_r (jget e ''cryptoSuite'' \<in> JStr ` set SUPPORTED_SUITES) UNSUPPORTED_SUITE) (\<lambda>_.
     bind_r (guard_r (jget e ''action'' \<in> JStr ` set ACTIONS) UNKNOWN_ACTION) (\<lambda>_.
     bind_r (validatePartyObject (jget e ''buyer'')) (\<lambda>_.
     bind_r (validatePartyObject (jget e ''seller'')) (\<lambda>_.
     bind_r (guard_r (is_object (jget e ''payload'')) INVALID_BODY) (\<lambda>_.
     bind_r (if has_key e ''contentHash'' \<and> jget e ''contentHash'' \<noteq> JUndef
             then validateContentHash (jget e ''contentHash'') else Inr ()) (\<lambda>_.
     bind_r (guard_r (is_string (jget e ''nonce'') \<and> lower_hex 32 (str_of (jget e ''nonce''))) INVALID_BODY) (\<lambda>_.
     bind_r (guard_r (is_string (jget e ''issuedAt'') \<and> rfc3339_shape (str_of (jget e ''issuedAt''))) INVALID_BODY) (\<lambda>_.
     bind_r (guard_r (is_string (jget e ''expiresAt'') \<and> rfc3339_shape (str_of (jget e ''expiresAt''))) INVALID_BODY) (\<lambda>_.
     check_window (str_of (jget e ''action'')) (str_of (jget e ''issuedAt'')) (str_of (jget e ''expiresAt'')) now)))))))))))))"

section \<open>Building and signing\<close>

definition utf8_length :: "string \<Rightarrow> nat" where
  "utf8_length s = sum_list (map (\<lambda>c. if (of_char c :: nat) < 128 then 1 else 2) s)"

definition canonicalBytes :: "(jv \<Rightarrow> string) \<Rightarrow> jv \<Rightarrow> (canonical_error, string) result" where
  "canonicalBytes canonicalize e =
     (let s = canonicalize e in if CANONICAL_MAX_BYTES < utf8_length s then Inl CANONICAL_TOO_LARGE else Inr s)"

definition signCanonical ::
  "(jv \<Rightarrow> string) \<Rightarrow> (string \<Rightarrow> string) \<Rightarrow> jv \<Rightarrow> int \<Rightarrow> (canonical_error, jv \<times> string list) result" where
  "signCanonical canonicalize sign e now =
     bind_r (validateEnvelope e now) (\<lambda>_.
     bind_r (canonicalBytes canonicalize e) (\<lambda>bytes. Inr (e, [sign bytes])))"

definition party :: "string \<Rightarrow> string option \<Rightarrow> jv" where
  "party ia name = (case name of
     Some n \<Rightarrow> if n \<noteq> [] then JObj [(''iaddress'', JStr ia), (''name'', JStr n)] else JObj [(''iaddress'', JStr ia)]
   | None \<Rightarrow> JObj [(''iaddress'', JStr ia)])"

record access_params =
  buyerIAddress :: string
  buyerName :: "string option"
  sellerIAddress :: string
  sellerName :: "string option"
  ephemeralPubKey :: string
  ttlSeconds :: "int option"

text \<open>The clock and the random nonce are arguments; the time to live is a whole number of seconds.\<close>

definition buildRequestAccessEnvelope :: "access_params \<Rightarrow> int \<Rightarrow> string \<Rightarrow> jv" where
  "buildRequestAccessEnvelope p now nonce =
     (let ttl = min (case ttlSeconds p of None \<Rightarrow> 60 | Some t \<Rightarrow> t) 300 in
      JObj [(''version'', JNum (num_int 1)), (''cryptoSuite'', JStr ''verus-signmessage-v1''),
        (''action'', JStr ''request-access''), (''buyer'', party (buyerIAddress p) (buyerName p)),
        (''seller'', party (sellerIAddress p) (sellerName p)),
        (''payload'', JObj [(''ephemeralPubKey'', JStr (ephemeralPubKey p))]),
        (''nonce'', JStr nonce), (''issuedAt'', JStr (to_iso now)), (''expiresAt'', JStr (to_iso (now + ttl * 1000)))])"

section \<open>Signatures\<close>

record identity_keys =
  primaryAddresses :: "string list"
  minimumSignatures :: jsnum

text \<open>Does one of the signatures verify for the address? A throw counts as no.\<close>

fun any_signature :: "(string \<Rightarrow> string \<Rightarrow> string \<Rightarrow> (string, bool) result) \<Rightarrow> string \<Rightarrow> string \<Rightarrow> string list \<Rightarrow> bool" where
  "any_signature verify msg ad [] = False"
| "any_signature verify msg ad (s # sigs) =
     (case verify msg ad s of Inr True \<Rightarrow> True | _ \<Rightarrow> any_signature verify msg ad sigs)"

fun match_loop ::
  "(string \<Rightarrow> string \<Rightarrow> string \<Rightarrow> (string, bool) result) \<Rightarrow> string \<Rightarrow> string list \<Rightarrow> jsnum \<Rightarrow> string list \<Rightarrow> string list \<Rightarrow> bool" where
  "match_loop verify msg sigs threshold [] matched = js_le threshold (num_int (int (length matched)))"
| "match_loop verify msg sigs threshold (ad # ads) matched =
     (let matched' = (if any_signature verify msg ad sigs then set_add matched ad else matched) in
      if js_le threshold (num_int (int (length matched'))) then True
      else match_loop verify msg sigs threshold ads matched')"

definition sig_threshold :: "jsnum \<Rightarrow> jsnum" where
  "sig_threshold m = (if is_finite m \<and> js_lt (num_int 0) m then m else num_int 1)"

definition verifyCanonicalSignatures ::
  "(jv \<Rightarrow> string) \<Rightarrow> (string \<Rightarrow> string \<Rightarrow> string \<Rightarrow> (string, bool) result) \<Rightarrow> jv \<Rightarrow> string list
   \<Rightarrow> (string, identity_keys) result \<Rightarrow> (canonical_error, bool) result" where
  "verifyCanonicalSignatures canonicalize verify e sigs keys =
     (if sigs = [] then Inr False
      else bind_r (canonicalBytes canonicalize e) (\<lambda>msg. Inr (case keys of
        Inl _ \<Rightarrow> False
      | Inr k \<Rightarrow> if primaryAddresses k = [] then False
          else match_loop verify msg sigs (sig_threshold (minimumSignatures k)) (primaryAddresses k) [])))"

section \<open>What validation accepts\<close>

lemma known_keys_ok [simp]: "known_keys ks v = Inr u \<longleftrightarrow> set (jkeys v) \<subseteq> set ks"
  by (auto simp: known_keys_def each_r_ok)

definition party_ok :: "jv \<Rightarrow> bool" where
  "party_ok v = (is_object v \<and> set (jkeys v) \<subseteq> {''iaddress'', ''name''}
     \<and> (\<exists>ia. jget v ''iaddress'' = JStr ia \<and> iaddress_re ia)
     \<and> (has_key v ''name'' \<longrightarrow> jget v ''name'' = JUndef \<or> is_string (jget v ''name'')))"

definition content_hash_ok :: "jv \<Rightarrow> bool" where
  "content_hash_ok v = (is_object v \<and> set (jkeys v) \<subseteq> {''alg'', ''digest''} \<and> jget v ''alg'' = JStr ''sha256''
     \<and> (\<exists>d. jget v ''digest'' = JStr d \<and> lower_hex 64 d))"

lemma validatePartyObject_ok: "validatePartyObject v = Inr u \<longleftrightarrow> party_ok v"
  by (auto simp: validatePartyObject_def party_ok_def bind_r_eq_Inr ALLOWED_BUYER_SELLER_KEYS_def is_string_iff)

lemma validateContentHash_ok: "validateContentHash v = Inr u \<longleftrightarrow> content_hash_ok v"
  by (auto simp: validateContentHash_def content_hash_ok_def bind_r_eq_Inr ALLOWED_CONTENT_HASH_KEYS_def is_string_iff)

definition window_ok :: "int \<Rightarrow> int \<Rightarrow> int \<Rightarrow> int \<Rightarrow> bool" where
  "window_ok i e w now = (i < e \<and> e - i \<le> w \<and> now \<le> e + 300000 \<and> i \<le> now + 300000)"

lemma action_window: "a \<in> set ACTIONS \<Longrightarrow> \<exists>w. map_get ACTION_MAX_WINDOW_MS a = Some w"
  by (auto simp: ACTIONS_def ACTION_MAX_WINDOW_MS_def)

lemma check_window_ok:
  assumes "date_parse si = Some i" "date_parse se = Some e" "map_get ACTION_MAX_WINDOW_MS a = Some w"
  shows "check_window a si se now = Inr u \<longleftrightarrow> window_ok i e w now"
  using assms by (auto simp: check_window_def window_ok_def Let_def gt_time_def le_time_def plus_time_def
      minus_time_def CLOCK_SKEW_MS_def)

lemma if_validate: "(if b then validateContentHash v else Inr ()) = Inr u \<longleftrightarrow> (b \<longrightarrow> content_hash_ok v)"
  by (simp add: validateContentHash_ok)

text \<open>
  On an envelope whose two timestamps are real dates, validation accepts exactly the
  well-formed ones within their window: no unknown key anywhere, every required key, the
  supported version, suite and action, both parties with an i-address, an object payload, a
  valid content hash when there is one, a 32-digit nonce, and
  \<open>issuedAt < expiresAt \<le> issuedAt + max\<close> with the clock at most 300 seconds outside.
\<close>

theorem validateEnvelope_iff:
  assumes "jget env ''issuedAt'' = JStr si" "date_parse si = Some i"
    and "jget env ''expiresAt'' = JStr se" "date_parse se = Some e"
  shows "validateEnvelope env now = Inr () \<longleftrightarrow>
     is_object env \<and> set (jkeys env) \<subseteq> set ALLOWED_TOP_LEVEL_KEYS \<and> set REQUIRED_TOP_LEVEL_KEYS \<subseteq> set (jkeys env)
   \<and> jget env ''version'' = JNum (num_int 1) \<and> jget env ''cryptoSuite'' = JStr ''verus-signmessage-v1''
   \<and> (\<exists>a w. jget env ''action'' = JStr a \<and> a \<in> set ACTIONS \<and> map_get ACTION_MAX_WINDOW_MS a = Some w
        \<and> window_ok i e w now)
   \<and> party_ok (jget env ''buyer'') \<and> party_ok (jget env ''seller'') \<and> is_object (jget env ''payload'')
   \<and> (has_key env ''contentHash'' \<and> jget env ''contentHash'' \<noteq> JUndef \<longrightarrow> content_hash_ok (jget env ''contentHash''))
   \<and> (\<exists>n. jget env ''nonce'' = JStr n \<and> lower_hex 32 n)"
proof -
  have shape: "rfc3339_shape si" "rfc3339_shape se"
    using assms by (auto simp: date_parse_def split: if_splits)
  have w: "check_window (str_of (jget env ''action'')) si se now = Inr () \<longleftrightarrow>
      (\<exists>w. map_get ACTION_MAX_WINDOW_MS a = Some w \<and> window_ok i e w now)"
    if a: "jget env ''action'' = JStr a" "a \<in> set ACTIONS" for a
  proof -
    obtain w where "map_get ACTION_MAX_WINDOW_MS a = Some w" using action_window [OF a(2)] by blast
    then show ?thesis using check_window_ok [OF assms(2,4), of a w now "()"] a by simp
  qed
  have "jget env ''action'' \<in> JStr ` set ACTIONS \<longleftrightarrow> (\<exists>a. jget env ''action'' = JStr a \<and> a \<in> set ACTIONS)"
    by auto
  then show ?thesis
    unfolding validateEnvelope_def bind_r_eq_Inr
    using w shape
    by (auto simp: assms each_r_ok validatePartyObject_ok if_validate is_string_iff has_key_def
        SUPPORTED_VERSIONS_def SUPPORTED_SUITES_def)
qed

definition demo_ia :: string where "demo_ia = CHR ''i'' # replicate 33 (CHR ''A'')"

definition demo_envelope :: "string \<Rightarrow> string \<Rightarrow> jv" where
  "demo_envelope si se = JObj [(''version'', JNum (num_int 1)), (''cryptoSuite'', JStr ''verus-signmessage-v1''),
     (''action'', JStr ''request-access''), (''buyer'', JObj [(''iaddress'', JStr demo_ia)]),
     (''seller'', JObj [(''iaddress'', JStr demo_ia)]), (''payload'', JObj []),
     (''nonce'', JStr (replicate 32 (CHR ''a''))), (''issuedAt'', JStr si), (''expiresAt'', JStr se)]"

lemma demo_ia_ok: "iaddress_re demo_ia"
  by (simp add: iaddress_re_def demo_ia_def list_all_iff is_base58_def is_upper_def is_digit_def is_lower_def)

lemma demo_envelope_ok:
  "rfc3339_shape si \<Longrightarrow> rfc3339_shape se \<Longrightarrow>
   validateEnvelope (demo_envelope si se) now = check_window ''request-access'' si se now"
  using demo_ia_ok
  by (simp add: validateEnvelope_def demo_envelope_def known_keys_def ALLOWED_TOP_LEVEL_KEYS_def REQUIRED_TOP_LEVEL_KEYS_def
      has_key_def SUPPORTED_VERSIONS_def SUPPORTED_SUITES_def ACTIONS_def validatePartyObject_def
      ALLOWED_BUYER_SELLER_KEYS_def lower_hex_def list_all_iff is_hex_def is_upper_def is_digit_def)

definition demo_now :: int where "demo_now = 1767225600000"

lemma demo_dates:
  "date_parse (to_iso demo_now) = Some demo_now" "date_parse (to_iso (demo_now + 240000)) = Some (demo_now + 240000)"
  by (rule date_parse_to_iso_range; simp add: demo_now_def)+

theorem validateEnvelope_iff_witness:
  "validateEnvelope (demo_envelope (to_iso demo_now) (to_iso (demo_now + 240000))) demo_now = Inr ()"
proof -
  let ?e = "demo_envelope (to_iso demo_now) (to_iso (demo_now + 240000))"
  have j: "jget ?e ''issuedAt'' = JStr (to_iso demo_now)" "jget ?e ''expiresAt'' = JStr (to_iso (demo_now + 240000))"
    by (simp_all add: demo_envelope_def)
  show ?thesis
    using demo_ia_ok
    unfolding validateEnvelope_iff [OF j(1) demo_dates(1) j(2) demo_dates(2)]
    by (simp add: window_ok_def demo_envelope_def ALLOWED_TOP_LEVEL_KEYS_def REQUIRED_TOP_LEVEL_KEYS_def ACTIONS_def
        ACTION_MAX_WINDOW_MS_def party_ok_def lower_hex_def list_all_iff is_hex_def is_upper_def is_digit_def has_key_def)
qed

text \<open>
  The window rules are void for a timestamp that has the right shape but is no date:
  \<open>Date.parse\<close> gives NaN and every comparison with it is false, so this envelope is accepted at
  every time, past or future, and never expires.
\<close>

theorem validateEnvelope_accepts_non_dates:
  "date_parse ''2026-99-99T00:00:00.000Z'' = None
   \<and> validateEnvelope (demo_envelope ''2026-99-99T00:00:00.000Z'' ''2026-99-99T00:00:00.000Z'') now = Inr ()"
proof -
  have s: "rfc3339_shape ''2026-99-99T00:00:00.000Z''" and d: "date_parse ''2026-99-99T00:00:00.000Z'' = None"
    by code_simp+
  then show ?thesis
    by (simp add: demo_envelope_ok check_window_def Let_def gt_time_def le_time_def plus_time_def minus_time_def)
qed

text \<open>
  What the SDK builds, the SDK accepts: a request-access envelope for two i-addresses with a
  random 32-digit nonce and a positive time to live validates when it is issued, and until 300
  seconds after it expires.
\<close>

theorem request_access_validates:
  assumes "iaddress_re (buyerIAddress p)" "iaddress_re (sellerIAddress p)" "lower_hex 32 nonce"
    and "0 < (case ttlSeconds p of None \<Rightarrow> 60 | Some t \<Rightarrow> t)"
    and "-62167219200000 \<le> now" "now < 253402300000000"
    and "now - CLOCK_SKEW_MS \<le> t"
    and "t \<le> now + min (case ttlSeconds p of None \<Rightarrow> 60 | Some t \<Rightarrow> t) 300 * 1000 + CLOCK_SKEW_MS"
  shows "validateEnvelope (buildRequestAccessEnvelope p now nonce) t = Inr ()"
proof -
  define ttl where "ttl = min (case ttlSeconds p of None \<Rightarrow> 60 | Some t \<Rightarrow> t) 300"
  let ?e = "buildRequestAccessEnvelope p now nonce"
  have ttl: "0 < ttl" "ttl \<le> 300" using assms(4) by (auto simp: ttl_def)
  have j: "jget ?e ''issuedAt'' = JStr (to_iso now)" "jget ?e ''expiresAt'' = JStr (to_iso (now + ttl * 1000))"
    by (simp_all add: buildRequestAccessEnvelope_def ttl_def Let_def)
  have d: "date_parse (to_iso now) = Some now" "date_parse (to_iso (now + ttl * 1000)) = Some (now + ttl * 1000)"
    using assms(5,6) ttl by (auto intro!: date_parse_to_iso_range)
  have "party_ok (party (buyerIAddress p) (buyerName p))" "party_ok (party (sellerIAddress p) (sellerName p))"
    using assms(1,2) by (auto simp: party_def party_ok_def split: option.splits)
  moreover have "window_ok now (now + ttl * 1000) 300000 t"
    using ttl assms(7,8) by (simp add: window_ok_def CLOCK_SKEW_MS_def ttl_def)
  ultimately show ?thesis
    unfolding validateEnvelope_iff [OF j(1) d(1) j(2) d(2)] using assms(3)
    by (simp add: buildRequestAccessEnvelope_def Let_def ALLOWED_TOP_LEVEL_KEYS_def REQUIRED_TOP_LEVEL_KEYS_def
        ACTIONS_def ACTION_MAX_WINDOW_MS_def has_key_def)
qed

definition demo_access :: access_params where
  "demo_access = \<lparr>buyerIAddress = demo_ia, buyerName = Some ''alice@'', sellerIAddress = demo_ia, sellerName = None,
     ephemeralPubKey = ''02ab'', ttlSeconds = Some 900\<rparr>"

theorem request_access_validates_witness:
  "validateEnvelope (buildRequestAccessEnvelope demo_access demo_now (replicate 32 (CHR ''a''))) demo_now = Inr ()"
  by (rule request_access_validates)
     (simp_all add: demo_access_def demo_ia_ok demo_now_def CLOCK_SKEW_MS_def lower_hex_def list_all_iff is_hex_def
       is_upper_def is_digit_def)

section \<open>The signature threshold\<close>

lemma any_signature_iff: "any_signature verify msg ad sigs \<longleftrightarrow> (\<exists>s \<in> set sigs. verify msg ad s = Inr True)"
  by (induction sigs) (auto split: sum.splits bool.splits)

definition signers :: "(string \<Rightarrow> string \<Rightarrow> string \<Rightarrow> (string, bool) result) \<Rightarrow> string \<Rightarrow> string list \<Rightarrow> string list \<Rightarrow> string set" where
  "signers verify msg sigs ads = {ad \<in> set ads. \<exists>s \<in> set sigs. verify msg ad s = Inr True}"

lemma finite_signers [simp]: "finite (signers verify msg sigs ads)"
  by (rule finite_subset [of _ "set ads"]) (auto simp: signers_def)

lemma js_le_count: "js_le t (num_int (int m)) \<Longrightarrow> m \<le> n \<Longrightarrow> js_le t (num_int (int n))"
  by (erule js_le_trans) simp

lemma match_loop_iff:
  "distinct matched \<Longrightarrow> match_loop verify msg sigs t ads matched
     \<longleftrightarrow> js_le t (num_int (int (card (set matched \<union> signers verify msg sigs ads))))"
proof (induction verify msg sigs t ads matched rule: match_loop.induct)
  case (1 verify msg sigs t matched)
  then show ?case by (simp add: signers_def distinct_card)
next
  case (2 verify msg sigs t ad ads matched)
  define m where "m = (if any_signature verify msg ad sigs then set_add matched ad else matched)"
  have d: "distinct m" using 2(2) by (simp add: m_def)
  have S: "set m \<union> signers verify msg sigs ads = set matched \<union> signers verify msg sigs (ad # ads)"
    by (auto simp: m_def signers_def any_signature_iff)
  have "length m \<le> card (set m \<union> signers verify msg sigs ads)"
    using d card_mono [of "set m \<union> signers verify msg sigs ads" "set m"] by (simp add: distinct_card)
  then have "js_le t (num_int (int (length m))) \<Longrightarrow> js_le t (num_int (int (card (set m \<union> signers verify msg sigs ads))))"
    by (rule js_le_count [rotated])
  then show ?case
    using 2(1) [OF m_def _ d] by (auto simp: Let_def m_def [symmetric] S)
qed

text \<open>
  C20. A signature list is accepted exactly when enough distinct primary addresses of the resolved
  identity have a signature that verifies: repeating an address or a signature adds nothing, no
  keys or no signatures is a refusal, and a threshold that is no positive number counts as one.
\<close>

theorem verifyCanonicalSignatures_iff:
  "verifyCanonicalSignatures canonicalize verify e sigs keys = Inr True \<longleftrightarrow>
     sigs \<noteq> [] \<and> (\<exists>msg k. canonicalBytes canonicalize e = Inr msg \<and> keys = Inr k \<and> primaryAddresses k \<noteq> []
       \<and> js_le (sig_threshold (minimumSignatures k)) (num_int (int (card (signers verify msg sigs (primaryAddresses k))))))"
proof (cases keys)
  case (Inr k)
  then show ?thesis
    using match_loop_iff [of "[]" verify _ sigs "sig_threshold (minimumSignatures k)" "primaryAddresses k"]
    by (auto simp: verifyCanonicalSignatures_def bind_r_eq_Inr)
qed (auto simp: verifyCanonicalSignatures_def bind_r_eq_Inr)

end
