(* ===== verification/CreditWatcher.thy ===== *)
theory CreditWatcher
  imports JsParse Messages
begin

text \<open>
  The buyer's auto top-up, \<open>src/buyer/credit-watcher.ts\<close>. \<open>maybeTopUp\<close> is asynchronous: it
  decides, then awaits the send, the signature and the report, while other signals may arrive.
  A step is one signal or one answer; the continuation in flight is the field \<open>flight\<close>, and
  what the watcher asks of its dependencies is the list of effects a step returns. Times are
  integer milliseconds, amounts are binary64. \<open>c_num_str\<close> is the text a template prints for the
  amount.
\<close>

section \<open>Configuration and state\<close>

record seller =
  sellerVerusId :: string
  buyerVerusId :: string
  payAddress :: string

record policy =
  threshold :: jsnum
  topUpAmount :: jsnum
  dailyCapVrsc :: jsnum
  minIntervalSec :: jsnum

record config =
  c_seller :: seller
  c_policy :: policy
  c_num_str :: "jsnum \<Rightarrow> string"

text \<open>Where a top-up in flight is suspended, with the local variables it keeps.\<close>

datatype flight =
    AwaitSend int
  | AwaitSign int string string int string
  | AwaitReport int string

record watcher =
  pending :: bool
  lastTopUpAt :: int
  spends :: "(int \<times> jsnum) list"
  flight :: "flight option"

datatype stage = Send | Report

datatype alert =
    DailyCapReached string jsnum jsnum jsnum
  | TopupFailed string stage string

datatype top_up =
    ToppedUp string jsnum
  | AboveThreshold
  | RateLimited
  | CapReached
  | TopUpError string
  | NoOp

record deposit_report =
  r_buyer :: string
  r_seller :: string
  r_txid :: string
  r_amount :: jsnum
  r_nonce :: string
  r_timestamp :: int
  r_signature :: string
  r_message :: string

datatype effect =
    SendVrsc string jsnum
  | SignMessage string
  | ReportDeposit deposit_report
  | Alert alert
  | Return top_up

text \<open>A balance as the webhook sends it.\<close>

datatype loose_num = LNum jsnum | LStr string | LOther

record credit_low =
  l_seller :: string
  l_balance :: loose_num
  l_payAddress :: string

text \<open>Signals carry the clock's value; answers carry the dependency's outcome (and the clock and nonce read after it).\<close>

datatype event =
    ObserveRemaining jsnum int
  | OnCreditLow credit_low int
  | SendAnswer "(string, string) result" int string
  | SignAnswer "(string, string) result"
  | ReportAnswer "(string, unit) result"

definition DAY_MS :: int where "DAY_MS = 24 * 3600 * 1000"

definition init_watcher :: watcher where
  "init_watcher = \<lparr>pending = False, lastTopUpAt = 0, spends = [], flight = None\<rparr>"

section \<open>Bookkeeping\<close>

definition toNumber :: "loose_num \<Rightarrow> jsnum" where
  "toNumber v = (case v of LNum n \<Rightarrow> n | LStr s \<Rightarrow> parse_float s | LOther \<Rightarrow> NaN)"

definition sum_amounts :: "(int \<times> jsnum) list \<Rightarrow> jsnum" where
  "sum_amounts xs = foldl (\<lambda>t s. js_add t (snd s)) (Fin 0) xs"

definition in_window :: "int \<Rightarrow> (int \<times> jsnum) list \<Rightarrow> (int \<times> jsnum) list" where
  "in_window now xs = filter (\<lambda>s. now - DAY_MS < fst s) xs"

definition spentInWindow :: "watcher \<Rightarrow> int \<Rightarrow> jsnum" where
  "spentInWindow w now = foldl (\<lambda>t s. if now - DAY_MS < fst s then js_add t (snd s) else t) (Fin 0) (spends w)"

definition recordSpend :: "jsnum \<Rightarrow> int \<Rightarrow> watcher \<Rightarrow> watcher" where
  "recordSpend amount t w = w\<lparr>spends := in_window t (spends w) @ [(t, amount)]\<rparr>"

section \<open>The decision and its continuations\<close>

definition maybeTopUp :: "config \<Rightarrow> watcher \<Rightarrow> int \<Rightarrow> watcher \<times> effect list" where
  "maybeTopUp c w now =
     (let p = c_policy c; sl = c_seller c in
      if pending w then (w, [Return RateLimited])
      else if 0 < lastTopUpAt w
          \<and> js_lt (num_int (now - lastTopUpAt w)) (js_mul (minIntervalSec p) (num_int 1000))
      then (w, [Return RateLimited])
      else let spentToday = spentInWindow w now in
      if js_lt (dailyCapVrsc p) (js_add spentToday (topUpAmount p))
      then (w, [Alert (DailyCapReached (sellerVerusId sl) spentToday (dailyCapVrsc p) (topUpAmount p)),
                Return CapReached])
      else (w\<lparr>pending := True, flight := Some (AwaitSend now)\<rparr>,
            [SendVrsc (payAddress sl) (topUpAmount p)]))"

definition land :: "watcher \<Rightarrow> watcher" where
  "land w = w\<lparr>pending := False, flight := None\<rparr>"

definition after_send :: "config \<Rightarrow> watcher \<Rightarrow> int \<Rightarrow> (string, string) result \<Rightarrow> int \<Rightarrow> string \<Rightarrow> watcher \<times> effect list" where
  "after_send c w now answer clock nonce =
     (let sl = c_seller c in case answer of
        Inl e \<Rightarrow> (land w, [Alert (TopupFailed (sellerVerusId sl) Send e), Return (TopUpError e)])
      | Inr tid \<Rightarrow>
          (let ts = clock div 1000;
               message = buildDepositReportMessage \<lparr>d_buyer = buyerVerusId sl, d_seller = sellerVerusId sl,
                 d_txid = tid, d_amount = c_num_str c (topUpAmount (c_policy c)), d_nonce = nonce, d_ts = ts\<rparr> in
           (w\<lparr>flight := Some (AwaitSign now tid nonce ts message)\<rparr>, [SignMessage message])))"

definition after_sign ::
  "config \<Rightarrow> watcher \<Rightarrow> int \<Rightarrow> string \<Rightarrow> string \<Rightarrow> int \<Rightarrow> string \<Rightarrow> (string, string) result \<Rightarrow> watcher \<times> effect list" where
  "after_sign c w now tid nonce ts message answer =
     (let sl = c_seller c in case answer of
        Inl e \<Rightarrow> (land w, [Alert (TopupFailed (sellerVerusId sl) Report e), Return (TopUpError e)])
      | Inr sig \<Rightarrow>
          (w\<lparr>flight := Some (AwaitReport now tid)\<rparr>,
           [ReportDeposit \<lparr>r_buyer = buyerVerusId sl, r_seller = sellerVerusId sl, r_txid = tid,
              r_amount = topUpAmount (c_policy c), r_nonce = nonce, r_timestamp = ts,
              r_signature = sig, r_message = message\<rparr>]))"

definition after_report :: "config \<Rightarrow> watcher \<Rightarrow> int \<Rightarrow> string \<Rightarrow> (string, unit) result \<Rightarrow> watcher \<times> effect list" where
  "after_report c w now tid answer =
     (let amount = topUpAmount (c_policy c);
          w' = land ((recordSpend amount now w)\<lparr>lastTopUpAt := now\<rparr>) in
      case answer of
        Inl e \<Rightarrow> (w', [Alert (TopupFailed (sellerVerusId (c_seller c)) Report e), Return (TopUpError e)])
      | Inr _ \<Rightarrow> (w', [Return (ToppedUp tid amount)]))"

section \<open>Signals\<close>

definition observe :: "config \<Rightarrow> watcher \<Rightarrow> jsnum \<Rightarrow> int \<Rightarrow> watcher \<times> effect list" where
  "observe c w remaining now =
     (if \<not> is_finite remaining then (w, [Return NoOp])
      else if js_le (threshold (c_policy c)) remaining then (w, [Return AboveThreshold])
      else maybeTopUp c w now)"

definition onCreditLow :: "config \<Rightarrow> watcher \<Rightarrow> credit_low \<Rightarrow> int \<Rightarrow> watcher \<times> effect list" where
  "onCreditLow c w e now =
     (if l_seller e \<noteq> sellerVerusId (c_seller c) then (w, [Return NoOp])
      else let balance = toNumber (l_balance e) in
      if \<not> is_finite balance then (w, [Return NoOp])
      else if js_le (threshold (c_policy c)) balance then (w, [Return AboveThreshold])
      else maybeTopUp c w now)"

text \<open>An answer with nothing awaiting it does nothing.\<close>

fun watch :: "config \<Rightarrow> watcher \<Rightarrow> event \<Rightarrow> watcher \<times> effect list" where
  "watch c w (ObserveRemaining r now) = observe c w r now"
| "watch c w (OnCreditLow e now) = onCreditLow c w e now"
| "watch c w (SendAnswer a clock nonce) =
     (case flight w of Some (AwaitSend now) \<Rightarrow> after_send c w now a clock nonce | _ \<Rightarrow> (w, []))"
| "watch c w (SignAnswer a) =
     (case flight w of Some (AwaitSign now tid nonce ts m) \<Rightarrow> after_sign c w now tid nonce ts m a | _ \<Rightarrow> (w, []))"
| "watch c w (ReportAnswer a) =
     (case flight w of Some (AwaitReport now tid) \<Rightarrow> after_report c w now tid a | _ \<Rightarrow> (w, []))"

text \<open>\<open>status()\<close>.\<close>

definition status :: "watcher \<Rightarrow> int \<Rightarrow> jsnum \<times> int \<times> bool" where
  "status w now = (spentInWindow w now, lastTopUpAt w, pending w)"

section \<open>The daily cap\<close>

text \<open>
  The history beside the machine: every send that went out and succeeded, with the time of
  its decision, in order. \<open>sent\<close> reads it off a run.
\<close>

definition sent_of :: "config \<Rightarrow> watcher \<Rightarrow> event \<Rightarrow> (int \<times> jsnum) list" where
  "sent_of c w ev = (case ev of
     SendAnswer (Inr _) _ _ \<Rightarrow>
       (case flight w of Some (AwaitSend now) \<Rightarrow> [(now, topUpAmount (c_policy c))] | _ \<Rightarrow> [])
   | _ \<Rightarrow> [])"

fun sent_run :: "config \<Rightarrow> watcher \<Rightarrow> event list \<Rightarrow> (int \<times> jsnum) list" where
  "sent_run c w [] = []"
| "sent_run c w (ev # evs) = sent_of c w ev @ sent_run c (fst (watch c w ev)) evs"

lemma sent_run_append:
  "sent_run c w (es @ fs) = sent_run c w es @ sent_run c (foldl (\<lambda>w e. fst (watch c w e)) w es) fs"
  by (induction es arbitrary: w) auto

text \<open>Two concrete sends the cap should have stopped: the signer fails after the first one went out.\<close>

definition demo_config :: config where
  "demo_config = \<lparr>c_seller = \<lparr>sellerVerusId = ''bob@'', buyerVerusId = ''alice@'', payAddress = ''Rbob''\<rparr>,
     c_policy = \<lparr>threshold = num_int 2, topUpAmount = num_int 10, dailyCapVrsc = num_int 10,
       minIntervalSec = num_int 60\<rparr>, c_num_str = (\<lambda>_. ''10'')\<rparr>"

definition demo_signer_down :: "event list" where
  "demo_signer_down =
     [ObserveRemaining (num_int 1) 1000, SendAnswer (Inr ''t1'') 1000 ''n1'', SignAnswer (Inl ''broker down''),
      ObserveRemaining (num_int 1) 2000, SendAnswer (Inr ''t2'') 2000 ''n2'', SignAnswer (Inl ''broker down'')]"

lemmas watch_eval = demo_config_def demo_signer_down_def init_watcher_def observe_def maybeTopUp_def
  spentInWindow_def after_send_def after_sign_def after_report_def recordSpend_def in_window_def
  land_def sent_of_def DAY_MS_def Let_def fl_eval

text \<open>
  When the broker cannot sign the deposit report, the send that already left the wallet is
  neither counted against the daily cap nor debounced: with a cap of 10 VRSC the watcher sends
  20 within one second.
\<close>

theorem daily_cap_exceeded_when_signing_fails:
  "sum_amounts (sent_run demo_config init_watcher demo_signer_down) = num_int 20
   \<and> dailyCapVrsc (c_policy demo_config) = num_int 10"
  by (simp add: sum_amounts_def watch_eval)

section \<open>One top-up at a time, to one address\<close>

definition watcher_inv :: "watcher \<Rightarrow> bool" where
  "watcher_inv w = (pending w \<longleftrightarrow> flight w \<noteq> None)"

lemmas watch_defs = observe_def onCreditLow_def maybeTopUp_def after_send_def after_sign_def after_report_def
  land_def recordSpend_def Let_def

lemma watch_inv: "watcher_inv w \<Longrightarrow> watcher_inv (fst (watch c w ev))"
  by (cases ev) (auto simp: watcher_inv_def watch_defs split: option.splits flight.splits sum.splits)

interpretation cw: invariant_machine "\<lambda>w ev. fst (watch c w ev)" watcher_inv for c
  by unfold_locales (rule watch_inv)

lemma init_watcher_inv: "watcher_inv init_watcher"
  by (simp add: watcher_inv_def init_watcher_def)

text \<open>
  A burst of low signals tops up once, and only to the configured seller: after any
  history, a signal makes the watcher send nothing while a top-up is in flight, and whatever
  it sends is the policy's amount to the configured pay address, never the address of a webhook.
\<close>

theorem one_top_up_at_a_time:
  assumes "w = foldl (\<lambda>w ev. fst (watch c w ev)) init_watcher evs"
    and "SendVrsc ad am \<in> set (snd (watch c w ev))"
  shows "\<not> pending w \<and> flight w = None \<and> ad = payAddress (c_seller c) \<and> am = topUpAmount (c_policy c)
    \<and> pending (fst (watch c w ev))"
proof -
  have "watcher_inv w" unfolding assms(1) by (rule cw.run_inv) (rule init_watcher_inv)
  with assms(2) show ?thesis
    by (cases ev) (auto simp: watcher_inv_def watch_defs split: option.splits flight.splits sum.splits if_splits)
qed

theorem one_top_up_at_a_time_witness:
  "\<exists>w. w = foldl (\<lambda>w ev. fst (watch demo_config w ev)) init_watcher []
     \<and> pending (fst (watch demo_config w (ObserveRemaining (num_int 1) 1000)))"
  using one_top_up_at_a_time [of init_watcher demo_config "[]" "''Rbob''" "num_int 10" "ObserveRemaining (num_int 1) 1000"]
  by (simp add: watch_eval)

section \<open>The cap holds whenever the signer answers\<close>

fun clocks_from :: "int \<Rightarrow> event list \<Rightarrow> bool" where
  "clocks_from t [] = True"
| "clocks_from t (ObserveRemaining _ now # evs) = (t \<le> now \<and> clocks_from now evs)"
| "clocks_from t (OnCreditLow _ now # evs) = (t \<le> now \<and> clocks_from now evs)"
| "clocks_from t (_ # evs) = clocks_from t evs"

definition signer_up :: "event list \<Rightarrow> bool" where
  "signer_up evs = (\<forall>e. SignAnswer (Inl e) \<notin> set evs)"

text \<open>Each send, with those of the 24 hours before it, stays within the cap.\<close>

definition within_cap :: "config \<Rightarrow> (int \<times> jsnum) list \<Rightarrow> bool" where
  "within_cap c xs = (\<forall>i < length xs.
     \<not> js_lt (dailyCapVrsc (c_policy c)) (sum_amounts (in_window (fst (xs ! i)) (take (Suc i) xs))))"

lemma spentInWindow_eq: "spentInWindow w now = sum_amounts (in_window now (spends w))"
proof -
  have "foldl (\<lambda>t s. if now - DAY_MS < fst s then js_add t (snd s) else t) a xs
      = foldl (\<lambda>t s. js_add t (snd s)) a (in_window now xs)" for a xs
    by (induction xs arbitrary: a) (auto simp: in_window_def)
  then show ?thesis by (simp add: spentInWindow_def sum_amounts_def)
qed

lemma in_window_append [simp]: "in_window t (xs @ ys) = in_window t xs @ in_window t ys"
  by (simp add: in_window_def)

lemma in_window_Nil [simp]: "in_window t [] = []"
  by (simp add: in_window_def)

lemma in_window_again: "s \<le> t \<Longrightarrow> in_window t (in_window s xs) = in_window t xs"
  by (induction xs) (auto simp: in_window_def)

lemma in_window_now [simp]: "in_window t [(t, a)] = [(t, a)]"
  by (simp add: in_window_def DAY_MS_def)

lemma sum_amounts_snoc: "sum_amounts (xs @ [(t, a)]) = js_add (sum_amounts xs) a"
  by (simp add: sum_amounts_def)

lemma within_cap_snoc:
  assumes "within_cap c xs" "\<not> js_lt (dailyCapVrsc (c_policy c)) (js_add (sum_amounts (in_window t xs)) a)"
  shows "within_cap c (xs @ [(t, a)])"
  using assms by (auto simp: within_cap_def nth_append less_Suc_eq sum_amounts_snoc)

text \<open>The ledger against the history \<open>g\<close>, at any later time.\<close>

definition ledger_ok :: "config \<Rightarrow> watcher \<Rightarrow> (int \<times> jsnum) list \<Rightarrow> int \<Rightarrow> bool" where
  "ledger_ok c w g t = (within_cap c g \<and> watcher_inv w \<and> (
     let A = topUpAmount (c_policy c);
         same = (\<lambda>h. \<forall>u \<ge> t. in_window u (spends w) = in_window u h) in
     case flight w of
       None \<Rightarrow> same g
     | Some (AwaitSend now) \<Rightarrow> same g \<and> now \<le> t
         \<and> \<not> js_lt (dailyCapVrsc (c_policy c)) (js_add (sum_amounts (in_window now g)) A)
     | Some (AwaitSign now _ _ _ _) \<Rightarrow> now \<le> t \<and> (\<exists>h. g = h @ [(now, A)] \<and> same h)
     | Some (AwaitReport now _) \<Rightarrow> now \<le> t \<and> (\<exists>h. g = h @ [(now, A)] \<and> same h)))"

lemma ledger_later: "ledger_ok c w g t \<Longrightarrow> t \<le> u \<Longrightarrow> ledger_ok c w g u"
  by (auto simp: ledger_ok_def Let_def split: option.splits flight.splits)

lemma ledger_signal:
  assumes "ledger_ok c w g now" "(w', es) = maybeTopUp c w now"
  shows "ledger_ok c w' g now"
  using assms
  by (auto simp: ledger_ok_def maybeTopUp_def Let_def watcher_inv_def spentInWindow_eq
      split: option.splits flight.splits if_splits)

definition event_clock :: "int \<Rightarrow> event \<Rightarrow> int" where
  "event_clock t ev = (case ev of ObserveRemaining _ now \<Rightarrow> now | OnCreditLow _ now \<Rightarrow> now | _ \<Rightarrow> t)"

lemma ledger_step:
  assumes L: "ledger_ok c w g t" and t: "t \<le> event_clock t ev" and s: "\<And>e. ev \<noteq> SignAnswer (Inl e)"
  shows "ledger_ok c (fst (watch c w ev)) (g @ sent_of c w ev) (event_clock t ev)"
proof (cases ev)
  case (ObserveRemaining r now)
  with L t have "ledger_ok c w g now" by (auto intro: ledger_later simp: event_clock_def)
  then show ?thesis
    using ledger_signal [of c w g now] ObserveRemaining
    by (auto simp: observe_def sent_of_def event_clock_def) (metis prod.collapse)
next
  case (OnCreditLow e now)
  with L t have "ledger_ok c w g now" by (auto intro: ledger_later simp: event_clock_def)
  then show ?thesis
    using ledger_signal [of c w g now] OnCreditLow
    by (auto simp: onCreditLow_def sent_of_def event_clock_def Let_def) (metis prod.collapse)
next
  case (SendAnswer a clock nonce)
  with L show ?thesis
    by (auto simp: ledger_ok_def Let_def watcher_inv_def after_send_def land_def sent_of_def event_clock_def
        within_cap_snoc split: option.splits flight.splits sum.splits)
next
  case (SignAnswer a)
  with L s show ?thesis
    by (cases a)
       (auto simp: ledger_ok_def Let_def watcher_inv_def after_sign_def sent_of_def event_clock_def
        split: option.splits flight.splits)
next
  case (ReportAnswer a)
  with L show ?thesis
    by (auto simp: ledger_ok_def Let_def watcher_inv_def after_report_def recordSpend_def land_def sent_of_def
        event_clock_def in_window_again split: option.splits flight.splits sum.splits)
qed

lemma clocks_from_Cons: "clocks_from t (ev # evs) \<longleftrightarrow> t \<le> event_clock t ev \<and> clocks_from (event_clock t ev) evs"
  by (cases ev) (auto simp: event_clock_def)

lemma ledger_run:
  "ledger_ok c w g t \<Longrightarrow> clocks_from t evs \<Longrightarrow> signer_up evs \<Longrightarrow> within_cap c (g @ sent_run c w evs)"
proof (induction evs arbitrary: w g t)
  case Nil
  then show ?case by (simp add: ledger_ok_def)
next
  case (Cons ev evs)
  then have "ledger_ok c (fst (watch c w ev)) (g @ sent_of c w ev) (event_clock t ev)"
    by (intro ledger_step) (auto simp: clocks_from_Cons signer_up_def)
  with Cons show ?case by (fastforce simp: clocks_from_Cons signer_up_def)
qed

text \<open>
  C3. With a signer that answers, the cap is a ceiling: over any run with a clock that does not
  go back, failed sends and failed reports included, each send and those of the 24 hours before
  it sum to no more than the daily cap.
\<close>

theorem daily_cap_holds:
  assumes "clocks_from t evs" and "signer_up evs"
  shows "within_cap c (sent_run c init_watcher evs)"
proof -
  have "ledger_ok c init_watcher [] t"
    by (simp add: ledger_ok_def init_watcher_def watcher_inv_def within_cap_def)
  from ledger_run [OF this assms] show ?thesis by simp
qed

definition demo_run :: "event list" where
  "demo_run = [ObserveRemaining (num_int 1) 1000, SendAnswer (Inr ''t1'') 1000 ''n1'', SignAnswer (Inr ''sig''),
     ReportAnswer (Inl ''dispatcher down''), ObserveRemaining (num_int 1) 90000]"

theorem daily_cap_holds_witness:
  "within_cap demo_config (sent_run demo_config init_watcher demo_run)
   \<and> sent_run demo_config init_watcher demo_run = [(1000, num_int 10)]"
  using daily_cap_holds [of 0 demo_run demo_config]
  by (simp add: demo_run_def signer_up_def watch_eval)

end
