(* ===== verification/BuyerWorkspace.thy ===== *)
theory BuyerWorkspace
  imports JsValue Paths "HOL-Library.List_Lexorder"
begin

text \<open>
  The buyer's side of a workspace, \<open>src/buyer/workspace.ts\<close>: the scan that finds what is excluded, and
  the handler that lists, reads and writes files for the seller's calls. The state is the file tree below the
  project directory, the counters, the writes that wait for the buyer's approval and the replies sent. The
  arguments of a call are JSON values of any shape. Hashing, UTF-8, JSON text and \<open>Buffer.from\<close> of a value
  that is not a string are the record \<open>ws_lib\<close>.
\<close>

section \<open>What is excluded\<close>

definition MAX_FILE_SIZE :: nat where "MAX_FILE_SIZE = 10 * 1024 * 1024"
definition MAX_DIR_ENTRIES :: nat where "MAX_DIR_ENTRIES = 10000"
definition MAX_SESSION_TRANSFER :: nat where "MAX_SESSION_TRANSFER = 500 * 1024 * 1024"

definition AUTO_EXCLUDE_PATTERNS :: "string list" where
  "AUTO_EXCLUDE_PATTERNS = [''.env'', ''.env.*'', ''.ssh/'', ''.gnupg/'', ''*.pem'', ''*.key'', ''*.p12'',
     ''credentials.json'', ''secrets.*'', ''node_modules/'', ''.git/'', ''.DS_Store'', ''Thumbs.db'']"

definition base_name :: "string \<Rightarrow> string" where
  "base_name p = last (split_on CHR ''/'' p)"

definition pattern_hits :: "string \<Rightarrow> bool \<Rightarrow> string \<Rightarrow> bool" where
  "pattern_hits name dir pattern =
     (ends_with pattern ''/'' \<and> dir \<and> name = butlast pattern
      \<or> starts_with pattern ''*.'' \<and> ends_with name (drop 1 pattern)
      \<or> name = pattern
      \<or> ends_with pattern ''*'' \<and> starts_with name (butlast pattern))"

definition shouldExclude :: "string \<Rightarrow> bool \<Rightarrow> bool" where
  "shouldExclude relPath dir = list_ex (pattern_hits (base_name relPath) dir) AUTO_EXCLUDE_PATTERNS"

definition getExcludeReason :: "string \<Rightarrow> string" where
  "getExcludeReason relPath =
     (let name = base_name relPath in
      if starts_with name ''.env'' then ''environment variables''
      else if name = ''.ssh'' \<or> name = ''.gnupg'' then ''cryptographic keys''
      else if ends_with name ''.pem'' \<or> ends_with name ''.key'' \<or> ends_with name ''.p12'' then ''certificates/keys''
      else if name = ''credentials.json'' \<or> starts_with name ''secrets'' then ''credentials''
      else if name = ''node_modules'' then ''too large''
      else if name = ''.git'' then ''version control''
      else if name = ''.DS_Store'' \<or> name = ''Thumbs.db'' then ''OS metadata''
      else ''auto-excluded'')"

record exclusion =
  ex_path :: string
  ex_reason :: string

text \<open>The scan: the files found, each with its bytes, and the exclusions, in the order of the directories.\<close>

fun walkDir :: "string list \<Rightarrow> (string \<times> node) list \<Rightarrow> (string list \<times> nat list) list \<times> exclusion list" where
  "walkDir dir [] = ([], [])"
| "walkDir dir ((name, n) # es) =
     (let path = dir @ [name]; rel = rel_str path;
          (fs, xs) = (if shouldExclude rel (is_dir n)
                      then ([], [\<lparr>ex_path = rel @ (if is_dir n then ''/'' else []), ex_reason = getExcludeReason rel\<rparr>])
                      else case n of FDir sub \<Rightarrow> walkDir path sub | FFile bs \<Rightarrow> ([(path, bs)], []) | FOther \<Rightarrow> ([], []));
          (fs', xs') = walkDir dir es in
      (fs @ fs', xs @ xs'))"

definition strip_slash :: "string \<Rightarrow> string" where
  "strip_slash p = (if ends_with p ''/'' then butlast p else p)"

definition isExcluded :: "string \<Rightarrow> exclusion list \<Rightarrow> bool" where
  "isExcluded rel xs = list_ex (\<lambda>x. rel = strip_slash (ex_path x) \<or> starts_with rel (strip_slash (ex_path x) @ ''/'')) xs"

definition isBinary :: "nat list \<Rightarrow> bool" where
  "isBinary buffer = list_ex (\<lambda>b. b = 0) (take 8192 buffer)"

section \<open>State and replies\<close>

record ws_lib =
  wl_sha256 :: "nat list \<Rightarrow> string"
  wl_text :: "nat list \<Rightarrow> string"
  wl_bytes :: "string \<Rightarrow> nat list"
  wl_pretty :: "jv \<Rightarrow> string"
  wl_parse :: "string \<Rightarrow> jv option"
  wl_buffer :: "jv \<Rightarrow> nat option"

record bw_config =
  bc_root :: "string list"
  bc_read :: bool
  bc_write :: bool
  bc_auto :: bool
  bc_gate :: bool

datatype refusal = WriteDenied | FileExcluded | TransferLimit | WriteRejected | UnknownTool jv
  | Outside | NotADirectory string | NotFound string | FileTooLarge nat | BinaryFile | ContentTooLarge nat | Thrown

record payload =
  pl_text :: string
  pl_size :: "nat option"
  pl_hash :: "string option"
  pl_count :: "nat option"

record reply =
  rp_id :: jv
  rp_result :: "(refusal, payload) result"
  rp_op :: jv
  rp_path :: jv
  rp_approved :: "bool option"
  rp_blocked :: bool

record pending_write =
  pw_id :: jv
  pw_path :: jv
  pw_content :: jv

record bw_state =
  bs_tree :: node
  bs_exclusions :: "exclusion list"
  bs_transfer :: nat
  bs_reads :: nat
  bs_writes :: nat
  bs_lists :: nat
  bs_total :: nat
  bs_waiting :: "pending_write list"
  bs_sent :: "reply list"
  bs_socket :: bool
  bs_connected :: bool
  bs_keepalive :: bool

definition sendResult :: "reply \<Rightarrow> bw_state \<Rightarrow> bw_state" where
  "sendResult r s = (if bs_socket s then s\<lparr>bs_sent := bs_sent s @ [r]\<rparr> else s)"

definition refuse :: "jv \<Rightarrow> jv \<Rightarrow> jv \<Rightarrow> refusal \<Rightarrow> bw_state \<Rightarrow> bw_state" where
  "refuse i oper path why = sendResult
     \<lparr>rp_id = i, rp_result = Inl why, rp_op = oper, rp_path = path,
      rp_approved = (if why = WriteRejected then Some False else None), rp_blocked = (why \<noteq> WriteRejected)\<rparr>"

definition serve :: "jv \<Rightarrow> string \<Rightarrow> string \<Rightarrow> payload \<Rightarrow> bw_state \<Rightarrow> bw_state" where
  "serve i oper path p = sendResult
     \<lparr>rp_id = i, rp_result = Inr p, rp_op = JStr oper, rp_path = JStr path,
      rp_approved = (if oper = ''write'' then Some True else None), rp_blocked = False\<rparr>"

section \<open>The tools\<close>

definition has_dotdot :: "string \<Rightarrow> bool" where
  "has_dotdot p = (''..'' \<in> set (concat (map (split_on (CHR 0x5C)) (split_on CHR ''/'' p))))"

definition resolveSafe :: "string list \<Rightarrow> jv \<Rightarrow> string list option" where
  "resolveSafe dir v =
     (if \<not> is_string v \<or> str_of v = [] then None
      else if has_dotdot (str_of v) then None
      else let full = path_resolve dir (str_of v) in
           if \<not> starts_with (path_str full) (path_str dir @ ''/'') \<and> path_str full \<noteq> path_str dir then None
           else Some full)"

text \<open>The entry at an absolute path below the root.\<close>

definition entry_at :: "bw_config \<Rightarrow> bw_state \<Rightarrow> string list \<Rightarrow> node option" where
  "entry_at cfg s full = tree_lookup (bs_tree s) (drop (length (bc_root cfg)) full)"

definition entry_json :: "string \<times> node \<Rightarrow> jv" where
  "entry_json e = JObj ([(''name'', JStr (fst e)), (''type'', JStr (if is_dir (snd e) then ''directory'' else ''file''))]
     @ (case snd e of FFile bs \<Rightarrow> [(''size'', JNum (num_int (int (length bs))))] | _ \<Rightarrow> []))"

definition execListDirectory :: "ws_lib \<Rightarrow> bw_config \<Rightarrow> jv \<Rightarrow> jv \<Rightarrow> bw_state \<Rightarrow> bw_state" where
  "execListDirectory lib cfg i path s =
     (case resolveSafe (bc_root cfg) path of
        None \<Rightarrow> refuse i (JStr ''list_dir'') path Outside s
      | Some full \<Rightarrow>
          (case entry_at cfg s full of
             Some (FDir es) \<Rightarrow>
               serve i ''list_dir'' (str_of path)
                 \<lparr>pl_text = wl_pretty lib (JArr (map entry_json (take MAX_DIR_ENTRIES es))), pl_size = None, pl_hash = None,
                  pl_count = Some (length (take MAX_DIR_ENTRIES es))\<rparr>
                 (s\<lparr>bs_lists := bs_lists s + 1\<rparr>)
           | _ \<Rightarrow> refuse i (JStr ''list_dir'') path (NotADirectory (str_of path)) s))"

definition execReadFile :: "ws_lib \<Rightarrow> bw_config \<Rightarrow> jv \<Rightarrow> jv \<Rightarrow> bw_state \<Rightarrow> bw_state" where
  "execReadFile lib cfg i path s =
     (case resolveSafe (bc_root cfg) path of
        None \<Rightarrow> refuse i (JStr ''read'') path Outside s
      | Some full \<Rightarrow>
          (case entry_at cfg s full of
             Some (FFile bs) \<Rightarrow>
               if length bs > MAX_FILE_SIZE then refuse i (JStr ''read'') path (FileTooLarge (length bs)) s
               else if isBinary bs then refuse i (JStr ''read'') path BinaryFile s
               else serve i ''read'' (str_of path)
                 \<lparr>pl_text = wl_text lib bs, pl_size = Some (length bs), pl_hash = Some (''sha256:'' @ wl_sha256 lib bs), pl_count = None\<rparr>
                 (s\<lparr>bs_reads := bs_reads s + 1, bs_total := bs_total s + length bs, bs_transfer := bs_transfer s + length bs\<rparr>)
           | _ \<Rightarrow> refuse i (JStr ''read'') path (NotFound (str_of path)) s))"

text \<open>
  \<open>Buffer.from\<close> of content that is no string throws or makes a buffer of some length; then writing it throws.
  The directories above have been made by then. An exception of a tool is a refusal under the tool's own name.
\<close>

definition execWriteFile :: "ws_lib \<Rightarrow> bw_config \<Rightarrow> jv \<Rightarrow> jv \<Rightarrow> jv \<Rightarrow> bw_state \<Rightarrow> bw_state" where
  "execWriteFile lib cfg i path content s =
     (case resolveSafe (bc_root cfg) path of
        None \<Rightarrow> refuse i (JStr ''write'') path Outside s
      | Some full \<Rightarrow>
          (case (if is_string content then Some (length (wl_bytes lib (str_of content))) else wl_buffer lib content) of
             None \<Rightarrow> refuse i (JStr ''write_file'') path Thrown s
           | Some n \<Rightarrow>
               if n > MAX_FILE_SIZE then refuse i (JStr ''write'') path (ContentTooLarge n) s
               else if \<not> is_string content then
                 refuse i (JStr ''write_file'') path Thrown
                   (case tree_mkdir (bs_tree s) (butlast (drop (length (bc_root cfg)) full)) of
                      None \<Rightarrow> s | Some t \<Rightarrow> s\<lparr>bs_tree := t\<rparr>)
               else let bs = wl_bytes lib (str_of content) in
                 case tree_write (bs_tree s) (drop (length (bc_root cfg)) full) bs of
                   None \<Rightarrow> refuse i (JStr ''write_file'') path Thrown s
                 | Some t \<Rightarrow>
                     serve i ''write'' (str_of path)
                       \<lparr>pl_text = ''Written: '' @ str_of path @ '' ('' @ show_nat n @ '' bytes)'',
                        pl_size = Some n, pl_hash = Some (''sha256:'' @ wl_sha256 lib bs), pl_count = None\<rparr>
                       (s\<lparr>bs_tree := t, bs_writes := bs_writes s + 1, bs_total := bs_total s + n,
                          bs_transfer := bs_transfer s + n\<rparr>)))"

definition exec_tool :: "ws_lib \<Rightarrow> bw_config \<Rightarrow> jv \<Rightarrow> jv \<Rightarrow> jv \<Rightarrow> jv \<Rightarrow> bw_state \<Rightarrow> bw_state" where
  "exec_tool lib cfg i tool path content s =
     (if tool = JStr ''list_directory'' then execListDirectory lib cfg i path s
      else if tool = JStr ''read_file'' then execReadFile lib cfg i path s
      else if tool = JStr ''write_file'' then execWriteFile lib cfg i path content s
      else refuse i tool path (UnknownTool tool) s)"

section \<open>Calls and events\<close>

text \<open>The test for exclusion throws on a path that is no string, when there are exclusions.\<close>

definition excluded_call :: "jv \<Rightarrow> exclusion list \<Rightarrow> bool option" where
  "excluded_call path xs = (if is_string path then Some (isExcluded (str_of path) xs) else if xs = [] then Some False else None)"

definition call_path :: "jv \<Rightarrow> jv" where
  "call_path params = (if jtruthy (jget params ''path'') then jget params ''path'' else JStr ''.'')"

definition handleMcpCall :: "ws_lib \<Rightarrow> bw_config \<Rightarrow> jv \<Rightarrow> bw_state \<Rightarrow> bw_state" where
  "handleMcpCall lib cfg data s =
     (let i = jget data ''id''; tool = jget data ''tool''; params = jget data ''params'';
          path = call_path params; writing = (tool = JStr ''write_file'') in
      if nullish data then s
      else if writing \<and> \<not> bc_write cfg then refuse i (JStr ''write'') path WriteDenied s
      else case excluded_call path (bs_exclusions s) of
        None \<Rightarrow> s
      | Some True \<Rightarrow> refuse i tool path FileExcluded s
      | Some False \<Rightarrow>
          if bs_transfer s > MAX_SESSION_TRANSFER then refuse i tool path TransferLimit s
          else if writing \<and> \<not> bc_auto cfg \<and> bc_gate cfg then
            (if nullish params then s
             else s\<lparr>bs_waiting := bs_waiting s @ [\<lparr>pw_id = i, pw_path = path, pw_content = jget params ''content''\<rparr>]\<rparr>)
          else if writing \<and> nullish params then refuse i tool path Thrown s
          else exec_tool lib cfg i tool path (jget params ''content'') s)"

text \<open>The \<open>k\<close>-th waiting write is approved, rejected, or its gate throws.\<close>

definition approve :: "ws_lib \<Rightarrow> bw_config \<Rightarrow> nat \<Rightarrow> bool option \<Rightarrow> bw_state \<Rightarrow> bw_state" where
  "approve lib cfg k answer s =
     (if k \<ge> length (bs_waiting s) then s
      else let w = bs_waiting s ! k; s' = s\<lparr>bs_waiting := take k (bs_waiting s) @ drop (Suc k) (bs_waiting s)\<rparr> in
        case answer of
          None \<Rightarrow> s'
        | Some False \<Rightarrow> refuse (pw_id w) (JStr ''write'') (pw_path w) WriteRejected s'
        | Some True \<Rightarrow> exec_tool lib cfg (pw_id w) (JStr ''write_file'') (pw_path w) (pw_content w) s')"

datatype bw_event = SocketUp | Called jv | Answered nat "bool option" | StatusChanged string | SocketLost | Reconnected | Disconnected

fun bw_step :: "ws_lib \<Rightarrow> bw_config \<Rightarrow> bw_state \<Rightarrow> bw_event \<Rightarrow> bw_state" where
  "bw_step lib cfg s SocketUp = s\<lparr>bs_connected := True, bs_keepalive := True\<rparr>"
| "bw_step lib cfg s (Called data) = handleMcpCall lib cfg data s"
| "bw_step lib cfg s (Answered k a) = approve lib cfg k a s"
| "bw_step lib cfg s (StatusChanged st) =
     (if st = ''aborted'' \<or> st = ''completed'' then s\<lparr>bs_connected := False\<rparr> else s)"
| "bw_step lib cfg s SocketLost = s\<lparr>bs_connected := False, bs_keepalive := False\<rparr>"
| "bw_step lib cfg s Reconnected = s\<lparr>bs_connected := True, bs_keepalive := True\<rparr>"
| "bw_step lib cfg s Disconnected = s\<lparr>bs_keepalive := False, bs_socket := False, bs_connected := False\<rparr>"

datatype connect_error = NotValidDirectory | NoWorkspaceUid

definition scan_line :: "string list \<times> nat list \<Rightarrow> string" where
  "scan_line f = rel_str (fst f) @ '':'' @ show_nat (length (snd f))"

definition directoryHash :: "ws_lib \<Rightarrow> (string list \<times> nat list) list \<Rightarrow> string" where
  "directoryHash lib files = wl_sha256 lib (wl_bytes lib (join_with (CHR 0x0A) (sort (map scan_line files))))"

text \<open>The workspace before its socket is up, with the scan's hash; the identifier is the configured one or the relay's.\<close>

definition bw_connect :: "ws_lib \<Rightarrow> node \<Rightarrow> string \<Rightarrow> string \<Rightarrow> (connect_error, bw_state \<times> string) result" where
  "bw_connect lib t uid relay_uid =
     (case t of
        FDir es \<Rightarrow>
          let (files, xs) = walkDir [] es in
          if uid = [] \<and> relay_uid = [] then Inl NoWorkspaceUid
          else Inr (\<lparr>bs_tree = t, bs_exclusions = xs, bs_transfer = 0, bs_reads = 0, bs_writes = 0, bs_lists = 0, bs_total = 0,
                     bs_waiting = [], bs_sent = [], bs_socket = True, bs_connected = False, bs_keepalive = False\<rparr>,
                    directoryHash lib files)
      | _ \<Rightarrow> Inl NotValidDirectory)"

section \<open>Projections\<close>

lemma sendResult_simps [simp]:
  "bs_tree (sendResult r s) = bs_tree s" "bs_exclusions (sendResult r s) = bs_exclusions s"
  "bs_transfer (sendResult r s) = bs_transfer s" "bs_total (sendResult r s) = bs_total s"
  "bs_waiting (sendResult r s) = bs_waiting s" "bs_reads (sendResult r s) = bs_reads s" "bs_writes (sendResult r s) = bs_writes s"
  "bs_socket (sendResult r s) = bs_socket s"
  "bs_sent (sendResult r s) = (if bs_socket s then bs_sent s @ [r] else bs_sent s)"
  by (simp_all add: sendResult_def)

lemma refuse_simps [simp]:
  "bs_tree (refuse i oper path why s) = bs_tree s" "bs_exclusions (refuse i oper path why s) = bs_exclusions s"
  "bs_transfer (refuse i oper path why s) = bs_transfer s" "bs_total (refuse i oper path why s) = bs_total s"
  "bs_waiting (refuse i oper path why s) = bs_waiting s" "bs_socket (refuse i oper path why s) = bs_socket s"
  by (simp_all add: refuse_def)

lemma serve_simps [simp]:
  "bs_tree (serve i oper path p s) = bs_tree s" "bs_exclusions (serve i oper path p s) = bs_exclusions s"
  "bs_transfer (serve i oper path p s) = bs_transfer s" "bs_total (serve i oper path p s) = bs_total s"
  "bs_waiting (serve i oper path p s) = bs_waiting s" "bs_socket (serve i oper path p s) = bs_socket s"
  by (simp_all add: serve_def)

section \<open>What a tool may do\<close>

text \<open>The path of a call stays below the root.\<close>

definition inside :: "bw_config \<Rightarrow> string \<Rightarrow> string list \<Rightarrow> bool" where
  "inside cfg rel p = (list_all name_ok p \<and> path_resolve (bc_root cfg) rel = bc_root cfg @ p)"

definition root_ok :: "bw_config \<Rightarrow> bool" where
  "root_ok cfg = (bc_root cfg \<noteq> [] \<and> list_all name_ok (bc_root cfg))"

lemma path_str_inj:
  "path_str p = path_str q \<Longrightarrow> p \<noteq> [] \<Longrightarrow> list_all name_ok p \<Longrightarrow> list_all name_ok q \<Longrightarrow> q = p"
proof -
  assume a: "path_str p = path_str q" "p \<noteq> []" "list_all name_ok p" "list_all name_ok q"
  have "q \<noteq> []"
  proof
    assume "q = []"
    then have "split_on CHR ''/'' (path_str p) = [[], []]" using a(1) by (simp add: path_str_def)
    then show False using split_path_str [OF a(2,3)] a(3) by (simp add: name_ok_def)
  qed
  then show ?thesis using split_path_str a by (metis list.inject)
qed

lemma resolve_inside:
  assumes "resolveSafe (bc_root cfg) v = Some full" "root_ok cfg"
  obtains rel p where "v = JStr rel" "full = bc_root cfg @ p" "inside cfg rel p"
proof -
  obtain rel where v: "v = JStr rel" using assms(1) by (auto simp: resolveSafe_def is_string_iff split: if_splits)
  have f: "full = path_resolve (bc_root cfg) rel"
    "starts_with (path_str full) (path_str (bc_root cfg) @ ''/'') \<or> path_str full = path_str (bc_root cfg)"
    using assms(1) v by (auto simp: resolveSafe_def Let_def split: if_splits)
  have n: "list_all name_ok full" unfolding f(1) using assms(2) by (intro resolve_ok) (simp add: root_ok_def)
  have "\<exists>p. full = bc_root cfg @ p"
    using f(2) below_base path_str_inj n assms(2) unfolding root_ok_def by (metis append_Nil2)
  then obtain p where "full = bc_root cfg @ p" ..
  then show thesis using that [OF v] f(1) n by (simp add: inside_def)
qed

lemma exec_list_cases:
  obtains oper why where "execListDirectory lib cfg i path s = refuse i oper path why s"
  | pl where "execListDirectory lib cfg i path s = serve i ''list_dir'' (str_of path) pl (s\<lparr>bs_lists := bs_lists s + 1\<rparr>)"
proof (cases "resolveSafe (bc_root cfg) path")
  case (Some full)
  show ?thesis
  proof (cases "entry_at cfg s full")
    case n: (Some n)
    show ?thesis
      by (cases n) (use that Some n in \<open>simp_all add: execListDirectory_def\<close>)
  qed (use that(1) Some in \<open>simp add: execListDirectory_def\<close>)
qed (use that(1) in \<open>simp add: execListDirectory_def\<close>)

lemma exec_read_cases:
  assumes "root_ok cfg"
  obtains why where "execReadFile lib cfg i path s = refuse i (JStr ''read'') path why s"
  | rel p bs where "path = JStr rel" "inside cfg rel p" "tree_lookup (bs_tree s) p = Some (FFile bs)"
      "length bs \<le> MAX_FILE_SIZE" "\<not> isBinary bs"
      "execReadFile lib cfg i path s = serve i ''read'' rel
         \<lparr>pl_text = wl_text lib bs, pl_size = Some (length bs), pl_hash = Some (''sha256:'' @ wl_sha256 lib bs), pl_count = None\<rparr>
         (s\<lparr>bs_reads := bs_reads s + 1, bs_total := bs_total s + length bs, bs_transfer := bs_transfer s + length bs\<rparr>)"
proof (cases "resolveSafe (bc_root cfg) path")
  case (Some full)
  obtain rel p where r: "path = JStr rel" "full = bc_root cfg @ p" "inside cfg rel p"
    using resolve_inside [OF Some assms] by blast
  show ?thesis
  proof (cases "tree_lookup (bs_tree s) p")
    case None
    then show ?thesis using that(1) Some r by (simp add: execReadFile_def entry_at_def)
  next
    case n: (Some n)
    show ?thesis
    proof (cases n)
      case (FFile bs)
      show ?thesis
      proof (cases "length bs \<le> MAX_FILE_SIZE \<and> \<not> isBinary bs")
        case True
        then show ?thesis using that(2) [OF r(1,3)] Some r n FFile by (simp add: execReadFile_def entry_at_def)
      next
        case False
        then show ?thesis using that(1) Some r n FFile by (cases "length bs \<le> MAX_FILE_SIZE") (auto simp: execReadFile_def entry_at_def)
      qed
    qed (use that(1) Some r n in \<open>simp_all add: execReadFile_def entry_at_def\<close>)
  qed
qed (use that(1) in \<open>simp add: execReadFile_def\<close>)

lemma exec_write_cases:
  assumes "root_ok cfg"
  obtains oper why where "execWriteFile lib cfg i path content s = refuse i oper path why s"
  | p t where "tree_mkdir (bs_tree s) p = Some t"
      "execWriteFile lib cfg i path content s = refuse i (JStr ''write_file'') path Thrown (s\<lparr>bs_tree := t\<rparr>)"
  | rel p body t where "path = JStr rel" "inside cfg rel p" "content = JStr body"
      "length (wl_bytes lib body) \<le> MAX_FILE_SIZE" "tree_write (bs_tree s) p (wl_bytes lib body) = Some t"
      "execWriteFile lib cfg i path content s = serve i ''write'' rel
         \<lparr>pl_text = ''Written: '' @ rel @ '' ('' @ show_nat (length (wl_bytes lib body)) @ '' bytes)'',
          pl_size = Some (length (wl_bytes lib body)), pl_hash = Some (''sha256:'' @ wl_sha256 lib (wl_bytes lib body)), pl_count = None\<rparr>
         (s\<lparr>bs_tree := t, bs_writes := bs_writes s + 1, bs_total := bs_total s + length (wl_bytes lib body),
            bs_transfer := bs_transfer s + length (wl_bytes lib body)\<rparr>)"
proof (cases "resolveSafe (bc_root cfg) path")
  case (Some full)
  obtain rel p where r: "path = JStr rel" "full = bc_root cfg @ p" "inside cfg rel p"
    using resolve_inside [OF Some assms] by blast
  show ?thesis
  proof (cases "is_string content")
    case True
    then obtain body where t: "content = JStr body" by (auto simp: is_string_iff)
    show ?thesis
    proof (cases "tree_write (bs_tree s) p (wl_bytes lib body)")
      case None
      then show ?thesis using that(1) Some r t
        by (cases "length (wl_bytes lib body) \<le> MAX_FILE_SIZE") (auto simp: execWriteFile_def Let_def)
    next
      case w: (Some t')
      show ?thesis
      proof (cases "length (wl_bytes lib body) \<le> MAX_FILE_SIZE")
        case True
        then show ?thesis using that(3) [OF r(1,3) t True w] Some r t w by (simp add: execWriteFile_def Let_def)
      next
        case False
        then show ?thesis using that(1) Some r t by (auto simp: execWriteFile_def)
      qed
    qed
  next
    case False
    show ?thesis
    proof (cases "wl_buffer lib content")
      case None
      with False show ?thesis using that(1) Some r by (simp add: execWriteFile_def)
    next
      case b: (Some n)
      show ?thesis
      proof (cases "n > MAX_FILE_SIZE")
        case True
        with False b show ?thesis using that(1) Some r by (simp add: execWriteFile_def)
      next
        case n: False
        with False b show ?thesis
          using that(1,2) Some r by (cases "tree_mkdir (bs_tree s) (butlast p)") (simp_all add: execWriteFile_def)
      qed
    qed
  qed
qed (use that(1) in \<open>simp add: execWriteFile_def\<close>)

section \<open>What a step may do\<close>

text \<open>
  The effect of a step: the files, the counters and the new replies. Files change only by a write that is
  permitted, below the root and not excluded; a file is served only from below the root and not excluded.
\<close>

definition same_files :: "node \<Rightarrow> node \<Rightarrow> bool" where
  "same_files t t' = (\<forall>q bs. tree_lookup t' q = Some (FFile bs) \<longleftrightarrow> tree_lookup t q = Some (FFile bs))"

definition written :: "bw_config \<Rightarrow> bw_state \<Rightarrow> bw_state \<Rightarrow> string \<Rightarrow> string list \<Rightarrow> nat list \<Rightarrow> bool" where
  "written cfg s s' rel p bs = (bc_write cfg \<and> inside cfg rel p \<and> \<not> isExcluded rel (bs_exclusions s) \<and> length bs \<le> MAX_FILE_SIZE
     \<and> tree_lookup (bs_tree s') p = Some (FFile bs)
     \<and> (\<forall>q cs. q \<noteq> p \<longrightarrow> (tree_lookup (bs_tree s') q = Some (FFile cs) \<longleftrightarrow> tree_lookup (bs_tree s) q = Some (FFile cs))))"

definition served :: "ws_lib \<Rightarrow> bw_config \<Rightarrow> bw_state \<Rightarrow> reply \<Rightarrow> bool" where
  "served lib cfg s r = (\<forall>pl. rp_result r = Inr pl \<and> rp_op r = JStr ''read'' \<longrightarrow>
     (\<exists>rel p bs. rp_path r = JStr rel \<and> inside cfg rel p \<and> \<not> isExcluded rel (bs_exclusions s)
        \<and> tree_lookup (bs_tree s) p = Some (FFile bs) \<and> pl_text pl = wl_text lib bs
        \<and> length bs \<le> MAX_FILE_SIZE \<and> \<not> isBinary bs))"

definition step_ok :: "ws_lib \<Rightarrow> bw_config \<Rightarrow> bw_state \<Rightarrow> bw_state \<Rightarrow> bool" where
  "step_ok lib cfg s s' =
     (bs_exclusions s' = bs_exclusions s
     \<and> (same_files (bs_tree s) (bs_tree s') \<or> (\<exists>rel p bs. written cfg s s' rel p bs))
     \<and> (\<exists>rs. bs_sent s' = bs_sent s @ rs \<and> length rs \<le> 1 \<and> list_all (served lib cfg s) rs)
     \<and> bs_transfer s' \<le> bs_transfer s + MAX_FILE_SIZE
     \<and> bs_total s' - bs_total s = bs_transfer s' - bs_transfer s \<and> bs_total s \<le> bs_total s' \<and> bs_transfer s \<le> bs_transfer s')"

lemma same_files_refl [simp]: "same_files t t"
  by (simp add: same_files_def)

lemma same_files_mkdir: "tree_mkdir t p = Some t' \<Longrightarrow> same_files t t'"
  by (simp add: same_files_def mkdir_files)

lemma step_refl [simp]: "step_ok lib cfg s s"
  by (simp add: step_ok_def)

lemma step_refuse: "step_ok lib cfg s s' \<Longrightarrow> bs_sent s' = bs_sent s \<Longrightarrow> step_ok lib cfg s (refuse i oper path why s')"
  by (auto simp: step_ok_def written_def refuse_def served_def)

lemma step_serve:
  assumes "step_ok lib cfg s s'" "bs_sent s' = bs_sent s" "oper \<noteq> ''read''"
  shows "step_ok lib cfg s (serve i oper path pl s')"
  using assms by (auto simp: step_ok_def written_def serve_def served_def)

text \<open>A path that the guard lets through.\<close>

definition guarded :: "bw_config \<Rightarrow> bw_state \<Rightarrow> jv \<Rightarrow> jv \<Rightarrow> bool" where
  "guarded cfg s tool path = (excluded_call path (bs_exclusions s) = Some False \<and> (tool = JStr ''write_file'' \<longrightarrow> bc_write cfg))"

lemma guarded_str: "guarded cfg s tool (JStr rel) \<Longrightarrow> \<not> isExcluded rel (bs_exclusions s)"
  by (simp add: guarded_def excluded_call_def)

lemma step_list: "step_ok lib cfg s (execListDirectory lib cfg i path s)"
proof (cases rule: exec_list_cases [of lib cfg i path s])
  case (1 oper why)
  then show ?thesis by (simp add: step_refuse)
next
  case (2 pl)
  have "step_ok lib cfg s (s\<lparr>bs_lists := bs_lists s + 1\<rparr>)" by (simp add: step_ok_def)
  with 2 show ?thesis by (simp add: step_serve)
qed

lemma step_read:
  assumes "root_ok cfg" "guarded cfg s tool path"
  shows "step_ok lib cfg s (execReadFile lib cfg i path s)"
proof (cases rule: exec_read_cases [OF assms(1), of lib i path s])
  case (1 why)
  then show ?thesis by (simp add: step_refuse)
next
  case (2 rel p bs)
  then show ?thesis
    using guarded_str [of cfg s tool rel] assms(2)
    by (auto simp: step_ok_def serve_def served_def)
qed

lemma step_write:
  assumes "root_ok cfg" "guarded cfg s (JStr ''write_file'') path"
  shows "step_ok lib cfg s (execWriteFile lib cfg i path content s)"
proof (cases rule: exec_write_cases [OF assms(1), of lib i path content s])
  case (1 oper why)
  then show ?thesis by (simp add: step_refuse)
next
  case (2 p t)
  have "step_ok lib cfg s (s\<lparr>bs_tree := t\<rparr>)" using same_files_mkdir [OF 2(1)] by (simp add: step_ok_def)
  with 2 show ?thesis by (simp add: step_refuse)
next
  case (3 rel p body t)
  let ?bs = "wl_bytes lib body"
  let ?s = "s\<lparr>bs_tree := t, bs_writes := bs_writes s + 1, bs_total := bs_total s + length ?bs, bs_transfer := bs_transfer s + length ?bs\<rparr>"
  have "written cfg s ?s rel p ?bs"
    using 3 assms(2) guarded_str [of cfg s "JStr ''write_file''" rel] write_read [OF 3(5)] write_other [OF 3(5)]
    by (simp add: written_def guarded_def)
  then have "step_ok lib cfg s ?s" using 3(4) by (auto simp: step_ok_def)
  with 3 show ?thesis by (simp add: step_serve)
qed

lemma step_tool:
  "root_ok cfg \<Longrightarrow> guarded cfg s tool path \<Longrightarrow> step_ok lib cfg s (exec_tool lib cfg i tool path content s)"
  using step_list step_read step_write by (auto simp: exec_tool_def step_refuse)

text \<open>Waiting writes have passed the guards; without a gate none waits and the transfer stays within the limit and one file.\<close>

definition ws_ok :: "bw_config \<Rightarrow> bw_state \<Rightarrow> bool" where
  "ws_ok cfg s = (list_all (\<lambda>w. guarded cfg s (JStr ''write_file'') (pw_path w)) (bs_waiting s)
     \<and> bs_total s = bs_transfer s
     \<and> (bc_auto cfg \<or> \<not> bc_gate cfg \<longrightarrow> bs_waiting s = [] \<and> bs_transfer s \<le> MAX_SESSION_TRANSFER + MAX_FILE_SIZE))"

lemma step_handle:
  assumes "root_ok cfg"
  shows "step_ok lib cfg s (handleMcpCall lib cfg data s)"
proof (cases "excluded_call (call_path (jget data ''params'')) (bs_exclusions s)")
  case (Some b)
  then show ?thesis
    using step_tool [OF assms, of s "jget data ''tool''" "call_path (jget data ''params'')"]
    by (cases b) (auto simp: handleMcpCall_def Let_def guarded_def step_refuse, auto simp: step_ok_def)
qed (simp_all add: handleMcpCall_def Let_def step_refuse)

lemma waiting_list: "bs_waiting (execListDirectory lib cfg i path s) = bs_waiting s"
  by (cases rule: exec_list_cases [of lib cfg i path s]) simp_all

lemma waiting_read: "root_ok cfg \<Longrightarrow> bs_waiting (execReadFile lib cfg i path s) = bs_waiting s"
  by (erule exec_read_cases [of cfg lib i path s]) simp_all

lemma waiting_write: "root_ok cfg \<Longrightarrow> bs_waiting (execWriteFile lib cfg i path content s) = bs_waiting s"
  by (erule exec_write_cases [of cfg lib i path content s]) simp_all

lemma waiting_tool: "root_ok cfg \<Longrightarrow> bs_waiting (exec_tool lib cfg i tool path content s) = bs_waiting s"
  by (simp add: exec_tool_def waiting_list waiting_read waiting_write)

lemma guarded_cong: "bs_exclusions s' = bs_exclusions s \<Longrightarrow> guarded cfg s' tool path = guarded cfg s tool path"
  by (simp add: guarded_def)

lemma step_exclusions: "step_ok lib cfg s s' \<Longrightarrow> bs_exclusions s' = bs_exclusions s"
  by (simp add: step_ok_def)

lemma step_totals: "step_ok lib cfg s s' \<Longrightarrow> bs_total s = bs_transfer s \<Longrightarrow> bs_total s' = bs_transfer s'"
  unfolding step_ok_def by linarith

lemma step_approve:
  assumes "root_ok cfg" "ws_ok cfg s"
  shows "step_ok lib cfg s (approve lib cfg k a s)"
proof (cases "k < length (bs_waiting s)")
  case True
  let ?s = "s\<lparr>bs_waiting := take k (bs_waiting s) @ drop (Suc k) (bs_waiting s)\<rparr>"
  have g: "guarded cfg ?s (JStr ''write_file'') (pw_path (bs_waiting s ! k))"
    using assms(2) True by (simp add: ws_ok_def list_all_length guarded_def)
  have eq: "step_ok lib cfg ?s x = step_ok lib cfg s x" for x
  proof -
    have "served lib cfg ?s = served lib cfg s" by (rule ext) (simp add: served_def)
    then show ?thesis by (simp add: step_ok_def written_def)
  qed
  note t = step_tool [OF assms(1) g, of lib "pw_id (bs_waiting s ! k)" "pw_content (bs_waiting s ! k)", unfolded eq]
  have r: "step_ok lib cfg s (refuse i oper path why ?s)" "step_ok lib cfg s ?s" for i oper path why
    using step_refuse [of lib cfg s ?s] by (simp_all add: step_ok_def)
  show ?thesis
    using True t r by (cases a) (auto simp: approve_def Let_def split: bool.splits)
qed (simp add: approve_def)

lemma step_step:
  assumes "root_ok cfg" "ws_ok cfg s"
  shows "step_ok lib cfg s (bw_step lib cfg s e)"
  using step_handle [OF assms(1)] step_approve [OF assms] by (cases e) (simp_all add: step_ok_def)

lemma ws_ok_handle:
  assumes "root_ok cfg" "ws_ok cfg s"
  shows "ws_ok cfg (handleMcpCall lib cfg data s)"
proof -
  let ?s = "handleMcpCall lib cfg data s"
  note st = step_handle [OF assms(1), of lib s data]
  have g: "guarded cfg ?s tool path = guarded cfg s tool path" for tool path
    by (rule guarded_cong [OF step_exclusions [OF st]])
  have w: "bs_waiting ?s = bs_waiting s
      \<or> \<not> bc_auto cfg \<and> bc_gate cfg \<and> (\<exists>p. bs_waiting ?s = bs_waiting s @ [p] \<and> guarded cfg s (JStr ''write_file'') (pw_path p))"
    using waiting_tool [OF assms(1)]
    by (auto simp: handleMcpCall_def Let_def guarded_def split: option.splits bool.splits)
  have t: "bs_transfer s > MAX_SESSION_TRANSFER \<Longrightarrow> bs_transfer ?s = bs_transfer s"
    by (auto simp: handleMcpCall_def Let_def split: option.splits bool.splits)
  have "bs_transfer ?s \<le> MAX_SESSION_TRANSFER + MAX_FILE_SIZE" if "bs_transfer s \<le> MAX_SESSION_TRANSFER + MAX_FILE_SIZE"
    using t that st unfolding step_ok_def by (cases "bs_transfer s > MAX_SESSION_TRANSFER") linarith+
  with w assms(2) step_totals [OF st] show ?thesis by (auto simp: ws_ok_def g)
qed

lemma ws_ok_approve:
  assumes "root_ok cfg" "ws_ok cfg s"
  shows "ws_ok cfg (approve lib cfg k a s)"
proof (cases "k < length (bs_waiting s)")
  case True
  let ?s = "approve lib cfg k a s"
  note st = step_approve [OF assms, of lib k a]
  have g: "guarded cfg ?s tool path = guarded cfg s tool path" for tool path
    by (rule guarded_cong [OF step_exclusions [OF st]])
  have "bs_waiting ?s = take k (bs_waiting s) @ drop (Suc k) (bs_waiting s)"
    using True waiting_tool [OF assms(1)] by (auto simp: approve_def Let_def split: option.splits bool.splits)
  then have "set (bs_waiting ?s) \<subseteq> set (bs_waiting s)"
    using set_take_subset set_drop_subset by fastforce
  moreover have "\<not> (bc_auto cfg \<or> \<not> bc_gate cfg)" using assms(2) True by (auto simp: ws_ok_def)
  ultimately show ?thesis
    using assms(2) step_totals [OF st] by (auto simp: ws_ok_def g list_all_iff)
qed (use assms(2) in \<open>simp add: approve_def\<close>)

interpretation bws: invariant_machine "bw_step lib cfg" "\<lambda>s. root_ok cfg \<and> ws_ok cfg s" for lib cfg
proof
  fix s e assume a: "root_ok cfg \<and> ws_ok cfg s"
  show "root_ok cfg \<and> ws_ok cfg (bw_step lib cfg s e)"
    using a ws_ok_handle ws_ok_approve by (cases e) (auto simp: ws_ok_def guarded_def)
qed

section \<open>The scan covers what is below an excluded entry\<close>

definition wf_dir :: "(string \<times> node) list \<Rightarrow> bool" where
  "wf_dir es = (distinct (map fst es) \<and> list_all (\<lambda>e. name_ok (fst e)) es)"

lemma rel_str_snoc: "p \<noteq> [] \<Longrightarrow> rel_str (p @ q) = (if q = [] then rel_str p else rel_str p @ CHR ''/'' # rel_str q)"
  unfolding rel_str_def
  by (induction p rule: induct_list012) (auto simp: neq_Nil_conv split: if_splits)

lemma ends_slash: "ends_with s ''/'' \<longleftrightarrow> s \<noteq> [] \<and> last s = CHR ''/''"
  by (cases s rule: rev_cases) (auto simp: ends_with_def)

lemma names_slash: "p \<noteq> [] \<Longrightarrow> list_all name_ok p \<Longrightarrow> \<not> ends_with (rel_str p) ''/''"
proof (induction p rule: rev_induct)
  case (snoc x p)
  then have x: "x \<noteq> []" "CHR ''/'' \<notin> set x" by (auto simp: name_ok_def)
  then have "last x \<noteq> CHR ''/''" using last_in_set by metis
  then show ?case
    using x by (cases "p = []") (simp_all add: rel_str_snoc ends_slash, simp_all add: rel_str_def)
qed simp

lemma strip_path: "p \<noteq> [] \<Longrightarrow> list_all name_ok p \<Longrightarrow> strip_slash (rel_str p @ (if d then ''/'' else [])) = rel_str p"
  using names_slash [of p] by (cases d) (simp_all add: strip_slash_def ends_slash [of "_ @ _"] butlast_append)

lemma excluded_below:
  assumes "x \<in> set xs" "ex_path x = rel_str p @ (if d then ''/'' else [])" "p \<noteq> []" "list_all name_ok p"
  shows "isExcluded (rel_str (p @ q)) xs"
proof -
  have "strip_slash (ex_path x) = rel_str p" using strip_path [OF assms(3,4)] assms(2) by simp
  then have "rel_str (p @ q) = strip_slash (ex_path x) \<or> starts_with (rel_str (p @ q)) (strip_slash (ex_path x) @ ''/'')"
    by (simp add: rel_str_snoc [OF assms(3)] starts_with_def)
  with assms(1) show ?thesis by (auto simp: isExcluded_def list_ex_iff)
qed

definition covered :: "exclusion list \<Rightarrow> string list \<Rightarrow> bool" where
  "covered xs path = (\<exists>x \<in> set xs. \<exists>a b d. a \<noteq> [] \<and> a @ b = path \<and> ex_path x = rel_str a @ (if d then ''/'' else []))"

lemma covered_append: "covered (xs @ ys) p \<longleftrightarrow> covered xs p \<or> covered ys p"
  by (auto simp: covered_def)

lemma walk_exclusions:
  "snd (walkDir dir ((name, n) # es)) =
     (if shouldExclude (rel_str (dir @ [name])) (is_dir n)
      then [\<lparr>ex_path = rel_str (dir @ [name]) @ (if is_dir n then ''/'' else []), ex_reason = getExcludeReason (rel_str (dir @ [name]))\<rparr>]
      else case n of FDir sub \<Rightarrow> snd (walkDir (dir @ [name]) sub) | _ \<Rightarrow> []) @ snd (walkDir dir es)"
  by (auto simp: Let_def split: node.splits prod.splits)

lemma covered_isExcluded:
  assumes "covered xs p" "list_all name_ok p"
  shows "isExcluded (rel_str p) xs"
proof -
  obtain x a b d where x: "x \<in> set xs" "a \<noteq> []" "a @ b = p" "ex_path x = rel_str a @ (if d then ''/'' else [])"
    using assms(1) unfolding covered_def by blast
  then show ?thesis using excluded_below [OF x(1,4,2)] assms(2) by auto
qed

text \<open>Every entry that a pattern hits is covered by an exclusion: its own, or one of a directory above it.\<close>

lemma walk_covers:
  "tree_lookup (FDir es) (q @ [x]) = Some n \<Longrightarrow> shouldExclude (rel_str (dir @ q @ [x])) (is_dir n)
   \<Longrightarrow> covered (snd (walkDir dir es)) (dir @ q @ [x] @ r)"
proof (induction dir es arbitrary: q rule: walkDir.induct)
  case (1 dir)
  then show ?case by (cases q) simp_all
next
  case (2 dir name m es)
  show ?case
  proof (cases "hd (q @ [x]) = name")
    case True
    then obtain rest where q: "q @ [x] = name # rest" by (cases q) auto
    show ?thesis
    proof (cases "shouldExclude (rel_str (dir @ [name])) (is_dir m)")
      case e: True
      have "dir @ [name] @ (rest @ r) = dir @ q @ [x] @ r" using q by (metis append.assoc append_Cons append_Nil)
      then have "covered [\<lparr>ex_path = rel_str (dir @ [name]) @ (if is_dir m then ''/'' else []),
          ex_reason = getExcludeReason (rel_str (dir @ [name]))\<rparr>] (dir @ q @ [x] @ r)"
        unfolding covered_def
        by (intro bexI [OF _ list.set_intros(1)] exI [of _ "dir @ [name]"] exI [of _ "rest @ r"] exI [of _ "is_dir m"]) simp
      then show ?thesis unfolding walk_exclusions covered_append using e by simp
    next
      case e: False
      have "rest \<noteq> []"
      proof
        assume "rest = []"
        then have "q = []" "x = name" using q by simp_all
        then show False using 2(3,4) e by simp
      qed
      then obtain q' sub where q': "q = name # q'" "m = FDir sub" "tree_lookup (FDir sub) (q' @ [x]) = Some n"
        using q 2(3) by (cases q; cases m; cases rest) auto
      then have "covered (snd (walkDir (dir @ [name]) sub)) ((dir @ [name]) @ q' @ [x] @ r)"
        using 2(1) [OF refl refl e q'(2), of q'] 2(4) by simp
      then show ?thesis unfolding walk_exclusions covered_append using e q' by simp
    qed
  next
    case False
    then have "tree_lookup (FDir es) (q @ [x]) = Some n" using 2(3) by (cases q) (auto split: if_splits)
    then have "covered (snd (walkDir dir es)) (dir @ q @ [x] @ r)"
      using 2(2) [OF refl refl refl prod.collapse, of q] 2(4) by simp
    then show ?thesis unfolding walk_exclusions covered_append by simp
  qed
qed

lemma connect_ok:
  assumes "bw_connect lib t uid relay_uid = Inr (s0, h)"
  shows "ws_ok cfg s0" and "\<exists>es. t = FDir es \<and> bs_tree s0 = t \<and> bs_exclusions s0 = snd (walkDir [] es)"
  using assms by (auto simp: bw_connect_def ws_ok_def split: node.splits prod.splits if_splits)

lemma exclusions_fixed:
  assumes "root_ok cfg" "ws_ok cfg s"
  shows "bs_exclusions (foldl (bw_step lib cfg) s evs) = bs_exclusions s"
  using assms(2)
proof (induction evs arbitrary: s)
  case (Cons e evs)
  then show ?case
    using bws.step_inv [of cfg s lib e] step_exclusions [OF step_step [OF assms(1) Cons.prems, of lib e]] assms(1) by simp
qed simp

section \<open>Properties\<close>

definition demo_lib :: ws_lib where
  "demo_lib = \<lparr>wl_sha256 = (\<lambda>_. ''00''), wl_text = map char_of, wl_bytes = map of_char, wl_pretty = (\<lambda>_. ''[]''),
     wl_parse = (\<lambda>_. Some (JArr [])), wl_buffer = (\<lambda>_. None)\<rparr>"

definition demo_cfg :: bw_config where
  "demo_cfg = \<lparr>bc_root = [''home'', ''p''], bc_read = True, bc_write = True, bc_auto = True, bc_gate = False\<rparr>"

definition demo_tree :: node where
  "demo_tree = FDir [(''.env'', FFile [83]), (''src'', FDir [(''a.txt'', FFile [72, 105])])]"

definition demo_call :: "string \<Rightarrow> string \<Rightarrow> string \<Rightarrow> jv" where
  "demo_call tool path content = JObj [(''id'', JStr ''1''), (''tool'', JStr tool),
     (''params'', JObj [(''path'', JStr path), (''content'', JStr content)])]"

definition demo_state :: bw_state where
  "demo_state = \<lparr>bs_tree = demo_tree, bs_exclusions = [\<lparr>ex_path = ''.env'', ex_reason = ''environment variables''\<rparr>],
     bs_transfer = 0, bs_reads = 0, bs_writes = 0, bs_lists = 0, bs_total = 0, bs_waiting = [], bs_sent = [], bs_socket = True,
     bs_connected = False, bs_keepalive = False\<rparr>"

lemma demo_connect: "\<exists>h. bw_connect demo_lib demo_tree ''u'' [] = Inr (demo_state, h)"
  by (simp add: bw_connect_def demo_tree_def demo_state_def shouldExclude_def pattern_hits_def AUTO_EXCLUDE_PATTERNS_def
      base_name_def rel_str_def ends_with_def starts_with_def getExcludeReason_def Let_def)

lemma demo_root: "root_ok demo_cfg"
  by (simp add: root_ok_def demo_cfg_def name_ok_def)



text \<open>
  In every run in which no write waits for the buyer's gate, the bytes transferred are the
  bytes counted in the statistics and never exceed the session limit by more than one file.
\<close>

theorem transfer_bounded:
  assumes "root_ok cfg" "bw_connect lib t uid relay_uid = Inr (s0, h)" "bc_auto cfg \<or> \<not> bc_gate cfg"
  shows "bs_total (foldl (bw_step lib cfg) s0 es) = bs_transfer (foldl (bw_step lib cfg) s0 es)
    \<and> bs_transfer (foldl (bw_step lib cfg) s0 es) \<le> 510 * 1024 * 1024"
proof -
  have "ws_ok cfg (foldl (bw_step lib cfg) s0 es)"
    using bws.run_inv [of cfg s0 lib es] connect_ok(1) [OF assms(2)] assms(1) by simp
  with assms(3) show ?thesis by (auto simp: ws_ok_def MAX_SESSION_TRANSFER_def MAX_FILE_SIZE_def)
qed

lemma transfer_bounded_witness:
  "bs_transfer (foldl (bw_step demo_lib demo_cfg) demo_state [Called (demo_call ''read_file'' ''src/a.txt'' [])]) \<le> 510 * 1024 * 1024"
proof -
  obtain h where h: "bw_connect demo_lib demo_tree ''u'' [] = Inr (demo_state, h)" using demo_connect by blast
  have "bc_auto demo_cfg \<or> \<not> bc_gate demo_cfg" by (simp add: demo_cfg_def)
  from transfer_bounded [OF demo_root h this] show ?thesis by blast
qed

text \<open>
  C35. An entry that the scan's patterns hit, and everything below it, is refused ever after: a call of any tool
  with the plain path of such an entry (its names joined by slashes) gets a refusal and changes nothing, even when
  the entry appeared below an excluded directory later.
\<close>

theorem excluded_never_served:
  assumes "root_ok cfg" "bw_connect lib (FDir es) uid relay_uid = Inr (s0, h)"
    and "tree_lookup (FDir es) (q @ [x]) = Some n" "shouldExclude (rel_str (q @ [x])) (is_dir n)" "list_all name_ok (q @ [x] @ r)"
    and "jget (jget data ''params'') ''path'' = JStr (rel_str (q @ [x] @ r))"
  shows "\<exists>oper path why. handleMcpCall lib cfg data (foldl (bw_step lib cfg) s0 evs)
      = refuse (jget data ''id'') oper path why (foldl (bw_step lib cfg) s0 evs) \<and> why \<in> {WriteDenied, FileExcluded}"
proof -
  let ?s = "foldl (bw_step lib cfg) s0 evs"
  have xs: "bs_exclusions ?s = snd (walkDir [] es)"
    using exclusions_fixed [OF assms(1) connect_ok(1) [OF assms(2)]] connect_ok(2) [OF assms(2)] by auto
  have "covered (bs_exclusions ?s) (q @ [x] @ r)"
    using walk_covers [OF assms(3), of "[]" r] assms(4) xs by simp
  then have e: "isExcluded (rel_str (q @ [x] @ r)) (bs_exclusions ?s)" by (rule covered_isExcluded) (rule assms(5))
  have "rel_str (q @ [x] @ r) \<noteq> []"
  proof
    assume "rel_str (q @ [x] @ r) = []"
    then have "q @ [x] @ r = [[]]" using split_rel [OF _ assms(5)] by simp
    then show False using assms(5) by (metis list.pred_inject(2) name_ok_def)
  qed
  then have "call_path (jget data ''params'') = JStr (rel_str (q @ [x] @ r))" "\<not> nullish data"
    using assms(6) by (auto simp: call_path_def nullish_def jget_def props_of_def)
  with e have "handleMcpCall lib cfg data ?s = refuse (jget data ''id'') (JStr ''write'') (JStr (rel_str (q @ [x] @ r))) WriteDenied ?s
      \<or> handleMcpCall lib cfg data ?s = refuse (jget data ''id'') (jget data ''tool'') (JStr (rel_str (q @ [x] @ r))) FileExcluded ?s"
    by (simp add: handleMcpCall_def Let_def excluded_call_def)
  then show ?thesis by blast
qed

lemma excluded_never_served_witness:
  "\<exists>oper path why. handleMcpCall demo_lib demo_cfg (demo_call ''read_file'' ''.env'' []) demo_state
      = refuse (JStr ''1'') oper path why demo_state \<and> why \<in> {WriteDenied, FileExcluded}"
proof -
  obtain h where h: "bw_connect demo_lib demo_tree ''u'' [] = Inr (demo_state, h)" using demo_connect by blast
  have "tree_lookup demo_tree ([] @ [''.env'']) = Some (FFile [83])" "shouldExclude (rel_str ([] @ [''.env''])) (is_dir (FFile [83]))"
    "list_all name_ok ([] @ [''.env''] @ [])"
    "jget (jget (demo_call ''read_file'' ''.env'' []) ''params'') ''path'' = JStr (rel_str ([] @ [''.env''] @ []))"
    by (simp_all add: demo_tree_def shouldExclude_def pattern_hits_def AUTO_EXCLUDE_PATTERNS_def base_name_def rel_str_def name_ok_def demo_call_def)
  from excluded_never_served [OF demo_root h [unfolded demo_tree_def] this(1) [unfolded demo_tree_def] this(2-4), of "[]"]
  show ?thesis by (simp add: demo_call_def)
qed

section \<open>What the guards miss\<close>

text \<open>Another spelling of the path of an excluded file is not excluded: the file is served.\<close>

lemma exclusion_bypass:
  "bs_sent (handleMcpCall demo_lib demo_cfg (demo_call ''read_file'' ''./.env'' []) demo_state) =
     [\<lparr>rp_id = JStr ''1'', rp_result = Inr \<lparr>pl_text = ''S'', pl_size = Some 1, pl_hash = Some ''sha256:00'', pl_count = None\<rparr>, rp_op = JStr ''read'',
       rp_path = JStr ''./.env'', rp_approved = None, rp_blocked = False\<rparr>]"
proof -
  have "char_of (83 :: nat) = CHR ''S''" by code_simp
  then show ?thesis
    by (simp add: handleMcpCall_def demo_call_def call_path_def nullish_def demo_cfg_def demo_state_def excluded_call_def isExcluded_def
      strip_slash_def ends_with_def starts_with_def MAX_SESSION_TRANSFER_def exec_tool_def execReadFile_def resolveSafe_def has_dotdot_def
      path_resolve_def path_str_def entry_at_def demo_tree_def MAX_FILE_SIZE_def isBinary_def serve_def sendResult_def demo_lib_def Let_def)
qed

text \<open>The permission to read is never looked at.\<close>

lemma read_permission_ignored: "handleMcpCall lib (cfg\<lparr>bc_read := b\<rparr>) data s = handleMcpCall lib cfg data s"
proof -
  have "exec_tool lib (cfg\<lparr>bc_read := b\<rparr>) i tool path content s = exec_tool lib cfg i tool path content s" for i tool path content s
    by (simp add: exec_tool_def execListDirectory_def execReadFile_def execWriteFile_def entry_at_def
        cong: option.case_cong if_cong)
  then show ?thesis by (simp add: handleMcpCall_def Let_def cong: option.case_cong bool.case_cong if_cong)
qed

end
