(* ===== verification/WorkspaceClient.thy ===== *)
theory WorkspaceClient
  imports BuyerWorkspace "HOL-Library.Multiset"
begin

text \<open>
  The seller's side of a workspace, \<open>src/workspace/client.ts\<close>: the checks of paths and of results, the
  choice of the relay's address, and the client as a machine whose events are its methods, the socket's
  messages and the timers. Promises are the entries of \<open>wk_pending\<close> until they settle in \<open>wk_done\<close>. The limits read
  from the environment are numbers of any value. The last section puts client and buyer together
  over a relay that passes messages on.
\<close>

section \<open>Checks\<close>

datatype path_error = EmptyPath | AbsolutePath | DotDot

definition assertSafePath :: "string \<Rightarrow> (path_error, unit) result" where
  "assertSafePath path =
     (if path = [] then Inl EmptyPath
      else if starts_with path ''/'' then Inl AbsolutePath
      else if has_dotdot path then Inl DotDot
      else Inr ())"

definition MAX_RESULT_SIZE :: nat where "MAX_RESULT_SIZE = 10 * 1024 * 1024"

record wk_env =
  we_aggregate :: jsnum
  we_items :: jsnum
  we_cycles :: jsnum

fun check_items :: "wk_env \<Rightarrow> nat \<Rightarrow> jv list \<Rightarrow> bool" where
  "check_items env n [] = True"
| "check_items env n (item # items) =
     (if \<not> is_string (jget item ''type'') \<or> \<not> is_string (jget item ''text'') then False
      else let len = length (str_of (jget item ''text'')) in
        if len > MAX_RESULT_SIZE then False
        else if js_lt (we_aggregate env) (num_int (int (n + len))) then False
        else check_items env (n + len) items)"

definition validateMcpResult :: "wk_env \<Rightarrow> jv \<Rightarrow> bool" where
  "validateMcpResult env data =
     (if \<not> jtruthy data \<or> \<not> is_string (jget data ''id'') then False
      else case jget data ''success'' of
        JBool True \<Rightarrow>
          let r = jget data ''result''; c = jget r ''content'' in
          if \<not> jtruthy r \<or> \<not> is_array c then False
          else if js_lt (we_items env) (num_int (int (length (arr_of c)))) then False
          else check_items env 0 (arr_of c)
      | JBool False \<Rightarrow> jget data ''error'' = JUndef \<or> is_string (jget data ''error'')
      | _ \<Rightarrow> False)"

section \<open>The address of the relay\<close>

text \<open>\<open>new URL(..)\<close> is a function from a text to the host name and the protocol.\<close>

type_synonym url_parser = "string \<Rightarrow> (string \<times> string) option"

datatype token_reply = TokenTimeout | TokenNetwork | TokenStatus jv | TokenData jv string

datatype target_error = TimedOut15 | NetworkError | Refused jv | BadApiUrl | BadWsUrl | HostMismatch | Insecure

definition strip_ws :: "string \<Rightarrow> string" where
  "strip_ws u = (if ends_with u ''/ws'' then take (length u - 3) u else if ends_with u ''/ws/'' then take (length u - 4) u else u)"

definition connect_target :: "url_parser \<Rightarrow> string \<Rightarrow> token_reply \<Rightarrow> (target_error, string \<times> jv) result" where
  "connect_target url apiUrl reply =
     (case reply of
        TokenTimeout \<Rightarrow> Inl TimedOut15
      | TokenNetwork \<Rightarrow> Inl NetworkError
      | TokenStatus err \<Rightarrow> Inl (Refused err)
      | TokenData token wsUrl \<Rightarrow>
          (case url apiUrl of
             None \<Rightarrow> Inl BadApiUrl
           | Some (apiHost, apiProtocol) \<Rightarrow>
               (case url wsUrl of
                  None \<Rightarrow> Inl BadWsUrl
                | Some (wsHost, wsProtocol) \<Rightarrow>
                    if wsHost \<noteq> apiHost then Inl HostMismatch
                    else if wsProtocol \<noteq> ''https:'' \<and> wsProtocol \<noteq> ''wss:'' \<and> apiProtocol = ''https:'' then Inl Insecure
                    else Inr (strip_ws wsUrl @ ''/jailbox'', token))))"

section \<open>The client's state\<close>

datatype wk_call = ListDirectory string | ReadFile string | WriteFile string string | RawCall string jv

datatype call_error = BadPath path_error | NotConnected | CallTimedOut | CallFailed string | WorkspaceClosed | BadResult

datatype connect_outcome = Ready | ConnectFailed | RelayError | BuyerTimeout

record wk_state =
  wk_pending :: "(string, wk_call) jsmap"
  wk_done :: "(string \<times> (call_error, jv) result) list"
  wk_connected :: bool
  wk_socket :: bool
  wk_job :: "string option"
  wk_excluded :: jv
  wk_cycles :: nat
  wk_reads :: nat
  wk_writes :: nat
  wk_lists :: nat
  wk_since :: jsnum
  wk_settled :: "connect_outcome option"
  wk_out :: "jv list"

definition call_check :: "wk_call \<Rightarrow> (path_error, string \<times> jv) result" where
  "call_check c = (case c of
       ListDirectory p \<Rightarrow> bind_r (assertSafePath p) (\<lambda>_. Inr (''list_directory'', JObj [(''path'', JStr p)]))
     | ReadFile p \<Rightarrow> bind_r (assertSafePath p) (\<lambda>_. Inr (''read_file'', JObj [(''path'', JStr p)]))
     | WriteFile p content \<Rightarrow> bind_r (assertSafePath p) (\<lambda>_. Inr (''write_file'', JObj [(''path'', JStr p), (''content'', JStr content)]))
     | RawCall tool params \<Rightarrow> Inr (tool, params))"

text \<open>\<open>result?.content?.[0]?.text\<close>.\<close>

definition first_text :: "jv \<Rightarrow> jv" where
  "first_text r = (case arr_of (jget r ''content'') of [] \<Rightarrow> JUndef | x # _ \<Rightarrow> jget x ''text'')"

definition finish :: "(string \<Rightarrow> jv option) \<Rightarrow> wk_call \<Rightarrow> jv \<Rightarrow> (call_error, jv) result" where
  "finish parse c r = (case c of
       ListDirectory _ \<Rightarrow> (case parse (str_of (first_text r)) of
           Some v \<Rightarrow> if is_string (first_text r) \<and> is_array v then Inr v else Inl BadResult
         | None \<Rightarrow> Inl BadResult)
     | RawCall _ _ \<Rightarrow> Inr r
     | _ \<Rightarrow> if jtruthy (first_text r) then Inr (first_text r) else Inl BadResult)"

definition count_call :: "wk_call \<Rightarrow> wk_state \<Rightarrow> wk_state" where
  "count_call c s = (case c of
       ListDirectory _ \<Rightarrow> s\<lparr>wk_lists := wk_lists s + 1\<rparr>
     | ReadFile _ \<Rightarrow> s\<lparr>wk_reads := wk_reads s + 1\<rparr>
     | WriteFile _ _ \<Rightarrow> s\<lparr>wk_writes := wk_writes s + 1\<rparr>
     | RawCall _ _ \<Rightarrow> s)"

definition wire_call :: "string \<Rightarrow> string \<Rightarrow> jv \<Rightarrow> jv" where
  "wire_call i tool params = JObj [(''id'', JStr i), (''tool'', JStr tool), (''params'', params)]"

definition emit :: "jv \<Rightarrow> wk_state \<Rightarrow> wk_state" where
  "emit m s = s\<lparr>wk_out := wk_out s @ [m]\<rparr>"

definition settle :: "string \<Rightarrow> (call_error, jv) result \<Rightarrow> wk_state \<Rightarrow> wk_state" where
  "settle i r s = s\<lparr>wk_pending := map_delete (wk_pending s) i, wk_done := wk_done s @ [(i, r)]\<rparr>"

definition start_call :: "string \<Rightarrow> wk_call \<Rightarrow> wk_state \<Rightarrow> wk_state" where
  "start_call i c s =
     (case call_check c of
        Inl e \<Rightarrow> settle i (Inl (BadPath e)) s
      | Inr (tool, params) \<Rightarrow>
          if \<not> wk_socket s \<or> \<not> wk_connected s then settle i (Inl NotConnected) s
          else emit (wire_call i tool params) (s\<lparr>wk_pending := map_set (wk_pending s) i c\<rparr>))"

definition on_result :: "wk_env \<Rightarrow> (string \<Rightarrow> jv option) \<Rightarrow> jv \<Rightarrow> wk_state \<Rightarrow> wk_state" where
  "on_result env parse data s =
     (if \<not> validateMcpResult env data then s
      else let i = str_of (jget data ''id'') in
        case map_get (wk_pending s) i of
          None \<Rightarrow> s
        | Some c \<Rightarrow>
            if jget data ''success'' = JBool True then count_call c (settle i (finish parse c (jget data ''result'')) s)
            else settle i (Inl (CallFailed (if jtruthy (jget data ''error'') then str_of (jget data ''error'') else ''Tool call failed''))) s)"

definition close :: "wk_state \<Rightarrow> wk_state" where
  "close s = s\<lparr>wk_reads := 0, wk_writes := 0, wk_lists := 0, wk_since := num_int 0,
     wk_done := wk_done s @ map (\<lambda>p. (fst p, Inl WorkspaceClosed)) (wk_pending s), wk_pending := [],
     wk_socket := False, wk_connected := False, wk_job := None\<rparr>"

definition settle_connect :: "connect_outcome \<Rightarrow> wk_state \<Rightarrow> wk_state" where
  "settle_connect r s = (if wk_settled s = None then s\<lparr>wk_settled := Some r\<rparr> else s)"

datatype wk_event = SocketConnect jsnum | ReconnectAttempt | SocketError | McpResult jv | WsStatus jv | Exclusions jv
  | WsError | SocketDrop | SocketReconnect | ConnectTimeout | Start string wk_call | CallTimeout string | SignalDone | Ping | Close

text \<open>A call whose timer fires while it waits fails; a timer is cleared when its call settles.\<close>

fun wk_step :: "wk_env \<Rightarrow> (string \<Rightarrow> jv option) \<Rightarrow> wk_state \<Rightarrow> wk_event \<Rightarrow> wk_state" where
  "wk_step env parse s (SocketConnect now) = s\<lparr>wk_connected := True, wk_cycles := 0, wk_since := now\<rparr>"
| "wk_step env parse s ReconnectAttempt =
     (if js_lt (we_cycles env) (num_int (int (wk_cycles s + 1))) then s\<lparr>wk_cycles := wk_cycles s + 1, wk_connected := False\<rparr>
      else s\<lparr>wk_cycles := wk_cycles s + 1\<rparr>)"
| "wk_step env parse s SocketError = settle_connect ConnectFailed s"
| "wk_step env parse s (McpResult data) = on_result env parse data s"
| "wk_step env parse s (WsStatus data) =
     (let st = jget data ''status''; s' = (if st = JStr ''active'' then settle_connect Ready s else s) in
      if st = JStr ''aborted'' \<or> st = JStr ''completed'' then s'\<lparr>wk_connected := False\<rparr> else s')"
| "wk_step env parse s (Exclusions data) =
     s\<lparr>wk_excluded := (if jtruthy (jget data ''excludedFiles'') then jget data ''excludedFiles'' else JArr [])\<rparr>"
| "wk_step env parse s WsError = settle_connect RelayError s"
| "wk_step env parse s SocketDrop = s\<lparr>wk_connected := False\<rparr>"
| "wk_step env parse s SocketReconnect = s\<lparr>wk_connected := True\<rparr>"
| "wk_step env parse s ConnectTimeout =
     (if wk_settled s = None then close (s\<lparr>wk_settled := Some BuyerTimeout\<rparr>) else s)"
| "wk_step env parse s (Start i c) = start_call i c s"
| "wk_step env parse s (CallTimeout i) =
     (if map_get (wk_pending s) i = None then s else settle i (Inl CallTimedOut) s)"
| "wk_step env parse s SignalDone = (if wk_socket s then emit (JStr ''jailbox:agent_done'') s else s)"
| "wk_step env parse s Ping = (if wk_socket s \<and> wk_connected s then emit (JStr ''jailbox:ping'') s else s)"
| "wk_step env parse s Close = close s"

definition getStats :: "jsnum \<Rightarrow> wk_state \<Rightarrow> nat \<times> nat \<times> nat \<times> jsnum" where
  "getStats now s = (wk_reads s, wk_writes s, wk_lists s,
     if jtruthy (JNum (wk_since s)) then math_floor (js_div (js_sub now (wk_since s)) (num_int 1000)) else num_int 0)"

text \<open>The state once the socket is made for a job.\<close>

definition wk_start :: "string \<Rightarrow> wk_state" where
  "wk_start job = \<lparr>wk_pending = [], wk_done = [], wk_connected = False, wk_socket = True, wk_job = Some job,
     wk_excluded = JArr [], wk_cycles = 0, wk_reads = 0, wk_writes = 0, wk_lists = 0, wk_since = num_int 0,
     wk_settled = None, wk_out = []\<rparr>"

section \<open>The tools offered to a model\<close>

definition str_param :: "string \<Rightarrow> jv" where
  "str_param d = JObj [(''type'', JStr ''string''), (''description'', JStr d)]"

definition tool_def :: "string \<Rightarrow> string \<Rightarrow> (string \<times> jv) list \<Rightarrow> string list \<Rightarrow> jv" where
  "tool_def name desc ps req = JObj [(''type'', JStr ''function''), (''function'', JObj [(''name'', JStr name), (''description'', JStr desc),
     (''parameters'', JObj ([(''type'', JStr ''object''), (''properties'', JObj ps)]
        @ opt_field (req \<noteq> []) ''required'' (JArr (map JStr req))))])]"

definition getAvailableTools :: "jv list" where
  "getAvailableTools =
     [tool_def ''workspace_list_directory'' ''List files and directories in the buyer's project''
        [(''path'', str_param ''Relative path (default: root)'')] [],
      tool_def ''workspace_read_file'' ''Read a file from the buyer's project'' [(''path'', str_param ''Relative path to file'')] [''path''],
      tool_def ''workspace_write_file'' ''Write content to a file in the buyer's project''
        [(''path'', str_param ''Relative path to file''), (''content'', str_param ''File content to write'')] [''path'', ''content'']]"

section \<open>Every call settles once\<close>

definition started :: "wk_event \<Rightarrow> string list" where
  "started e = (case e of Start i _ \<Rightarrow> [i] | _ \<Rightarrow> [])"

definition ids_of :: "wk_state \<Rightarrow> string multiset" where
  "ids_of s = mset (map fst (wk_pending s) @ map fst (wk_done s))"

lemma delete_absent: "map_get m k = None \<Longrightarrow> map_delete m k = m"
  by (induction m k rule: map_get.induct) (auto simp: map_delete_def split: if_splits)

lemma mset_delete: "wf_map m \<Longrightarrow> map_get m k \<noteq> None \<Longrightarrow> add_mset k (mset (map fst (map_delete m k))) = mset (map fst m)"
proof (induction m k rule: map_get.induct)
  case (2 a v m k)
  show ?case
  proof (cases "a = k")
    case True
    then have "map_get m k = None" using 2(2) by (simp add: wf_map_def map_get_None_iff)
    then show ?thesis using True delete_absent [of m k] by (simp add: map_delete_def)
  next
    case False
    then show ?thesis using 2 by (simp add: map_delete_def wf_map_def)
  qed
qed simp

lemma wf_deleted [simp]: "wf_map m \<Longrightarrow> wf_map (map_delete m k)"
  by simp

lemma settle_ids:
  assumes "wf_map (wk_pending s)"
  shows "map_get (wk_pending s) i \<noteq> None \<Longrightarrow> ids_of (settle i r s) = ids_of s"
    and "map_get (wk_pending s) i = None \<Longrightarrow> ids_of (settle i r s) = add_mset i (ids_of s)"
  using mset_delete [OF assms, of i] delete_absent [of "wk_pending s" i]
  by (auto simp: ids_of_def settle_def)

lemma count_call_simps [simp]: "wk_pending (count_call c s) = wk_pending s" "wk_done (count_call c s) = wk_done s"
  "wk_out (count_call c s) = wk_out s" "wk_socket (count_call c s) = wk_socket s" "wk_connected (count_call c s) = wk_connected s"
  by (cases c; simp add: count_call_def)+

lemma ids_count [simp]: "ids_of (count_call c s) = ids_of s"
  by (simp add: ids_of_def)

lemma ids_connect [simp]: "ids_of (settle_connect r s) = ids_of s" "wk_pending (settle_connect r s) = wk_pending s"
  by (simp_all add: ids_of_def settle_connect_def)

lemma ids_close [simp]: "ids_of (close s) = ids_of s" "wk_pending (close s) = []"
  by (simp_all add: ids_of_def close_def comp_def)

lemma settle_pending [simp]: "wk_pending (settle i r s) = map_delete (wk_pending s) i"
  by (simp add: settle_def)

lemma on_result_ids:
  assumes "wf_map (wk_pending s)"
  shows "ids_of (on_result env parse data s) = ids_of s \<and> wf_map (wk_pending (on_result env parse data s))"
  using settle_ids(1) [OF assms] assms by (auto simp: on_result_def Let_def split: option.splits)

lemma start_ids:
  assumes "wf_map (wk_pending s)" "i \<notin># ids_of s"
  shows "ids_of (start_call i c s) = add_mset i (ids_of s) \<and> wf_map (wk_pending (start_call i c s))"
proof -
  have n: "map_get (wk_pending s) i = None" using assms(2) by (auto simp: ids_of_def map_get_None_iff)
  then have "map_set (wk_pending s) i c = wk_pending s @ [(i, c)]" by (simp add: map_set_append_new map_get_None_iff)
  moreover have "wf_map (map_set (wk_pending s) i c)" using assms(1) by simp
  ultimately show ?thesis
    using settle_ids(2) [OF assms(1) n] assms(1)
    by (auto simp: start_call_def emit_def ids_of_def split: sum.splits)
qed

text \<open>The machine with the identifiers started so far beside its state.\<close>

definition once_inv :: "wk_state \<times> string list \<Rightarrow> bool" where
  "once_inv x = (distinct (snd x) \<longrightarrow> ids_of (fst x) = mset (snd x) \<and> wf_map (wk_pending (fst x)))"

lemma wk_step_once:
  assumes "once_inv (s, ids)"
  shows "once_inv (wk_step env parse s e, ids @ started e)"
proof (cases e)
  case (Start i c)
  then show ?thesis
    using assms start_ids [of s i c] by (auto simp: once_inv_def started_def)
next
  case (McpResult data)
  then show ?thesis using assms on_result_ids [of s env parse data] by (auto simp: once_inv_def started_def)
next
  case (CallTimeout i)
  then show ?thesis using assms settle_ids(1) [of s i] by (auto simp: once_inv_def started_def)
next
  case ConnectTimeout
  have "ids_of (s\<lparr>wk_settled := r\<rparr>) = ids_of s" for r by (simp add: ids_of_def)
  then show ?thesis using ConnectTimeout assms by (auto simp: once_inv_def started_def)
next
  case (WsStatus data)
  have "ids_of (s'\<lparr>wk_connected := r\<rparr>) = ids_of s'" for r s' by (simp add: ids_of_def)
  then show ?thesis using WsStatus assms by (auto simp: once_inv_def started_def Let_def)
qed (use assms in \<open>auto simp: once_inv_def started_def ids_of_def settle_connect_def emit_def close_def comp_def ac_simps\<close>)

interpretation wkm: invariant_machine "\<lambda>x e. (wk_step env parse (fst x) e, snd x @ started e)" once_inv for env parse
  by unfold_locales (metis prod.collapse wk_step_once)

lemma ghost_run: "foldl (\<lambda>x e. (wk_step env parse (fst x) e, snd x @ started e)) (s, ids) es
    = (foldl (wk_step env parse) s es, ids @ concat (map started es))"
  by (induction es arbitrary: s ids) simp_all

lemma run_once: "distinct (concat (map started es)) \<Longrightarrow> ids_of (foldl (wk_step env parse) (wk_start job) es) = mset (concat (map started es))"
proof -
  assume d: "distinct (concat (map started es))"
  have "once_inv (wk_start job, [])" by (simp add: once_inv_def wk_start_def ids_of_def)
  from wkm.run_inv [OF this, of env parse es] show ?thesis using d by (simp add: ghost_run once_inv_def)
qed

section \<open>Client and buyer over a relay\<close>

fun refusal_text :: "string \<Rightarrow> refusal \<Rightarrow> string" where
  "refusal_text thrown WriteDenied = ''Write permission not granted''"
| "refusal_text thrown FileExcluded = ''File is excluded from workspace''"
| "refusal_text thrown TransferLimit = ''Session transfer limit exceeded (500MB)''"
| "refusal_text thrown WriteRejected = ''Write rejected by buyer agent''"
| "refusal_text thrown (UnknownTool tool) = ''Unknown tool: '' @ str_of tool"
| "refusal_text thrown Outside = ''Path is outside the project directory''"
| "refusal_text thrown (NotADirectory p) = ''Not a directory: '' @ p"
| "refusal_text thrown (NotFound p) = ''File not found: '' @ p"
| "refusal_text thrown (FileTooLarge n) = ''File too large: '' @ show_nat n @ '' bytes (max '' @ show_nat MAX_FILE_SIZE @ '')''"
| "refusal_text thrown BinaryFile = ''Binary files are not supported''"
| "refusal_text thrown (ContentTooLarge n) = ''Content too large: '' @ show_nat n @ '' bytes (max '' @ show_nat MAX_FILE_SIZE @ '')''"
| "refusal_text thrown Thrown = thrown"

fun block_reason :: "string \<Rightarrow> refusal \<Rightarrow> string" where
  "block_reason thrown WriteDenied = ''write permission not granted''"
| "block_reason thrown FileExcluded = ''excluded file''"
| "block_reason thrown TransferLimit = ''session transfer limit exceeded''"
| "block_reason thrown WriteRejected = []"
| "block_reason thrown (UnknownTool tool) = ''unknown tool''"
| "block_reason thrown Outside = ''path traversal''"
| "block_reason thrown (NotADirectory p) = ''not a directory''"
| "block_reason thrown (NotFound p) = ''file not found''"
| "block_reason thrown (FileTooLarge n) = ''file too large''"
| "block_reason thrown BinaryFile = ''binary file''"
| "block_reason thrown (ContentTooLarge n) = ''content too large''"
| "block_reason thrown Thrown = thrown"

definition size_fields :: "payload \<Rightarrow> (string, jv) jsmap" where
  "size_fields p = (case pl_size p of None \<Rightarrow> [] | Some n \<Rightarrow> [(''sizeBytes'', JNum (num_int (int n)))])
     @ (case pl_hash p of None \<Rightarrow> [] | Some h \<Rightarrow> [(''contentHash'', JStr h)])"

text \<open>What the buyer's \<open>mcp:result\<close> message holds once \<open>undefined\<close> properties are dropped.\<close>

definition wire_reply :: "string \<Rightarrow> reply \<Rightarrow> jv" where
  "wire_reply thrown r =
     (let base = [(''operation'', rp_op r), (''path'', rp_path r)] in
      case rp_result r of
        Inr p \<Rightarrow> JObj [(''id'', rp_id r), (''success'', JBool True),
          (''result'', JObj [(''content'', JArr [JObj [(''type'', JStr ''text''), (''text'', JStr (pl_text p))]]),
             (''_meta'', JObj ((case pl_count p of None \<Rightarrow> [] | Some n \<Rightarrow> [(''entryCount'', JNum (num_int (int n)))])
                @ size_fields p @ [(''path'', rp_path r)]))]),
          (''metadata'', JObj (base @ size_fields p @ [(''sovguardScore'', JNum (num_int 0))]
             @ (case rp_approved r of None \<Rightarrow> [] | Some b \<Rightarrow> [(''approved'', JBool b)])))]
      | Inl why \<Rightarrow> JObj [(''id'', rp_id r), (''success'', JBool False), (''error'', JStr (refusal_text thrown why)),
          (''metadata'', JObj (base @ [(''sovguardScore'', JNum (num_int 0))]
             @ (case rp_approved r of None \<Rightarrow> [] | Some b \<Rightarrow> [(''approved'', JBool b)])
             @ opt_field (rp_blocked r) ''blocked'' (JBool True)
             @ opt_field (rp_blocked r) ''blockReason'' (JStr (block_reason thrown why))))])"

text \<open>The buyer answers the client's last message.\<close>

definition exchange :: "wk_env \<Rightarrow> ws_lib \<Rightarrow> string \<Rightarrow> bw_config \<Rightarrow> string \<Rightarrow> wk_call \<Rightarrow> wk_state \<times> bw_state \<Rightarrow> wk_state \<times> bw_state" where
  "exchange env lib thrown cfg i c x =
     (let k = start_call i c (fst x); b = handleMcpCall lib cfg (last (wk_out k)) (snd x) in
      (on_result env (wl_parse lib) (wire_reply thrown (last (bs_sent b))) k, b))"

definition fits :: "wk_env \<Rightarrow> string \<Rightarrow> bool" where
  "fits env t = (length t \<le> MAX_RESULT_SIZE \<and> \<not> js_lt (we_aggregate env) (num_int (int (length t))) \<and> \<not> js_lt (we_items env) (num_int 1))"

lemma valid_served:
  "rp_result r = Inr p \<Longrightarrow> rp_id r = JStr i \<Longrightarrow> fits env (pl_text p) \<Longrightarrow> validateMcpResult env (wire_reply thrown r)"
  by (simp add: validateMcpResult_def wire_reply_def fits_def Let_def)

lemma served_result:
  assumes "rp_result r = Inr p" "rp_id r = JStr i" "fits env (pl_text p)" "map_get (wk_pending k) i = Some c"
  shows "on_result env parse (wire_reply thrown r) k
    = count_call c (settle i (finish parse c (jget (wire_reply thrown r) ''result'')) k)"
    "first_text (jget (wire_reply thrown r) ''result'') = JStr (pl_text p)"
proof -
  have "jget (wire_reply thrown r) ''id'' = JStr i" "jget (wire_reply thrown r) ''success'' = JBool True"
    using assms(1,2) by (simp_all add: wire_reply_def Let_def)
  then show "on_result env parse (wire_reply thrown r) k
    = count_call c (settle i (finish parse c (jget (wire_reply thrown r) ''result'')) k)"
    using valid_served [OF assms(1-3)] assms(4) by (simp add: on_result_def)
  show "first_text (jget (wire_reply thrown r) ''result'') = JStr (pl_text p)"
    using assms(1) by (simp add: wire_reply_def first_text_def Let_def)
qed

lemma last_sent: "bs_socket s \<Longrightarrow> last (bs_sent (serve i oper path p s)) =
    \<lparr>rp_id = i, rp_result = Inr p, rp_op = JStr oper, rp_path = JStr path,
     rp_approved = (if oper = ''write'' then Some True else None), rp_blocked = False\<rparr>"
  by (simp add: serve_def)

lemma start_checked:
  assumes "call_check c = Inr (tool, params)" "wk_socket k" "wk_connected k"
  shows "start_call i c k = emit (wire_call i tool params) (k\<lparr>wk_pending := map_set (wk_pending k) i c\<rparr>)"
  using assms by (simp add: start_call_def)

lemma wire_call_simps [simp]:
  "jget (wire_call i tool params) ''id'' = JStr i" "jget (wire_call i tool params) ''tool'' = JStr tool"
  "jget (wire_call i tool params) ''params'' = params" "\<not> nullish (wire_call i tool params)"
  by (simp_all add: wire_call_def nullish_def)

lemma emit_simps [simp]: "wk_pending (emit m k) = wk_pending k" "wk_done (emit m k) = wk_done k" "wk_out (emit m k) = wk_out k @ [m]"
  "wk_socket (emit m k) = wk_socket k" "wk_connected (emit m k) = wk_connected k"
  by (simp_all add: emit_def)

lemma settle_simps [simp]: "wk_done (settle i r k) = wk_done k @ [(i, r)]" "wk_socket (settle i r k) = wk_socket k"
  "wk_connected (settle i r k) = wk_connected k" "wk_out (settle i r k) = wk_out k"
  by (simp_all add: settle_def)

lemma delete_set_new: "map_get m k = None \<Longrightarrow> map_delete (map_set m k v) k = m"
  by (simp add: map_set_append_new map_get_None_iff map_delete_def filter_id_conv) (metis image_eqI)

text \<open>One exchange that the buyer serves.\<close>

lemma exchange_served:
  assumes k: "wk_socket k" "wk_connected k" "map_get (wk_pending k) i = None" "call_check c = Inr (tool, params)"
    and b: "handleMcpCall lib cfg (wire_call i tool params) b = serve (JStr i) oper path p b'" "bs_socket b'" "fits env (pl_text p)"
    and x: "exchange env lib thrown cfg i c (k, b) = (k', b'')"
  shows "b'' = serve (JStr i) oper path p b'" "wk_pending k' = wk_pending k" "wk_socket k'" "wk_connected k'"
    and "\<exists>r. first_text r = JStr (pl_text p) \<and> wk_done k' = wk_done k @ [(i, finish (wl_parse lib) c r)]"
proof -
  let ?k = "emit (wire_call i tool params) (k\<lparr>wk_pending := map_set (wk_pending k) i c\<rparr>)"
  let ?r = "last (bs_sent (serve (JStr i) oper path p b'))"
  have r: "rp_result ?r = Inr p" "rp_id ?r = JStr i" using last_sent [OF b(2)] by simp_all
  have x': "b'' = serve (JStr i) oper path p b'" "k' = on_result env (wl_parse lib) (wire_reply thrown ?r) ?k"
    using x unfolding exchange_def Let_def start_checked [OF k(4,1,2)] fst_conv snd_conv by (auto simp: b(1))
  have g: "map_get (wk_pending ?k) i = Some c" by simp
  note s = served_result(1) [OF r b(3) g] served_result(2) [OF r b(3) g]
  show "b'' = serve (JStr i) oper path p b'" by (rule x'(1))
  show "wk_pending k' = wk_pending k" "wk_socket k'" "wk_connected k'"
    using k x'(2) s(1) delete_set_new [OF k(3)] by simp_all
  show "\<exists>r. first_text r = JStr (pl_text p) \<and> wk_done k' = wk_done k @ [(i, finish (wl_parse lib) c r)]"
    using x'(2) s by auto
qed

lemma nullish_obj [simp]: "\<not> nullish (JObj m)"
  by (simp add: nullish_def)

lemma write_served:
  assumes c: "root_ok cfg" "bc_write cfg" "bc_auto cfg \<or> \<not> bc_gate cfg"
    and p: "p \<noteq> []" "list_all name_ok p" "\<not> has_dotdot (rel_str p)" "\<not> isExcluded (rel_str p) (bs_exclusions b)"
    and w: "length (wl_bytes lib body) \<le> MAX_FILE_SIZE" "bs_transfer b \<le> MAX_SESSION_TRANSFER"
      "tree_write (bs_tree b) p (wl_bytes lib body) = Some t"
  obtains pl b' where "handleMcpCall lib cfg (wire_call i ''write_file'' (JObj [(''path'', JStr (rel_str p)), (''content'', JStr body)])) b
      = serve (JStr i) ''write'' (rel_str p) pl b'"
    "pl_text pl = ''Written: '' @ rel_str p @ '' ('' @ show_nat (length (wl_bytes lib body)) @ '' bytes)''"
    "bs_tree b' = t" "bs_exclusions b' = bs_exclusions b" "bs_socket b' = bs_socket b"
    "bs_transfer b' = bs_transfer b + length (wl_bytes lib body)"
proof -
  have ne: "rel_str p \<noteq> []" using split_rel [OF p(1,2)] p(1,2) by (auto simp: name_ok_def)
  have "resolveSafe (bc_root cfg) (JStr (rel_str p)) = Some (bc_root cfg @ p)"
    using p ne c(1) resolve_rel [OF p(1,2), of "bc_root cfg"]
    by (auto simp: resolveSafe_def Let_def path_str_def root_ok_def starts_with_def rel_str_snoc [unfolded rel_str_def])
  then have "execWriteFile lib cfg (JStr i) (JStr (rel_str p)) (JStr body) b = serve (JStr i) ''write'' (rel_str p)
      \<lparr>pl_text = ''Written: '' @ rel_str p @ '' ('' @ show_nat (length (wl_bytes lib body)) @ '' bytes)'',
       pl_size = Some (length (wl_bytes lib body)), pl_hash = Some (''sha256:'' @ wl_sha256 lib (wl_bytes lib body)), pl_count = None\<rparr>
      (b\<lparr>bs_tree := t, bs_writes := bs_writes b + 1, bs_total := bs_total b + length (wl_bytes lib body),
         bs_transfer := bs_transfer b + length (wl_bytes lib body)\<rparr>)"
    using w by (simp add: execWriteFile_def Let_def)
  moreover have "handleMcpCall lib cfg (wire_call i ''write_file'' (JObj [(''path'', JStr (rel_str p)), (''content'', JStr body)])) b
      = execWriteFile lib cfg (JStr i) (JStr (rel_str p)) (JStr body) b"
    using c(2,3) p(4) w(2) ne by (auto simp: handleMcpCall_def Let_def call_path_def excluded_call_def exec_tool_def)
  ultimately show thesis using that by simp
qed

lemma read_served:
  assumes c: "root_ok cfg"
    and p: "p \<noteq> []" "list_all name_ok p" "\<not> has_dotdot (rel_str p)" "\<not> isExcluded (rel_str p) (bs_exclusions b)"
    and r: "tree_lookup (bs_tree b) p = Some (FFile bs)" "length bs \<le> MAX_FILE_SIZE" "\<not> isBinary bs" "bs_transfer b \<le> MAX_SESSION_TRANSFER"
  obtains pl b' where "handleMcpCall lib cfg (wire_call i ''read_file'' (JObj [(''path'', JStr (rel_str p))])) b
      = serve (JStr i) ''read'' (rel_str p) pl b'"
    "pl_text pl = wl_text lib bs" "bs_tree b' = bs_tree b" "bs_socket b' = bs_socket b"
proof -
  have ne: "rel_str p \<noteq> []" using split_rel [OF p(1,2)] p(1,2) by (auto simp: name_ok_def)
  have "resolveSafe (bc_root cfg) (JStr (rel_str p)) = Some (bc_root cfg @ p)"
    using p ne c(1) resolve_rel [OF p(1,2), of "bc_root cfg"]
    by (auto simp: resolveSafe_def Let_def path_str_def root_ok_def starts_with_def rel_str_snoc [unfolded rel_str_def])
  then have "execReadFile lib cfg (JStr i) (JStr (rel_str p)) b = serve (JStr i) ''read'' (rel_str p)
      \<lparr>pl_text = wl_text lib bs, pl_size = Some (length bs), pl_hash = Some (''sha256:'' @ wl_sha256 lib bs), pl_count = None\<rparr>
      (b\<lparr>bs_reads := bs_reads b + 1, bs_total := bs_total b + length bs, bs_transfer := bs_transfer b + length bs\<rparr>)"
    using r by (simp add: execReadFile_def entry_at_def)
  moreover have "handleMcpCall lib cfg (wire_call i ''read_file'' (JObj [(''path'', JStr (rel_str p))])) b
      = execReadFile lib cfg (JStr i) (JStr (rel_str p)) b"
    using p(4) r(4) ne by (simp add: handleMcpCall_def Let_def call_path_def excluded_call_def exec_tool_def)
  ultimately show thesis using that by simp
qed

section \<open>Properties\<close>

text \<open>
  C19. Every tool call settles at most once: over any sequence of events in which the calls have different
  identifiers, each identifier started is either waiting or settled, and only once; closing the
  workspace settles all that wait.
\<close>

theorem calls_settle_once:
  assumes "distinct (concat (map started es))"
  shows "mset (map fst (wk_pending (foldl (wk_step env parse) (wk_start job) es)) @ map fst (wk_done (foldl (wk_step env parse) (wk_start job) es)))
      = mset (concat (map started es))
    \<and> wk_pending (foldl (wk_step env parse) (wk_start job) (es @ [Close])) = []"
  using run_once [OF assms, of env parse job] by (simp add: ids_of_def)

definition demo_wenv :: wk_env where
  "demo_wenv = \<lparr>we_aggregate = num_int 1000, we_items = num_int 10, we_cycles = num_int 3\<rparr>"

definition demo_events :: "wk_event list" where
  "demo_events = [SocketConnect (num_int 5), Start ''a'' (ReadFile ''x''), Start ''b'' (ReadFile ''../x''), CallTimeout ''a'']"

lemma calls_settle_once_witness:
  "mset (map fst (wk_done (foldl (wk_step demo_wenv (\<lambda>_. None)) (wk_start ''j'') (demo_events @ [Close])))) = {#''a'', ''b''#}"
proof -
  have d: "concat (map started demo_events) = [''a'', ''b'']" "concat (map started (demo_events @ [Close])) = [''a'', ''b'']"
    by (simp_all add: started_def demo_events_def)
  have u: "distinct (concat (map started demo_events))" "distinct (concat (map started (demo_events @ [Close])))" unfolding d by simp_all
  have "wk_pending (foldl (wk_step demo_wenv (\<lambda>_. None)) (wk_start ''j'') (demo_events @ [Close])) = []"
    and "mset (map fst (wk_pending (foldl (wk_step demo_wenv (\<lambda>_. None)) (wk_start ''j'') (demo_events @ [Close])))
      @ map fst (wk_done (foldl (wk_step demo_wenv (\<lambda>_. None)) (wk_start ''j'') (demo_events @ [Close])))) = mset [''a'', ''b'']"
    by (rule calls_settle_once [OF u(1), THEN conjunct2], rule calls_settle_once [OF u(2), THEN conjunct1, unfolded d(2)])
  then show ?thesis by (simp only: list.map append_Nil mset.simps)
qed

text \<open>
  C36. What the seller writes through the relay the seller reads back: for a plain path that is not excluded,
  a text within the limits of both sides that is neither empty nor binary, and a buyer who lets writes pass, the
  write is acknowledged, the file is below the project directory with these bytes, and the read after it returns the text.
\<close>

theorem workspace_roundtrip:
  assumes cfg: "root_ok cfg" "bc_write cfg" "bc_auto cfg \<or> \<not> bc_gate cfg" "bs_socket b"
    and p: "p \<noteq> []" "list_all name_ok p" "\<not> has_dotdot (rel_str p)" "\<not> isExcluded (rel_str p) (bs_exclusions b)"
    and w: "length (wl_bytes lib body) \<le> MAX_FILE_SIZE" "\<not> isBinary (wl_bytes lib body)" "wl_text lib (wl_bytes lib body) = body" "body \<noteq> []"
      "bs_transfer b + length (wl_bytes lib body) \<le> MAX_SESSION_TRANSFER" "tree_write (bs_tree b) p (wl_bytes lib body) = Some t"
    and k: "wk_socket k" "wk_connected k" "map_get (wk_pending k) i = None" "map_get (wk_pending k) j = None"
      "fits env body" "fits env (''Written: '' @ rel_str p @ '' ('' @ show_nat (length (wl_bytes lib body)) @ '' bytes)'')"
  shows "\<exists>ack. wk_done (fst (exchange env lib thrown cfg j (ReadFile (rel_str p)) (exchange env lib thrown cfg i (WriteFile (rel_str p) body) (k, b))))
        = wk_done k @ [(i, Inr ack), (j, Inr (JStr body))]
    \<and> bs_tree (snd (exchange env lib thrown cfg j (ReadFile (rel_str p)) (exchange env lib thrown cfg i (WriteFile (rel_str p) body) (k, b)))) = t"
proof -
  have ne: "rel_str p \<noteq> []" using split_rel [OF p(1,2)] p(1,2) by (auto simp: name_ok_def)
  have safe: "assertSafePath (rel_str p) = Inr ()" using ne rel_str_head [OF p(1,2)] p(3) by (simp add: assertSafePath_def)
  have tr: "bs_transfer b \<le> MAX_SESSION_TRANSFER" using w(5) by simp
  obtain pl1 b1 where h1: "handleMcpCall lib cfg (wire_call i ''write_file'' (JObj [(''path'', JStr (rel_str p)), (''content'', JStr body)])) b
      = serve (JStr i) ''write'' (rel_str p) pl1 b1"
    "pl_text pl1 = ''Written: '' @ rel_str p @ '' ('' @ show_nat (length (wl_bytes lib body)) @ '' bytes)''"
    "bs_tree b1 = t" "bs_exclusions b1 = bs_exclusions b" "bs_socket b1 = bs_socket b"
    "bs_transfer b1 = bs_transfer b + length (wl_bytes lib body)"
    by (rule write_served [OF cfg(1-3) p w(1) tr w(6), of i])
  obtain k1 b1' where x1: "exchange env lib thrown cfg i (WriteFile (rel_str p) body) (k, b) = (k1, b1')" by fastforce
  have c1: "call_check (WriteFile (rel_str p) body) = Inr (''write_file'', JObj [(''path'', JStr (rel_str p)), (''content'', JStr body)])"
    by (simp add: call_check_def safe)
  have "bs_socket b1" "fits env (pl_text pl1)" using h1 cfg(4) k(6) by simp_all
  note e1 = exchange_served [OF k(1-3) c1 h1(1) this x1]
  have r: "\<not> isExcluded (rel_str p) (bs_exclusions b1')" "tree_lookup (bs_tree b1') p = Some (FFile (wl_bytes lib body))"
    "bs_transfer b1' \<le> MAX_SESSION_TRANSFER"
    using e1(1) h1(3-6) write_read [OF w(6)] w(5) p(4) by simp_all
  obtain pl2 b2 where h2: "handleMcpCall lib cfg (wire_call j ''read_file'' (JObj [(''path'', JStr (rel_str p))])) b1'
      = serve (JStr j) ''read'' (rel_str p) pl2 b2" "pl_text pl2 = wl_text lib (wl_bytes lib body)" "bs_tree b2 = bs_tree b1'" "bs_socket b2 = bs_socket b1'"
    by (rule read_served [OF cfg(1) p(1-3) r(1,2) w(1,2) r(3), of lib j])
  obtain k2 b2' where x2: "exchange env lib thrown cfg j (ReadFile (rel_str p)) (k1, b1') = (k2, b2')" by fastforce
  have c2: "call_check (ReadFile (rel_str p)) = Inr (''read_file'', JObj [(''path'', JStr (rel_str p))])"
    by (simp add: call_check_def safe)
  have f2: "bs_socket b2" "fits env (pl_text pl2)" "map_get (wk_pending k1) j = None"
    using h2 e1(1,2) h1(5) cfg(4) k(4,5) w(3) by simp_all
  note e2 = exchange_served [OF e1(3,4) f2(3) c2 h2(1) f2(1,2) x2]
  have "bs_tree b2' = t" using e2(1) h2(3) e1(1) h1(3) by simp
  moreover have "\<exists>ack. wk_done k2 = wk_done k @ [(i, Inr ack), (j, Inr (JStr body))]"
    using e1(5) e2(5) h2(2) h1(2) w(3,4) by (auto simp: finish_def)
  ultimately show ?thesis by (simp add: x1 x2)
qed

lemma workspace_roundtrip_witness:
  "\<exists>ack. wk_done (fst (exchange demo_wenv demo_lib [] demo_cfg ''2'' (ReadFile ''b.txt'')
      (exchange demo_wenv demo_lib [] demo_cfg ''1'' (WriteFile ''b.txt'' ''hi'') ((wk_start ''j'')\<lparr>wk_connected := True\<rparr>, demo_state))))
    = [(''1'', Inr ack), (''2'', Inr (JStr ''hi''))]"
proof -
  let ?k = "(wk_start ''j'')\<lparr>wk_connected := True\<rparr>"
  have b: "wl_bytes demo_lib ''hi'' = [104, 105]" by (simp add: demo_lib_def)
  have "wl_text demo_lib (wl_bytes demo_lib u) = u" for u by (simp add: demo_lib_def comp_def)
  note t = this [of "''hi''"]
  have w: "tree_write (bs_tree demo_state) [''b.txt''] (wl_bytes demo_lib ''hi'')
      = Some (FDir [(''.env'', FFile [83]), (''src'', FDir [(''a.txt'', FFile [72, 105])]), (''b.txt'', FFile [104, 105])])"
    by (simp add: b demo_state_def demo_tree_def)
  have r: "rel_str [''b.txt''] = ''b.txt''" by (simp add: rel_str_def)
  have p: "[''b.txt''] \<noteq> []" "list_all name_ok [''b.txt'']" "\<not> has_dotdot (rel_str [''b.txt''])"
    "\<not> isExcluded (rel_str [''b.txt'']) (bs_exclusions demo_state)"
    by (simp_all add: r name_ok_def has_dotdot_def isExcluded_def demo_state_def strip_slash_def ends_with_def starts_with_def)
  have l: "length (wl_bytes demo_lib ''hi'') \<le> MAX_FILE_SIZE" "\<not> isBinary (wl_bytes demo_lib ''hi'')"
    "bs_transfer demo_state + length (wl_bytes demo_lib ''hi'') \<le> MAX_SESSION_TRANSFER"
    by (simp_all add: b MAX_FILE_SIZE_def MAX_SESSION_TRANSFER_def isBinary_def demo_state_def)
  have c: "bc_write demo_cfg" "bc_auto demo_cfg \<or> \<not> bc_gate demo_cfg" "bs_socket demo_state" "''hi'' \<noteq> []"
    by (simp_all add: demo_cfg_def demo_state_def)
  have k: "wk_socket ?k" "wk_connected ?k" "map_get (wk_pending ?k) ''1'' = None" "map_get (wk_pending ?k) ''2'' = None" "wk_done ?k = []"
    by (simp_all add: wk_start_def)
  have f: "fits demo_wenv ''hi''"
    "fits demo_wenv (''Written: '' @ rel_str [''b.txt''] @ '' ('' @ show_nat (length (wl_bytes demo_lib ''hi'')) @ '' bytes)'')"
    by (simp_all add: fits_def demo_wenv_def MAX_RESULT_SIZE_def r b show_nat.simps [of "Suc (Suc 0)"])
  from workspace_roundtrip [OF demo_root c(1-3) p l(1,2) t c(4) l(3) w k(1-4) f, of "[]"]
  show ?thesis unfolding k(5) r append_Nil by blast
qed

section \<open>The relay's address\<close>

text \<open>The client connects only to the host of the API, and over an encrypted transport whenever the API is.\<close>

lemma connect_target_secure:
  assumes "connect_target url apiUrl reply = Inr (address, token)"
  shows "\<exists>wsUrl host apiProtocol wsProtocol. reply = TokenData token wsUrl \<and> url apiUrl = Some (host, apiProtocol) \<and> url wsUrl = Some (host, wsProtocol)
    \<and> (apiProtocol = ''https:'' \<longrightarrow> wsProtocol \<in> {''https:'', ''wss:''})"
  using assms by (auto simp: connect_target_def split: token_reply.splits option.splits if_splits)

text \<open>A file that is empty is served but cannot be read: its text counts as a malformed result.\<close>

lemma empty_file_unreadable: "first_text r = JStr [] \<Longrightarrow> finish parse (ReadFile p) r = Inl BadResult"
  by (simp add: finish_def)

end
