(* ===== verification/Spec2Isabelle.thy ===== *)
theory Spec2Isabelle
  imports ShippedScanner AgentChat VdxfUpdate AgentServices Cli Witness History Attestation Webhook Pricing Egress Standalone BuyerSession Heuristics CodeExec Endpoints Registration Chat Session IdentityOps JobPoll Canonical CreditWatcher InboxBatch Envelope Finalize WorkspaceClient
begin

text \<open>
  A verification development for the SovAgent SDK of Junction41, a TypeScript library for agents that are hired, paid and reviewed
  over a platform and the Verus chain. Everything under \<open>src/\<close> of the package and its command line is covered but what is
  listed at the end. The theories keep the names of the source wherever the logic allows it.

  \<^bold>\<open>The program.\<close> An agent (\<open>agent.ts\<close>) talks to the platform with signed requests (\<open>client/index.ts\<close>), registers an identity
  (\<open>onboarding/\<close>), polls for jobs (\<open>jobs/\<close>), chats with the buyer (\<open>chat/\<close>), works in the buyer's directory (\<open>workspace/\<close>,
  \<open>buyer/workspace.ts\<close>), moves coins (\<open>tx/payment.ts\<close>), writes to its identity (\<open>identity/update.ts\<close>, \<open>onboarding/vdxf.ts\<close>,
  \<open>inbox/\<close>), exchanges keys (\<open>crypto/\<close>), and scans what it reads (\<open>safety/\<close>). A buyer starts and pays a session (\<open>buyer/\<close>).

  \<^bold>\<open>Ground.\<close> \<open>Prelude\<close>: errors as values (\<open>result\<close>), insertion-ordered maps and sets, and the locales \<open>invariant_machine\<close> and
  \<open>monotone_machine\<close>, which every machine below interprets on its own step. \<open>JsNum\<close>: binary64 numbers as rationals with rounding
  to nearest even, so that amounts round as the code's do. \<open>JsText\<close>, \<open>JsValue\<close>, \<open>JsDate\<close>, \<open>JsParse\<close>, \<open>Utf16\<close>, \<open>Paths\<close>,
  \<open>Urls\<close>, \<open>JsRegex\<close>: strings, values of unknown shape, dates, numerals, UTF-16, a file tree, addresses, and regular expressions, with
  the library functions the code calls.

  \<^bold>\<open>Money.\<close> \<open>Payment\<close> (\<open>tx/payment.ts\<close>): selection and building; inputs equal outputs plus fee, in satoshis. The locale
  \<open>coin_selection\<close> states what a selection promises and is interpreted for payments and for the fees of \<open>IdentityUpdate\<close>.
  \<open>Wallet\<close> (\<open>sendCurrency\<close>, \<open>sendMultiPayment\<close>, \<open>mergeUtxos\<close>, \<open>transferFunds\<close>): \<open>_spentUtxos\<close> and \<open>_pendingChange\<close> as a
  record; no coin is spent twice in any run. \<open>CreditWatcher\<close> (\<open>buyer/credit-watcher.ts\<close>): the daily cap holds under any
  interleaving of signals and answers. \<open>Pricing\<close> (\<open>pricing/\<close>): the prices are ordered. \<open>BuyerSession\<close> (\<open>buyer/session.ts\<close>):
  what is paid is bounded, a session ends once.

  \<^bold>\<open>Identity.\<close> \<open>Vdxf\<close>, \<open>VdxfUpdate\<close> (\<open>onboarding/vdxf.ts\<close>): building and decoding are inverse, decoding is safe for any
  input, a field update writes exactly what was asked. \<open>IdentityUpdate\<close>, \<open>IdentityOps\<close>, \<open>InboxGate\<close>, \<open>InboxBatch\<close>: only gated
  keys are written, a batch is partitioned into its outcomes. \<open>History\<close>, \<open>Witness\<close>, \<open>Attestation\<close>, \<open>Canonical\<close>, \<open>Envelope\<close>,
  \<open>Messages\<close>, \<open>MessageSig\<close>, \<open>Webhook\<close> (\<open>identity/\<close>, \<open>privacy/\<close>, \<open>crypto/\<close>, \<open>signing/\<close>, \<open>webhook/\<close>): signatures of the
  agent verify, verified records are attested by the threshold, replays are refused, what is minted can be opened by its receiver.

  \<^bold>\<open>Platform.\<close> \<open>Session\<close>: one request with its limits, retries and renewed login over the state \<open>net\<close> (token, answers, what was
  sent, slept and signed). \<open>Endpoints\<close>: every operation of the client as data, run by \<open>call_endpoint\<close>. \<open>Registration\<close>,
  \<open>Finalize\<close>, \<open>Validation\<close>, \<open>Standalone\<close>, \<open>AgentOps\<close>, \<open>AgentLife\<close>, \<open>AgentServices\<close>, \<open>AgentChat\<close>, \<open>JobPoll\<close>, \<open>Chat\<close>:
  the agent's operations over it. No server can have the agent sign a protocol message; the canary never leaves; registration
  restores the network; finalizing refines the walk through its stages and resumes after any interruption. \<open>Cli\<close> (\<open>bin/j41.js\<close>):
  keys are saved before they are used.

  \<^bold>\<open>Workspace.\<close> \<open>BuyerWorkspace\<close> and \<open>WorkspaceClient\<close>: excluded files are never served, writes stay in the directory and are
  approved, every call is settled once, and the two sides composed give back what was written. \<open>Egress\<close>: the tunnel fails closed.

  \<^bold>\<open>Scanner.\<close> \<open>Decoders\<close>, \<open>RegexScan\<close>, \<open>Heuristics\<close>, \<open>ContextScan\<close>, \<open>CodeExec\<close> (\<open>safety/scanner/\<close>): normalizers, decoders, the
  three layers, the containment and the code policy, over tables that are arguments. \<open>PatternTable\<close> and \<open>ExpressionTables\<close> hold the
  tables of the source, \<open>ShippedScanner\<close> puts them together: whatever matches an expression of high severity is contained, also
  in ROT13 and in escapes. \<open>JsRegex\<close> shows that its matcher finds exactly what an expression denotes.

  \<^bold>\<open>State and effects.\<close> Objects with fields are records, passed and returned. A method that awaits is a function of the answers
  it gets, or a machine whose events are calls, answers and timers, when calls can interleave. What a run did to the outside is a
  list in its state or result. Errors are values, one constructor for each \<open>throw\<close>; their prose is left out.

  \<^bold>\<open>Bounds and fuel.\<close> The bounds are the code's: 120 and 30 rounds of the waits of a registration, the retries of a request
  (\<open>he_retries\<close>), 61 rounds of a session's start, a million units of scanned text, 8192 bytes of a proxy's header, the sizes of the
  sets of seen jobs and replays, ten endpoints and fifty capabilities of the command line. One fuel is the model's: \<open>rep\<close> of
  \<open>JsRegex\<close> runs with the least number of rounds plus what is left to read plus one; every round uses up one of these
  (\<open>rep_fuel\<close>), and \<open>ends_takes\<close> shows that no match is lost.

  \<^bold>\<open>Arguments.\<close> JSON text, \<open>fetch\<close>, sockets, the clock and random bytes; curves, hashes, base58, base64 and UTF-8; the
  transaction library; Unicode's normalization, lower case and letters; \<open>Math.log2\<close>. Where a property relies on one of them it
  says so in a hypothesis, and a witness runs it on a concrete instance.

  \<^bold>\<open>Not modelled.\<close> The labels and descriptions of \<open>safety/policy.ts\<close> and \<open>privacy/tiers.ts\<close>, which are shown to people; entry
  points, re-exports and type declarations (\<open>index.ts\<close>, \<open>types.ts\<close>); the experiment under \<open>spike/\<close>, which wraps a Sapling
  library and a daemon; shell scripts, examples and tests. Within modelled files: log lines, emitted events that only inform,
  getters, the wiping of keys in memory, and the TLS handshake inside the egress tunnel, which is Node's.
\<close>

end
